(* ===== verification/Prelude.thy ===== *)
theory Prelude
  imports Main "HOL-Library.Word" "HOL-Library.Monad_Syntax"
begin

unbundle bit_operations_syntax

text \<open>
  What the components share: the machine integer types and byte sequences of the Go
  sources, big-endian encodings, errors as values, the statement sequences that build a
  message, and the loop \<open>for !s.Empty()\<close> that every parser of the repository is
  written with.

  Go strings are immutable byte sequences, so \<open>string\<close> and \<open>[]byte\<close> are both
  \<open>bytes\<close> and the conversions between them are the identity. A slice whose code
  distinguishes \<open>nil\<close> from the empty slice is an option of \<open>bytes\<close>.
\<close>

type_synonym u8 = "8 word"
type_synonym u16 = "16 word"
type_synonym u32 = "32 word"
type_synonym u64 = "64 word"
type_synonym bytes = "u8 list"

text \<open>Errors of the model. A Go \<open>error\<close> value is identified by its message.\<close>

datatype gerror =
    Errorf string
  | ErrShortBuffer
  | Panic string

text \<open>Versions (common.go) and alerts (alert.go).\<close>

abbreviation (input) VersionTLS10 :: u16 where "VersionTLS10 \<equiv> 0x0301"
abbreviation (input) VersionTLS11 :: u16 where "VersionTLS11 \<equiv> 0x0302"
abbreviation (input) VersionTLS12 :: u16 where "VersionTLS12 \<equiv> 0x0303"
abbreviation (input) VersionTLS13 :: u16 where "VersionTLS13 \<equiv> 0x0304"

abbreviation (input) alertCloseNotify :: u8 where "alertCloseNotify \<equiv> 0"
abbreviation (input) alertUnexpectedMessage :: u8 where "alertUnexpectedMessage \<equiv> 10"
abbreviation (input) alertBadRecordMAC :: u8 where "alertBadRecordMAC \<equiv> 20"
abbreviation (input) alertRecordOverflow :: u8 where "alertRecordOverflow \<equiv> 22"
abbreviation (input) alertHandshakeFailure :: u8 where "alertHandshakeFailure \<equiv> 40"
abbreviation (input) alertIllegalParameter :: u8 where "alertIllegalParameter \<equiv> 47"
abbreviation (input) alertDecodeError :: u8 where "alertDecodeError \<equiv> 50"
abbreviation (input) alertProtocolVersion :: u8 where "alertProtocolVersion \<equiv> 70"
abbreviation (input) alertInternalError :: u8 where "alertInternalError \<equiv> 80"
abbreviation (input) alertUserCanceled :: u8 where "alertUserCanceled \<equiv> 90"
abbreviation (input) alertNoRenegotiation :: u8 where "alertNoRenegotiation \<equiv> 100"

named_theorems codec_simps \<open>evaluation of builders and parsers on encoded data\<close>
named_theorems emitter_rules \<open>statements that only append to a builder\<close>


section \<open>Big-endian encodings\<close>

definition be16 :: "u16 \<Rightarrow> bytes" where
  "be16 v = [ucast (drop_bit 8 v), ucast v]"

definition be24 :: "u32 \<Rightarrow> bytes" where
  "be24 v = [ucast (drop_bit 16 v), ucast (drop_bit 8 v), ucast v]"

definition be32 :: "u32 \<Rightarrow> bytes" where
  "be32 v = [ucast (drop_bit 24 v), ucast (drop_bit 16 v), ucast (drop_bit 8 v), ucast v]"

definition u16_of :: "u8 \<Rightarrow> u8 \<Rightarrow> u16" where
  "u16_of a b = push_bit 8 (ucast a) OR ucast b"

definition u24_of :: "u8 \<Rightarrow> u8 \<Rightarrow> u8 \<Rightarrow> u32" where
  "u24_of a b c = push_bit 16 (ucast a) OR push_bit 8 (ucast b) OR ucast c"

definition u32_of :: "u8 \<Rightarrow> u8 \<Rightarrow> u8 \<Rightarrow> u8 \<Rightarrow> u32" where
  "u32_of a b c d = push_bit 24 (ucast a) OR push_bit 16 (ucast b) OR push_bit 8 (ucast c) OR ucast d"

lemma length_be [simp]: "length (be16 v) = 2" "length (be24 w) = 3" "length (be32 w) = 4"
  by (simp_all add: be16_def be24_def be32_def)

lemma u16_of_be16 [simp]: "u16_of (ucast (drop_bit 8 v)) (ucast v) = v"
  unfolding u16_of_def by (rule bit_word_eqI) (auto simp: bit_simps)

lemma u32_of_be32 [simp]:
  "u32_of (ucast (drop_bit 24 v)) (ucast (drop_bit 16 v)) (ucast (drop_bit 8 v)) (ucast v) = v"
proof (rule bit_word_eqI)
  fix n assume "n < LENGTH(32)"
  then show "bit (u32_of (ucast (drop_bit 24 v)) (ucast (drop_bit 16 v)) (ucast (drop_bit 8 v))
      (ucast v)) n = bit v n"
    unfolding u32_of_def by (cases "24 \<le> n"; cases "16 \<le> n"; cases "8 \<le> n") (auto simp: bit_simps)
qed

lemma u24_of_be24:
  assumes "unat v < 2 ^ 24"
  shows "u24_of (ucast (drop_bit 16 v)) (ucast (drop_bit 8 v)) (ucast v) = v"
proof -
  have v: "v = take_bit 24 v"
    using assms by (simp add: take_bit_nat_eq_self unsigned_take_bit_eq word_unat_eq_iff)
  have "u24_of (ucast (drop_bit 16 v)) (ucast (drop_bit 8 v)) (ucast v) = take_bit 24 v"
  proof (rule bit_word_eqI)
    fix n assume "n < LENGTH(32)"
    then show "bit (u24_of (ucast (drop_bit 16 v)) (ucast (drop_bit 8 v)) (ucast v)) n
        = bit (take_bit 24 v) n"
      unfolding u24_of_def by (cases "16 \<le> n"; cases "8 \<le> n") (auto simp: bit_simps)
  qed
  with v show ?thesis by simp
qed

lemma bit_u8_high: "\<not> bit (b :: u8) (8 + n)" "\<not> bit b (16 + n)" "\<not> bit b (24 + n)"
  using bit_imp_le_length [of b "8 + n"] bit_imp_le_length [of b "16 + n"]
    bit_imp_le_length [of b "24 + n"] by auto

lemma be16_u16_of [simp]: "be16 (u16_of a b) = [a, b]"
  unfolding be16_def u16_of_def by (auto intro!: bit_word_eqI simp: bit_simps bit_u8_high)

lemma be32_u32_of [simp]: "be32 (u32_of a b c d) = [a, b, c, d]"
  unfolding be32_def u32_of_def by (auto intro!: bit_word_eqI simp: bit_simps bit_u8_high)

lemma be24_u24_of [simp]: "be24 (u24_of a b c) = [a, b, c]"
  unfolding be24_def u24_of_def by (auto intro!: bit_word_eqI simp: bit_simps bit_u8_high)

lemma unat_of_nat16: "n < 65536 \<Longrightarrow> unat (of_nat n :: u16) = n"
  by (simp add: unat_of_nat)

lemma unat_of_nat8: "n < 256 \<Longrightarrow> unat (of_nat n :: u8) = n"
  by (simp add: unat_of_nat)

lemma unat_of_nat24: "n < 16777216 \<Longrightarrow> unat (of_nat n :: u32) = n"
  by (simp add: unat_of_nat)

lemma u24_of_len:
  assumes "n < 16777216"
  shows "unat (u24_of (ucast (drop_bit 16 (of_nat n :: u32))) (ucast (drop_bit 8 (of_nat n :: u32)))
      (ucast (of_nat n :: u32))) = n"
proof -
  have "unat (of_nat n :: u32) < 2 ^ 24"
    using assms by (simp add: unat_of_nat24)
  then show ?thesis
    using assms by (simp only: u24_of_be24 unat_of_nat24)
qed

lemma u24_of_be24_len:
  "n < 16777216 \<Longrightarrow> u24_of (ucast (drop_bit 16 (of_nat n :: u32))) (ucast (drop_bit 8 (of_nat n :: u32)))
      (ucast (of_nat n :: u32)) = of_nat n"
  by (rule u24_of_be24) (simp add: unat_of_nat24)

lemma u16_of_plus: "u16_of a b = push_bit 8 (ucast a) + ucast b"
  unfolding u16_of_def
  by (rule disjunctive_add_eq_or [symmetric])
    (auto intro!: bit_eqI simp: bit_simps dest!: bit_imp_le_length [of b])

lemma unat_u8_less: "unat (a :: u8) < 256"
proof -
  have "unat a < 2 ^ LENGTH(8)" by (rule unsigned_less)
  then show ?thesis by simp
qed

lemma unat_u16_of: "unat (u16_of a b) = push_bit 8 (unat a) + unat b"
proof -
  have "unat a < 256" "unat b < 256"
    using unat_u8_less by auto
  moreover from this have "unat a * 256 + unat b < 65536" by simp
  ultimately show ?thesis
    unfolding u16_of_plus by (simp add: unat_word_ariths push_bit_eq_mult unsigned_push_bit_eq
        unsigned_ucast_eq take_bit_nat_eq_self mult.commute)
qed

lemma unat_u24_of_less: "unat (u24_of a b c) < 16777216"
proof -
  have "u24_of a b c = take_bit 24 (u24_of a b c)"
    unfolding u24_of_def by (rule bit_word_eqI) (auto simp: bit_simps dest: bit_imp_le_length)
  then have "unat (u24_of a b c) = take_bit 24 (unat (u24_of a b c))"
    by (metis unsigned_take_bit_eq)
  then show ?thesis
    using take_bit_nat_less_exp [of 24 "unat (u24_of a b c)"] by simp
qed

lemma be24_len_inj:
  assumes "n < 16777216" "m < 16777216" "be24 (of_nat n) = be24 (of_nat m)"
  shows "n = m"
proof -
  let ?dec = "\<lambda>l. unat (u24_of (l ! 0) (l ! 1) (l ! 2))"
  have "?dec (be24 (of_nat k)) = k" if "k < 16777216" for k
    using u24_of_len [OF that] by (simp add: be24_def)
  from this [OF assms(1)] this [OF assms(2)] assms(3) show ?thesis
    by metis
qed

section \<open>Statement sequences\<close>

text \<open>
  A Go block that mutates one object is a list of state transformers run in order;
  \<open>if_stmts\<close> is an \<open>if\<close> statement without an \<open>else\<close>, and a \<open>range\<close> loop over a
  list is the sequence of its bodies, \<open>stmts (map body xs)\<close>.
\<close>

primrec stmts :: "('b \<Rightarrow> 'b) list \<Rightarrow> 'b \<Rightarrow> 'b" where
  "stmts [] b = b"
| "stmts (f # fs) b = stmts fs (f b)"

declare stmts.simps [simp del]

definition if_stmts :: "bool \<Rightarrow> ('b \<Rightarrow> 'b) list \<Rightarrow> 'b \<Rightarrow> 'b" where
  "if_stmts c fs b = (if c then stmts fs b else b)"


section \<open>Buffers\<close>

text \<open>
  Code that fills a slice made with \<open>make([]byte, n)\<close>, by index assignments and
  \<open>copy\<close>. \<open>None\<close> is the run-time panic of an index out of range.
\<close>

definition put :: "nat \<Rightarrow> u8 \<Rightarrow> bytes option \<Rightarrow> bytes option" where
  "put i v b = do { x \<leftarrow> b; if i < length x then Some (x[i := v]) else None }"

definition copy_at :: "nat \<Rightarrow> bytes \<Rightarrow> bytes option \<Rightarrow> bytes option" where
  "copy_at i src b = do { x \<leftarrow> b;
     if i \<le> length x then Some (take i x @ take (length x - i) src @ drop (i + length src) x)
     else None }"

definition make_bytes :: "nat \<Rightarrow> bytes option" where
  "make_bytes n = Some (replicate n 0)"

lemma put_append: "length p = i \<Longrightarrow> put i v (Some (p @ x # r)) = Some (p @ v # r)"
  by (auto simp: put_def)

lemma copy_at_append:
  "length p = i \<Longrightarrow> length src = length x \<Longrightarrow> copy_at i src (Some (p @ x @ r)) = Some (p @ src @ r)"
  by (auto simp: copy_at_def)

lemma put_Cons [simp]:
  "put 0 v (Some (x # xs)) = Some (v # xs)"
  "put (Suc i) v (Some (x # xs)) = map_option (Cons x) (put i v (Some xs))"
  "put (numeral k) v (Some (x # xs)) = map_option (Cons x) (put (pred_numeral k) v (Some xs))"
  by (simp_all add: put_def numeral_eq_Suc)

lemma copy_at_Cons [simp]:
  "copy_at 0 src (Some xs) = Some (take (length xs) src @ drop (length src) xs)"
  "copy_at (Suc i) src (Some (x # xs)) = map_option (Cons x) (copy_at i src (Some xs))"
  "copy_at (numeral k) src (Some (x # xs)) = map_option (Cons x) (copy_at (pred_numeral k) src (Some xs))"
  by (simp_all add: copy_at_def numeral_eq_Suc)

lemma make_bytes_Suc: "make_bytes (Suc n) = map_option (Cons 0) (make_bytes n)"
  by (simp add: make_bytes_def)

definition hi16 :: "nat \<Rightarrow> u8" where
  "hi16 n = of_nat (drop_bit 8 n)"

definition hi24 :: "nat \<Rightarrow> u8" where
  "hi24 n = of_nat (drop_bit 16 n)"

lemma be24_of_nat: "be24 (of_nat n) = [hi24 n, hi16 n, of_nat n]"
  unfolding be24_def hi24_def hi16_def
  by (auto intro!: bit_word_eqI simp: bit_simps)

lemma be16_of_nat: "be16 (of_nat n) = [hi16 n, of_nat n]"
  unfolding be16_def hi16_def by (auto intro!: bit_word_eqI simp: bit_simps)


section \<open>Parser loops\<close>

definition require :: "bool \<Rightarrow> unit option" where
  "require c = (if c then Some () else None)"

lemma bind_require [simp]: "require c \<bind> f = (if c then f () else None)"
  by (simp add: require_def)

text \<open>
  \<open>for !s.Empty() { body }\<close>, where \<open>return false\<close> in the body leaves the parser: the
  body takes the unread input and the state, and gives the new state and the input that
  is left. The fuel bounds the number of rounds. A body that consumes at least one byte
  of its input, as all bodies of the sources do, needs at most \<open>length s\<close> rounds
  (\<open>for_nonempty_fuel\<close>): more fuel never changes the result.
\<close>

fun for_nonempty :: "nat \<Rightarrow> (bytes \<Rightarrow> 'st \<Rightarrow> ('st \<times> bytes) option) \<Rightarrow> bytes \<Rightarrow> 'st \<Rightarrow> 'st option" where
  "for_nonempty n body [] st = Some st"
| "for_nonempty 0 body (x # xs) st = None"
| "for_nonempty (Suc n) body (x # xs) st =
     do { (st', s') \<leftarrow> body (x # xs) st; for_nonempty n body s' st' }"

definition while_nonempty :: "(bytes \<Rightarrow> 'st \<Rightarrow> ('st \<times> bytes) option) \<Rightarrow> bytes \<Rightarrow> 'st \<Rightarrow> 'st option" where
  "while_nonempty body s st = for_nonempty (length s) body s st"

definition consuming :: "(bytes \<Rightarrow> 'st \<Rightarrow> ('st \<times> bytes) option) \<Rightarrow> bool" where
  "consuming body \<longleftrightarrow> (\<forall>s st st' s'. s \<noteq> [] \<longrightarrow> body s st = Some (st', s') \<longrightarrow> length s' < length s)"

lemma while_nonempty_Nil [simp]: "while_nonempty body [] st = Some st"
  by (simp add: while_nonempty_def)

lemma for_nonempty_fuel:
  assumes "consuming body"
  shows "length s \<le> n \<Longrightarrow> for_nonempty n body s st = while_nonempty body s st"
proof (induction "length s" arbitrary: s n st rule: less_induct)
  case less
  show ?case
  proof (cases s)
    case (Cons x xs)
    then obtain k where n: "n = Suc k" and k: "length xs \<le> k"
      using less.prems by (cases n) auto
    have rec: "for_nonempty k body s' st' = for_nonempty (length xs) body s' st'"
      if "body s st = Some (st', s')" for st' s'
    proof -
      have "length s' < length s"
        using assms that Cons unfolding consuming_def by blast
      then show ?thesis
        using less.hyps [of s' k st'] less.hyps [of s' "length xs" st'] Cons k by simp
    qed
    show ?thesis
      using rec n Cons by (auto simp: while_nonempty_def split: bind_splits)
  qed simp
qed

lemma while_nonempty_unfold:
  assumes "consuming body" and "s \<noteq> []"
  shows "while_nonempty body s st = do { (st', s') \<leftarrow> body s st; while_nonempty body s' st' }"
proof -
  obtain x xs where s: "s = x # xs"
    using assms(2) by (cases s) auto
  have "for_nonempty (length xs) body s' st' = while_nonempty body s' st'"
    if "body s st = Some (st', s')" for st' s'
    using that assms(1) s by (intro for_nonempty_fuel) (force simp: consuming_def)+
  then show ?thesis
    using s by (auto simp: while_nonempty_def split: bind_splits)
qed

text \<open>
  A loop over a concatenation of encoded items runs one step per item. The step is told
  whether its item is the last one, because the parser of the pre-shared key extension
  looks at that.
\<close>

fun run_items :: "(bool \<Rightarrow> 'x \<Rightarrow> 'st \<Rightarrow> 'st option) \<Rightarrow> 'x list \<Rightarrow> 'st \<Rightarrow> 'st option" where
  "run_items step [] st = Some st"
| "run_items step (x # xs) st = do { st' \<leftarrow> step (xs = []) x st; run_items step xs st' }"

locale item_loop =
  fixes enc :: "'x \<Rightarrow> bytes"
    and body :: "bytes \<Rightarrow> 'st \<Rightarrow> ('st \<times> bytes) option"
    and step :: "bool \<Rightarrow> 'x \<Rightarrow> 'st \<Rightarrow> 'st option"
    and ok :: "'x \<Rightarrow> bool"
  assumes enc_nonempty: "enc x \<noteq> []"
    and body_enc: "ok x \<Longrightarrow> body (enc x @ r) st = map_option (\<lambda>st'. (st', r)) (step (r = []) x st)"
begin

lemma concat_enc_Nil: "concat (map enc xs) = [] \<longleftrightarrow> xs = []"
  using enc_nonempty by (cases xs) auto

lemma length_concat_enc: "length xs \<le> length (concat (map enc xs))"
proof (induction xs)
  case (Cons x xs)
  then show ?case
    using enc_nonempty [of x] by (cases "enc x") auto
qed simp

lemma for_nonempty_items:
  "\<forall>x \<in> set xs. ok x \<Longrightarrow> length xs \<le> n \<Longrightarrow>
    for_nonempty n body (concat (map enc xs)) st = run_items step xs st"
proof (induction xs arbitrary: n st)
  case (Cons x xs)
  then obtain k where n: "n = Suc k" and k: "length xs \<le> k"
    by (cases n) auto
  obtain y ys where e: "enc x @ concat (map enc xs) = y # ys"
    using enc_nonempty [of x] by (cases "enc x") auto
  have "for_nonempty n body (concat (map enc (x # xs))) st
      = do { (st', s') \<leftarrow> body (enc x @ concat (map enc xs)) st; for_nonempty k body s' st' }"
    using e n by simp
  also have "\<dots> = do { st' \<leftarrow> step (xs = []) x st; for_nonempty k body (concat (map enc xs)) st' }"
    using Cons.prems by (simp add: body_enc concat_enc_Nil bind_map_option comp_def del: concat_eq_Nil_conv)
  finally show ?case
    using Cons.IH k Cons.prems(1) by simp
qed simp

lemma while_nonempty_items:
  "\<forall>x \<in> set xs. ok x \<Longrightarrow> while_nonempty body (concat (map enc xs)) st = run_items step xs st"
  unfolding while_nonempty_def by (rule for_nonempty_items) (simp_all add: length_concat_enc)

end

lemma run_items_append:
  "ys \<noteq> [] \<Longrightarrow> run_items step (xs @ ys) st
    = do { st' \<leftarrow> run_items (\<lambda>_. step False) xs st; run_items step ys st' }"
  by (induction xs arbitrary: st) (auto split: bind_splits)

lemma run_items_append_indep:
  assumes "\<And>x st. x \<in> set xs \<Longrightarrow> step True x st = step False x st"
  shows "run_items step (xs @ ys) st = do { st' \<leftarrow> run_items step xs st; run_items step ys st' }"
  using assms
proof (induction xs arbitrary: st)
  case (Cons x xs)
  have "step (xs @ ys = []) x st = step (xs = []) x st"
    using Cons.prems [of x st] by (cases "xs @ ys = []"; cases "xs = []") auto
  then show ?case
    using Cons by (auto split: bind_splits)
qed simp

lemma run_items_fold:
  "(\<And>l x st. x \<in> set xs \<Longrightarrow> step l x st = Some (f x st)) \<Longrightarrow> run_items step xs st = Some (fold f xs st)"
  by (induction xs arbitrary: st) auto

text \<open>An optional item of the list, whose step gives \<open>st'\<close> wherever it stands.\<close>

lemma run_items_optional:
  assumes "\<And>l. c \<Longrightarrow> step l x st = Some st'" and "\<not> c \<Longrightarrow> st' = st"
    and "run_items step ys st' = r"
  shows "run_items step ((if c then [x] else []) @ ys) st = r"
  using assms by auto

lemma run_items_optional_last:
  assumes "c \<Longrightarrow> step True x st = Some st'" and "\<not> c \<Longrightarrow> st' = st"
  shows "run_items step (if c then [x] else []) st = Some st'"
  using assms by auto


section \<open>Numbers of 64 bits in big-endian order\<close>

definition be64 :: "u64 \<Rightarrow> bytes" where
  "be64 v = map (\<lambda>k. ucast (drop_bit (8 * k) v)) (rev [0..<8])"

lemma unat_u64_less: "unat (x :: u64) < 18446744073709551616"
proof -
  have "unat x < 2 ^ LENGTH(64)" by (rule unsigned_less)
  then show ?thesis by simp
qed

definition from_be :: "bytes \<Rightarrow> nat" where
  "from_be bs = foldl (\<lambda>acc b. acc * 256 + unat b) 0 bs"

lemma from_be_append: "from_be (xs @ ys) = from_be xs * 256 ^ length ys + from_be ys"
  unfolding from_be_def by (induction ys rule: rev_induct) (simp_all add: algebra_simps)

lemma from_be_low_bytes:
  "from_be (map (\<lambda>k. ucast (drop_bit (8 * k) (v :: u64))) (rev [0..<m])) = unat v mod 256 ^ m"
proof (induction m)
  case (Suc m)
  have "unat (drop_bit (8 * m) v) = unat v div 256 ^ m"
    by (simp add: unat_drop_bit_eq drop_bit_eq_div [where 'a = nat] power_mult)
  then have "unat (ucast (drop_bit (8 * m) v) :: u8) = unat v div 256 ^ m mod 256"
    by (simp add: unsigned_ucast_eq take_bit_eq_mod)
  moreover have "unat v mod 256 ^ Suc m = 256 ^ m * (unat v div 256 ^ m mod 256) + unat v mod 256 ^ m"
    using mod_mult2_eq [of "unat v" "256 ^ m" 256] by (simp add: mult.commute)
  ultimately show ?case
    using Suc from_be_append [of "[ucast (drop_bit (8 * m) v)]"] by (simp add: from_be_def mult.commute)
qed (simp add: from_be_def)

end
