(* ===== verification/Cryptobyte.thy ===== *)
theory Cryptobyte
  imports Prelude
begin

text \<open>
  The interface of \<open>golang.org/x/crypto/cryptobyte\<close>, which the parsers and serialisers
  of the repository are written with. The package is not part of the repository, so it
  is a parameter of the model: a record \<open>cryptobyte\<close> of its operations, and the locale
  \<open>cryptobyte_laws\<close> with their documented behaviour. A \<open>cryptobyte.String\<close> is its
  unread bytes; a read gives the value and the bytes that are left, or \<open>None\<close> where the
  method returns false. A \<open>cryptobyte.Builder\<close> is the bytes written so far, or the first
  error, which sticks.

  Inside the locale, \<open>out f\<close> is what the statement \<open>f\<close> appends to a builder. The
  equations for \<open>out\<close> evaluate a serialiser, the equations for the read methods evaluate
  a parser on encoded data, and the round trips of the messages are proved from both.
\<close>

type_synonym builder = "gerror + bytes"

record cryptobyte =
  ReadUint8 :: "bytes \<Rightarrow> (u8 \<times> bytes) option"
  ReadUint16 :: "bytes \<Rightarrow> (u16 \<times> bytes) option"
  ReadUint24 :: "bytes \<Rightarrow> (u32 \<times> bytes) option"
  ReadUint32 :: "bytes \<Rightarrow> (u32 \<times> bytes) option"
  ReadBytes :: "bytes \<Rightarrow> nat \<Rightarrow> (bytes \<times> bytes) option"
  CopyBytes :: "bytes \<Rightarrow> nat \<Rightarrow> (bytes \<times> bytes) option"
  Skip :: "bytes \<Rightarrow> nat \<Rightarrow> bytes option"
  ReadUint8LengthPrefixed :: "bytes \<Rightarrow> (bytes \<times> bytes) option"
  ReadUint16LengthPrefixed :: "bytes \<Rightarrow> (bytes \<times> bytes) option"
  ReadUint24LengthPrefixed :: "bytes \<Rightarrow> (bytes \<times> bytes) option"
  AddUint8 :: "u8 \<Rightarrow> builder \<Rightarrow> builder"
  AddUint16 :: "u16 \<Rightarrow> builder \<Rightarrow> builder"
  AddUint24 :: "u32 \<Rightarrow> builder \<Rightarrow> builder"
  AddUint32 :: "u32 \<Rightarrow> builder \<Rightarrow> builder"
  AddBytes :: "bytes \<Rightarrow> builder \<Rightarrow> builder"
  AddUint8LengthPrefixed :: "(builder \<Rightarrow> builder) \<Rightarrow> builder \<Rightarrow> builder"
  AddUint16LengthPrefixed :: "(builder \<Rightarrow> builder) \<Rightarrow> builder \<Rightarrow> builder"
  AddUint24LengthPrefixed :: "(builder \<Rightarrow> builder) \<Rightarrow> builder \<Rightarrow> builder"
  AddValue :: "(builder \<Rightarrow> builder \<times> gerror option) \<Rightarrow> builder \<Rightarrow> builder"
  SetError :: "gerror \<Rightarrow> builder \<Rightarrow> builder"
  Bytes :: "builder \<Rightarrow> gerror + bytes"

abbreviation new_builder :: builder where
  "new_builder \<equiv> Inr []"

definition take_prefix :: "nat \<Rightarrow> bytes \<Rightarrow> (bytes \<times> bytes) option" where
  "take_prefix n s = (if n \<le> length s then Some (take n s, drop n s) else None)"

definition append_result :: "bytes \<Rightarrow> builder \<Rightarrow> builder" where
  "append_result v b = (case b of Inl e \<Rightarrow> Inl e | Inr w \<Rightarrow> Inr (w @ v))"

definition append_child :: "nat \<Rightarrow> (nat \<Rightarrow> bytes) \<Rightarrow> builder \<Rightarrow> builder \<Rightarrow> builder" where
  "append_child lim enclen child b =
     (case b of Inl e \<Rightarrow> Inl e
      | Inr w \<Rightarrow> (case child of Inl e \<Rightarrow> Inl e
          | Inr c \<Rightarrow> if length c < lim then Inr (w @ enclen (length c) @ c)
                    else Inl (Errorf ''cryptobyte: pending child length exceeds length prefix'')))"

locale cryptobyte_laws =
  fixes cb :: cryptobyte
  assumes ReadUint8: "ReadUint8 cb s = (case s of a # r \<Rightarrow> Some (a, r) | _ \<Rightarrow> None)"
    and ReadUint16: "ReadUint16 cb s = (case s of a # b # r \<Rightarrow> Some (u16_of a b, r) | _ \<Rightarrow> None)"
    and ReadUint24: "ReadUint24 cb s = (case s of a # b # c # r \<Rightarrow> Some (u24_of a b c, r) | _ \<Rightarrow> None)"
    and ReadUint32: "ReadUint32 cb s =
      (case s of a # b # c # d # r \<Rightarrow> Some (u32_of a b c d, r) | _ \<Rightarrow> None)"
    and ReadBytes: "ReadBytes cb s n = take_prefix n s"
    and CopyBytes: "CopyBytes cb s n = take_prefix n s"
    and Skip: "Skip cb s n = map_option snd (take_prefix n s)"
    and ReadUint8LengthPrefixed: "ReadUint8LengthPrefixed cb s =
      (case s of a # r \<Rightarrow> take_prefix (unat a) r | _ \<Rightarrow> None)"
    and ReadUint16LengthPrefixed: "ReadUint16LengthPrefixed cb s =
      (case s of a # b # r \<Rightarrow> take_prefix (unat (u16_of a b)) r | _ \<Rightarrow> None)"
    and ReadUint24LengthPrefixed: "ReadUint24LengthPrefixed cb s =
      (case s of a # b # c # r \<Rightarrow> take_prefix (unat (u24_of a b c)) r | _ \<Rightarrow> None)"
    and AddUint8: "AddUint8 cb v8 bld = append_result [v8] bld"
    and AddUint16: "AddUint16 cb v16 bld = append_result (be16 v16) bld"
    and AddUint24: "AddUint24 cb v24 bld = append_result (be24 v24) bld"
    and AddUint32: "AddUint32 cb v32 bld = append_result (be32 v32) bld"
    and AddBytes: "AddBytes cb v bld = append_result v bld"
    and AddUint8LengthPrefixed: "AddUint8LengthPrefixed cb f bld =
      append_child 256 (\<lambda>n. [of_nat n]) (f new_builder) bld"
    and AddUint16LengthPrefixed: "AddUint16LengthPrefixed cb f bld =
      append_child 65536 (\<lambda>n. be16 (of_nat n)) (f new_builder) bld"
    and AddUint24LengthPrefixed: "AddUint24LengthPrefixed cb f bld =
      append_child 16777216 (\<lambda>n. be24 (of_nat n)) (f new_builder) bld"
    and AddValue: "AddValue cb g bld =
      (case g bld of (b', None) \<Rightarrow> b' | (b', Some e) \<Rightarrow> Inl e)"
    and SetError: "SetError cb e bld = Inl e"
    and Bytes: "Bytes cb bld = bld"


section \<open>What a statement appends\<close>

definition out :: "(builder \<Rightarrow> builder) \<Rightarrow> bytes option" where
  "out f = (case f new_builder of Inl _ \<Rightarrow> None | Inr bs \<Rightarrow> Some bs)"

definition emitter :: "(builder \<Rightarrow> builder) \<Rightarrow> bool" where
  "emitter f \<longleftrightarrow> (\<forall>e. f (Inl e) = Inl e) \<and>
     (\<forall>w. f (Inr w) = (case f new_builder of Inl e \<Rightarrow> Inl e | Inr c \<Rightarrow> Inr (w @ c)))"

lemma emitter_Inl: "emitter f \<Longrightarrow> f (Inl e) = Inl e"
  by (simp add: emitter_def)

lemma emitter_Inr:
  "emitter f \<Longrightarrow> f (Inr w) = (case f new_builder of Inl e \<Rightarrow> Inl e | Inr c \<Rightarrow> Inr (w @ c))"
  unfolding emitter_def by blast

lemma emitter_comp:
  assumes "emitter f" and "emitter g"
  shows "emitter (\<lambda>b. g (f b))"
proof -
  have "g (f (Inl e)) = Inl e" for e
    using assms by (simp add: emitter_Inl)
  moreover have "g (f (Inr w)) = (case g (f new_builder) of Inl e \<Rightarrow> Inl e | Inr c \<Rightarrow> Inr (w @ c))" for w
  proof (cases "f new_builder")
    case (Inl e)
    then show ?thesis
      using emitter_Inr [OF assms(1), of w] assms(2) by (simp add: emitter_Inl)
  next
    case (Inr c)
    then have "f (Inr w) = Inr (w @ c)"
      using emitter_Inr [OF assms(1), of w] by simp
    then show ?thesis
      using Inr emitter_Inr [OF assms(2), of "w @ c"] emitter_Inr [OF assms(2), of c]
      by (simp split: sum.splits)
  qed
  ultimately show ?thesis
    unfolding emitter_def by blast
qed

lemma stmts_Cons_comp: "stmts (f # fs) = (\<lambda>b. stmts fs (f b))"
  by (rule ext) (simp add: stmts.simps)

lemma emitter_stmts_Nil [emitter_rules]: "emitter (stmts [])"
  by (simp add: emitter_def stmts.simps)

lemma emitter_stmts_Cons [emitter_rules]:
  "emitter f \<Longrightarrow> emitter (stmts fs) \<Longrightarrow> emitter (stmts (f # fs))"
  unfolding stmts_Cons_comp by (rule emitter_comp)

lemma emitter_stmts_map [emitter_rules]:
  "(\<And>x. emitter (f x)) \<Longrightarrow> emitter (stmts (map f xs))"
  by (induction xs) (simp_all add: emitter_rules)

lemma emitter_if_stmts [emitter_rules]: "emitter (stmts fs) \<Longrightarrow> emitter (if_stmts c fs)"
proof -
  assume "emitter (stmts fs)"
  moreover have "if_stmts c fs = (if c then stmts fs else stmts [])"
    by (rule ext) (simp add: if_stmts_def stmts.simps)
  ultimately show ?thesis
    by (simp add: emitter_stmts_Nil)
qed

lemma out_stmts_Nil [codec_simps]: "out (stmts []) = Some []"
  by (simp add: out_def stmts.simps)

lemma out_stmts_Cons [codec_simps]:
  assumes "emitter f" and "emitter (stmts fs)"
  shows "out (stmts (f # fs)) = do { a \<leftarrow> out f; b \<leftarrow> out (stmts fs); Some (a @ b) }"
proof (cases "f new_builder")
  case (Inl e)
  with assms(2) show ?thesis
    by (simp add: out_def stmts.simps emitter_Inl)
next
  case (Inr c)
  then show ?thesis
    using emitter_Inr [OF assms(2), of c] by (auto simp: out_def stmts.simps split: sum.splits)
qed

lemma out_if_stmts [codec_simps]:
  "out (if_stmts c fs) = (if c then out (stmts fs) else Some [])"
  by (simp add: out_def if_stmts_def)

lemma out_if [codec_simps]: "out (if c then f else g) = (if c then out f else out g)"
  by simp

lemma emitter_if [emitter_rules]: "emitter f \<Longrightarrow> emitter g \<Longrightarrow> emitter (if c then f else g)"
  by simp

lemma out_stmts_map:
  assumes "\<And>x. emitter (f x)" and "\<And>x. x \<in> set xs \<Longrightarrow> out (f x) = Some (enc x)"
  shows "out (stmts (map f xs)) = Some (concat (map enc xs))"
  using assms(2)
proof (induction xs)
  case (Cons x xs)
  then show ?case
    using out_stmts_Cons [OF assms(1) emitter_stmts_map [where f = f, OF assms(1)], of x xs] by simp
qed (simp add: codec_simps)

text \<open>
  Success of a range loop gives success of every round, for encoders that may fail.
\<close>

lemma out_stmts_map_inv:
  assumes "\<And>x. emitter (f x)" and "out (stmts (map f xs)) = Some bs"
  shows "\<forall>x \<in> set xs. out (f x) \<noteq> None"
  using assms(2)
proof (induction xs arbitrary: bs)
  case (Cons x xs)
  then show ?case
    using out_stmts_Cons [OF assms(1) emitter_stmts_map [where f = f, OF assms(1)], of x xs]
    by (auto split: bind_splits)
qed simp


lemma out_stmts_map_enc:
  assumes "\<And>x. emitter (f x)" and "\<And>x b. out (f x) = Some b \<Longrightarrow> b = enc x \<and> Q x"
    and "out (stmts (map f xs)) = Some bs"
  shows "bs = concat (map enc xs) \<and> (\<forall>x \<in> set xs. Q x)"
proof -
  have s: "out (f x) \<noteq> None" if "x \<in> set xs" for x
    using out_stmts_map_inv [OF assms(1,3)] that by blast
  then have "out (f x) = Some (enc x)" if "x \<in> set xs" for x
    using assms(2) that by force
  from out_stmts_map [OF assms(1) this] s show ?thesis
    using assms(2,3) by fastforce
qed


section \<open>Length-prefixed vectors\<close>

definition vec8 :: "bytes \<Rightarrow> bytes" where
  "vec8 c = of_nat (length c) # c"

definition vec16 :: "bytes \<Rightarrow> bytes" where
  "vec16 c = be16 (of_nat (length c)) @ c"

definition vec24 :: "bytes \<Rightarrow> bytes" where
  "vec24 c = be24 (of_nat (length c)) @ c"

lemma vec_nonempty [simp]: "vec8 c \<noteq> []" "vec16 c \<noteq> []" "vec24 c \<noteq> []" "be16 v \<noteq> []" "be24 w \<noteq> []" "be32 w \<noteq> []"
  by (simp_all add: vec8_def vec16_def vec24_def be16_def be24_def be32_def)

lemma length_vec [simp]: "length (vec8 c) = Suc (length c)" "length (vec16 c) = length c + 2"
    "length (vec24 c) = length c + 3"
  by (simp_all add: vec8_def vec16_def vec24_def)

lemma take_prefix_append [simp]: "take_prefix (length c) (c @ r) = Some (c, r)"
  by (simp add: take_prefix_def)

lemma take_prefix_all [simp]: "take_prefix (length c) c = Some (c, [])"
  by (simp add: take_prefix_def)

lemma take_prefix_inv: "take_prefix n s = Some (c, r) \<longleftrightarrow> s = c @ r \<and> length c = n"
  by (auto simp: take_prefix_def)


section \<open>Evaluation under the laws\<close>

lemma emitter_append_result [emitter_rules]: "emitter (append_result v)"
  by (simp add: emitter_def append_result_def)

lemma emitter_append_child [emitter_rules]: "emitter (append_child lim e c)"
  by (simp add: emitter_def append_child_def split: sum.splits)

context cryptobyte_laws
begin

lemma emitter_Add [emitter_rules]:
  "emitter (AddUint8 cb v8)" "emitter (AddUint16 cb v16)" "emitter (AddUint24 cb v24)"
  "emitter (AddUint32 cb v32)" "emitter (AddBytes cb v)"
  "emitter (AddUint8LengthPrefixed cb f)" "emitter (AddUint16LengthPrefixed cb f)"
  "emitter (AddUint24LengthPrefixed cb f)"
  using emitter_append_result emitter_append_child
  unfolding emitter_def AddUint8 AddUint16 AddUint24 AddUint32 AddBytes
    AddUint8LengthPrefixed AddUint16LengthPrefixed AddUint24LengthPrefixed by blast+

lemma out_Add [codec_simps]:
  "out (AddUint8 cb v8) = Some [v8]" "out (AddUint16 cb v16) = Some (be16 v16)"
  "out (AddUint24 cb v24) = Some (be24 v24)" "out (AddUint32 cb v32) = Some (be32 v32)"
  "out (AddBytes cb v) = Some v"
  by (simp_all add: out_def AddUint8 AddUint16 AddUint24 AddUint32 AddBytes append_result_def)

lemma out_LengthPrefixed [codec_simps]:
  "out (AddUint8LengthPrefixed cb f) = do { c \<leftarrow> out f; if length c < 256 then Some (vec8 c) else None }"
  "out (AddUint16LengthPrefixed cb f) = do { c \<leftarrow> out f; if length c < 65536 then Some (vec16 c) else None }"
  "out (AddUint24LengthPrefixed cb f) = do { c \<leftarrow> out f; if length c < 16777216 then Some (vec24 c) else None }"
  by (simp_all add: out_def AddUint8LengthPrefixed AddUint16LengthPrefixed AddUint24LengthPrefixed
      append_child_def vec8_def vec16_def vec24_def split: sum.splits)

lemma Bytes_Inr: "Bytes cb (f new_builder) = Inr bs \<longleftrightarrow> out f = Some bs"
  by (auto simp: Bytes out_def split: sum.splits)

lemma read_fixed [codec_simps]:
  "ReadUint8 cb (a # r) = Some (a, r)"
  "ReadUint16 cb (be16 v @ r) = Some (v, r)" "ReadUint16 cb (be16 v) = Some (v, [])"
  "ReadUint32 cb (be32 w @ r) = Some (w, r)" "ReadUint32 cb (be32 w) = Some (w, [])"
  by (simp_all add: ReadUint8 ReadUint16 ReadUint32 be16_def be32_def)

lemma read_vec [codec_simps]:
  "length c < 256 \<Longrightarrow> ReadUint8LengthPrefixed cb (vec8 c @ r) = Some (c, r)"
  "length c < 256 \<Longrightarrow> ReadUint8LengthPrefixed cb (vec8 c) = Some (c, [])"
  "length c < 65536 \<Longrightarrow> ReadUint16LengthPrefixed cb (vec16 c @ r) = Some (c, r)"
  "length c < 65536 \<Longrightarrow> ReadUint16LengthPrefixed cb (vec16 c) = Some (c, [])"
  "length c < 16777216 \<Longrightarrow> ReadUint24LengthPrefixed cb (vec24 c @ r) = Some (c, r)"
  "length c < 16777216 \<Longrightarrow> ReadUint24LengthPrefixed cb (vec24 c) = Some (c, [])"
  by (simp_all add: ReadUint8LengthPrefixed ReadUint16LengthPrefixed ReadUint24LengthPrefixed
      vec8_def vec16_def vec24_def be16_def be24_def unat_of_nat8 unat_of_nat16 u24_of_len)

lemma read_bytes [codec_simps]:
  "length c = n \<Longrightarrow> ReadBytes cb (c @ r) n = Some (c, r)"
  "length c = n \<Longrightarrow> ReadBytes cb c n = Some (c, [])"
  "length c = n \<Longrightarrow> CopyBytes cb (c @ r) n = Some (c, r)"
  "length c = n \<Longrightarrow> CopyBytes cb c n = Some (c, [])"
  by (auto simp: ReadBytes CopyBytes)

lemma skip_header [codec_simps]: "Skip cb (ty # be24 v @ r) 4 = Some r"
  by (simp add: Skip be24_def take_prefix_def)

lemma skip_vec24 [codec_simps]: "Skip cb (ty # vec24 p) 4 = Some p"
  by (simp add: vec24_def skip_header)

text \<open>Every successful read consumes input.\<close>

lemma read_consumes:
  "ReadUint8 cb s = Some (v8, r) \<Longrightarrow> length r < length s"
  "ReadUint16 cb s = Some (v16, r) \<Longrightarrow> length r < length s"
  "ReadUint32 cb s = Some (v32, r) \<Longrightarrow> length r < length s"
  "ReadUint8LengthPrefixed cb s = Some (c, r) \<Longrightarrow> length r < length s"
  "ReadUint16LengthPrefixed cb s = Some (c, r) \<Longrightarrow> length r < length s"
  "ReadUint24LengthPrefixed cb s = Some (c, r) \<Longrightarrow> length r < length s"
  by (auto simp: ReadUint8 ReadUint16 ReadUint32 ReadUint8LengthPrefixed ReadUint16LengthPrefixed
      ReadUint24LengthPrefixed take_prefix_def split: list.splits if_splits)

end


section \<open>An implementation of the interface\<close>

text \<open>
  A concrete record of operations with the documented behaviour. It shows that the laws
  are consistent, and the witnesses evaluate on it.
\<close>

definition cb_ref :: cryptobyte where
  "cb_ref = \<lparr>
    ReadUint8 = (\<lambda>s. case s of a # r \<Rightarrow> Some (a, r) | _ \<Rightarrow> None),
    ReadUint16 = (\<lambda>s. case s of a # b # r \<Rightarrow> Some (u16_of a b, r) | _ \<Rightarrow> None),
    ReadUint24 = (\<lambda>s. case s of a # b # c # r \<Rightarrow> Some (u24_of a b c, r) | _ \<Rightarrow> None),
    ReadUint32 = (\<lambda>s. case s of a # b # c # d # r \<Rightarrow> Some (u32_of a b c d, r) | _ \<Rightarrow> None),
    ReadBytes = (\<lambda>s n. take_prefix n s),
    CopyBytes = (\<lambda>s n. take_prefix n s),
    Skip = (\<lambda>s n. map_option snd (take_prefix n s)),
    ReadUint8LengthPrefixed = (\<lambda>s. case s of a # r \<Rightarrow> take_prefix (unat a) r | _ \<Rightarrow> None),
    ReadUint16LengthPrefixed = (\<lambda>s. case s of a # b # r \<Rightarrow> take_prefix (unat (u16_of a b)) r | _ \<Rightarrow> None),
    ReadUint24LengthPrefixed =
      (\<lambda>s. case s of a # b # c # r \<Rightarrow> take_prefix (unat (u24_of a b c)) r | _ \<Rightarrow> None),
    AddUint8 = (\<lambda>v. append_result [v]),
    AddUint16 = (\<lambda>v. append_result (be16 v)),
    AddUint24 = (\<lambda>v. append_result (be24 v)),
    AddUint32 = (\<lambda>v. append_result (be32 v)),
    AddBytes = append_result,
    AddUint8LengthPrefixed = (\<lambda>f. append_child 256 (\<lambda>n. [of_nat n]) (f new_builder)),
    AddUint16LengthPrefixed = (\<lambda>f. append_child 65536 (\<lambda>n. be16 (of_nat n)) (f new_builder)),
    AddUint24LengthPrefixed = (\<lambda>f. append_child 16777216 (\<lambda>n. be24 (of_nat n)) (f new_builder)),
    AddValue = (\<lambda>g b. case g b of (b', None) \<Rightarrow> b' | (b', Some e) \<Rightarrow> Inl e),
    SetError = (\<lambda>e b. Inl e),
    Bytes = (\<lambda>b. b)\<rparr>"

interpretation ref: cryptobyte_laws cb_ref
  by unfold_locales (simp_all add: cb_ref_def)

text \<open>Evaluation of a builder on the reference implementation.\<close>

lemmas cb_eval = cb_ref_def stmts.simps if_stmts_def append_result_def append_child_def be16_def be24_def

end
