(* ===== verification/Handshake_Messages.thy ===== *)
theory Handshake_Messages
  imports Cryptobyte
begin

text \<open>
  The handshake messages of \<open>handshake_messages.go\<close> other than the two hellos, and those
  of \<open>u_handshake_messages.go\<close>: one record per message struct, one \<open>marshal\<close> and one
  \<open>unmarshal\<close> per method. \<open>marshal\<close> gives the bytes or the builder's error;
  \<open>unmarshal\<close> gives the message, or \<open>None\<close> where the method returns false. The fields a
  receiver must carry before \<open>unmarshal\<close> is called are arguments.

  The locale \<open>handshake_codec\<close> is the contract the connection relies on: a marshalled
  message starts with its type byte and a 24-bit length, and parses back to itself. It is
  interpreted for every message.
\<close>

section \<open>Constants of common.go\<close>

abbreviation (input) typeHelloRequest :: u8 where "typeHelloRequest \<equiv> 0"
abbreviation (input) typeClientHello :: u8 where "typeClientHello \<equiv> 1"
abbreviation (input) typeServerHello :: u8 where "typeServerHello \<equiv> 2"
abbreviation (input) typeNewSessionTicket :: u8 where "typeNewSessionTicket \<equiv> 4"
abbreviation (input) typeEndOfEarlyData :: u8 where "typeEndOfEarlyData \<equiv> 5"
abbreviation (input) typeEncryptedExtensions :: u8 where "typeEncryptedExtensions \<equiv> 8"
abbreviation (input) typeCertificate :: u8 where "typeCertificate \<equiv> 11"
abbreviation (input) typeServerKeyExchange :: u8 where "typeServerKeyExchange \<equiv> 12"
abbreviation (input) typeCertificateRequest :: u8 where "typeCertificateRequest \<equiv> 13"
abbreviation (input) typeServerHelloDone :: u8 where "typeServerHelloDone \<equiv> 14"
abbreviation (input) typeCertificateVerify :: u8 where "typeCertificateVerify \<equiv> 15"
abbreviation (input) typeClientKeyExchange :: u8 where "typeClientKeyExchange \<equiv> 16"
abbreviation (input) typeFinished :: u8 where "typeFinished \<equiv> 20"
abbreviation (input) typeCertificateStatus :: u8 where "typeCertificateStatus \<equiv> 22"
abbreviation (input) typeKeyUpdate :: u8 where "typeKeyUpdate \<equiv> 24"

abbreviation (input) extensionServerName :: u16 where "extensionServerName \<equiv> 0"
abbreviation (input) extensionStatusRequest :: u16 where "extensionStatusRequest \<equiv> 5"
abbreviation (input) extensionSupportedCurves :: u16 where "extensionSupportedCurves \<equiv> 10"
abbreviation (input) extensionSupportedPoints :: u16 where "extensionSupportedPoints \<equiv> 11"
abbreviation (input) extensionSignatureAlgorithms :: u16 where "extensionSignatureAlgorithms \<equiv> 13"
abbreviation (input) extensionALPN :: u16 where "extensionALPN \<equiv> 16"
abbreviation (input) extensionStatusRequestV2 :: u16 where "extensionStatusRequestV2 \<equiv> 17"
abbreviation (input) extensionSCT :: u16 where "extensionSCT \<equiv> 18"
abbreviation (input) extensionExtendedMasterSecret :: u16 where "extensionExtendedMasterSecret \<equiv> 23"
abbreviation (input) extensionDelegatedCredentials :: u16 where "extensionDelegatedCredentials \<equiv> 34"
abbreviation (input) extensionSessionTicket :: u16 where "extensionSessionTicket \<equiv> 35"
abbreviation (input) extensionPreSharedKey :: u16 where "extensionPreSharedKey \<equiv> 41"
abbreviation (input) extensionEarlyData :: u16 where "extensionEarlyData \<equiv> 42"
abbreviation (input) extensionSupportedVersions :: u16 where "extensionSupportedVersions \<equiv> 43"
abbreviation (input) extensionCookie :: u16 where "extensionCookie \<equiv> 44"
abbreviation (input) extensionPSKModes :: u16 where "extensionPSKModes \<equiv> 45"
abbreviation (input) extensionCertificateAuthorities :: u16 where "extensionCertificateAuthorities \<equiv> 47"
abbreviation (input) extensionSignatureAlgorithmsCert :: u16 where "extensionSignatureAlgorithmsCert \<equiv> 50"
abbreviation (input) extensionKeyShare :: u16 where "extensionKeyShare \<equiv> 51"
abbreviation (input) extensionQUICTransportParameters :: u16 where "extensionQUICTransportParameters \<equiv> 57"
abbreviation (input) extensionRenegotiationInfo :: u16 where "extensionRenegotiationInfo \<equiv> 0xff01"
abbreviation (input) extensionECHOuterExtensions :: u16 where "extensionECHOuterExtensions \<equiv> 0xfd00"
abbreviation (input) extensionEncryptedClientHello :: u16 where "extensionEncryptedClientHello \<equiv> 0xfe0d"
abbreviation (input) utlsExtensionCompressCertificate :: u16 where "utlsExtensionCompressCertificate \<equiv> 27"
abbreviation (input) utlsExtensionApplicationSettings :: u16 where "utlsExtensionApplicationSettings \<equiv> 17513"
abbreviation (input) utlsExtensionApplicationSettingsNew :: u16 where "utlsExtensionApplicationSettingsNew \<equiv> 17613"

abbreviation (input) statusTypeOCSP :: u8 where "statusTypeOCSP \<equiv> 1"
abbreviation (input) scsvRenegotiation :: u16 where "scsvRenegotiation \<equiv> 0x00ff"


section \<open>Helpers\<close>

definition addBytesWithLength :: "cryptobyte \<Rightarrow> bytes \<Rightarrow> nat \<Rightarrow> builder \<Rightarrow> builder" where
  "addBytesWithLength cb v n =
     AddValue cb (\<lambda>b. if length v \<noteq> n then (b, Some (Errorf ''invalid value length''))
                      else (AddBytes cb v b, None))"

definition addUint64 :: "cryptobyte \<Rightarrow> u64 \<Rightarrow> builder \<Rightarrow> builder" where
  "addUint64 cb v = stmts [AddUint32 cb (ucast (drop_bit 32 v)), AddUint32 cb (ucast v)]"

definition readUint64 :: "cryptobyte \<Rightarrow> bytes \<Rightarrow> (u64 \<times> bytes) option" where
  "readUint64 cb s = do {
     (hi, s) \<leftarrow> ReadUint32 cb s;
     (lo, s) \<leftarrow> ReadUint32 cb s;
     Some (push_bit 32 (ucast hi) OR ucast lo, s) }"

definition readUint8LengthPrefixed :: "cryptobyte \<Rightarrow> bytes \<Rightarrow> (bytes \<times> bytes) option" where
  "readUint8LengthPrefixed cb s = ReadUint8LengthPrefixed cb s"

definition readUint16LengthPrefixed :: "cryptobyte \<Rightarrow> bytes \<Rightarrow> (bytes \<times> bytes) option" where
  "readUint16LengthPrefixed cb s = ReadUint16LengthPrefixed cb s"

definition readUint24LengthPrefixed :: "cryptobyte \<Rightarrow> bytes \<Rightarrow> (bytes \<times> bytes) option" where
  "readUint24LengthPrefixed cb s = ReadUint24LengthPrefixed cb s"

lemmas read_helpers = readUint8LengthPrefixed_def readUint16LengthPrefixed_def readUint24LengthPrefixed_def

lemma u64_split_join:
  "push_bit 32 (ucast (ucast (drop_bit 32 v) :: u32)) OR ucast (ucast v :: u32) = (v :: u64)"
  by (rule bit_word_eqI) (auto simp: bit_simps)

context cryptobyte_laws
begin

lemma addBytesWithLength_eq: "length v = n \<Longrightarrow> addBytesWithLength cb v n = AddBytes cb v"
  by (rule ext) (simp add: addBytesWithLength_def AddValue)

lemma emitter_addBytesWithLength [emitter_rules]: "length v = n \<Longrightarrow> emitter (addBytesWithLength cb v n)"
  by (simp add: addBytesWithLength_eq emitter_rules)

lemma out_addBytesWithLength [codec_simps]:
  "length v = n \<Longrightarrow> out (addBytesWithLength cb v n) = Some v"
  by (simp add: addBytesWithLength_eq codec_simps)

lemma addBytesWithLength_bad: "length v \<noteq> n \<Longrightarrow> \<exists>e. addBytesWithLength cb v n b = Inl e"
  by (simp add: addBytesWithLength_def AddValue)

lemma emitter_addUint64 [emitter_rules]: "emitter (addUint64 cb v)"
  unfolding addUint64_def by (intro emitter_rules)

lemma readUint64_addUint64 [codec_simps]:
  assumes "out (addUint64 cb v) = Some bs"
  shows "readUint64 cb (bs @ r) = Some (v, r)"
  using assms by (auto simp: addUint64_def readUint64_def codec_simps emitter_rules u64_split_join)

end


section \<open>Loops the parsers share\<close>

text \<open>
  \<open>for !extensions.Empty()\<close>, reading an extension number and its 16-bit length-prefixed
  data before the \<open>switch\<close>. The step is told whether more extensions follow.
\<close>

definition for_extensions :: "cryptobyte \<Rightarrow> (bool \<Rightarrow> u16 \<Rightarrow> bytes \<Rightarrow> 'st \<Rightarrow> 'st option) \<Rightarrow> bytes \<Rightarrow> 'st \<Rightarrow> 'st option" where
  "for_extensions cb step s st = while_nonempty (\<lambda>s st. do {
     (extension, s) \<leftarrow> ReadUint16 cb s;
     (extData, s) \<leftarrow> ReadUint16LengthPrefixed cb s;
     st \<leftarrow> step (s = []) extension extData st;
     Some (st, s) }) s st"

text \<open>\<open>for !s.Empty()\<close>, appending one value per round to a slice.\<close>

definition read_uint16s :: "cryptobyte \<Rightarrow> bytes \<Rightarrow> u16 list \<Rightarrow> u16 list option" where
  "read_uint16s cb s acc = while_nonempty (\<lambda>s acc. do {
     (v, s) \<leftarrow> ReadUint16 cb s;
     Some (acc @ [v], s) }) s acc"

definition read_vec8s :: "cryptobyte \<Rightarrow> bytes \<Rightarrow> bytes list \<Rightarrow> bytes list option" where
  "read_vec8s cb s acc = while_nonempty (\<lambda>s acc. do {
     (v, s) \<leftarrow> ReadUint8LengthPrefixed cb s;
     require (v \<noteq> []);
     Some (acc @ [v], s) }) s acc"

definition read_vec16s :: "cryptobyte \<Rightarrow> bytes \<Rightarrow> bytes list \<Rightarrow> bytes list option" where
  "read_vec16s cb s acc = while_nonempty (\<lambda>s acc. do {
     (v, s) \<leftarrow> readUint16LengthPrefixed cb s;
     require (v \<noteq> []);
     Some (acc @ [v], s) }) s acc"

definition ext_enc :: "u16 \<times> bytes \<Rightarrow> bytes" where
  "ext_enc = (\<lambda>(i, d). be16 i @ vec16 d)"

lemma fold_snoc: "fold (\<lambda>x acc. acc @ [x]) xs acc = acc @ xs"
  by (induction xs arbitrary: acc) auto

lemma concat_be16_Nil [simp]: "concat (map be16 vs) = [] \<longleftrightarrow> vs = []"
  by (cases vs) auto

lemma length_concat_be16 [simp]: "length (concat (map be16 vs)) = 2 * length vs"
  by (induction vs) auto

context cryptobyte_laws
begin

lemma for_extensions_items:
  assumes "\<forall>(i, d) \<in> set xs. length d < 65536"
  shows "for_extensions cb step (concat (map ext_enc xs)) st = run_items (\<lambda>l (i, d). step l i d) xs st"
proof -
  have "item_loop ext_enc (\<lambda>s st. do {
     (extension, s) \<leftarrow> ReadUint16 cb s;
     (extData, s) \<leftarrow> ReadUint16LengthPrefixed cb s;
     st \<leftarrow> step (s = []) extension extData st;
     Some (st, s) }) (\<lambda>l (i, d). step l i d) (\<lambda>(i, d). length d < 65536)"
    by unfold_locales
      (auto simp: ext_enc_def codec_simps map_conv_bind_option comp_def split: prod.splits)
  then show ?thesis
    unfolding for_extensions_def using assms by (rule item_loop.while_nonempty_items)
qed

lemma read_uint16s_enc [codec_simps]: "read_uint16s cb (concat (map be16 vs)) acc = Some (acc @ vs)"
proof -
  have "item_loop be16 (\<lambda>s acc. do { (v, s) \<leftarrow> ReadUint16 cb s; Some (acc @ [v], s) })
      (\<lambda>_ v acc. Some (acc @ [v])) (\<lambda>_. True)"
    by unfold_locales (auto simp: codec_simps)
  from item_loop.while_nonempty_items [OF this, of vs acc] show ?thesis
    unfolding read_uint16s_def by (simp add: run_items_fold fold_snoc)
qed

lemma read_vec8s_enc [codec_simps]:
  assumes "[] \<notin> set vs" "\<forall>v \<in> set vs. length v < 256"
  shows "read_vec8s cb (concat (map vec8 vs)) acc = Some (acc @ vs)"
proof -
  have "item_loop vec8 (\<lambda>s acc. do { (v, s) \<leftarrow> ReadUint8LengthPrefixed cb s; require (v \<noteq> []);
      Some (acc @ [v], s) }) (\<lambda>_ v acc. Some (acc @ [v])) (\<lambda>v. v \<noteq> [] \<and> length v < 256)"
    by unfold_locales (auto simp: codec_simps)
  from item_loop.while_nonempty_items [OF this, of vs acc] assms show ?thesis
    unfolding read_vec8s_def by (auto simp: run_items_fold fold_snoc)
qed

lemma read_vec16s_enc [codec_simps]:
  assumes "[] \<notin> set vs" "\<forall>v \<in> set vs. length v < 65536"
  shows "read_vec16s cb (concat (map vec16 vs)) acc = Some (acc @ vs)"
proof -
  have "item_loop vec16 (\<lambda>s acc. do { (v, s) \<leftarrow> readUint16LengthPrefixed cb s; require (v \<noteq> []);
      Some (acc @ [v], s) }) (\<lambda>_ v acc. Some (acc @ [v])) (\<lambda>v. v \<noteq> [] \<and> length v < 65536)"
    by unfold_locales (auto simp: codec_simps read_helpers)
  from item_loop.while_nonempty_items [OF this, of vs acc] assms show ?thesis
    unfolding read_vec16s_def by (auto simp: run_items_fold fold_snoc)
qed

text \<open>The matching serialiser loops.\<close>

lemma out_uint16s [codec_simps]: "out (stmts (map (AddUint16 cb) vs)) = Some (concat (map be16 vs))"
  by (rule out_stmts_map) (simp_all add: emitter_rules codec_simps)

lemma out_vec8s [codec_simps]:
  "out (stmts (map (\<lambda>v. AddUint8LengthPrefixed cb (AddBytes cb v)) vs))
    = (if \<forall>v \<in> set vs. length v < 256 then Some (concat (map vec8 vs)) else None)"
proof (induction vs)
  case (Cons v vs)
  have e: "emitter (stmts (map (\<lambda>v. AddUint8LengthPrefixed cb (AddBytes cb v)) vs))"
    by (rule emitter_stmts_map) (rule emitter_rules)
  show ?case
    using Cons by (simp add: codec_simps emitter_rules e)
qed (auto simp: codec_simps)

lemma out_vec16s [codec_simps]:
  "out (stmts (map (\<lambda>v. AddUint16LengthPrefixed cb (AddBytes cb v)) vs))
    = (if \<forall>v \<in> set vs. length v < 65536 then Some (concat (map vec16 vs)) else None)"
proof (induction vs)
  case (Cons v vs)
  have e: "emitter (stmts (map (\<lambda>v. AddUint16LengthPrefixed cb (AddBytes cb v)) vs))"
    by (rule emitter_stmts_map) (rule emitter_rules)
  show ?case
    using Cons by (simp add: codec_simps emitter_rules e)
qed (auto simp: codec_simps)

end


section \<open>Lists of extensions\<close>

text \<open>
  \<open>emits_exts f xs P\<close>: when the statement \<open>f\<close> succeeds, it appends the extensions
  \<open>xs\<close>, and \<open>P\<close> holds (the length conditions of the nested vectors). A serialiser's
  block of \<open>if\<close> statements is composed from one rule per extension, and parsing the
  result is one step per extension.
\<close>

definition emits_exts :: "(builder \<Rightarrow> builder) \<Rightarrow> (u16 \<times> bytes) list \<Rightarrow> bool \<Rightarrow> bool" where
  "emits_exts f xs P \<longleftrightarrow> emitter f \<and> (\<forall>bs. out f = Some bs \<longrightarrow>
     P \<and> (\<forall>(i, d) \<in> set xs. length d < 65536) \<and> bs = concat (map ext_enc xs))"

lemma emits_exts_Nil: "emits_exts (stmts []) [] True"
  by (simp add: emits_exts_def emitter_rules codec_simps)

lemma emits_exts_Cons:
  assumes "emits_exts f xs P" and "emits_exts (stmts fs) ys Q"
  shows "emits_exts (stmts (f # fs)) (xs @ ys) (P \<and> Q)"
  using assms unfolding emits_exts_def
  by (auto simp: emitter_rules out_stmts_Cons split: bind_splits)

lemma emits_exts_if:
  "emits_exts (stmts fs) xs P \<Longrightarrow> emits_exts (if_stmts c fs) (if c then xs else []) (c \<longrightarrow> P)"
  unfolding emits_exts_def by (auto simp: emitter_if_stmts out_if_stmts)

lemma emits_exts_out:
  "emits_exts f xs P \<Longrightarrow> out f = Some bs \<Longrightarrow>
    P \<and> (\<forall>(i, d) \<in> set xs. length d < 65536) \<and> bs = concat (map ext_enc xs)"
  unfolding emits_exts_def by blast

lemma emits_exts_emitter: "emits_exts f xs P \<Longrightarrow> emitter f"
  by (simp add: emits_exts_def)

lemma ext_enc_empty: "be16 i @ be16 0 = ext_enc (i, [])"
  by (simp add: ext_enc_def vec16_def)

lemma notin_optional:
  "i \<notin> set (map fst ((if c then [(j, d)] else []) @ ys)) \<longleftrightarrow> (c \<longrightarrow> i \<noteq> j) \<and> i \<notin> set (map fst ys)"
  by auto

lemma distinct_optional:
  "distinct (map fst ((if c then [(i, d)] else []) @ ys))
    \<longleftrightarrow> distinct (map fst ys) \<and> (c \<longrightarrow> i \<notin> set (map fst ys))"
  by auto

lemma concat_ext_enc_Nil: "concat (map ext_enc xs) = [] \<longleftrightarrow> xs = []"
  by (cases xs) (auto simp: ext_enc_def)

text \<open>
  Both hello messages keep a map \<open>seenExts\<close> and refuse an extension that occurs twice.
\<close>

definition with_seen :: "(bool \<Rightarrow> u16 \<Rightarrow> bytes \<Rightarrow> 'st \<Rightarrow> 'st option) \<Rightarrow>
    bool \<Rightarrow> u16 \<Rightarrow> bytes \<Rightarrow> u16 set \<times> 'st \<Rightarrow> (u16 set \<times> 'st) option" where
  "with_seen step isLast extension extData = (\<lambda>(seenExts, m).
     if extension \<in> seenExts then None
     else do { m \<leftarrow> step isLast extension extData m; Some (insert extension seenExts, m) })"

lemma run_items_with_seen:
  "run_items (\<lambda>l (i, d). with_seen step l i d) xs (S, m)
   = (if distinct (map fst xs) \<and> S \<inter> set (map fst xs) = {}
      then map_option (Pair (S \<union> set (map fst xs))) (run_items (\<lambda>l (i, d). step l i d) xs m) else None)"
proof (induction xs arbitrary: S m)
  case (Cons x xs)
  obtain i d where x: "x = (i, d)"
    by (cases x)
  show ?case
    using Cons by (cases "step (xs = []) i d m") (auto simp: x with_seen_def)
qed simp

context cryptobyte_laws
begin

lemma out_bad_length:
  assumes "length v \<noteq> n" and "emitter f" and "emitter (stmts gs)"
  shows "out (stmts (f # addBytesWithLength cb v n # gs)) = None"
proof -
  obtain e where "addBytesWithLength cb v n (f new_builder) = Inl e"
    using addBytesWithLength_bad [OF assms(1)] by blast
  then show ?thesis
    using emitter_Inl [OF assms(3)] by (simp add: out_def stmts.simps)
qed

lemma emits_ext_block:
  assumes "emitter f" and "\<And>bs. c \<Longrightarrow> out f = Some bs \<Longrightarrow> P \<and> bs = d"
  shows "emits_exts (if_stmts c [AddUint16 cb i, AddUint16LengthPrefixed cb f])
    (if c then [(i, d)] else []) (c \<longrightarrow> P)"
  using assms unfolding emits_exts_def
  by (auto simp: emitter_rules codec_simps ext_enc_def split: bind_splits if_splits)

lemma emits_ext_empty:
  "emits_exts (if_stmts c [AddUint16 cb i, AddUint16 cb 0]) (if c then [(i, [])] else []) True"
  unfolding emits_exts_def by (auto simp: emitter_rules codec_simps ext_enc_empty)

end


section \<open>The contract of a handshake message\<close>

text \<open>
  \<open>norm bs m\<close> is what \<open>unmarshal\<close> makes of the message \<open>m\<close> sent as \<open>bs\<close>: the message
  itself, except that some messages also remember the bytes they were parsed from.
  \<open>ok\<close> are the messages the wire format can carry.
\<close>

definition framed :: "u8 \<Rightarrow> bytes \<Rightarrow> bool" where
  "framed ty bs \<longleftrightarrow> (\<exists>payload. length payload < 16777216 \<and> bs = ty # vec24 payload)"

lemma framedI [simp]: "length p < 16777216 \<Longrightarrow> framed ty (ty # vec24 p)"
  by (auto simp: framed_def)

locale handshake_codec =
  fixes msg_type :: u8
    and marshal :: "'m \<Rightarrow> gerror + bytes"
    and unmarshal :: "bytes \<Rightarrow> 'm option"
    and norm :: "bytes \<Rightarrow> 'm \<Rightarrow> 'm"
    and ok :: "'m \<Rightarrow> bool"
  assumes roundtrip: "ok m \<Longrightarrow> marshal m = Inr bs \<Longrightarrow> unmarshal bs = Some (norm bs m)"
    and header: "ok m \<Longrightarrow> marshal m = Inr bs \<Longrightarrow> framed msg_type bs"
    and norm_inj: "ok m1 \<Longrightarrow> ok m2 \<Longrightarrow> norm bs m1 = norm bs m2 \<Longrightarrow> m1 = m2"
begin

lemma marshal_inj:
  assumes "ok m1" "ok m2" "marshal m1 = Inr bs" "marshal m2 = Inr bs"
  shows "m1 = m2"
  using roundtrip [OF assms(1,3)] roundtrip [OF assms(2,4)] norm_inj [OF assms(1,2)] by (metis option.inject)

text \<open>Messages on a stream can be told apart: the encoding is prefix free.\<close>

lemma prefix_free:
  assumes "ok m1" "ok m2" "marshal m1 = Inr b1" "marshal m2 = Inr b2" "b1 @ r1 = b2 @ r2"
  shows "m1 = m2 \<and> r1 = r2"
proof -
  obtain p1 p2 where p: "length p1 < 16777216" "b1 = msg_type # vec24 p1"
    "length p2 < 16777216" "b2 = msg_type # vec24 p2"
    using header [OF assms(1,3)] header [OF assms(2,4)] unfolding framed_def by blast
  have eq: "be24 (of_nat (length p1)) @ p1 @ r1 = be24 (of_nat (length p2)) @ p2 @ r2"
    using assms(5) p(2,4) by (simp add: vec24_def)
  then have "be24 (of_nat (length p1)) = be24 (of_nat (length p2))"
    by simp
  then have "length p1 = length p2"
    by (rule be24_len_inj [OF p(1,3)])
  then have "b1 = b2" "r1 = r2"
    using eq p(2,4) by (auto simp: vec24_def)
  then show ?thesis
    using marshal_inj assms by blast
qed

end


section \<open>Messages without a body\<close>

datatype endOfEarlyDataMsg = EndOfEarlyDataMsg
datatype serverHelloDoneMsg = ServerHelloDoneMsg
datatype helloRequestMsg = HelloRequestMsg

definition endOfEarlyDataMsg_marshal :: "endOfEarlyDataMsg \<Rightarrow> gerror + bytes" where
  "endOfEarlyDataMsg_marshal m =
     (case stmts [put 0 typeEndOfEarlyData] (make_bytes 4) of
        None \<Rightarrow> Inl (Panic ''index out of range'') | Some x \<Rightarrow> Inr x)"

definition endOfEarlyDataMsg_unmarshal :: "bytes \<Rightarrow> endOfEarlyDataMsg option" where
  "endOfEarlyDataMsg_unmarshal d = (if length d = 4 then Some EndOfEarlyDataMsg else None)"

definition serverHelloDoneMsg_marshal :: "serverHelloDoneMsg \<Rightarrow> gerror + bytes" where
  "serverHelloDoneMsg_marshal m =
     (case stmts [put 0 typeServerHelloDone] (make_bytes 4) of
        None \<Rightarrow> Inl (Panic ''index out of range'') | Some x \<Rightarrow> Inr x)"

definition serverHelloDoneMsg_unmarshal :: "bytes \<Rightarrow> serverHelloDoneMsg option" where
  "serverHelloDoneMsg_unmarshal d = (if length d = 4 then Some ServerHelloDoneMsg else None)"

definition helloRequestMsg_marshal :: "helloRequestMsg \<Rightarrow> gerror + bytes" where
  "helloRequestMsg_marshal m = Inr [typeHelloRequest, 0, 0, 0]"

definition helloRequestMsg_unmarshal :: "bytes \<Rightarrow> helloRequestMsg option" where
  "helloRequestMsg_unmarshal d = (if length d = 4 then Some HelloRequestMsg else None)"

lemma empty_messages_bytes:
  "endOfEarlyDataMsg_marshal m1 = Inr (typeEndOfEarlyData # vec24 [])"
  "serverHelloDoneMsg_marshal m2 = Inr (typeServerHelloDone # vec24 [])"
  "helloRequestMsg_marshal m3 = Inr (typeHelloRequest # vec24 [])"
  by (simp_all add: endOfEarlyDataMsg_marshal_def serverHelloDoneMsg_marshal_def helloRequestMsg_marshal_def
      stmts.simps make_bytes_def numeral_eq_Suc vec24_def be24_def)

interpretation endOfEarlyData: handshake_codec typeEndOfEarlyData endOfEarlyDataMsg_marshal
    endOfEarlyDataMsg_unmarshal "\<lambda>_ m. m" "\<lambda>_. True"
proof unfold_locales
  fix m bs assume "endOfEarlyDataMsg_marshal m = Inr bs"
  then show "endOfEarlyDataMsg_unmarshal bs = Some m" "framed typeEndOfEarlyData bs"
    by (cases m; auto simp: empty_messages_bytes endOfEarlyDataMsg_unmarshal_def)+
qed

interpretation serverHelloDone: handshake_codec typeServerHelloDone serverHelloDoneMsg_marshal
    serverHelloDoneMsg_unmarshal "\<lambda>_ m. m" "\<lambda>_. True"
proof unfold_locales
  fix m bs assume "serverHelloDoneMsg_marshal m = Inr bs"
  then show "serverHelloDoneMsg_unmarshal bs = Some m" "framed typeServerHelloDone bs"
    by (cases m; auto simp: empty_messages_bytes serverHelloDoneMsg_unmarshal_def)+
qed

interpretation helloRequest: handshake_codec typeHelloRequest helloRequestMsg_marshal
    helloRequestMsg_unmarshal "\<lambda>_ m. m" "\<lambda>_. True"
proof unfold_locales
  fix m bs assume "helloRequestMsg_marshal m = Inr bs"
  then show "helloRequestMsg_unmarshal bs = Some m" "framed typeHelloRequest bs"
    by (cases m; auto simp: empty_messages_bytes helloRequestMsg_unmarshal_def)+
qed


section \<open>Key update, finished, certificate status and certificate verify\<close>

record keyUpdateMsg =
  updateRequested :: bool

definition keyUpdateMsg_marshal :: "cryptobyte \<Rightarrow> keyUpdateMsg \<Rightarrow> gerror + bytes" where
  "keyUpdateMsg_marshal cb m = Bytes cb (stmts [
     AddUint8 cb typeKeyUpdate,
     AddUint24LengthPrefixed cb (if updateRequested m then AddUint8 cb 1 else AddUint8 cb 0)] new_builder)"

definition keyUpdateMsg_unmarshal :: "cryptobyte \<Rightarrow> bytes \<Rightarrow> keyUpdateMsg option" where
  "keyUpdateMsg_unmarshal cb d = do {
     s \<leftarrow> Skip cb d 4;
     (upd, s) \<leftarrow> ReadUint8 cb s;
     require (s = []);
     (if upd = 0 then Some \<lparr>updateRequested = False\<rparr>
      else if upd = 1 then Some \<lparr>updateRequested = True\<rparr>
      else None) }"

record finishedMsg =
  verifyData :: bytes

definition finishedMsg_marshal :: "cryptobyte \<Rightarrow> finishedMsg \<Rightarrow> gerror + bytes" where
  "finishedMsg_marshal cb m = Bytes cb (stmts [
     AddUint8 cb typeFinished,
     AddUint24LengthPrefixed cb (AddBytes cb (verifyData m))] new_builder)"

definition finishedMsg_unmarshal :: "cryptobyte \<Rightarrow> bytes \<Rightarrow> finishedMsg option" where
  "finishedMsg_unmarshal cb d = do {
     s \<leftarrow> Skip cb d 1;
     (v, s) \<leftarrow> readUint24LengthPrefixed cb s;
     require (s = []);
     Some \<lparr>verifyData = v\<rparr> }"

record certificateStatusMsg =
  response :: bytes

definition certificateStatusMsg_marshal :: "cryptobyte \<Rightarrow> certificateStatusMsg \<Rightarrow> gerror + bytes" where
  "certificateStatusMsg_marshal cb m = Bytes cb (stmts [
     AddUint8 cb typeCertificateStatus,
     AddUint24LengthPrefixed cb (stmts [
       AddUint8 cb statusTypeOCSP,
       AddUint24LengthPrefixed cb (AddBytes cb (response m))])] new_builder)"

definition certificateStatusMsg_unmarshal :: "cryptobyte \<Rightarrow> bytes \<Rightarrow> certificateStatusMsg option" where
  "certificateStatusMsg_unmarshal cb d = do {
     s \<leftarrow> Skip cb d 4;
     (statusType, s) \<leftarrow> ReadUint8 cb s;
     require (statusType = statusTypeOCSP);
     (r, s) \<leftarrow> readUint24LengthPrefixed cb s;
     require (r \<noteq> [] \<and> s = []);
     Some \<lparr>response = r\<rparr> }"

record certificateVerifyMsg =
  cv_hasSignatureAlgorithm :: bool
  signatureAlgorithm :: u16
  signature :: bytes

definition certificateVerifyMsg_marshal :: "cryptobyte \<Rightarrow> certificateVerifyMsg \<Rightarrow> gerror + bytes" where
  "certificateVerifyMsg_marshal cb m = Bytes cb (stmts [
     AddUint8 cb typeCertificateVerify,
     AddUint24LengthPrefixed cb (stmts [
       if_stmts (cv_hasSignatureAlgorithm m) [AddUint16 cb (signatureAlgorithm m)],
       AddUint16LengthPrefixed cb (AddBytes cb (signature m))])] new_builder)"

text \<open>The receiver carries \<open>hasSignatureAlgorithm\<close>; its \<open>signatureAlgorithm\<close> is zero.\<close>

definition certificateVerifyMsg_unmarshal :: "cryptobyte \<Rightarrow> bool \<Rightarrow> bytes \<Rightarrow> certificateVerifyMsg option" where
  "certificateVerifyMsg_unmarshal cb hasSigAlg d = do {
     s \<leftarrow> Skip cb d 4;
     (alg, s) \<leftarrow> (if hasSigAlg then ReadUint16 cb s else Some (0, s));
     (sig, s) \<leftarrow> readUint16LengthPrefixed cb s;
     require (s = []);
     Some \<lparr>cv_hasSignatureAlgorithm = hasSigAlg, signatureAlgorithm = alg, signature = sig\<rparr> }"

context cryptobyte_laws
begin

text \<open>
  A message that is a type byte and a 24-bit length-prefixed body: marshalling succeeds
  exactly when the body does and fits.
\<close>

lemma framed_message:
  "Bytes cb (stmts [AddUint8 cb ty, AddUint24LengthPrefixed cb f] new_builder) = Inr bs
    \<longleftrightarrow> (\<exists>p. out f = Some p \<and> length p < 16777216 \<and> bs = ty # vec24 p)"
  by (auto simp: Bytes_Inr codec_simps emitter_rules split: bind_splits if_splits)

lemma framed_ext_block:
  assumes "emits_exts f xs P"
    and "Bytes cb (stmts [AddUint8 cb ty, AddUint24LengthPrefixed cb (AddUint16LengthPrefixed cb f)] new_builder) = Inr bs"
  shows "P \<and> (\<forall>(i, d) \<in> set xs. length d < 65536) \<and> length (concat (map ext_enc xs)) < 65536
    \<and> bs = ty # vec24 (vec16 (concat (map ext_enc xs)))"
proof -
  have f: "emitter f"
    using assms(1) by (rule emits_exts_emitter)
  obtain p where "out f = Some p" "length p < 65536" "bs = ty # vec24 (vec16 p)"
    using assms(2) f by (auto simp: framed_message emitter_rules codec_simps split: bind_splits if_splits)
  then show ?thesis
    using emits_exts_out [OF assms(1)] by blast
qed

lemma skip_type [codec_simps]: "Skip cb (ty # r) (Suc 0) = Some r"
  by (simp add: Skip take_prefix_def)

lemma keyUpdate_roundtrip:
  assumes "keyUpdateMsg_marshal cb m = Inr bs"
  shows "keyUpdateMsg_unmarshal cb bs = Some m \<and> framed typeKeyUpdate bs"
  using assms by (cases m) (auto simp: keyUpdateMsg_marshal_def keyUpdateMsg_unmarshal_def framed_message
      emitter_rules codec_simps split: if_splits)

lemma finished_roundtrip:
  assumes "finishedMsg_marshal cb m = Inr bs"
  shows "finishedMsg_unmarshal cb bs = Some m \<and> framed typeFinished bs"
  using assms by (cases m) (auto simp: finishedMsg_marshal_def finishedMsg_unmarshal_def framed_message
      emitter_rules codec_simps read_helpers)

lemma certificateStatus_roundtrip:
  assumes "certificateStatusMsg_marshal cb m = Inr bs" and "response m \<noteq> []"
  shows "certificateStatusMsg_unmarshal cb bs = Some m
    \<and> framed typeCertificateStatus bs"
  using assms by (cases m) (auto simp: certificateStatusMsg_marshal_def certificateStatusMsg_unmarshal_def
      framed_message emitter_rules codec_simps read_helpers split: bind_splits if_splits)

lemma certificateVerify_roundtrip:
  assumes "certificateVerifyMsg_marshal cb m = Inr bs"
    and "cv_hasSignatureAlgorithm m \<or> signatureAlgorithm m = 0"
  shows "certificateVerifyMsg_unmarshal cb (cv_hasSignatureAlgorithm m) bs = Some m
    \<and> framed typeCertificateVerify bs"
  using assms by (cases m) (auto simp: certificateVerifyMsg_marshal_def certificateVerifyMsg_unmarshal_def
      framed_message emitter_rules codec_simps read_helpers split: bind_splits if_splits)

end

end
