(* ===== verification/Session_Messages.thy ===== *)
theory Session_Messages
  imports Handshake_Messages
begin

text \<open>
  New session tickets (TLS 1.2 and TLS 1.3), the key exchange messages, encrypted
  extensions with the fields uTLS adds to it, and the two uTLS messages.
\<close>

section \<open>Session tickets of TLS 1.3\<close>

record newSessionTicketMsgTLS13 =
  lifetime :: u32
  ageAdd :: u32
  nonce :: bytes
  label :: bytes
  maxEarlyData :: u32

definition newSessionTicketMsgTLS13_marshal :: "cryptobyte \<Rightarrow> newSessionTicketMsgTLS13 \<Rightarrow> gerror + bytes" where
  "newSessionTicketMsgTLS13_marshal cb m = Bytes cb (stmts [
     AddUint8 cb typeNewSessionTicket,
     AddUint24LengthPrefixed cb (stmts [
       AddUint32 cb (lifetime m),
       AddUint32 cb (ageAdd m),
       AddUint8LengthPrefixed cb (AddBytes cb (nonce m)),
       AddUint16LengthPrefixed cb (AddBytes cb (label m)),
       AddUint16LengthPrefixed cb (if_stmts (maxEarlyData m > 0) [
         AddUint16 cb extensionEarlyData,
         AddUint16LengthPrefixed cb (AddUint32 cb (maxEarlyData m))])])] new_builder)"

definition newSessionTicketTLS13_ext :: "cryptobyte \<Rightarrow> bool \<Rightarrow> u16 \<Rightarrow> bytes \<Rightarrow>
    newSessionTicketMsgTLS13 \<Rightarrow> newSessionTicketMsgTLS13 option" where
  "newSessionTicketTLS13_ext cb isLast extension extData m =
     (if extension = extensionEarlyData then do {
        (v, extData) \<leftarrow> ReadUint32 cb extData;
        require (extData = []);
        Some (m\<lparr>maxEarlyData := v\<rparr>) }
      else Some m)"

definition newSessionTicketMsgTLS13_unmarshal :: "cryptobyte \<Rightarrow> bytes \<Rightarrow> newSessionTicketMsgTLS13 option" where
  "newSessionTicketMsgTLS13_unmarshal cb d = do {
     s \<leftarrow> Skip cb d 4;
     (lt, s) \<leftarrow> ReadUint32 cb s;
     (aa, s) \<leftarrow> ReadUint32 cb s;
     (nc, s) \<leftarrow> readUint8LengthPrefixed cb s;
     (lb, s) \<leftarrow> readUint16LengthPrefixed cb s;
     (extensions, s) \<leftarrow> ReadUint16LengthPrefixed cb s;
     require (s = []);
     for_extensions cb (newSessionTicketTLS13_ext cb) extensions
       \<lparr>lifetime = lt, ageAdd = aa, nonce = nc, label = lb, maxEarlyData = 0\<rparr> }"


section \<open>Messages written into a byte slice\<close>

record newSessionTicketMsg =
  ticket :: bytes

definition newSessionTicketMsg_marshal :: "newSessionTicketMsg \<Rightarrow> gerror + bytes" where
  "newSessionTicketMsg_marshal m =
     (let ticketLen = length (ticket m); len = 2 + 4 + ticketLen in
      case stmts [
        put 0 typeNewSessionTicket,
        put 1 (hi24 len), put 2 (hi16 len), put 3 (of_nat len),
        put 8 (hi16 ticketLen), put 9 (of_nat ticketLen),
        copy_at 10 (ticket m)] (make_bytes (4 + len)) of
      None \<Rightarrow> Inl (Panic ''index out of range'') | Some x \<Rightarrow> Inr x)"

definition newSessionTicketMsg_unmarshal :: "bytes \<Rightarrow> newSessionTicketMsg option" where
  "newSessionTicketMsg_unmarshal d =
     (if length d < 10 then None
      else let len = u24_of (d ! 1) (d ! 2) (d ! 3) in
      if of_nat (length d) - 4 \<noteq> (len :: u32) then None
      else let ticketLen = push_bit 8 (unat (d ! 8)) + unat (d ! 9) in
      if length d - 10 \<noteq> ticketLen then None
      else Some \<lparr>ticket = drop 10 d\<rparr>)"

record serverKeyExchangeMsg =
  key :: bytes

definition serverKeyExchangeMsg_marshal :: "serverKeyExchangeMsg \<Rightarrow> gerror + bytes" where
  "serverKeyExchangeMsg_marshal m =
     (let len = length (key m) in
      case stmts [
        put 0 typeServerKeyExchange,
        put 1 (hi24 len), put 2 (hi16 len), put 3 (of_nat len),
        copy_at 4 (key m)] (make_bytes (len + 4)) of
      None \<Rightarrow> Inl (Panic ''index out of range'') | Some x \<Rightarrow> Inr x)"

definition serverKeyExchangeMsg_unmarshal :: "bytes \<Rightarrow> serverKeyExchangeMsg option" where
  "serverKeyExchangeMsg_unmarshal d = (if length d < 4 then None else Some \<lparr>key = drop 4 d\<rparr>)"

record clientKeyExchangeMsg =
  ciphertext :: bytes

definition clientKeyExchangeMsg_marshal :: "clientKeyExchangeMsg \<Rightarrow> gerror + bytes" where
  "clientKeyExchangeMsg_marshal m =
     (let len = length (ciphertext m) in
      case stmts [
        put 0 typeClientKeyExchange,
        put 1 (hi24 len), put 2 (hi16 len), put 3 (of_nat len),
        copy_at 4 (ciphertext m)] (make_bytes (len + 4)) of
      None \<Rightarrow> Inl (Panic ''index out of range'') | Some x \<Rightarrow> Inr x)"

definition clientKeyExchangeMsg_unmarshal :: "bytes \<Rightarrow> clientKeyExchangeMsg option" where
  "clientKeyExchangeMsg_unmarshal d =
     (if length d < 4 then None
      else let l = unat (u24_of (d ! 1) (d ! 2) (d ! 3)) in
      if l \<noteq> length d - 4 then None
      else Some \<lparr>ciphertext = drop 4 d\<rparr>)"

lemma make_bytes_4: "make_bytes (n + 4) = Some (0 # 0 # 0 # 0 # replicate n 0)"
  by (simp add: make_bytes_def numeral_eq_Suc)

lemma vec24_hi: "vec24 c = hi24 (length c) # hi16 (length c) # of_nat (length c) # c"
  by (simp add: vec24_def be24_of_nat)

lemma serverKeyExchangeMsg_bytes:
  "serverKeyExchangeMsg_marshal m = Inr (typeServerKeyExchange # vec24 (key m))"
  by (simp add: serverKeyExchangeMsg_marshal_def Let_def make_bytes_4 stmts.simps vec24_hi)

lemma clientKeyExchangeMsg_bytes:
  "clientKeyExchangeMsg_marshal m = Inr (typeClientKeyExchange # vec24 (ciphertext m))"
  by (simp add: clientKeyExchangeMsg_marshal_def Let_def make_bytes_4 stmts.simps vec24_hi)

lemma newSessionTicketMsg_bytes:
  "newSessionTicketMsg_marshal m = Inr (typeNewSessionTicket # vec24 ([0, 0, 0, 0] @ vec16 (ticket m)))"
proof -
  have "make_bytes (4 + (2 + 4 + n)) = Some (0 # 0 # 0 # 0 # 0 # 0 # 0 # 0 # 0 # 0 # replicate n 0)" for n
    by (simp add: make_bytes_def numeral_eq_Suc)
  then show ?thesis
    by (simp add: newSessionTicketMsg_marshal_def Let_def stmts.simps vec24_hi vec16_def be16_of_nat
        del: Num.add_numeral_left) (simp add: numeral_eq_Suc)
qed

lemma nth_vec24: "length p < 16777216 \<Longrightarrow>
    unat (u24_of (vec24 p ! 0) (vec24 p ! Suc 0) (vec24 p ! Suc (Suc 0))) = length p"
  using u24_of_len [of "length p"] by (simp add: vec24_def be24_def nth_append)

interpretation serverKeyExchange: handshake_codec typeServerKeyExchange serverKeyExchangeMsg_marshal
    serverKeyExchangeMsg_unmarshal "\<lambda>_ m. m" "\<lambda>m. length (key m) < 16777216"
proof unfold_locales
  fix m bs assume "length (key m) < 16777216" "serverKeyExchangeMsg_marshal m = Inr bs"
  then show "serverKeyExchangeMsg_unmarshal bs = Some m" "framed typeServerKeyExchange bs"
    by (auto simp: serverKeyExchangeMsg_bytes serverKeyExchangeMsg_unmarshal_def vec24_hi
        framed_def)
qed

interpretation clientKeyExchange: handshake_codec typeClientKeyExchange clientKeyExchangeMsg_marshal
    clientKeyExchangeMsg_unmarshal "\<lambda>_ m. m" "\<lambda>m. length (ciphertext m) < 16777216"
proof unfold_locales
  fix m bs assume l: "length (ciphertext m) < 16777216" and "clientKeyExchangeMsg_marshal m = Inr bs"
  then have bs: "bs = typeClientKeyExchange # vec24 (ciphertext m)"
    by (simp add: clientKeyExchangeMsg_bytes)
  then show "framed typeClientKeyExchange bs"
    using l by simp
  show "clientKeyExchangeMsg_unmarshal bs = Some m"
    using nth_vec24 [OF l] by (simp add: bs clientKeyExchangeMsg_unmarshal_def)
      (simp add: vec24_def be24_def)
qed

lemma newSessionTicketMsg_unmarshal_bytes:
  assumes "length tk < 65536"
  shows "newSessionTicketMsg_unmarshal (ty # vec24 ([0, 0, 0, 0] @ vec16 tk)) = Some \<lparr>ticket = tk\<rparr>"
proof -
  let ?d = "ty # vec24 ([0, 0, 0, 0] @ vec16 tk)"
  have d: "?d = ty # be24 (of_nat (length tk + 6)) @ [0, 0, 0, 0] @ be16 (of_nat (length tk)) @ tk"
    by (simp add: vec24_def vec16_def add.commute)
  have l: "length ?d = length tk + 10"
    by simp
  have "u24_of (?d ! 1) (?d ! 2) (?d ! 3) = of_nat (length tk + 6)"
    using u24_of_be24_len [of "length tk + 6"] assms unfolding d by (simp add: be24_def)
  moreover have "push_bit 8 (unat (?d ! 8)) + unat (?d ! 9) = length tk"
    using assms unat_of_nat16 [of "length tk"]
    unfolding d by (simp add: be24_def be16_def flip: unat_u16_of)
  moreover have "drop 10 ?d = tk"
    unfolding d by (simp add: be24_def be16_def)
  ultimately show ?thesis
    unfolding newSessionTicketMsg_unmarshal_def Let_def l by simp
qed

interpretation newSessionTicket: handshake_codec typeNewSessionTicket newSessionTicketMsg_marshal
    newSessionTicketMsg_unmarshal "\<lambda>_ m. m" "\<lambda>m. length (ticket m) < 65536"
proof unfold_locales
  fix m bs assume l: "length (ticket m) < 65536" and "newSessionTicketMsg_marshal m = Inr bs"
  then have bs: "bs = typeNewSessionTicket # vec24 ([0, 0, 0, 0] @ vec16 (ticket m))"
    by (simp add: newSessionTicketMsg_bytes)
  then show "newSessionTicketMsg_unmarshal bs = Some m"
    using newSessionTicketMsg_unmarshal_bytes [OF l, of typeNewSessionTicket] by simp
  show "framed typeNewSessionTicket bs"
    unfolding bs by (rule framedI) (use l in simp)
qed


section \<open>Encrypted extensions\<close>

record encryptedExtensionsMsg =
  ee_alpnProtocol :: bytes
  ee_quicTransportParameters :: "bytes option"
  ee_earlyData :: bool
  echRetryConfigs :: bytes
  ee_applicationSettings :: "bytes option"
  ee_applicationSettingsCodepoint :: u16
  ee_customExtension :: "bytes option"

definition encryptedExtensions_extensions :: "cryptobyte \<Rightarrow> encryptedExtensionsMsg \<Rightarrow> builder \<Rightarrow> builder" where
  "encryptedExtensions_extensions cb m = stmts [
       if_stmts (length (ee_alpnProtocol m) > 0) [
         AddUint16 cb extensionALPN,
         AddUint16LengthPrefixed cb (AddUint16LengthPrefixed cb (AddUint8LengthPrefixed cb
           (AddBytes cb (ee_alpnProtocol m))))],
       if_stmts (ee_quicTransportParameters m \<noteq> None) [
         AddUint16 cb extensionQUICTransportParameters,
         AddUint16LengthPrefixed cb (AddBytes cb (the (ee_quicTransportParameters m)))],
       if_stmts (ee_earlyData m) [
         AddUint16 cb extensionEarlyData,
         AddUint16 cb 0],
       if_stmts (length (echRetryConfigs m) > 0) [
         AddUint16 cb extensionEncryptedClientHello,
         AddUint16LengthPrefixed cb (AddBytes cb (echRetryConfigs m))]]"

definition encryptedExtensionsMsg_marshal :: "cryptobyte \<Rightarrow> encryptedExtensionsMsg \<Rightarrow> gerror + bytes" where
  "encryptedExtensionsMsg_marshal cb m = Bytes cb (stmts [
     AddUint8 cb typeEncryptedExtensions,
     AddUint24LengthPrefixed cb (AddUint16LengthPrefixed cb (encryptedExtensions_extensions cb m))] new_builder)"

definition utlsUnmarshal :: "u16 \<Rightarrow> bytes \<Rightarrow> encryptedExtensionsMsg \<Rightarrow> encryptedExtensionsMsg" where
  "utlsUnmarshal extension extData m =
     (if extension = utlsExtensionApplicationSettings \<or> extension = utlsExtensionApplicationSettingsNew
      then m\<lparr>ee_applicationSettingsCodepoint := extension, ee_applicationSettings := Some extData\<rparr>
      else m)"

definition encryptedExtensions_ext :: "cryptobyte \<Rightarrow> bool \<Rightarrow> u16 \<Rightarrow> bytes \<Rightarrow>
    encryptedExtensionsMsg \<Rightarrow> encryptedExtensionsMsg option" where
  "encryptedExtensions_ext cb isLast extension extData m =
     (if extension = extensionALPN then do {
        (protoList, extData) \<leftarrow> ReadUint16LengthPrefixed cb extData;
        require (protoList \<noteq> []);
        (proto, protoList) \<leftarrow> ReadUint8LengthPrefixed cb protoList;
        require (proto \<noteq> [] \<and> protoList = []);
        require (extData = []);
        Some (m\<lparr>ee_alpnProtocol := proto\<rparr>) }
      else if extension = extensionQUICTransportParameters then do {
        (q, extData) \<leftarrow> CopyBytes cb extData (length extData);
        require (extData = []);
        Some (m\<lparr>ee_quicTransportParameters := Some q\<rparr>) }
      else if extension = extensionEarlyData then do {
        require (extData = []);
        Some (m\<lparr>ee_earlyData := True\<rparr>) }
      else if extension = extensionEncryptedClientHello then do {
        (q, extData) \<leftarrow> CopyBytes cb extData (length extData);
        require (extData = []);
        Some (m\<lparr>echRetryConfigs := q\<rparr>) }
      else Some (utlsUnmarshal extension extData m))"

definition encryptedExtensionsMsg_zero :: encryptedExtensionsMsg where
  "encryptedExtensionsMsg_zero = \<lparr>ee_alpnProtocol = [], ee_quicTransportParameters = None,
     ee_earlyData = False, echRetryConfigs = [], ee_applicationSettings = None,
     ee_applicationSettingsCodepoint = 0, ee_customExtension = None\<rparr>"

definition encryptedExtensionsMsg_unmarshal :: "cryptobyte \<Rightarrow> bytes \<Rightarrow> encryptedExtensionsMsg option" where
  "encryptedExtensionsMsg_unmarshal cb d = do {
     s \<leftarrow> Skip cb d 4;
     (extensions, s) \<leftarrow> ReadUint16LengthPrefixed cb s;
     require (s = []);
     for_extensions cb (encryptedExtensions_ext cb) extensions encryptedExtensionsMsg_zero }"

section \<open>Messages of uTLS\<close>

abbreviation (input) utlsTypeCompressedCertificate :: u8 where "utlsTypeCompressedCertificate \<equiv> 25"
abbreviation (input) utlsFakeExtensionCustom :: u16 where "utlsFakeExtensionCustom \<equiv> 1234"

text \<open>
  \<open>marshal\<close> of these two messages keeps its result in the field \<open>raw\<close>, which it returns from then
  on; the model returns the message with this field. On an error \<open>Bytes\<close> returns nil.
\<close>

record utlsCompressedCertificateMsg =
  cc_raw :: "bytes option"
  algorithm :: u16
  uncompressedLength :: u32
  compressedCertificateMessage :: bytes

definition utlsCompressedCertificateMsg_marshal ::
    "cryptobyte \<Rightarrow> utlsCompressedCertificateMsg \<Rightarrow> (gerror + bytes) \<times> utlsCompressedCertificateMsg" where
  "utlsCompressedCertificateMsg_marshal cb m =
     (case cc_raw m of Some raw \<Rightarrow> (Inr raw, m)
      | None \<Rightarrow> let res = Bytes cb (stmts [
          AddUint8 cb utlsTypeCompressedCertificate,
          AddUint24LengthPrefixed cb (stmts [
            AddUint16 cb (algorithm m),
            AddUint24 cb (uncompressedLength m),
            AddUint24LengthPrefixed cb (AddBytes cb (compressedCertificateMessage m))])] new_builder)
          in (res, m\<lparr>cc_raw := (case res of Inl _ \<Rightarrow> None | Inr raw \<Rightarrow> Some raw)\<rparr>))"

definition utlsCompressedCertificateMsg_unmarshal ::
    "cryptobyte \<Rightarrow> bytes \<Rightarrow> utlsCompressedCertificateMsg option" where
  "utlsCompressedCertificateMsg_unmarshal cb d = do {
     s \<leftarrow> Skip cb d 4;
     (alg, s) \<leftarrow> ReadUint16 cb s;
     (ul, s) \<leftarrow> ReadUint24 cb s;
     (c, s) \<leftarrow> readUint24LengthPrefixed cb s;
     Some \<lparr>cc_raw = Some d, algorithm = alg, uncompressedLength = ul,
       compressedCertificateMessage = c\<rparr> }"

record utlsClientEncryptedExtensionsMsg =
  uee_raw :: "bytes option"
  uee_applicationSettings :: bytes
  uee_applicationSettingsCodepoint :: u16
  uee_customExtension :: bytes

definition utlsClientEncryptedExtensionsMsg_marshal ::
    "cryptobyte \<Rightarrow> utlsClientEncryptedExtensionsMsg \<Rightarrow> (gerror + bytes) \<times> utlsClientEncryptedExtensionsMsg" where
  "utlsClientEncryptedExtensionsMsg_marshal cb m =
     (case uee_raw m of Some raw \<Rightarrow> (Inr raw, m)
      | None \<Rightarrow> let res = Bytes cb (stmts [
          AddUint8 cb typeEncryptedExtensions,
          AddUint24LengthPrefixed cb (AddUint16LengthPrefixed cb (stmts [
            if_stmts (uee_applicationSettingsCodepoint m \<noteq> 0) [
              AddUint16 cb (uee_applicationSettingsCodepoint m),
              AddUint16LengthPrefixed cb (AddBytes cb (uee_applicationSettings m))],
            if_stmts (length (uee_customExtension m) > 0) [
              AddUint16 cb utlsFakeExtensionCustom,
              AddUint16LengthPrefixed cb (AddBytes cb (uee_customExtension m))]]))] new_builder)
          in (res, m\<lparr>uee_raw := (case res of Inl _ \<Rightarrow> None | Inr raw \<Rightarrow> Some raw)\<rparr>))"

definition utlsClientEncryptedExtensions_ext :: "bool \<Rightarrow> u16 \<Rightarrow> bytes \<Rightarrow>
    utlsClientEncryptedExtensionsMsg \<Rightarrow> utlsClientEncryptedExtensionsMsg option" where
  "utlsClientEncryptedExtensions_ext isLast extension extData m =
     (if extension = utlsExtensionApplicationSettings \<or> extension = utlsExtensionApplicationSettingsNew
      then Some (m\<lparr>uee_applicationSettingsCodepoint := extension, uee_applicationSettings := extData\<rparr>)
      else None)"

definition utlsClientEncryptedExtensionsMsg_unmarshal ::
    "cryptobyte \<Rightarrow> bytes \<Rightarrow> utlsClientEncryptedExtensionsMsg option" where
  "utlsClientEncryptedExtensionsMsg_unmarshal cb d = do {
     s \<leftarrow> Skip cb d 4;
     (extensions, s) \<leftarrow> ReadUint16LengthPrefixed cb s;
     require (s = []);
     for_extensions cb utlsClientEncryptedExtensions_ext extensions
       \<lparr>uee_raw = Some d, uee_applicationSettings = [], uee_applicationSettingsCodepoint = 0,
        uee_customExtension = []\<rparr> }"


text \<open>A second call returns what the first one has returned.\<close>

lemma marshal_again:
  "utlsCompressedCertificateMsg_marshal cb m = (res, m') \<Longrightarrow> utlsCompressedCertificateMsg_marshal cb m' = (res, m')"
  "utlsClientEncryptedExtensionsMsg_marshal cb u = (res, u') \<Longrightarrow> utlsClientEncryptedExtensionsMsg_marshal cb u' = (res, u')"
  by (auto simp: utlsCompressedCertificateMsg_marshal_def utlsClientEncryptedExtensionsMsg_marshal_def Let_def
      split: option.splits sum.splits)

section \<open>Round trips\<close>

text \<open>The extensions of an encrypted extensions message, as they stand on the wire.\<close>

definition encryptedExtensions_wire :: "encryptedExtensionsMsg \<Rightarrow> (u16 \<times> bytes) list" where
  "encryptedExtensions_wire m =
     (if length (ee_alpnProtocol m) > 0 then [(extensionALPN, vec16 (vec8 (ee_alpnProtocol m)))] else [])
     @ (if ee_quicTransportParameters m \<noteq> None
        then [(extensionQUICTransportParameters, the (ee_quicTransportParameters m))] else [])
     @ (if ee_earlyData m then [(extensionEarlyData, [])] else [])
     @ (if length (echRetryConfigs m) > 0 then [(extensionEncryptedClientHello, echRetryConfigs m)] else [])
     @ []"

definition clientEncryptedExtensions_wire :: "utlsClientEncryptedExtensionsMsg \<Rightarrow> (u16 \<times> bytes) list" where
  "clientEncryptedExtensions_wire m =
     (if uee_applicationSettingsCodepoint m \<noteq> 0
      then [(uee_applicationSettingsCodepoint m, uee_applicationSettings m)] else [])
     @ (if length (uee_customExtension m) > 0 then [(utlsFakeExtensionCustom, uee_customExtension m)] else []) @ []"

lemma not_positive_u32: "\<not> 0 < (v :: u32) \<longleftrightarrow> v = 0"
  using word_gt_0 [of v] by simp

context cryptobyte_laws
begin

lemma newSessionTicketTLS13_roundtrip:
  assumes "newSessionTicketMsgTLS13_marshal cb m = Inr bs"
  shows "newSessionTicketMsgTLS13_unmarshal cb bs = Some m \<and> framed typeNewSessionTicket bs"
proof -
  let ?f = "if_stmts (maxEarlyData m > 0) [AddUint16 cb extensionEarlyData,
         AddUint16LengthPrefixed cb (AddUint32 cb (maxEarlyData m))]"
  let ?xs = "if maxEarlyData m > 0 then [(extensionEarlyData, be32 (maxEarlyData m))] else []"
  have f: "emits_exts ?f ?xs (maxEarlyData m > 0 \<longrightarrow> True)"
    by (rule emits_ext_block) (simp_all add: emitter_rules codec_simps)
  have e: "emitter ?f"
    using f by (simp add: emits_exts_def)
  obtain p where p: "length p < 16777216" "bs = typeNewSessionTicket # vec24 p"
    and out: "out (stmts [AddUint32 cb (lifetime m), AddUint32 cb (ageAdd m),
       AddUint8LengthPrefixed cb (AddBytes cb (nonce m)), AddUint16LengthPrefixed cb (AddBytes cb (label m)),
       AddUint16LengthPrefixed cb ?f]) = Some p"
    using assms unfolding newSessionTicketMsgTLS13_marshal_def
    by (subst (asm) framed_message) (auto simp: emitter_rules)
  then obtain xb where xb: "out ?f = Some xb" "length xb < 65536"
    and p': "p = be32 (lifetime m) @ be32 (ageAdd m) @ vec8 (nonce m) @ vec16 (label m) @ vec16 xb"
    and l: "length (nonce m) < 256" "length (label m) < 65536"
    by (auto simp: emitter_rules codec_simps e simp del: out_if_stmts split: bind_splits if_splits)
  from emits_exts_out [OF f xb(1)] have
    x: "\<forall>(i, d) \<in> set ?xs. length d < 65536" "xb = concat (map ext_enc ?xs)" by auto
  have "for_extensions cb (newSessionTicketTLS13_ext cb) xb (m\<lparr>maxEarlyData := 0\<rparr>) = Some m"
    using x by (cases m) (auto simp: for_extensions_items newSessionTicketTLS13_ext_def codec_simps
        not_positive_u32 split: if_splits)
  then show ?thesis
    using p l xb(2) by (cases m) (simp add: newSessionTicketMsgTLS13_unmarshal_def p' codec_simps read_helpers)
qed

lemma encryptedExtensions_emits:
  "emits_exts (encryptedExtensions_extensions cb m)
    (encryptedExtensions_wire m)
    ((length (ee_alpnProtocol m) > 0 \<longrightarrow> length (ee_alpnProtocol m) < 256)
     \<and> (ee_quicTransportParameters m \<noteq> None \<longrightarrow> True) \<and> True
     \<and> (length (echRetryConfigs m) > 0 \<longrightarrow> True) \<and> True)"
  unfolding encryptedExtensions_wire_def encryptedExtensions_extensions_def
  by (intro emits_exts_Cons emits_exts_Nil emits_ext_block emits_ext_empty emitter_rules)
    (auto simp: codec_simps emitter_rules split: if_splits bind_splits)

lemma encryptedExtensions_parse:
  assumes "length (ee_alpnProtocol m) > 0 \<longrightarrow> length (ee_alpnProtocol m) < 256"
  shows "run_items (\<lambda>l (i, d). encryptedExtensions_ext cb l i d)
    (encryptedExtensions_wire m) encryptedExtensionsMsg_zero
   = Some (m\<lparr>ee_applicationSettings := None, ee_applicationSettingsCodepoint := 0, ee_customExtension := None\<rparr>)"
  (is "run_items ?step _ _ = _")
  using assms unfolding encryptedExtensions_wire_def
  by (intro run_items_optional
      [of _ ?step _ _ "encryptedExtensionsMsg_zero\<lparr>ee_alpnProtocol := ee_alpnProtocol m\<rparr>"]
      run_items_optional [of _ ?step _ _ "encryptedExtensionsMsg_zero\<lparr>ee_alpnProtocol := ee_alpnProtocol m,
        ee_quicTransportParameters := ee_quicTransportParameters m\<rparr>"]
      run_items_optional [of _ ?step _ _ "encryptedExtensionsMsg_zero\<lparr>ee_alpnProtocol := ee_alpnProtocol m,
        ee_quicTransportParameters := ee_quicTransportParameters m, ee_earlyData := ee_earlyData m\<rparr>"]
      run_items_optional [of _ ?step _ _ "encryptedExtensionsMsg_zero\<lparr>ee_alpnProtocol := ee_alpnProtocol m,
        ee_quicTransportParameters := ee_quicTransportParameters m, ee_earlyData := ee_earlyData m,
        echRetryConfigs := echRetryConfigs m\<rparr>"])
    (auto simp: encryptedExtensions_ext_def encryptedExtensionsMsg_zero_def codec_simps)

lemma encryptedExtensions_roundtrip:
  assumes "encryptedExtensionsMsg_marshal cb m = Inr bs"
  shows "encryptedExtensionsMsg_unmarshal cb bs = Some (m\<lparr>ee_applicationSettings := None,
      ee_applicationSettingsCodepoint := 0, ee_customExtension := None\<rparr>)
    \<and> framed typeEncryptedExtensions bs"
  using framed_ext_block [OF encryptedExtensions_emits assms [unfolded encryptedExtensionsMsg_marshal_def]]
    encryptedExtensions_parse [of m]
  by (simp add: encryptedExtensionsMsg_unmarshal_def codec_simps for_extensions_items)

lemma compressedCertificate_roundtrip:
  assumes "fst (utlsCompressedCertificateMsg_marshal cb m) = Inr bs" "cc_raw m = None"
    and "unat (uncompressedLength m) < 2 ^ 24"
  shows "utlsCompressedCertificateMsg_unmarshal cb bs = Some (m\<lparr>cc_raw := Some bs\<rparr>)
    \<and> framed utlsTypeCompressedCertificate bs"
proof -
  have r24: "ReadUint24 cb (be24 w @ r) = Some (w, r)" if "unat w < 2 ^ 24" for w r
    using u24_of_be24 [OF that] by (simp add: ReadUint24 be24_def)
  show ?thesis
    using assms by (cases m) (auto simp: utlsCompressedCertificateMsg_marshal_def Let_def
        utlsCompressedCertificateMsg_unmarshal_def framed_message emitter_rules codec_simps read_helpers r24
        split: bind_splits if_splits)
qed

lemma clientEncryptedExtensions_emits:
  "emits_exts (stmts [
      if_stmts (uee_applicationSettingsCodepoint m \<noteq> 0) [
        AddUint16 cb (uee_applicationSettingsCodepoint m),
        AddUint16LengthPrefixed cb (AddBytes cb (uee_applicationSettings m))],
      if_stmts (length (uee_customExtension m) > 0) [
        AddUint16 cb utlsFakeExtensionCustom,
        AddUint16LengthPrefixed cb (AddBytes cb (uee_customExtension m))]])
    (clientEncryptedExtensions_wire m)
    ((uee_applicationSettingsCodepoint m \<noteq> 0 \<longrightarrow> True) \<and> (length (uee_customExtension m) > 0 \<longrightarrow> True) \<and> True)"
  unfolding clientEncryptedExtensions_wire_def
  by (intro emits_exts_Cons emits_exts_Nil emits_ext_block emitter_rules) (auto simp: codec_simps)

lemma clientEncryptedExtensions_parse:
  assumes "uee_applicationSettingsCodepoint m \<in> {0, utlsExtensionApplicationSettings, utlsExtensionApplicationSettingsNew}"
    and "uee_applicationSettingsCodepoint m = 0 \<longrightarrow> uee_applicationSettings m = []"
  shows "run_items (\<lambda>l (i, d). utlsClientEncryptedExtensions_ext l i d) (clientEncryptedExtensions_wire m)
      \<lparr>uee_raw = Some bs, uee_applicationSettings = [], uee_applicationSettingsCodepoint = 0,
        uee_customExtension = []\<rparr>
    = (if uee_customExtension m = [] then Some (m\<lparr>uee_raw := Some bs\<rparr>) else None)"
  using assms by (cases m) (auto simp: clientEncryptedExtensions_wire_def utlsClientEncryptedExtensions_ext_def)

text \<open>
  The custom extension is sent but the parser refuses it; without it the message round trips.
\<close>

lemma clientEncryptedExtensions_unmarshal:
  assumes "fst (utlsClientEncryptedExtensionsMsg_marshal cb m) = Inr bs" "uee_raw m = None"
    and "uee_applicationSettingsCodepoint m \<in> {0, utlsExtensionApplicationSettings, utlsExtensionApplicationSettingsNew}"
    and "uee_applicationSettingsCodepoint m = 0 \<longrightarrow> uee_applicationSettings m = []"
  shows "utlsClientEncryptedExtensionsMsg_unmarshal cb bs
      = (if uee_customExtension m = [] then Some (m\<lparr>uee_raw := Some bs\<rparr>) else None)
    \<and> framed typeEncryptedExtensions bs"
  using framed_ext_block [OF clientEncryptedExtensions_emits, of typeEncryptedExtensions m bs] assms(1,2)
    clientEncryptedExtensions_parse [OF assms(3,4), of bs]
  by (simp add: utlsClientEncryptedExtensionsMsg_marshal_def utlsClientEncryptedExtensionsMsg_unmarshal_def
      codec_simps for_extensions_items Let_def)

end

section \<open>Properties\<close>

text \<open>
  C29. Encrypted extensions: whatever \<open>encryptedExtensionsMsg.marshal\<close> produces is parsed back
  by \<open>encryptedExtensionsMsg.unmarshal\<close> to the same message, up to the fields of uTLS that the
  server's message does not carry.
\<close>

theorem encryptedExtensions_parse_marshal:
  assumes "cryptobyte_laws cb" and "encryptedExtensionsMsg_marshal cb m = Inr bs"
  shows "encryptedExtensionsMsg_unmarshal cb bs = Some (m\<lparr>ee_applicationSettings := None,
      ee_applicationSettingsCodepoint := 0, ee_customExtension := None\<rparr>)"
  using cryptobyte_laws.encryptedExtensions_roundtrip [OF assms] by simp

theorem encryptedExtensions_parse_marshal_witness:
  "\<exists>bs. encryptedExtensionsMsg_marshal cb_ref (encryptedExtensionsMsg_zero
      \<lparr>ee_alpnProtocol := [104, 50], ee_earlyData := True\<rparr>) = Inr bs
    \<and> encryptedExtensionsMsg_unmarshal cb_ref bs = Some (encryptedExtensionsMsg_zero
      \<lparr>ee_alpnProtocol := [104, 50], ee_earlyData := True\<rparr>)"
proof -
  let ?m = "encryptedExtensionsMsg_zero\<lparr>ee_alpnProtocol := [104, 50], ee_earlyData := True\<rparr>"
  obtain bs where bs: "encryptedExtensionsMsg_marshal cb_ref ?m = Inr bs"
    by (simp add: encryptedExtensionsMsg_marshal_def encryptedExtensions_extensions_def encryptedExtensionsMsg_zero_def
        cb_eval)
  then show ?thesis
    using encryptedExtensions_parse_marshal [OF ref.cryptobyte_laws_axioms bs]
    by (simp add: encryptedExtensionsMsg_zero_def)
qed

text \<open>
  C30. Session tickets of TLS 1.3: whatever \<open>newSessionTicketMsgTLS13.marshal\<close> produces is parsed
  back by \<open>newSessionTicketMsgTLS13.unmarshal\<close> to the same message.
\<close>

theorem newSessionTicketTLS13_parse_marshal:
  assumes "cryptobyte_laws cb" and "newSessionTicketMsgTLS13_marshal cb m = Inr bs"
  shows "newSessionTicketMsgTLS13_unmarshal cb bs = Some m"
  using cryptobyte_laws.newSessionTicketTLS13_roundtrip [OF assms] by blast

theorem newSessionTicketTLS13_parse_marshal_witness:
  "\<exists>m bs. newSessionTicketMsgTLS13_marshal cb_ref m = Inr bs \<and> newSessionTicketMsgTLS13_unmarshal cb_ref bs = Some m
    \<and> maxEarlyData m = 16"
proof -
  let ?m = "\<lparr>lifetime = 7200, ageAdd = 77, nonce = [1], label = [2, 3], maxEarlyData = 16\<rparr>"
  obtain bs where bs: "newSessionTicketMsgTLS13_marshal cb_ref ?m = Inr bs"
    by (simp add: newSessionTicketMsgTLS13_marshal_def cb_eval be32_def)
  from newSessionTicketTLS13_parse_marshal [OF ref.cryptobyte_laws_axioms bs] bs show ?thesis
    by fastforce
qed

text \<open>
  C31. The client's encrypted extensions of uTLS: without a custom extension the message that
  \<open>utlsClientEncryptedExtensionsMsg.marshal\<close> produces is parsed back to the message that
  \<open>marshal\<close> leaves, the original one with the bytes in \<open>raw\<close>; with one, the parser of the same
  message type refuses it.
\<close>

theorem clientEncryptedExtensions_parse_marshal:
  assumes "cryptobyte_laws cb" and "utlsClientEncryptedExtensionsMsg_marshal cb m = (Inr bs, m')" and "uee_raw m = None"
    and "uee_applicationSettingsCodepoint m
      \<in> {0, utlsExtensionApplicationSettings, utlsExtensionApplicationSettingsNew}"
    and "uee_applicationSettingsCodepoint m = 0 \<longrightarrow> uee_applicationSettings m = []"
  shows "m' = m\<lparr>uee_raw := Some bs\<rparr>
    \<and> utlsClientEncryptedExtensionsMsg_unmarshal cb bs = (if uee_customExtension m = [] then Some m' else None)"
proof -
  have "m' = m\<lparr>uee_raw := Some bs\<rparr>"
    using assms(2,3) by (auto simp: utlsClientEncryptedExtensionsMsg_marshal_def Let_def)
  moreover have "fst (utlsClientEncryptedExtensionsMsg_marshal cb m) = Inr bs"
    using assms(2) by simp
  ultimately show ?thesis
    using cryptobyte_laws.clientEncryptedExtensions_unmarshal [OF assms(1) _ assms(3-5)] by blast
qed

theorem clientEncryptedExtensions_parse_marshal_witness:
  "\<exists>bs m'. utlsClientEncryptedExtensionsMsg_marshal cb_ref \<lparr>uee_raw = None, uee_applicationSettings = [5],
      uee_applicationSettingsCodepoint = utlsExtensionApplicationSettingsNew, uee_customExtension = [9]\<rparr> = (Inr bs, m')
    \<and> uee_raw m' = Some bs \<and> utlsClientEncryptedExtensionsMsg_unmarshal cb_ref bs = None"
proof -
  let ?m = "\<lparr>uee_raw = None, uee_applicationSettings = [5],
      uee_applicationSettingsCodepoint = utlsExtensionApplicationSettingsNew, uee_customExtension = [9]\<rparr>"
  obtain bs m' where bs: "utlsClientEncryptedExtensionsMsg_marshal cb_ref ?m = (Inr bs, m')"
    by (simp add: utlsClientEncryptedExtensionsMsg_marshal_def cb_eval Let_def)
  from clientEncryptedExtensions_parse_marshal [OF ref.cryptobyte_laws_axioms bs] bs show ?thesis
    by simp
qed

end
