(* ===== verification/Certificate_Messages.thy ===== *)
theory Certificate_Messages
  imports Session_Messages
begin

text \<open>
  The certificate and certificate request messages of TLS 1.2, which are written and read
  through a moving slice \<open>y\<close> of the message buffer, and those of TLS 1.3 with the
  certificate encoding \<open>marshalCertificate\<close> that session tickets share.
\<close>

section \<open>Moving slices\<close>

text \<open>
  After \<open>y := x[n:]\<close> the slices \<open>x\<close> and \<open>y\<close> share their elements. The pair \<open>(p, y)\<close> is the
  buffer \<open>x = p @ y\<close>: writes go through \<open>y\<close>, and \<open>y = y[n:]\<close> moves the border. \<open>None\<close> is a panic.
\<close>

type_synonym cursor = "(bytes \<times> bytes) option"

definition slice_from :: "nat \<Rightarrow> bytes option \<Rightarrow> cursor" where
  "slice_from n b = do { x \<leftarrow> b; if n \<le> length x then Some (take n x, drop n x) else None }"

definition put_y :: "nat \<Rightarrow> u8 \<Rightarrow> cursor \<Rightarrow> cursor" where
  "put_y i v c = do { (p, y) \<leftarrow> c; y \<leftarrow> put i v (Some y); Some (p, y) }"

definition copy_y :: "nat \<Rightarrow> bytes \<Rightarrow> cursor \<Rightarrow> cursor" where
  "copy_y i src c = do { (p, y) \<leftarrow> c; y \<leftarrow> copy_at i src (Some y); Some (p, y) }"

definition advance_y :: "nat \<Rightarrow> cursor \<Rightarrow> cursor" where
  "advance_y n c = do { (p, y) \<leftarrow> c; if n \<le> length y then Some (p @ take n y, drop n y) else None }"

definition buffer_of :: "cursor \<Rightarrow> gerror + bytes" where
  "buffer_of c = (case c of None \<Rightarrow> Inl (Panic ''index out of range'') | Some (p, y) \<Rightarrow> Inr (p @ y))"

lemma split_at: "n \<le> length y \<Longrightarrow> \<exists>a b. y = a @ b \<and> length a = n"
  by (metis append_take_drop_id length_take min.absorb2)

text \<open>A run of index assignments at the front of \<open>y\<close>, then a \<open>copy\<close>, then the move.\<close>

lemma write_vec24:
  assumes "3 + length s \<le> length y"
  shows "stmts [put_y 0 (hi24 (length s)), put_y 1 (hi16 (length s)), put_y 2 (of_nat (length s)),
      copy_y 3 s, advance_y (3 + length s)] (Some (p, y)) = Some (p @ vec24 s, drop (3 + length s) y)"
proof -
  obtain a b where y: "y = a @ b" and "length a = 3 + length s"
    using split_at [OF assms] by auto
  then obtain x0 x1 x2 z where "a = x0 # x1 # x2 # z" and "length z = length s"
    by (auto simp: numeral_eq_Suc length_Suc_conv)
  then show ?thesis
    by (simp add: y stmts.simps put_y_def copy_y_def advance_y_def vec24_def be24_of_nat numeral_3_eq_3)
qed

lemma write_vec16:
  assumes "2 + length s \<le> length y"
  shows "stmts [put_y 0 (hi16 (length s)), put_y 1 (of_nat (length s)), advance_y 2, copy_y 0 s,
      advance_y (length s)] (Some (p, y)) = Some (p @ vec16 s, drop (2 + length s) y)"
proof -
  obtain a b where y: "y = a @ b" and "length a = 2 + length s"
    using split_at [OF assms] by auto
  then obtain x0 x1 z where "a = x0 # x1 # z" and "length z = length s"
    by (auto simp: numeral_eq_Suc length_Suc_conv)
  then show ?thesis
    by (simp add: y stmts.simps put_y_def copy_y_def advance_y_def vec16_def be16_of_nat)
qed

lemma write_2:
  assumes "2 \<le> length y"
  shows "stmts [put_y 0 u, put_y 1 v, advance_y 2] (Some (p, y)) = Some (p @ [u, v], drop 2 y)"
proof -
  obtain a b where y: "y = a @ b" and "length a = 2"
    using split_at [OF assms] by auto
  then obtain x0 x1 where "a = [x0, x1]"
    by (auto simp: numeral_eq_Suc length_Suc_conv)
  then show ?thesis
    by (simp add: y stmts.simps put_y_def advance_y_def)
qed

text \<open>A \<open>range\<close> loop whose body writes the encoding of one element and moves past it.\<close>

lemma write_loop:
  assumes "\<And>x p y. length (enc x) \<le> length y \<Longrightarrow> body x (Some (p, y)) = Some (p @ enc x, drop (length (enc x)) y)"
    and "length (concat (map enc xs)) \<le> length y"
  shows "stmts (map body xs) (Some (p, y))
    = Some (p @ concat (map enc xs), drop (length (concat (map enc xs))) y)"
  using assms(2)
proof (induction xs arbitrary: p y)
  case (Cons x xs)
  then show ?case
    using assms(1) [of x y p] by (simp add: stmts.simps add.commute)
qed (simp add: stmts.simps)


section \<open>The certificate message of TLS 1.2\<close>

record certificateMsg =
  certificates :: "bytes list"

definition certificateMsg_marshal :: "certificateMsg \<Rightarrow> gerror + bytes" where
  "certificateMsg_marshal m =
     (let i = sum_list (map length (certificates m));
          len = 3 + 3 * length (certificates m) + i;
          certificateOctets = len - 3;
          x = stmts [
            put 0 typeCertificate,
            put 1 (hi24 len), put 2 (hi16 len), put 3 (of_nat len),
            put 4 (hi24 certificateOctets), put 5 (hi16 certificateOctets), put 6 (of_nat certificateOctets)]
            (make_bytes (4 + len))
      in buffer_of (stmts (map (\<lambda>slice. stmts [
           put_y 0 (hi24 (length slice)), put_y 1 (hi16 (length slice)), put_y 2 (of_nat (length slice)),
           copy_y 3 slice,
           advance_y (3 + length slice)]) (certificates m)) (slice_from 7 x)))"

text \<open>The first pass counts the certificates, the second one, which has no checks, slices them.\<close>

function count_certs :: "u32 \<Rightarrow> bytes \<Rightarrow> nat \<Rightarrow> nat option" where
  "count_certs certsLen d numCerts =
     (if certsLen > 0 then
        if length d < 4 then None
        else let certLen = u24_of (d ! 0) (d ! 1) (d ! 2) in
        if (of_nat (length d) :: u32) < 3 + certLen then None
        else count_certs (certsLen - (3 + certLen)) (drop (unat (3 + certLen)) d) (numCerts + 1)
      else Some numCerts)"
  by pat_completeness auto

lemma u24_plus_3: "unat (3 + u24_of a b c) = 3 + unat (u24_of a b c)"
  using unat_u24_of_less [of a b c] by (simp add: unat_word_ariths)

termination count_certs
  by (relation "measure (\<lambda>(_, d, _). length d)") (auto simp: u24_plus_3)

fun slice_certs :: "nat \<Rightarrow> bytes \<Rightarrow> bytes list option" where
  "slice_certs 0 d = Some []"
| "slice_certs (Suc n) d =
     (if length d < 3 then None
      else let certLen = u24_of (d ! 0) (d ! 1) (d ! 2) in
      if length d < unat (3 + certLen) then None
      else do {
        certs \<leftarrow> slice_certs n (drop (unat (3 + certLen)) d);
        Some (take (unat certLen) (drop 3 d) # certs) })"

definition certificateMsg_unmarshal :: "bytes \<Rightarrow> certificateMsg option" where
  "certificateMsg_unmarshal d =
     (if length d < 7 then None
      else let certsLen = u24_of (d ! 4) (d ! 5) (d ! 6) in
      if (of_nat (length d) :: u32) \<noteq> certsLen + 7 then None
      else do {
        numCerts \<leftarrow> count_certs certsLen (drop 7 d) 0;
        certs \<leftarrow> slice_certs numCerts (drop 7 d);
        Some \<lparr>certificates = certs\<rparr> })"

declare count_certs.simps [simp del]

lemma length_concat_vec24: "length (concat (map vec24 cs)) = 3 * length cs + sum_list (map length cs)"
  by (induction cs) auto

lemma certificateMsg_bytes:
  "certificateMsg_marshal m = Inr (typeCertificate # vec24 (vec24 (concat (map vec24 (certificates m)))))"
proof -
  let ?w = "concat (map vec24 (certificates m))"
  have l: "3 * length (certificates m) + sum_list (map length (certificates m)) = length ?w"
    by (simp add: length_concat_vec24)
  have x: "make_bytes (4 + (3 + n)) = Some (0 # 0 # 0 # 0 # 0 # 0 # 0 # replicate n 0)" for n
    by (simp add: make_bytes_def numeral_eq_Suc)
  have w: "stmts (map (\<lambda>slice. stmts [put_y 0 (hi24 (length slice)), put_y 1 (hi16 (length slice)),
         put_y 2 (of_nat (length slice)), copy_y 3 slice, advance_y (3 + length slice)]) (certificates m))
        (Some (p, replicate (length ?w) 0)) = Some (p @ ?w, [])" for p
    by (subst write_loop [of vec24]) (use write_vec24 in \<open>simp_all add: add.commute\<close>)
  have v: "vec24 (vec24 ?w) = hi24 (3 + length ?w) # hi16 (3 + length ?w) # of_nat (3 + length ?w)
      # hi24 (length ?w) # hi16 (length ?w) # of_nat (length ?w) # ?w"
    unfolding vec24_hi [of "vec24 ?w"] length_vec by (simp add: vec24_hi add.commute)
  show ?thesis
    unfolding certificateMsg_marshal_def Let_def add.assoc l x v
    by (simp add: stmts.simps slice_from_def w [unfolded One_nat_def] buffer_of_def del: of_nat_add)
qed

lemma take_vec24: "take (length c) (drop 3 (vec24 c @ r)) = c" "drop (3 + length c) (vec24 c @ r) = r"
  by (simp_all add: vec24_def be24_def numeral_3_eq_3)

lemma head_vec24:
  "length c < 16777216 \<Longrightarrow>
    u24_of ((vec24 c @ r) ! 0) ((vec24 c @ r) ! 1) ((vec24 c @ r) ! 2) = of_nat (length c)"
  using u24_of_be24_len [of "length c"] by (simp add: vec24_def be24_def)

lemma unat_of_nat32: "n < 4294967296 \<Longrightarrow> unat (of_nat n :: u32) = n"
  by (simp add: unat_of_nat)

lemma of_nat32_neq_0: "0 < n \<Longrightarrow> n < 4294967296 \<Longrightarrow> (of_nat n :: u32) \<noteq> 0"
  using unat_of_nat32 [of n] by auto

lemma of_nat32_less: "n < 4294967296 \<Longrightarrow> m < 4294967296 \<Longrightarrow> (of_nat n :: u32) < of_nat m \<longleftrightarrow> n < m"
  by (simp add: word_less_nat_alt unat_of_nat32)

lemma vec24_u24:
  assumes "3 \<le> length d" and "unat (u24_of (d ! 0) (d ! 1) (d ! 2)) = n" and "3 + n \<le> length d"
  shows "vec24 (take n (drop 3 d)) = take (3 + n) d"
proof -
  obtain a b c r where d: "d = a # b # c # r"
    using assms(1) by (cases d; cases "tl d"; cases "tl (tl d)") auto
  have "be24 (of_nat n) = [a, b, c]"
    using assms(2) be24_u24_of [of a b c] by (auto simp: d)
  then show ?thesis
    using assms(3) by (simp add: d vec24_def min_def numeral_3_eq_3)
qed

lemma count_certs_vec24:
  assumes "length (concat (map vec24 cs)) < 16777216" and "cs \<noteq> [] \<longrightarrow> last cs \<noteq> []"
  shows "count_certs (of_nat (length (concat (map vec24 cs)))) (concat (map vec24 cs)) n = Some (n + length cs)"
  using assms
proof (induction cs arbitrary: n)
  case (Cons c cs)
  let ?r = "concat (map vec24 cs)"
  have c: "length c < 16777216" "length c + length ?r + 3 < 16777216"
    using Cons.prems by auto
  have IH: "count_certs (of_nat (length ?r)) ?r (n + 1) = Some (n + 1 + length cs)"
    using Cons by (cases cs) auto
  have "4 \<le> length (vec24 c @ ?r)"
    using Cons.prems(2) by (cases cs; cases c) auto
  moreover have "\<not> of_nat (length (vec24 c @ ?r)) < (3 + of_nat (length c) :: u32)"
    using c of_nat32_less [of "length c + 3 + length ?r" "3 + length c"] by simp
  moreover have "(of_nat (length (vec24 c @ ?r)) :: u32) \<noteq> 0"
    by (rule of_nat32_neq_0) (use c in simp_all)
  moreover have "unat (3 + of_nat (length c) :: u32) = 3 + length c"
    using c unat_of_nat32 [of "3 + length c"] by simp
  ultimately show ?case
    using IH head_vec24 [OF c(1), of ?r] take_vec24 [of c ?r]
    by (subst count_certs.simps) (auto simp: Let_def word_gt_0 add.commute)
qed (simp add: count_certs.simps)

lemma slice_certs_vec24:
  "\<forall>c \<in> set cs. length c < 16777216 \<Longrightarrow> slice_certs (length cs) (concat (map vec24 cs)) = Some cs"
proof (induction cs)
  case (Cons c cs)
  then show ?case
    using head_vec24 [of c "concat (map vec24 cs)"] take_vec24 [of c "concat (map vec24 cs)"]
      unat_of_nat32 [of "length c"] unat_of_nat32 [of "3 + length c"]
    by (simp add: Let_def)
qed simp

lemma nth_4_6: "(ty # vec24 (vec24 p)) ! 4 = vec24 p ! 0" "(ty # vec24 (vec24 p)) ! 5 = vec24 p ! 1"
  "(ty # vec24 (vec24 p)) ! 6 = vec24 p ! 2" "drop 7 (ty # vec24 (vec24 p)) = p"
  by (simp_all add: vec24_def be24_def numeral_eq_Suc)

interpretation certificate: handshake_codec typeCertificate certificateMsg_marshal
    certificateMsg_unmarshal "\<lambda>_ m. m"
    "\<lambda>m. length (concat (map vec24 (certificates m))) < 16777213
         \<and> (certificates m \<noteq> [] \<longrightarrow> last (certificates m) \<noteq> [])"
proof unfold_locales
  fix m :: certificateMsg and bs
  let ?w = "concat (map vec24 (certificates m))"
  assume l: "length ?w < 16777213 \<and> (certificates m \<noteq> [] \<longrightarrow> last (certificates m) \<noteq> [])"
    and "certificateMsg_marshal m = Inr bs"
  then have bs: "bs = typeCertificate # vec24 (vec24 ?w)"
    by (simp add: certificateMsg_bytes)
  then show "framed typeCertificate bs"
    using l by simp
  have "length c < 16777216" if "c \<in> set (certificates m)" for c
    using l member_le_sum_list [of "length c" "map length (certificates m)"] that
    by (simp add: length_concat_vec24)
  moreover have "u24_of (bs ! 4) (bs ! 5) (bs ! 6) = of_nat (length ?w)"
    using head_vec24 [of ?w "[]"] l unfolding bs nth_4_6 by simp
  moreover have d7: "drop 7 bs = ?w"
    unfolding bs by (rule nth_4_6)
  moreover have "(of_nat (length bs) :: u32) = of_nat (length ?w) + 7" "7 \<le> length bs"
    by (simp_all add: bs)
  ultimately show "certificateMsg_unmarshal bs = Some m"
    using count_certs_vec24 [of "certificates m" 0] slice_certs_vec24 [of "certificates m"] l
    unfolding certificateMsg_unmarshal_def Let_def by (cases m) (simp add: d7)
qed

text \<open>
  The second pass of \<open>unmarshal\<close> never leaves the slice: the checks of the first pass are
  enough, and when they succeed the input is exactly the encoding of the certificates.
\<close>

lemma slice_certs_exact:
  assumes "length d < 4294967296" and "count_certs (of_nat (length d)) d n = Some k"
  shows "\<exists>cs. k = n + length cs \<and> slice_certs (length cs) d = Some cs \<and> d = concat (map vec24 cs)"
  using assms
proof (induction "length d" arbitrary: d n rule: less_induct)
  case less
  show ?case
  proof (cases "d = []")
    case True
    then show ?thesis
      using less.prems by (intro exI [of _ "[]"]) (simp add: count_certs.simps)
  next
    case False
    let ?u = "u24_of (d ! 0) (d ! 1) (d ! 2)"
    let ?d = "drop (unat (3 + ?u)) d" and ?c = "take (unat ?u) (drop 3 d)"
    have "(of_nat (length d) :: u32) > 0"
      using of_nat32_neq_0 [of "length d"] False less.prems(1) by (simp add: word_gt_0)
    then have "4 \<le> length d \<and> \<not> (of_nat (length d) :: u32) < 3 + ?u
        \<and> count_certs (of_nat (length d) - (3 + ?u)) ?d (n + 1) = Some k"
      using less.prems(2) unfolding count_certs.simps [of "of_nat (length d)" d n] Let_def
      by (simp split: if_splits)
    then have d4: "4 \<le> length d" and nl: "\<not> (of_nat (length d) :: u32) < 3 + ?u"
      and rec: "count_certs (of_nat (length d) - (3 + ?u)) ?d (n + 1) = Some k"
      by auto
    have u: "unat (3 + ?u) = 3 + unat ?u" "3 + unat ?u \<le> length d"
      using nl less.prems(1) by (auto simp: u24_plus_3 word_less_nat_alt unat_of_nat32)
    have "of_nat (length ?d) = (of_nat (length d) :: u32) - (3 + ?u)"
      using u(2) unfolding length_drop u(1) by (simp add: of_nat_diff)
    with rec have rec': "count_certs (of_nat (length ?d)) ?d (n + 1) = Some k"
      by (simp only:)
    have "length ?d < length d" "length ?d < 4294967296"
      using less.prems(1) d4 u(1) by auto
    from less.hyps [OF this rec'] obtain cs where
      cs: "k = n + 1 + length cs" "slice_certs (length cs) ?d = Some cs" "?d = concat (map vec24 cs)"
      by blast
    have c: "vec24 ?c @ ?d = d"
      using u(2) d4 vec24_u24 [OF _ refl u(2)] unfolding u(1) by simp
    have "slice_certs (length (?c # cs)) d = Some (?c # cs)"
      using cs(2) u d4 by (simp add: Let_def)
    then show ?thesis
      using cs(1) c unfolding cs(3) by (intro exI [of _ "?c # cs"]) simp
  qed
qed


section \<open>The certificate request message of TLS 1.2\<close>

record certificateRequestMsg =
  cr_hasSignatureAlgorithm :: bool
  cr_certificateTypes :: bytes
  cr_supportedSignatureAlgorithms :: "u16 list"
  cr_certificateAuthorities :: "bytes list"

definition certificateRequestMsg_marshal :: "certificateRequestMsg \<Rightarrow> gerror + bytes" where
  "certificateRequestMsg_marshal m =
     (let types = cr_certificateTypes m;
          casLength = sum_list (map (\<lambda>ca. 2 + length ca) (cr_certificateAuthorities m));
          n = length (cr_supportedSignatureAlgorithms m) * 2;
          len = 1 + length types + 2 + casLength + (if cr_hasSignatureAlgorithm m then 2 + n else 0);
          x = stmts [
            put 0 typeCertificateRequest,
            put 1 (hi24 len), put 2 (hi16 len), put 3 (of_nat len),
            put 4 (of_nat (length types)),
            copy_at 5 types] (make_bytes (4 + len))
      in buffer_of (stmts [
           if_stmts (cr_hasSignatureAlgorithm m) [
             stmts [put_y 0 (hi16 n), put_y 1 (of_nat n), advance_y 2],
             stmts (map (\<lambda>sigAlgo. stmts [
               put_y 0 (ucast (drop_bit 8 sigAlgo)), put_y 1 (ucast sigAlgo),
               advance_y 2]) (cr_supportedSignatureAlgorithms m))],
           stmts [put_y 0 (hi16 casLength), put_y 1 (of_nat casLength), advance_y 2],
           stmts (map (\<lambda>ca. stmts [
             put_y 0 (hi16 (length ca)), put_y 1 (of_nat (length ca)),
             advance_y 2,
             copy_y 0 ca,
             advance_y (length ca)]) (cr_certificateAuthorities m))]
           (slice_from (5 + length types) x)))"

fun take_uint16s :: "nat \<Rightarrow> bytes \<Rightarrow> (u16 list \<times> bytes) option" where
  "take_uint16s 0 d = Some ([], d)"
| "take_uint16s (Suc n) (a # b # d) = do { (vs, d) \<leftarrow> take_uint16s n d; Some (u16_of a b # vs, d) }"
| "take_uint16s (Suc n) d = None"

definition certificateRequest_ca :: "bytes \<Rightarrow> bytes list \<Rightarrow> (bytes list \<times> bytes) option" where
  "certificateRequest_ca cas acc =
     (if length cas < 2 then None
      else let caLen = unat (u16_of (cas ! 0) (cas ! 1)); cas = drop 2 cas in
      if length cas < caLen then None
      else Some (acc @ [take caLen cas], drop caLen cas))"

definition certificateRequestMsg_unmarshal :: "bool \<Rightarrow> bytes \<Rightarrow> certificateRequestMsg option" where
  "certificateRequestMsg_unmarshal hasSignatureAlgorithm d = do {
     require (5 \<le> length d);
     require ((of_nat (length d) :: u32) - 4 = u24_of (d ! 1) (d ! 2) (d ! 3));
     let numCertTypes = unat (d ! 4);
     let d = drop 5 d;
     require (numCertTypes \<noteq> 0 \<and> numCertTypes < length d);
     let types = take numCertTypes d;
     let d = drop numCertTypes d;
     (sigs, d) \<leftarrow> (if hasSignatureAlgorithm then do {
        require (2 \<le> length d);
        let sigAndHashLen = u16_of (d ! 0) (d ! 1);
        let d = drop 2 d;
        require (sigAndHashLen AND 1 = 0);
        require (unat sigAndHashLen \<le> length d);
        take_uint16s (unat (sigAndHashLen div 2)) d }
      else Some ([], d));
     require (2 \<le> length d);
     let casLength = unat (u16_of (d ! 0) (d ! 1));
     let d = drop 2 d;
     require (casLength \<le> length d);
     let cas = take casLength d;
     let d = drop casLength d;
     authorities \<leftarrow> while_nonempty certificateRequest_ca cas [];
     require (d = []);
     Some \<lparr>cr_hasSignatureAlgorithm = hasSignatureAlgorithm, cr_certificateTypes = types,
       cr_supportedSignatureAlgorithms = sigs, cr_certificateAuthorities = authorities\<rparr> }"

text \<open>The bytes of the message, as RFC 5246 has them.\<close>

definition certificateRequest_wire :: "certificateRequestMsg \<Rightarrow> bytes" where
  "certificateRequest_wire m = vec8 (cr_certificateTypes m)
     @ (if cr_hasSignatureAlgorithm m then vec16 (concat (map be16 (cr_supportedSignatureAlgorithms m))) else [])
     @ vec16 (concat (map vec16 (cr_certificateAuthorities m)))"

lemma length_concat_vec16: "length (concat (map vec16 cs)) = sum_list (map (\<lambda>c. 2 + length c) cs)"
  by (induction cs) auto

lemma length_certificateRequest_wire: "length (certificateRequest_wire m) =
    1 + length (cr_certificateTypes m) + 2
    + sum_list (map (\<lambda>ca. 2 + length ca) (cr_certificateAuthorities m))
    + (if cr_hasSignatureAlgorithm m then 2 + length (cr_supportedSignatureAlgorithms m) * 2 else 0)"
  by (simp add: certificateRequest_wire_def length_concat_vec16)

lemma certificateRequest_header:
  "slice_from (5 + length ts) (stmts [put 0 a, put 1 b, put 2 c, put 3 d, put 4 e, copy_at 5 ts]
     (make_bytes (5 + length ts + r))) = Some ([a, b, c, d, e] @ ts, replicate r 0)"
proof -
  have "make_bytes (5 + length ts + r) = Some (0 # 0 # 0 # 0 # 0 # replicate (length ts + r) 0)"
    by (simp add: make_bytes_def numeral_eq_Suc)
  then show ?thesis
    by (simp add: stmts.simps slice_from_def numeral_eq_Suc)
qed

lemma certificateRequest_body:
  fixes m :: certificateRequestMsg
  defines "sigs \<equiv> cr_supportedSignatureAlgorithms m" and "cas \<equiv> cr_certificateAuthorities m"
  assumes "length y = (if cr_hasSignatureAlgorithm m then 2 + length sigs * 2 else 0)
      + (2 + length (concat (map vec16 cas)))"
  shows "stmts [
       if_stmts (cr_hasSignatureAlgorithm m) [
         stmts [put_y 0 (hi16 (length sigs * 2)), put_y 1 (of_nat (length sigs * 2)), advance_y 2],
         stmts (map (\<lambda>sigAlgo. stmts [put_y 0 (ucast (drop_bit 8 sigAlgo)), put_y 1 (ucast sigAlgo),
           advance_y 2]) sigs)],
       stmts [put_y 0 (hi16 (length (concat (map vec16 cas)))),
         put_y 1 (of_nat (length (concat (map vec16 cas)))), advance_y 2],
       stmts (map (\<lambda>ca. stmts [put_y 0 (hi16 (length ca)), put_y 1 (of_nat (length ca)), advance_y 2,
         copy_y 0 ca, advance_y (length ca)]) cas)] (Some (p, y))
    = Some (p @ (if cr_hasSignatureAlgorithm m then vec16 (concat (map be16 sigs)) else [])
        @ vec16 (concat (map vec16 cas)), [])"
proof -
  have sig: "stmts (map (\<lambda>sigAlgo. stmts [put_y 0 (ucast (drop_bit 8 sigAlgo)), put_y 1 (ucast sigAlgo),
      advance_y 2]) sigs) (Some (p, y)) = Some (p @ concat (map be16 sigs), drop (length sigs * 2) y)"
    if "length sigs * 2 \<le> length y" for p y
    using that by (subst write_loop [of be16])
      (use write_2 in \<open>simp_all add: be16_def [symmetric] mult.commute\<close>)
  have ca: "stmts (map (\<lambda>ca. stmts [put_y 0 (hi16 (length ca)), put_y 1 (of_nat (length ca)), advance_y 2,
      copy_y 0 ca, advance_y (length ca)]) cas) (Some (p, y))
    = Some (p @ concat (map vec16 cas), drop (length (concat (map vec16 cas))) y)"
    if "length (concat (map vec16 cas)) \<le> length y" for p y
    using that by (subst write_loop [of vec16]) (use write_vec16 in \<open>simp_all add: add.commute\<close>)
  have h: "vec16 c = [hi16 (length c), of_nat (length c)] @ c" for c
    by (simp add: vec16_def be16_of_nat)
  have s: "stmts (f # fs) z = stmts fs (f z)" for f :: "cursor \<Rightarrow> cursor" and fs z
    by (simp add: stmts.simps)
  show ?thesis
    using assms(3) unfolding s [of "if_stmts _ _"] s [of "stmts _"] if_stmts_def
    by (simp add: write_2 [unfolded One_nat_def] sig [unfolded One_nat_def] ca [unfolded One_nat_def] h mult.commute stmts.simps(1))
qed

lemma certificateRequestMsg_bytes:
  "certificateRequestMsg_marshal m = Inr (typeCertificateRequest # vec24 (certificateRequest_wire m))"
proof -
  let ?r = "(if cr_hasSignatureAlgorithm m then 2 + length (cr_supportedSignatureAlgorithms m) * 2 else 0)
      + (2 + length (concat (map vec16 (cr_certificateAuthorities m))))"
  have l: "1 + length (cr_certificateTypes m) + 2 + length (concat (map vec16 (cr_certificateAuthorities m)))
      + (if cr_hasSignatureAlgorithm m then 2 + length (cr_supportedSignatureAlgorithms m) * 2 else 0)
      = length (certificateRequest_wire m)"
    by (simp add: length_certificateRequest_wire length_concat_vec16)
  have n: "4 + length (certificateRequest_wire m) = 5 + length (cr_certificateTypes m) + ?r"
    by (simp add: length_certificateRequest_wire length_concat_vec16)
  have w: "certificateRequest_wire m = of_nat (length (cr_certificateTypes m)) # cr_certificateTypes m
      @ (if cr_hasSignatureAlgorithm m then vec16 (concat (map be16 (cr_supportedSignatureAlgorithms m))) else [])
      @ vec16 (concat (map vec16 (cr_certificateAuthorities m)))"
    by (simp add: certificateRequest_wire_def vec8_def)
  show ?thesis
    unfolding certificateRequestMsg_marshal_def Let_def length_concat_vec16 [symmetric]
    unfolding l n certificateRequest_header
    by (subst certificateRequest_body) (simp_all add: buffer_of_def vec24_hi w)
qed

interpretation certificateRequest_loop: item_loop vec16 certificateRequest_ca
    "\<lambda>_ ca acc. Some (acc @ [ca])" "\<lambda>ca. length ca < 65536"
proof unfold_locales
  fix x r :: bytes and st
  assume "length x < 65536"
  then have "unat (u16_of ((vec16 x @ r) ! 0) ((vec16 x @ r) ! 1)) = length x"
    using u16_of_be16 [of "of_nat (length x)"] unat_of_nat16 [of "length x"]
    by (simp add: vec16_def be16_def)
  then show "certificateRequest_ca (vec16 x @ r) st = map_option (\<lambda>st'. (st', r)) (Some (st @ [x]))"
    by (simp add: certificateRequest_ca_def Let_def) (simp add: vec16_def be16_def)
qed simp

lemma take_uint16s_be16: "take_uint16s (length vs) (concat (map be16 vs) @ r) = Some (vs, r)"
  by (induction vs) (auto simp: be16_def u16_of_be16 [unfolded be16_def])

lemma head_vec16:
  assumes "length c < 65536"
  shows "unat (u16_of ((vec16 c @ r) ! 0) ((vec16 c @ r) ! 1)) = length c" "drop 2 (vec16 c @ r) = c @ r"
  using unat_of_nat16 [OF assms] by (simp_all add: vec16_def be16_def)

lemma even_u16:
  assumes "unat (w :: u16) = 2 * n"
  shows "w AND 1 = 0" "unat (w div 2) = n"
proof -
  have "unat (w mod 2) = 0" "unat (w div 2) = n"
    using assms by (simp_all add: unat_mod unat_div)
  then show "w AND 1 = 0" "unat (w div 2) = n"
    by (simp_all add: and_one_eq unat_eq_zero)
qed

definition certificateRequest_ok :: "certificateRequestMsg \<Rightarrow> bool" where
  "certificateRequest_ok m \<longleftrightarrow> 0 < length (cr_certificateTypes m) \<and> length (cr_certificateTypes m) < 256
     \<and> length (cr_supportedSignatureAlgorithms m) < 32768
     \<and> length (concat (map vec16 (cr_certificateAuthorities m))) < 65536
     \<and> (\<not> cr_hasSignatureAlgorithm m \<longrightarrow> cr_supportedSignatureAlgorithms m = [])"

lemma certificateRequest_tail:
  assumes "length (concat (map vec16 cas)) < 65536"
  shows "while_nonempty certificateRequest_ca (concat (map vec16 cas)) [] = Some cas"
proof -
  have "length c < 65536" if "c \<in> set cas" for c
    using assms member_le_sum_list [of "2 + length c" "map (\<lambda>c. 2 + length c) cas"] that
    unfolding length_concat_vec16 by auto
  then show ?thesis
    using certificateRequest_loop.while_nonempty_items [of cas "[]"]
      run_items_fold [of cas "\<lambda>_ ca acc. Some (acc @ [ca])" "\<lambda>x acc. acc @ [x]" "[]"]
    by (simp add: fold_snoc)
qed

lemma certificateRequestMsg_unmarshal_wire:
  assumes "certificateRequest_ok m"
  shows "certificateRequestMsg_unmarshal (cr_hasSignatureAlgorithm m)
    (typeCertificateRequest # vec24 (certificateRequest_wire m)) = Some m"
proof -
  let ?d = "typeCertificateRequest # vec24 (certificateRequest_wire m)"
  let ?cas = "concat (map vec16 (cr_certificateAuthorities m))"
  let ?sg = "concat (map be16 (cr_supportedSignatureAlgorithms m))"
  have ok: "0 < length (cr_certificateTypes m)" "length (cr_certificateTypes m) < 256"
    "length ?sg < 65536" "length ?cas < 65536"
    "\<not> cr_hasSignatureAlgorithm m \<longrightarrow> cr_supportedSignatureAlgorithms m = []"
    using assms by (auto simp: certificateRequest_ok_def)
  have w: "length (certificateRequest_wire m) < 16777216"
    using ok by (auto simp: certificateRequest_wire_def)
  have h: "u24_of (?d ! 1) (?d ! 2) (?d ! 3) = of_nat (length (certificateRequest_wire m))"
    using u24_of_be24_len [OF w] by (simp add: vec24_def be24_def)
  have d5: "unat (?d ! 4) = length (cr_certificateTypes m)" "drop 5 ?d = cr_certificateTypes m
      @ (if cr_hasSignatureAlgorithm m then vec16 ?sg else []) @ vec16 ?cas"
    using ok(2) unat_of_nat8 [of "length (cr_certificateTypes m)"]
    by (simp_all add: vec24_def be24_def certificateRequest_wire_def vec8_def)
  have e: "unat (u16_of ((vec16 ?sg @ vec16 ?cas) ! 0) ((vec16 ?sg @ vec16 ?cas) ! 1))
      = 2 * length (cr_supportedSignatureAlgorithms m)"
    using head_vec16(1) [OF ok(3)] by simp
  note hd = head_vec16 [OF ok(4), of "[]", simplified] head_vec16 [OF ok(3), of "vec16 ?cas", unfolded One_nat_def]
    even_u16 [OF e, unfolded One_nat_def]
  have "5 \<le> length ?d" "(of_nat (length ?d) :: u32) - 4 = of_nat (length (certificateRequest_wire m))"
    using ok by (simp_all add: certificateRequest_wire_def)
  then show ?thesis
    using ok hd certificateRequest_tail [OF ok(4)] take_uint16s_be16 [of "cr_supportedSignatureAlgorithms m" "vec16 ?cas"]
    unfolding certificateRequestMsg_unmarshal_def Let_def h d5
    by (cases m) (auto simp: h d5)
qed

interpretation certificateRequest: handshake_codec typeCertificateRequest certificateRequestMsg_marshal
    "certificateRequestMsg_unmarshal b" "\<lambda>_ m. m" "\<lambda>m. cr_hasSignatureAlgorithm m = b \<and> certificateRequest_ok m" for b
proof unfold_locales
  fix m :: certificateRequestMsg and bs
  assume m: "cr_hasSignatureAlgorithm m = b \<and> certificateRequest_ok m"
    and "certificateRequestMsg_marshal m = Inr bs"
  then have bs: "bs = typeCertificateRequest # vec24 (certificateRequest_wire m)"
    by (simp add: certificateRequestMsg_bytes)
  then show "certificateRequestMsg_unmarshal b bs = Some m"
    using m certificateRequestMsg_unmarshal_wire [of m] by simp
  have "length (certificateRequest_wire m) < 16777216"
    using m by (auto simp: certificateRequest_ok_def certificateRequest_wire_def)
  then show "framed typeCertificateRequest bs"
    using bs by simp
qed


section \<open>Certificates of TLS 1.3\<close>

text \<open>The fields of \<open>Certificate\<close> that are sent; \<open>None\<close> is a nil slice.\<close>

record Certificate =
  Certificate :: "bytes list"
  OCSPStaple :: "bytes option"
  SignedCertificateTimestamps :: "bytes list option"

definition marshalCertificate :: "cryptobyte \<Rightarrow> Certificate \<Rightarrow> builder \<Rightarrow> builder" where
  "marshalCertificate cb c = AddUint24LengthPrefixed cb (stmts (map (\<lambda>(i, cert). stmts [
     AddUint24LengthPrefixed cb (AddBytes cb cert),
     AddUint16LengthPrefixed cb (if_stmts (\<not> i > 0) [
       if_stmts (OCSPStaple c \<noteq> None) [
         AddUint16 cb extensionStatusRequest,
         AddUint16LengthPrefixed cb (stmts [
           AddUint8 cb statusTypeOCSP,
           AddUint24LengthPrefixed cb (AddBytes cb (the (OCSPStaple c)))])],
       if_stmts (SignedCertificateTimestamps c \<noteq> None) [
         AddUint16 cb extensionSCT,
         AddUint16LengthPrefixed cb (AddUint16LengthPrefixed cb (stmts (map
           (\<lambda>sct. AddUint16LengthPrefixed cb (AddBytes cb sct)) (the (SignedCertificateTimestamps c)))))]])])
     (enumerate 0 (Certificate c))))"

definition certificate_ext :: "cryptobyte \<Rightarrow> bool \<Rightarrow> u16 \<Rightarrow> bytes \<Rightarrow> Certificate \<Rightarrow> Certificate option" where
  "certificate_ext cb isLast extension extData c =
     (if length (Certificate c) > 1 then Some c
      else if extension = extensionStatusRequest then do {
        (statusType, extData) \<leftarrow> ReadUint8 cb extData;
        require (statusType = statusTypeOCSP);
        (staple, extData) \<leftarrow> readUint24LengthPrefixed cb extData;
        require (staple \<noteq> []);
        require (extData = []);
        Some (c\<lparr>OCSPStaple := Some staple\<rparr>) }
      else if extension = extensionSCT then do {
        (sctList, extData) \<leftarrow> ReadUint16LengthPrefixed cb extData;
        require (sctList \<noteq> []);
        scts \<leftarrow> read_vec16s cb sctList (case SignedCertificateTimestamps c of None \<Rightarrow> [] | Some l \<Rightarrow> l);
        require (extData = []);
        Some (c\<lparr>SignedCertificateTimestamps := Some scts\<rparr>) }
      else Some c)"

definition unmarshalCertificate :: "cryptobyte \<Rightarrow> bytes \<Rightarrow> Certificate \<Rightarrow> (Certificate \<times> bytes) option" where
  "unmarshalCertificate cb s c = do {
     (certList, s) \<leftarrow> ReadUint24LengthPrefixed cb s;
     c \<leftarrow> while_nonempty (\<lambda>certList c. do {
       (cert, certList) \<leftarrow> readUint24LengthPrefixed cb certList;
       (extensions, certList) \<leftarrow> ReadUint16LengthPrefixed cb certList;
       c \<leftarrow> for_extensions cb (certificate_ext cb) extensions (c\<lparr>Certificate := Certificate c @ [cert]\<rparr>);
       Some (c, certList) }) certList c;
     Some (c, s) }"

record certificateMsgTLS13 =
  certificate13 :: Certificate
  cert13_ocspStapling :: bool
  cert13_scts :: bool

definition certificateMsgTLS13_marshal :: "cryptobyte \<Rightarrow> certificateMsgTLS13 \<Rightarrow> gerror + bytes" where
  "certificateMsgTLS13_marshal cb m = Bytes cb (stmts [
     AddUint8 cb typeCertificate,
     AddUint24LengthPrefixed cb (stmts [
       AddUint8 cb 0,
       marshalCertificate cb
         (let c = certificate13 m;
              c = (if \<not> cert13_ocspStapling m then c\<lparr>OCSPStaple := None\<rparr> else c);
              c = (if \<not> cert13_scts m then c\<lparr>SignedCertificateTimestamps := None\<rparr> else c)
          in c)])] new_builder)"

definition certificateMsgTLS13_unmarshal :: "cryptobyte \<Rightarrow> bytes \<Rightarrow> certificateMsgTLS13 option" where
  "certificateMsgTLS13_unmarshal cb d = do {
     s \<leftarrow> Skip cb d 4;
     (ctxt, s) \<leftarrow> ReadUint8LengthPrefixed cb s;
     require (ctxt = []);
     (c, s) \<leftarrow> unmarshalCertificate cb s
        \<lparr>Certificate = [], OCSPStaple = None, SignedCertificateTimestamps = None\<rparr>;
     require (s = []);
     Some \<lparr>certificate13 = c, cert13_ocspStapling = (OCSPStaple c \<noteq> None),
       cert13_scts = (SignedCertificateTimestamps c \<noteq> None)\<rparr> }"

text \<open>The entries of the certificate list; only the leaf carries extensions.\<close>

definition leaf_exts :: "Certificate \<Rightarrow> (u16 \<times> bytes) list" where
  "leaf_exts c =
     (if OCSPStaple c \<noteq> None then [(extensionStatusRequest, statusTypeOCSP # vec24 (the (OCSPStaple c)))] else [])
     @ (if SignedCertificateTimestamps c \<noteq> None
        then [(extensionSCT, vec16 (concat (map vec16 (the (SignedCertificateTimestamps c)))))] else []) @ []"

definition cert_entry :: "Certificate \<Rightarrow> nat \<times> bytes \<Rightarrow> bytes \<times> (u16 \<times> bytes) list" where
  "cert_entry c = (\<lambda>(i, cert). (cert, if \<not> i > 0 then leaf_exts c else []))"

definition cert_enc :: "bytes \<times> (u16 \<times> bytes) list \<Rightarrow> bytes" where
  "cert_enc = (\<lambda>(cert, exts). vec24 cert @ vec16 (concat (map ext_enc exts)))"

definition cert_entry_ok :: "bytes \<times> (u16 \<times> bytes) list \<Rightarrow> bool" where
  "cert_entry_ok = (\<lambda>(cert, exts). length cert < 16777216 \<and> length (concat (map ext_enc exts)) < 65536
     \<and> (\<forall>(i, d) \<in> set exts. length d < 65536))"

definition certificate_ok :: "Certificate \<Rightarrow> bool" where
  "certificate_ok c \<longleftrightarrow> (OCSPStaple c \<noteq> Some []) \<and> (SignedCertificateTimestamps c \<noteq> Some [])
     \<and> (\<forall>scts. SignedCertificateTimestamps c = Some scts \<longrightarrow> [] \<notin> set scts)
     \<and> (Certificate c = [] \<longrightarrow> OCSPStaple c = None \<and> SignedCertificateTimestamps c = None)"

definition leaf_exts_fit :: "Certificate \<Rightarrow> bool" where
  "leaf_exts_fit c \<longleftrightarrow> (OCSPStaple c \<noteq> None \<longrightarrow> length (the (OCSPStaple c)) < 16777216)
     \<and> (SignedCertificateTimestamps c \<noteq> None \<longrightarrow>
         (\<forall>sct \<in> set (the (SignedCertificateTimestamps c)). length sct < 65536)
         \<and> length (concat (map vec16 (the (SignedCertificateTimestamps c)))) < 65536)"

lemma cert_entries_tail: "0 < n \<Longrightarrow> map (cert_entry c) (enumerate n cs) = map (\<lambda>x. (x, [])) cs"
  by (induction cs arbitrary: n) (auto simp: cert_entry_def)

context cryptobyte_laws
begin

lemma leaf_emits:
  "emits_exts (stmts [
       if_stmts (OCSPStaple c \<noteq> None) [
         AddUint16 cb extensionStatusRequest,
         AddUint16LengthPrefixed cb (stmts [
           AddUint8 cb statusTypeOCSP,
           AddUint24LengthPrefixed cb (AddBytes cb (the (OCSPStaple c)))])],
       if_stmts (SignedCertificateTimestamps c \<noteq> None) [
         AddUint16 cb extensionSCT,
         AddUint16LengthPrefixed cb (AddUint16LengthPrefixed cb (stmts (map
           (\<lambda>sct. AddUint16LengthPrefixed cb (AddBytes cb sct)) (the (SignedCertificateTimestamps c)))))]])
    (leaf_exts c)
    ((OCSPStaple c \<noteq> None \<longrightarrow> length (the (OCSPStaple c)) < 16777216)
     \<and> (SignedCertificateTimestamps c \<noteq> None \<longrightarrow>
         (\<forall>sct \<in> set (the (SignedCertificateTimestamps c)). length sct < 65536)
         \<and> length (concat (map vec16 (the (SignedCertificateTimestamps c)))) < 65536) \<and> True)"
  unfolding leaf_exts_def
  by (intro emits_exts_Cons emits_exts_Nil emits_ext_block emitter_rules)
    (auto simp: codec_simps emitter_rules split: if_splits bind_splits)

lemma marshalCertificate_out:
  assumes "out (marshalCertificate cb c) = Some bs"
  shows "\<exists>p. bs = vec24 p \<and> length p < 16777216 \<and> p = concat (map cert_enc (map (cert_entry c) (enumerate 0 (Certificate c))))
    \<and> (\<forall>x \<in> set (enumerate 0 (Certificate c)). cert_entry_ok (cert_entry c x) \<and> (\<not> fst x > 0 \<longrightarrow> leaf_exts_fit c))"
proof -
  note e = emits_exts_if [OF leaf_emits [of c]]
  note em = emits_exts_emitter [OF e]
  show ?thesis
    using assms unfolding marshalCertificate_def out_LengthPrefixed
    apply (clarsimp split: bind_splits if_splits)
    apply (drule out_stmts_map_enc [where enc = "\<lambda>x. cert_enc (cert_entry c x)" and
          Q = "\<lambda>x. cert_entry_ok (cert_entry c x) \<and> (\<not> fst x > 0 \<longrightarrow> leaf_exts_fit c)", rotated 2])
    subgoal for p x
      by (cases x) (simp add: em emitter_rules)
    subgoal for p x b
      using emits_exts_out [OF e [of "\<not> fst x > 0"]] em
      by (cases x) (auto simp: em emitter_rules out_stmts_Cons out_stmts_Nil out_Add out_LengthPrefixed cert_entry_def cert_enc_def
          cert_entry_ok_def leaf_exts_fit_def split: bind_splits if_splits)
    subgoal by (simp add: comp_def)
    done
qed

lemma leaf_parse:
  assumes "certificate_ok c" "leaf_exts_fit c" "length (Certificate c0) = 1"
    "OCSPStaple c0 = None" "SignedCertificateTimestamps c0 = None"
  shows "run_items (\<lambda>l (i, d). certificate_ext cb l i d) (leaf_exts c) c0
    = Some (c0\<lparr>OCSPStaple := OCSPStaple c, SignedCertificateTimestamps := SignedCertificateTimestamps c\<rparr>)"
  (is "run_items ?step _ _ = _")
  using assms unfolding leaf_exts_def
  by (intro run_items_optional [of _ ?step _ c0 "c0\<lparr>OCSPStaple := OCSPStaple c\<rparr>"]
      run_items_optional [of _ ?step _ "c0\<lparr>OCSPStaple := OCSPStaple c\<rparr>" "c0\<lparr>OCSPStaple := OCSPStaple c,
        SignedCertificateTimestamps := SignedCertificateTimestamps c\<rparr>"])
    (auto simp: certificate_ext_def codec_simps read_helpers certificate_ok_def leaf_exts_fit_def)

lemma certificate_loop:
  "item_loop cert_enc (\<lambda>certList c. do {
       (cert, certList) \<leftarrow> readUint24LengthPrefixed cb certList;
       (extensions, certList) \<leftarrow> ReadUint16LengthPrefixed cb certList;
       c \<leftarrow> for_extensions cb (certificate_ext cb) extensions (c\<lparr>Certificate := Certificate c @ [cert]\<rparr>);
       Some (c, certList) })
    (\<lambda>_ (cert, exts) c. run_items (\<lambda>l (i, d). certificate_ext cb l i d) exts
       (c\<lparr>Certificate := Certificate c @ [cert]\<rparr>)) cert_entry_ok"
  by unfold_locales (auto simp: cert_enc_def cert_entry_ok_def codec_simps read_helpers for_extensions_items
      map_conv_bind_option comp_def split: prod.splits)

lemma certificate_chain_parse:
  "run_items (\<lambda>_ (cert, exts) c. run_items (\<lambda>l (i, d). certificate_ext cb l i d) exts
       (c\<lparr>Certificate := Certificate c @ [cert]\<rparr>)) (map (\<lambda>x. (x, [])) cs) c
    = Some (c\<lparr>Certificate := Certificate c @ cs\<rparr>)"
  by (induction cs arbitrary: c) auto

lemma unmarshalCertificate_marshal:
  assumes "out (marshalCertificate cb c) = Some bs" and "certificate_ok c"
  shows "unmarshalCertificate cb (bs @ r)
      \<lparr>Certificate = [], OCSPStaple = None, SignedCertificateTimestamps = None\<rparr> = Some (c, r)"
proof -
  let ?items = "map (cert_entry c) (enumerate 0 (Certificate c))"
  let ?run = "run_items (\<lambda>_ (cert, exts) c. run_items (\<lambda>l (i, d). certificate_ext cb l i d) exts
       (c\<lparr>Certificate := Certificate c @ [cert]\<rparr>))"
  let ?z = "\<lparr>Certificate = [], OCSPStaple = None, SignedCertificateTimestamps = None\<rparr>"
  from marshalCertificate_out [OF assms(1)] obtain p where
    p: "bs = vec24 p" "length p < 16777216" "p = concat (map cert_enc ?items)"
    and ok: "\<forall>x \<in> set ?items. cert_entry_ok x"
    and fit: "Certificate c \<noteq> [] \<longrightarrow> leaf_exts_fit c"
    by (cases "Certificate c") auto
  have "?run ?items ?z = Some c"
  proof (cases "Certificate c")
    case Nil
    then show ?thesis
      using assms(2) by (cases c) (simp add: certificate_ok_def)
  next
    case (Cons x xs)
    have i: "?items = (x, leaf_exts c) # map (\<lambda>x. (x, [])) xs"
      by (simp add: Cons cert_entry_def [of c, THEN fun_cong, of "(0, x)"] cert_entries_tail)
    show ?thesis
      using fit leaf_parse [OF assms(2), of "\<lparr>Certificate = [x], OCSPStaple = None, SignedCertificateTimestamps = None\<rparr>"]
        Cons unfolding i by (cases c) (simp add: certificate_chain_parse)
  qed
  with item_loop.while_nonempty_items [OF certificate_loop ok, of ?z, folded p(3)] show ?thesis
    unfolding unmarshalCertificate_def by (simp add: p(1,2) codec_simps)
qed

lemma emitter_marshalCertificate [emitter_rules]: "emitter (marshalCertificate cb c)"
  unfolding marshalCertificate_def
  by (intro emitter_rules)

lemma certificateTLS13_roundtrip:
  fixes m :: certificateMsgTLS13
  defines "c \<equiv> certificate13 m"
  assumes "certificateMsgTLS13_marshal cb m = Inr bs" and "certificate_ok c"
    and "cert13_ocspStapling m = (OCSPStaple c \<noteq> None)" "cert13_scts m = (SignedCertificateTimestamps c \<noteq> None)"
  shows "certificateMsgTLS13_unmarshal cb bs = Some m \<and> framed typeCertificate bs"
proof -
  have m: "certificateMsgTLS13_marshal cb m = Bytes cb (stmts [AddUint8 cb typeCertificate,
      AddUint24LengthPrefixed cb (stmts [AddUint8 cb 0, marshalCertificate cb c])] new_builder)"
    using assms(4,5) unfolding certificateMsgTLS13_marshal_def Let_def c_def
    by (cases "certificate13 m") auto
  obtain cbs where cbs: "out (marshalCertificate cb c) = Some cbs" and bs: "bs = typeCertificate # vec24 (0 # cbs)"
    "length (0 # cbs) < 16777216"
    using assms(2) [unfolded m] by (auto simp: framed_message emitter_rules codec_simps split: bind_splits)
  have "ReadUint8LengthPrefixed cb (0 # cbs) = Some ([], cbs)"
    using read_vec(1) [of "[]" cbs] by (simp add: vec8_def)
  then show ?thesis
    using unmarshalCertificate_marshal [OF cbs assms(3), of "[]"] bs assms(4,5)
    by (cases m) (simp add: certificateMsgTLS13_unmarshal_def codec_simps c_def)
qed

end


section \<open>The certificate request of TLS 1.3\<close>

record certificateRequestMsgTLS13 =
  cr13_original :: "bytes option"
  cr13_ocspStapling :: bool
  cr13_scts :: bool
  cr13_supportedSignatureAlgorithms :: "u16 list"
  cr13_supportedSignatureAlgorithmsCert :: "u16 list"
  cr13_certificateAuthorities :: "bytes list"

text \<open>The function literals that fill the extension blocks are named, here and in the hello messages.\<close>

definition certificateRequestTLS13_extensions :: "cryptobyte \<Rightarrow> certificateRequestMsgTLS13 \<Rightarrow> builder \<Rightarrow> builder" where
  "certificateRequestTLS13_extensions cb m = stmts [
       if_stmts (cr13_ocspStapling m) [AddUint16 cb extensionStatusRequest, AddUint16 cb 0],
       if_stmts (cr13_scts m) [AddUint16 cb extensionSCT, AddUint16 cb 0],
       if_stmts (length (cr13_supportedSignatureAlgorithms m) > 0) [
         AddUint16 cb extensionSignatureAlgorithms,
         AddUint16LengthPrefixed cb (AddUint16LengthPrefixed cb
           (stmts (map (AddUint16 cb) (cr13_supportedSignatureAlgorithms m))))],
       if_stmts (length (cr13_supportedSignatureAlgorithmsCert m) > 0) [
         AddUint16 cb extensionSignatureAlgorithmsCert,
         AddUint16LengthPrefixed cb (AddUint16LengthPrefixed cb
           (stmts (map (AddUint16 cb) (cr13_supportedSignatureAlgorithmsCert m))))],
       if_stmts (length (cr13_certificateAuthorities m) > 0) [
         AddUint16 cb extensionCertificateAuthorities,
         AddUint16LengthPrefixed cb (AddUint16LengthPrefixed cb (stmts (map
           (\<lambda>ca. AddUint16LengthPrefixed cb (AddBytes cb ca)) (cr13_certificateAuthorities m))))]]"

definition certificateRequestMsgTLS13_marshal :: "cryptobyte \<Rightarrow> certificateRequestMsgTLS13 \<Rightarrow> gerror + bytes" where
  "certificateRequestMsgTLS13_marshal cb m = Bytes cb (stmts [
     AddUint8 cb typeCertificateRequest,
     AddUint24LengthPrefixed cb (stmts [
       AddUint8 cb 0,
       AddUint16LengthPrefixed cb (certificateRequestTLS13_extensions cb m)])] new_builder)"

definition certificateRequestTLS13_ext :: "cryptobyte \<Rightarrow> bool \<Rightarrow> u16 \<Rightarrow> bytes \<Rightarrow>
    certificateRequestMsgTLS13 \<Rightarrow> certificateRequestMsgTLS13 option" where
  "certificateRequestTLS13_ext cb isLast extension extData m =
     (if extension = extensionStatusRequest then do {
        require (extData = []);
        Some (m\<lparr>cr13_ocspStapling := True\<rparr>) }
      else if extension = extensionSCT then do {
        require (extData = []);
        Some (m\<lparr>cr13_scts := True\<rparr>) }
      else if extension = extensionSignatureAlgorithms then do {
        (sigAndAlgs, extData) \<leftarrow> ReadUint16LengthPrefixed cb extData;
        require (sigAndAlgs \<noteq> []);
        sigs \<leftarrow> read_uint16s cb sigAndAlgs (cr13_supportedSignatureAlgorithms m);
        require (extData = []);
        Some (m\<lparr>cr13_supportedSignatureAlgorithms := sigs\<rparr>) }
      else if extension = extensionSignatureAlgorithmsCert then do {
        (sigAndAlgs, extData) \<leftarrow> ReadUint16LengthPrefixed cb extData;
        require (sigAndAlgs \<noteq> []);
        sigs \<leftarrow> read_uint16s cb sigAndAlgs (cr13_supportedSignatureAlgorithmsCert m);
        require (extData = []);
        Some (m\<lparr>cr13_supportedSignatureAlgorithmsCert := sigs\<rparr>) }
      else if extension = extensionCertificateAuthorities then do {
        (auths, extData) \<leftarrow> ReadUint16LengthPrefixed cb extData;
        require (auths \<noteq> []);
        cas \<leftarrow> read_vec16s cb auths (cr13_certificateAuthorities m);
        require (extData = []);
        Some (m\<lparr>cr13_certificateAuthorities := cas\<rparr>) }
      else Some m)"

definition certificateRequestMsgTLS13_zero :: "bytes \<Rightarrow> certificateRequestMsgTLS13" where
  "certificateRequestMsgTLS13_zero d = \<lparr>cr13_original = Some d, cr13_ocspStapling = False, cr13_scts = False,
     cr13_supportedSignatureAlgorithms = [], cr13_supportedSignatureAlgorithmsCert = [],
     cr13_certificateAuthorities = []\<rparr>"

definition certificateRequestMsgTLS13_unmarshal :: "cryptobyte \<Rightarrow> bytes \<Rightarrow> certificateRequestMsgTLS13 option" where
  "certificateRequestMsgTLS13_unmarshal cb d = do {
     s \<leftarrow> Skip cb d 4;
     (ctxt, s) \<leftarrow> ReadUint8LengthPrefixed cb s;
     require (ctxt = []);
     (extensions, s) \<leftarrow> ReadUint16LengthPrefixed cb s;
     require (s = []);
     for_extensions cb (certificateRequestTLS13_ext cb) extensions (certificateRequestMsgTLS13_zero d) }"

definition certificateRequestTLS13_wire :: "certificateRequestMsgTLS13 \<Rightarrow> (u16 \<times> bytes) list" where
  "certificateRequestTLS13_wire m =
     (if cr13_ocspStapling m then [(extensionStatusRequest, [])] else [])
     @ (if cr13_scts m then [(extensionSCT, [])] else [])
     @ (if length (cr13_supportedSignatureAlgorithms m) > 0
        then [(extensionSignatureAlgorithms, vec16 (concat (map be16 (cr13_supportedSignatureAlgorithms m))))] else [])
     @ (if length (cr13_supportedSignatureAlgorithmsCert m) > 0
        then [(extensionSignatureAlgorithmsCert, vec16 (concat (map be16 (cr13_supportedSignatureAlgorithmsCert m))))] else [])
     @ (if length (cr13_certificateAuthorities m) > 0
        then [(extensionCertificateAuthorities, vec16 (concat (map vec16 (cr13_certificateAuthorities m))))] else [])
     @ []"

context cryptobyte_laws
begin

lemma certificateRequestTLS13_emits:
  "emits_exts (certificateRequestTLS13_extensions cb m)
    (certificateRequestTLS13_wire m)
    (True \<and> True
     \<and> (length (cr13_supportedSignatureAlgorithms m) > 0 \<longrightarrow> length (cr13_supportedSignatureAlgorithms m) < 32768)
     \<and> (length (cr13_supportedSignatureAlgorithmsCert m) > 0 \<longrightarrow> length (cr13_supportedSignatureAlgorithmsCert m) < 32768)
     \<and> (length (cr13_certificateAuthorities m) > 0 \<longrightarrow>
         (\<forall>ca \<in> set (cr13_certificateAuthorities m). length ca < 65536)
         \<and> length (concat (map vec16 (cr13_certificateAuthorities m))) < 65536) \<and> True)"
  unfolding certificateRequestTLS13_wire_def certificateRequestTLS13_extensions_def
  by (intro emits_exts_Cons emits_exts_Nil emits_ext_block emits_ext_empty emitter_rules)
    (auto simp: codec_simps emitter_rules split: if_splits bind_splits)

lemma certificateRequestTLS13_parse:
  fixes m :: certificateRequestMsgTLS13 and d :: bytes
  defines "sg \<equiv> cr13_supportedSignatureAlgorithms m" and "sc \<equiv> cr13_supportedSignatureAlgorithmsCert m"
    and "ca \<equiv> cr13_certificateAuthorities m" and "z \<equiv> certificateRequestMsgTLS13_zero d"
  assumes "length sg < 32768" "length sc < 32768" "[] \<notin> set ca" "\<forall>c \<in> set ca. length c < 65536"
    "length (concat (map vec16 ca)) < 65536"
  shows "run_items (\<lambda>l (i, d). certificateRequestTLS13_ext cb l i d) (certificateRequestTLS13_wire m) z
    = Some (m\<lparr>cr13_original := Some d\<rparr>)"
  (is "run_items ?step _ _ = _")
proof -
  let ?z1 = "z\<lparr>cr13_ocspStapling := cr13_ocspStapling m\<rparr>"
  let ?z2 = "?z1\<lparr>cr13_scts := cr13_scts m\<rparr>"
  let ?z3 = "?z2\<lparr>cr13_supportedSignatureAlgorithms := sg\<rparr>"
  let ?z4 = "?z3\<lparr>cr13_supportedSignatureAlgorithmsCert := sc\<rparr>"
  let ?z5 = "?z4\<lparr>cr13_certificateAuthorities := ca\<rparr>"
  show ?thesis
    using assms(5-) unfolding certificateRequestTLS13_wire_def sg_def [symmetric] sc_def [symmetric] ca_def [symmetric]
    by (intro run_items_optional [of _ ?step _ z ?z1] run_items_optional [of _ ?step _ ?z1 ?z2]
        run_items_optional [of _ ?step _ ?z2 ?z3] run_items_optional [of _ ?step _ ?z3 ?z4]
        run_items_optional [of _ ?step _ ?z4 ?z5])
      (simp_all add: certificateRequestTLS13_ext_def z_def certificateRequestMsgTLS13_zero_def codec_simps,
       simp add: sg_def sc_def ca_def)
qed

lemma certificateRequestTLS13_roundtrip:
  assumes "certificateRequestMsgTLS13_marshal cb m = Inr bs" and "[] \<notin> set (cr13_certificateAuthorities m)"
  shows "certificateRequestMsgTLS13_unmarshal cb bs = Some (m\<lparr>cr13_original := Some bs\<rparr>)
    \<and> framed typeCertificateRequest bs"
proof -
  note e = certificateRequestTLS13_emits [of m]
  note em = emits_exts_emitter [OF e]
  obtain p where p: "out (AddUint16LengthPrefixed cb (certificateRequestTLS13_extensions cb m)) = Some p" "bs = typeCertificateRequest # vec24 (0 # p)" "length (0 # p) < 16777216"
    using assms(1) em unfolding certificateRequestMsgTLS13_marshal_def
    by (subst (asm) framed_message) (auto simp: emitter_rules out_stmts_Cons out_stmts_Nil out_Add split: bind_splits)
  then obtain x where "p = vec16 x" "length x < 65536" "out (certificateRequestTLS13_extensions cb m) = Some x"
    by (auto simp: out_LengthPrefixed split: bind_splits if_splits)
  moreover have "ReadUint8LengthPrefixed cb (0 # vec16 x) = Some ([], vec16 x)"
    using read_vec(1) [of "[]" "vec16 x"] by (simp add: vec8_def)
  ultimately show ?thesis
    using emits_exts_out [OF e] certificateRequestTLS13_parse [of m] p assms(2)
    by (auto simp: certificateRequestMsgTLS13_unmarshal_def codec_simps for_extensions_items)
qed

end

section \<open>Properties\<close>

text \<open>
  C33. Certificates of TLS 1.2: the loops of \<open>certificateMsg.unmarshal\<close> that first count and
  then slice the certificates agree. Whenever the count succeeds, the slicing does not run out
  of range and the certificates it takes are exactly the content of the message.
\<close>

theorem certificateMsg_slices_what_it_counts:
  assumes "length d < 4294967296" and "count_certs (of_nat (length d)) d 0 = Some k"
  shows "\<exists>cs. k = length cs \<and> slice_certs k d = Some cs \<and> d = concat (map vec24 cs)"
  using slice_certs_exact [OF assms] by auto

theorem certificateMsg_slices_what_it_counts_witness:
  "\<exists>cs. length cs = 2 \<and> slice_certs 2 [0, 0, 1, 9, 0, 0, 2, 5, 6] = Some cs"
proof -
  have "count_certs (of_nat (length [0, 0, 1, 9, 0, 0, 2, 5, 6])) [0, 0, 1, 9, 0, 0, 2, 5, 6] 0 = Some 2"
    by (simp add: count_certs.simps u24_of_def)
  from certificateMsg_slices_what_it_counts [OF _ this] show ?thesis
    by auto
qed

text \<open>
  Certificate messages of TLS 1.2 on a stream: two certificate lists that encode to a prefix
  of the same bytes are equal and leave the same rest, so the end of a message is determined
  by the message.
\<close>

theorem certificateMsg_prefix_free:
  assumes "length (concat (map vec24 (certificates m1))) < 16777213" and "certificates m1 \<noteq> [] \<longrightarrow> last (certificates m1) \<noteq> []"
    and "length (concat (map vec24 (certificates m2))) < 16777213" and "certificates m2 \<noteq> [] \<longrightarrow> last (certificates m2) \<noteq> []"
    and "certificateMsg_marshal m1 = Inr b1" and "certificateMsg_marshal m2 = Inr b2" and "b1 @ r1 = b2 @ r2"
  shows "m1 = m2 \<and> r1 = r2"
  using certificate.prefix_free [of m1 m2 b1 b2 r1 r2] assms by blast

theorem certificateMsg_prefix_free_witness:
  "\<exists>b. certificateMsg_marshal \<lparr>certificates = [[1], [2]]\<rparr> = Inr b \<and> (\<forall>r1 r2. b @ r1 = b @ r2 \<longrightarrow> r1 = r2)"
proof -
  obtain b where "certificateMsg_marshal \<lparr>certificates = [[1], [2]]\<rparr> = Inr b"
    using certificateMsg_bytes [of "\<lparr>certificates = [[1], [2]]\<rparr>"] by simp
  then show ?thesis
    using certificateMsg_prefix_free [of "\<lparr>certificates = [[1], [2]]\<rparr>" "\<lparr>certificates = [[1], [2]]\<rparr>" b b]
    by (simp add: vec24_def)
qed

text \<open>
  C32. Certificates of TLS 1.3: whatever \<open>certificateMsgTLS13.marshal\<close> produces for a chain with
  its stapled response and timestamps is parsed back by \<open>certificateMsgTLS13.unmarshal\<close> to the
  same message.
\<close>

theorem certificateTLS13_parse_marshal:
  assumes "cryptobyte_laws cb" and "certificateMsgTLS13_marshal cb m = Inr bs" and "certificate_ok (certificate13 m)"
    and "cert13_ocspStapling m = (OCSPStaple (certificate13 m) \<noteq> None)"
    and "cert13_scts m = (SignedCertificateTimestamps (certificate13 m) \<noteq> None)"
  shows "certificateMsgTLS13_unmarshal cb bs = Some m"
  using cryptobyte_laws.certificateTLS13_roundtrip [OF assms] by blast

definition stapled :: certificateMsgTLS13 where
  "stapled = \<lparr>certificate13 = \<lparr>Certificate = [[1], [2]], OCSPStaple = Some [3],
     SignedCertificateTimestamps = Some [[4], [5]]\<rparr>, cert13_ocspStapling = True, cert13_scts = True\<rparr>"

theorem certificateTLS13_parse_marshal_witness:
  "\<exists>bs. certificateMsgTLS13_marshal cb_ref stapled = Inr bs \<and> certificateMsgTLS13_unmarshal cb_ref bs = Some stapled"
proof -
  obtain bs where bs: "certificateMsgTLS13_marshal cb_ref stapled = Inr bs"
    by (simp add: stapled_def certificateMsgTLS13_marshal_def marshalCertificate_def cb_eval)
  have "certificate_ok (certificate13 stapled)"
    by (simp add: stapled_def certificate_ok_def)
  from certificateTLS13_parse_marshal [OF ref.cryptobyte_laws_axioms bs this] bs show ?thesis
    by (simp add: stapled_def)
qed

text \<open>
  Certificate requests of TLS 1.3: whatever \<open>certificateRequestMsgTLS13.marshal\<close> produces is
  parsed back to the same message, with the bytes recorded as \<open>original\<close>.
\<close>

theorem certificateRequestTLS13_parse_marshal:
  assumes "cryptobyte_laws cb" and "certificateRequestMsgTLS13_marshal cb m = Inr bs"
    and "[] \<notin> set (cr13_certificateAuthorities m)"
  shows "certificateRequestMsgTLS13_unmarshal cb bs = Some (m\<lparr>cr13_original := Some bs\<rparr>)"
  using cryptobyte_laws.certificateRequestTLS13_roundtrip [OF assms] by blast

definition request13 :: certificateRequestMsgTLS13 where
  "request13 = \<lparr>cr13_original = None, cr13_ocspStapling = True, cr13_scts = True,
     cr13_supportedSignatureAlgorithms = [0x0403, 0x0804], cr13_supportedSignatureAlgorithmsCert = [0x0401],
     cr13_certificateAuthorities = [[1, 2], [3]]\<rparr>"

theorem certificateRequestTLS13_parse_marshal_witness:
  "\<exists>bs. certificateRequestMsgTLS13_marshal cb_ref request13 = Inr bs
    \<and> certificateRequestMsgTLS13_unmarshal cb_ref bs = Some (request13\<lparr>cr13_original := Some bs\<rparr>)"
proof -
  obtain bs where bs: "certificateRequestMsgTLS13_marshal cb_ref request13 = Inr bs"
    by (simp add: request13_def certificateRequestMsgTLS13_marshal_def certificateRequestTLS13_extensions_def cb_eval)
  from certificateRequestTLS13_parse_marshal [OF ref.cryptobyte_laws_axioms bs] bs show ?thesis
    by (simp add: request13_def)
qed

end
