(* ===== verification/ServerHello.thy ===== *)
theory ServerHello
  imports Handshake_Messages
begin

text \<open>
  The ServerHello message, which is also the HelloRetryRequest: its extensions, the
  serialiser, and the parser with its switch over the extension numbers.
\<close>

record keyShare =
  ks_group :: u16
  ks_data :: bytes

record serverHelloMsg =
  sh_original :: "bytes option"
  sh_vers :: u16
  sh_random :: bytes
  sh_sessionId :: bytes
  sh_cipherSuite :: u16
  sh_compressionMethod :: u8
  sh_ocspStapling :: bool
  sh_ticketSupported :: bool
  sh_secureRenegotiationSupported :: bool
  sh_secureRenegotiation :: bytes
  sh_extendedMasterSecret :: bool
  sh_alpnProtocol :: bytes
  sh_scts :: "bytes list"
  sh_supportedVersion :: u16
  sh_serverShare :: keyShare
  sh_selectedIdentityPresent :: bool
  sh_selectedIdentity :: u16
  sh_supportedPoints :: bytes
  sh_encryptedClientHello :: bytes
  sh_serverNameAck :: bool
  sh_cookie :: bytes
  sh_selectedGroup :: u16
  sh_nextProtoNeg :: bool
  sh_nextProtos :: "bytes list"

definition serverHello_extensions :: "cryptobyte \<Rightarrow> serverHelloMsg \<Rightarrow> builder \<Rightarrow> builder" where
  "serverHello_extensions cb m = stmts [
     if_stmts (sh_ocspStapling m) [AddUint16 cb extensionStatusRequest, AddUint16 cb 0],
     if_stmts (sh_ticketSupported m) [AddUint16 cb extensionSessionTicket, AddUint16 cb 0],
     if_stmts (sh_secureRenegotiationSupported m) [
       AddUint16 cb extensionRenegotiationInfo,
       AddUint16LengthPrefixed cb (AddUint8LengthPrefixed cb (AddBytes cb (sh_secureRenegotiation m)))],
     if_stmts (sh_extendedMasterSecret m) [AddUint16 cb extensionExtendedMasterSecret, AddUint16 cb 0],
     if_stmts (length (sh_alpnProtocol m) > 0) [
       AddUint16 cb extensionALPN,
       AddUint16LengthPrefixed cb (AddUint16LengthPrefixed cb (AddUint8LengthPrefixed cb
         (AddBytes cb (sh_alpnProtocol m))))],
     if_stmts (length (sh_scts m) > 0) [
       AddUint16 cb extensionSCT,
       AddUint16LengthPrefixed cb (AddUint16LengthPrefixed cb (stmts (map
         (\<lambda>sct. AddUint16LengthPrefixed cb (AddBytes cb sct)) (sh_scts m))))],
     if_stmts (sh_supportedVersion m \<noteq> 0) [
       AddUint16 cb extensionSupportedVersions,
       AddUint16LengthPrefixed cb (AddUint16 cb (sh_supportedVersion m))],
     if_stmts (ks_group (sh_serverShare m) \<noteq> 0) [
       AddUint16 cb extensionKeyShare,
       AddUint16LengthPrefixed cb (stmts [
         AddUint16 cb (ks_group (sh_serverShare m)),
         AddUint16LengthPrefixed cb (AddBytes cb (ks_data (sh_serverShare m)))])],
     if_stmts (sh_selectedIdentityPresent m) [
       AddUint16 cb extensionPreSharedKey,
       AddUint16LengthPrefixed cb (AddUint16 cb (sh_selectedIdentity m))],
     if_stmts (length (sh_cookie m) > 0) [
       AddUint16 cb extensionCookie,
       AddUint16LengthPrefixed cb (AddUint16LengthPrefixed cb (AddBytes cb (sh_cookie m)))],
     if_stmts (sh_selectedGroup m \<noteq> 0) [
       AddUint16 cb extensionKeyShare,
       AddUint16LengthPrefixed cb (AddUint16 cb (sh_selectedGroup m))],
     if_stmts (length (sh_supportedPoints m) > 0) [
       AddUint16 cb extensionSupportedPoints,
       AddUint16LengthPrefixed cb (AddUint8LengthPrefixed cb (AddBytes cb (sh_supportedPoints m)))],
     if_stmts (length (sh_encryptedClientHello m) > 0) [
       AddUint16 cb extensionEncryptedClientHello,
       AddUint16LengthPrefixed cb (AddBytes cb (sh_encryptedClientHello m))],
     if_stmts (sh_serverNameAck m) [AddUint16 cb extensionServerName, AddUint16 cb 0]]"

definition serverHelloMsg_marshal :: "cryptobyte \<Rightarrow> serverHelloMsg \<Rightarrow> gerror + bytes" where
  "serverHelloMsg_marshal cb m =
     (case Bytes cb (serverHello_extensions cb m new_builder) of
        Inl e \<Rightarrow> Inl e
      | Inr extBytes \<Rightarrow> Bytes cb (stmts [
          AddUint8 cb typeServerHello,
          AddUint24LengthPrefixed cb (stmts [
            AddUint16 cb (sh_vers m),
            addBytesWithLength cb (sh_random m) 32,
            AddUint8LengthPrefixed cb (AddBytes cb (sh_sessionId m)),
            AddUint16 cb (sh_cipherSuite m),
            AddUint8 cb (sh_compressionMethod m),
            if_stmts (length extBytes > 0) [AddUint16LengthPrefixed cb (AddBytes cb extBytes)]])] new_builder))"

definition serverHello_ext :: "cryptobyte \<Rightarrow> bool \<Rightarrow> u16 \<Rightarrow> bytes \<Rightarrow> serverHelloMsg \<Rightarrow> serverHelloMsg option" where
  "serverHello_ext cb isLast extension extData m =
     (if extension = extensionStatusRequest then do {
        require (extData = []);
        Some (m\<lparr>sh_ocspStapling := True\<rparr>) }
      else if extension = extensionSessionTicket then do {
        require (extData = []);
        Some (m\<lparr>sh_ticketSupported := True\<rparr>) }
      else if extension = extensionRenegotiationInfo then do {
        (v, extData) \<leftarrow> readUint8LengthPrefixed cb extData;
        require (extData = []);
        Some (m\<lparr>sh_secureRenegotiation := v, sh_secureRenegotiationSupported := True\<rparr>) }
      else if extension = extensionExtendedMasterSecret then do {
        require (extData = []);
        Some (m\<lparr>sh_extendedMasterSecret := True\<rparr>) }
      else if extension = extensionALPN then do {
        (protoList, extData) \<leftarrow> ReadUint16LengthPrefixed cb extData;
        require (protoList \<noteq> []);
        (proto, protoList) \<leftarrow> ReadUint8LengthPrefixed cb protoList;
        require (proto \<noteq> [] \<and> protoList = []);
        require (extData = []);
        Some (m\<lparr>sh_alpnProtocol := proto\<rparr>) }
      else if extension = extensionSCT then do {
        (sctList, extData) \<leftarrow> ReadUint16LengthPrefixed cb extData;
        require (sctList \<noteq> []);
        scts \<leftarrow> read_vec16s cb sctList (sh_scts m);
        require (extData = []);
        Some (m\<lparr>sh_scts := scts\<rparr>) }
      else if extension = extensionSupportedVersions then do {
        (v, extData) \<leftarrow> ReadUint16 cb extData;
        require (extData = []);
        Some (m\<lparr>sh_supportedVersion := v\<rparr>) }
      else if extension = extensionCookie then do {
        (v, extData) \<leftarrow> readUint16LengthPrefixed cb extData;
        require (v \<noteq> []);
        require (extData = []);
        Some (m\<lparr>sh_cookie := v\<rparr>) }
      else if extension = extensionKeyShare then
        if length extData = 2 then do {
          (g, extData) \<leftarrow> ReadUint16 cb extData;
          require (extData = []);
          Some (m\<lparr>sh_selectedGroup := g\<rparr>) }
        else do {
          (g, extData) \<leftarrow> ReadUint16 cb extData;
          (v, extData) \<leftarrow> readUint16LengthPrefixed cb extData;
          require (extData = []);
          Some (m\<lparr>sh_serverShare := \<lparr>ks_group = g, ks_data = v\<rparr>\<rparr>) }
      else if extension = extensionPreSharedKey then do {
        (v, extData) \<leftarrow> ReadUint16 cb extData;
        require (extData = []);
        Some (m\<lparr>sh_selectedIdentityPresent := True, sh_selectedIdentity := v\<rparr>) }
      else if extension = extensionSupportedPoints then do {
        (v, extData) \<leftarrow> readUint8LengthPrefixed cb extData;
        require (v \<noteq> []);
        require (extData = []);
        Some (m\<lparr>sh_supportedPoints := v\<rparr>) }
      else if extension = extensionEncryptedClientHello then do {
        (v, extData) \<leftarrow> CopyBytes cb extData (length extData);
        require (extData = []);
        Some (m\<lparr>sh_encryptedClientHello := v\<rparr>) }
      else if extension = extensionServerName then do {
        require (length extData = 0);
        Some (m\<lparr>sh_serverNameAck := True\<rparr>) }
      else Some m)"

definition serverHelloMsg_zero :: "bytes \<Rightarrow> serverHelloMsg" where
  "serverHelloMsg_zero d = \<lparr>sh_original = Some d, sh_vers = 0, sh_random = [], sh_sessionId = [],
     sh_cipherSuite = 0, sh_compressionMethod = 0, sh_ocspStapling = False, sh_ticketSupported = False,
     sh_secureRenegotiationSupported = False, sh_secureRenegotiation = [], sh_extendedMasterSecret = False,
     sh_alpnProtocol = [], sh_scts = [], sh_supportedVersion = 0, sh_serverShare = \<lparr>ks_group = 0, ks_data = []\<rparr>,
     sh_selectedIdentityPresent = False, sh_selectedIdentity = 0, sh_supportedPoints = [],
     sh_encryptedClientHello = [], sh_serverNameAck = False, sh_cookie = [], sh_selectedGroup = 0,
     sh_nextProtoNeg = False, sh_nextProtos = []\<rparr>"

definition serverHelloMsg_unmarshal :: "cryptobyte \<Rightarrow> bytes \<Rightarrow> serverHelloMsg option" where
  "serverHelloMsg_unmarshal cb d = do {
     s \<leftarrow> Skip cb d 4;
     (v, s) \<leftarrow> ReadUint16 cb s;
     (r, s) \<leftarrow> ReadBytes cb s 32;
     (sid, s) \<leftarrow> readUint8LengthPrefixed cb s;
     (cs, s) \<leftarrow> ReadUint16 cb s;
     (cm, s) \<leftarrow> ReadUint8 cb s;
     let m = (serverHelloMsg_zero d)\<lparr>sh_vers := v, sh_random := r, sh_sessionId := sid,
       sh_cipherSuite := cs, sh_compressionMethod := cm\<rparr>;
     if s = [] then Some m
     else do {
       (extensions, s) \<leftarrow> ReadUint16LengthPrefixed cb s;
       require (s = []);
       (seenExts, m) \<leftarrow> for_extensions cb (with_seen (serverHello_ext cb)) extensions ({}, m);
       Some m } }"

text \<open>The extensions as they stand on the wire, and the messages that the format can carry.\<close>

definition serverHello_wire :: "serverHelloMsg \<Rightarrow> (u16 \<times> bytes) list" where
  "serverHello_wire m =
     (if sh_ocspStapling m then [(extensionStatusRequest, [])] else [])
     @ (if sh_ticketSupported m then [(extensionSessionTicket, [])] else [])
     @ (if sh_secureRenegotiationSupported m
        then [(extensionRenegotiationInfo, vec8 (sh_secureRenegotiation m))] else [])
     @ (if sh_extendedMasterSecret m then [(extensionExtendedMasterSecret, [])] else [])
     @ (if length (sh_alpnProtocol m) > 0 then [(extensionALPN, vec16 (vec8 (sh_alpnProtocol m)))] else [])
     @ (if length (sh_scts m) > 0 then [(extensionSCT, vec16 (concat (map vec16 (sh_scts m))))] else [])
     @ (if sh_supportedVersion m \<noteq> 0 then [(extensionSupportedVersions, be16 (sh_supportedVersion m))] else [])
     @ (if ks_group (sh_serverShare m) \<noteq> 0
        then [(extensionKeyShare, be16 (ks_group (sh_serverShare m)) @ vec16 (ks_data (sh_serverShare m)))] else [])
     @ (if sh_selectedIdentityPresent m then [(extensionPreSharedKey, be16 (sh_selectedIdentity m))] else [])
     @ (if length (sh_cookie m) > 0 then [(extensionCookie, vec16 (sh_cookie m))] else [])
     @ (if sh_selectedGroup m \<noteq> 0 then [(extensionKeyShare, be16 (sh_selectedGroup m))] else [])
     @ (if length (sh_supportedPoints m) > 0 then [(extensionSupportedPoints, vec8 (sh_supportedPoints m))] else [])
     @ (if length (sh_encryptedClientHello m) > 0
        then [(extensionEncryptedClientHello, sh_encryptedClientHello m)] else [])
     @ (if sh_serverNameAck m then [(extensionServerName, [])] else [])
     @ []"

definition serverHello_ok :: "serverHelloMsg \<Rightarrow> bool" where
  "serverHello_ok m \<longleftrightarrow>
     (sh_secureRenegotiation m \<noteq> [] \<longrightarrow> sh_secureRenegotiationSupported m)
     \<and> [] \<notin> set (sh_scts m)
     \<and> (ks_group (sh_serverShare m) = 0 \<longrightarrow> ks_data (sh_serverShare m) = [])
     \<and> (ks_group (sh_serverShare m) = 0 \<or> sh_selectedGroup m = 0)
     \<and> (sh_selectedIdentity m \<noteq> 0 \<longrightarrow> sh_selectedIdentityPresent m)
     \<and> \<not> sh_nextProtoNeg m \<and> sh_nextProtos m = []"

definition serverHello_fits :: "serverHelloMsg \<Rightarrow> bool" where
  "serverHello_fits m \<longleftrightarrow>
     (sh_secureRenegotiationSupported m \<longrightarrow> length (sh_secureRenegotiation m) < 256)
     \<and> length (sh_alpnProtocol m) < 256
     \<and> (\<forall>sct \<in> set (sh_scts m). length sct < 65536) \<and> length (concat (map vec16 (sh_scts m))) < 65536
     \<and> (ks_group (sh_serverShare m) \<noteq> 0 \<longrightarrow> length (ks_data (sh_serverShare m)) < 65536)
     \<and> length (sh_cookie m) < 65536 \<and> length (sh_supportedPoints m) < 256"

context cryptobyte_laws
begin

lemma serverHello_emits: "emits_exts (serverHello_extensions cb m) (serverHello_wire m)
   (True \<and> True \<and> (sh_secureRenegotiationSupported m \<longrightarrow> length (sh_secureRenegotiation m) < 256) \<and> True
    \<and> (length (sh_alpnProtocol m) > 0 \<longrightarrow> length (sh_alpnProtocol m) < 256)
    \<and> (length (sh_scts m) > 0 \<longrightarrow> (\<forall>sct \<in> set (sh_scts m). length sct < 65536)
         \<and> length (concat (map vec16 (sh_scts m))) < 65536)
    \<and> (sh_supportedVersion m \<noteq> 0 \<longrightarrow> True)
    \<and> (ks_group (sh_serverShare m) \<noteq> 0 \<longrightarrow> length (ks_data (sh_serverShare m)) < 65536)
    \<and> (sh_selectedIdentityPresent m \<longrightarrow> True)
    \<and> (length (sh_cookie m) > 0 \<longrightarrow> length (sh_cookie m) < 65536)
    \<and> (sh_selectedGroup m \<noteq> 0 \<longrightarrow> True)
    \<and> (length (sh_supportedPoints m) > 0 \<longrightarrow> length (sh_supportedPoints m) < 256)
    \<and> (length (sh_encryptedClientHello m) > 0 \<longrightarrow> True) \<and> True \<and> True)"
  unfolding serverHello_extensions_def serverHello_wire_def
  by (intro emits_exts_Cons emits_exts_Nil emits_ext_block emits_ext_empty emitter_rules)
    (auto simp: codec_simps emitter_rules split: if_splits bind_splits)

lemma serverHello_parse:
  fixes z m :: serverHelloMsg
  assumes "serverHello_ok m" "serverHello_fits m"
    and "z = (serverHelloMsg_zero d)\<lparr>sh_vers := sh_vers m, sh_random := sh_random m, sh_sessionId := sh_sessionId m,
       sh_cipherSuite := sh_cipherSuite m, sh_compressionMethod := sh_compressionMethod m\<rparr>"
  shows "run_items (\<lambda>l (i, d). serverHello_ext cb l i d) (serverHello_wire m) z = Some (m\<lparr>sh_original := Some d\<rparr>)"
  (is "run_items ?step _ _ = _")
proof -
  let ?z1 = "z\<lparr>sh_ocspStapling := sh_ocspStapling m\<rparr>"
  let ?z2 = "?z1\<lparr>sh_ticketSupported := sh_ticketSupported m\<rparr>"
  let ?z3 = "?z2\<lparr>sh_secureRenegotiation := sh_secureRenegotiation m,
    sh_secureRenegotiationSupported := sh_secureRenegotiationSupported m\<rparr>"
  let ?z4 = "?z3\<lparr>sh_extendedMasterSecret := sh_extendedMasterSecret m\<rparr>"
  let ?z5 = "?z4\<lparr>sh_alpnProtocol := sh_alpnProtocol m\<rparr>"
  let ?z6 = "?z5\<lparr>sh_scts := sh_scts m\<rparr>"
  let ?z7 = "?z6\<lparr>sh_supportedVersion := sh_supportedVersion m\<rparr>"
  let ?z8 = "?z7\<lparr>sh_serverShare := sh_serverShare m\<rparr>"
  let ?z9 = "?z8\<lparr>sh_selectedIdentityPresent := sh_selectedIdentityPresent m, sh_selectedIdentity := sh_selectedIdentity m\<rparr>"
  let ?z10 = "?z9\<lparr>sh_cookie := sh_cookie m\<rparr>"
  let ?z11 = "?z10\<lparr>sh_selectedGroup := sh_selectedGroup m\<rparr>"
  let ?z12 = "?z11\<lparr>sh_supportedPoints := sh_supportedPoints m\<rparr>"
  let ?z13 = "?z12\<lparr>sh_encryptedClientHello := sh_encryptedClientHello m\<rparr>"
  let ?z14 = "?z13\<lparr>sh_serverNameAck := sh_serverNameAck m\<rparr>"
  note ok = assms(1) [unfolded serverHello_ok_def] assms(2) [unfolded serverHello_fits_def]
  show ?thesis
    unfolding serverHello_wire_def
    by (intro run_items_optional [of _ ?step _ z ?z1] run_items_optional [of _ ?step _ ?z1 ?z2]
        run_items_optional [of _ ?step _ ?z2 ?z3] run_items_optional [of _ ?step _ ?z3 ?z4]
        run_items_optional [of _ ?step _ ?z4 ?z5] run_items_optional [of _ ?step _ ?z5 ?z6]
        run_items_optional [of _ ?step _ ?z6 ?z7] run_items_optional [of _ ?step _ ?z7 ?z8]
        run_items_optional [of _ ?step _ ?z8 ?z9] run_items_optional [of _ ?step _ ?z9 ?z10]
        run_items_optional [of _ ?step _ ?z10 ?z11] run_items_optional [of _ ?step _ ?z11 ?z12]
        run_items_optional [of _ ?step _ ?z12 ?z13] run_items_optional [of _ ?step _ ?z13 ?z14];
        insert ok; simp add: serverHello_ext_def assms(3) serverHelloMsg_zero_def codec_simps read_helpers)
qed

lemma serverHello_wire_distinct:
  "serverHello_ok m \<Longrightarrow> distinct (map fst (serverHello_wire m))"
  unfolding serverHello_wire_def serverHello_ok_def
  by (simp only: distinct_optional notin_optional) auto

lemma serverHello_marshal_wire:
  assumes "serverHelloMsg_marshal cb m = Inr bs"
  shows "framed typeServerHello bs \<and> serverHello_fits m \<and> length (sh_random m) = 32 \<and> length (sh_sessionId m) < 256
    \<and> (\<forall>(i, d) \<in> set (serverHello_wire m). length d < 65536)
    \<and> length (concat (map ext_enc (serverHello_wire m))) < 65536
    \<and> bs = typeServerHello # vec24 (be16 (sh_vers m) @ sh_random m @ vec8 (sh_sessionId m)
        @ be16 (sh_cipherSuite m) @ sh_compressionMethod m
        # (if serverHello_wire m = [] then [] else vec16 (concat (map ext_enc (serverHello_wire m)))))"
proof -
  let ?body = "\<lambda>x. stmts [AddUint16 cb (sh_vers m), addBytesWithLength cb (sh_random m) 32,
      AddUint8LengthPrefixed cb (AddBytes cb (sh_sessionId m)), AddUint16 cb (sh_cipherSuite m),
      AddUint8 cb (sh_compressionMethod m),
      if_stmts (length x > 0) [AddUint16LengthPrefixed cb (AddBytes cb x)]]"
  obtain x where "out (serverHello_extensions cb m) = Some x" and
    b: "Bytes cb (stmts [AddUint8 cb typeServerHello, AddUint24LengthPrefixed cb (?body x)] new_builder) = Inr bs"
    using assms by (auto simp: serverHelloMsg_marshal_def Bytes_Inr split: sum.splits)
  from emits_exts_out [OF serverHello_emits this(1)]
  have x: "x = concat (map ext_enc (serverHello_wire m))" "serverHello_fits m"
    "\<forall>(i, d) \<in> set (serverHello_wire m). length d < 65536"
    by (auto simp: serverHello_fits_def)
  obtain p where p: "out (?body x) = Some p" "bs = typeServerHello # vec24 p" "length p < 16777216"
    using b unfolding framed_message by blast
  have r: "length (sh_random m) = 32"
    using p(1) out_bad_length [of "sh_random m" 32] by (force simp: emitter_rules)
  show ?thesis
    using p x r concat_ext_enc_Nil [of "serverHello_wire m"] framedI [OF p(3), of typeServerHello]
    by (auto simp: emitter_rules codec_simps split: bind_splits if_splits simp del: concat_eq_Nil_conv)
qed

lemma serverHello_roundtrip:
  assumes "serverHelloMsg_marshal cb m = Inr bs" and "serverHello_ok m"
  shows "serverHelloMsg_unmarshal cb bs = Some (m\<lparr>sh_original := Some bs\<rparr>) \<and> framed typeServerHello bs"
proof -
  note w = serverHello_marshal_wire [OF assms(1)]
  note p = serverHello_parse [OF assms(2) _ refl, of bs]
  show ?thesis
    using w p serverHello_wire_distinct [OF assms(2)]
    by (auto simp: serverHelloMsg_unmarshal_def codec_simps read_helpers for_extensions_items Let_def
        run_items_with_seen)
qed

end

section \<open>Properties\<close>

text \<open>
  C20. ServerHello: whatever \<open>serverHelloMsg.marshal\<close> produces for a message whose fields are
  consistent is parsed back by \<open>serverHelloMsg.unmarshal\<close> to the same message, with the bytes
  recorded as \<open>original\<close>.
\<close>

theorem serverHello_parse_marshal:
  assumes "cryptobyte_laws cb" and "serverHelloMsg_marshal cb m = Inr bs" and "serverHello_ok m"
  shows "serverHelloMsg_unmarshal cb bs = Some (m\<lparr>sh_original := Some bs\<rparr>)"
  using cryptobyte_laws.serverHello_roundtrip [OF assms] by blast

definition hello_retry :: serverHelloMsg where
  "hello_retry = (serverHelloMsg_zero [])\<lparr>sh_original := None, sh_vers := VersionTLS12, sh_random := replicate 32 7,
     sh_cipherSuite := 0x1301, sh_supportedVersion := VersionTLS13, sh_cookie := [1, 2], sh_selectedGroup := 29\<rparr>"

theorem serverHello_parse_marshal_witness:
  "\<exists>bs. serverHelloMsg_marshal cb_ref hello_retry = Inr bs
    \<and> serverHelloMsg_unmarshal cb_ref bs = Some (hello_retry\<lparr>sh_original := Some bs\<rparr>)"
proof -
  obtain bs where bs: "serverHelloMsg_marshal cb_ref hello_retry = Inr bs"
    by (simp add: hello_retry_def serverHelloMsg_zero_def serverHelloMsg_marshal_def serverHello_extensions_def
        cb_eval addBytesWithLength_def Let_def)
  have "serverHello_ok hello_retry"
    by (simp add: serverHello_ok_def hello_retry_def serverHelloMsg_zero_def)
  from serverHello_parse_marshal [OF ref.cryptobyte_laws_axioms bs this] bs show ?thesis
    by blast
qed

end
