(* ===== verification/ClientHello.thy ===== *)
theory ClientHello
  imports ServerHello
begin

text \<open>
  The ClientHello message: its three serialisations (the plain message, the compressed inner
  hello of Encrypted Client Hello and its expansion), the variants without PSK binders, and
  the parser.
\<close>

section \<open>The message\<close>

record pskIdentity =
  psk_label :: bytes
  psk_obfuscatedTicketAge :: u32

record clientHelloMsg =
  ch_original :: "bytes option"
  ch_vers :: u16
  ch_random :: bytes
  ch_sessionId :: bytes
  ch_cipherSuites :: "u16 list"
  ch_compressionMethods :: bytes
  ch_serverName :: bytes
  ch_ocspStapling :: bool
  ch_supportedCurves :: "u16 list"
  ch_supportedPoints :: bytes
  ch_ticketSupported :: bool
  ch_sessionTicket :: bytes
  ch_supportedSignatureAlgorithms :: "u16 list"
  ch_supportedSignatureAlgorithmsCert :: "u16 list"
  ch_secureRenegotiationSupported :: bool
  ch_secureRenegotiation :: bytes
  ch_extendedMasterSecret :: bool
  ch_alpnProtocols :: "bytes list"
  ch_scts :: bool
  ch_supportedVersions :: "u16 list"
  ch_cookie :: bytes
  ch_keyShares :: "keyShare list"
  ch_earlyData :: bool
  ch_pskModes :: bytes
  ch_pskIdentities :: "pskIdentity list"
  ch_pskBinders :: "bytes list"
  ch_quicTransportParameters :: "bytes option"
  ch_encryptedClientHello :: bytes
  ch_extensions :: "u16 list"
  ch_nextProtoNeg :: bool


section \<open>The extensions\<close>

text \<open>
  One definition per block \<open>if ... { exts.AddUint16(extension...) ... }\<close>; the three
  serialisers of the source repeat these blocks.
\<close>

definition chx_serverName :: "cryptobyte \<Rightarrow> clientHelloMsg \<Rightarrow> builder \<Rightarrow> builder" where
  "chx_serverName cb m = if_stmts (length (ch_serverName m) > 0) [
     AddUint16 cb extensionServerName,
     AddUint16LengthPrefixed cb (AddUint16LengthPrefixed cb (stmts [
       AddUint8 cb 0,
       AddUint16LengthPrefixed cb (AddBytes cb (ch_serverName m))]))]"

definition chx_supportedPoints :: "cryptobyte \<Rightarrow> clientHelloMsg \<Rightarrow> builder \<Rightarrow> builder" where
  "chx_supportedPoints cb m = if_stmts (length (ch_supportedPoints m) > 0) [
     AddUint16 cb extensionSupportedPoints,
     AddUint16LengthPrefixed cb (AddUint8LengthPrefixed cb (AddBytes cb (ch_supportedPoints m)))]"

definition chx_sessionTicket :: "cryptobyte \<Rightarrow> clientHelloMsg \<Rightarrow> builder \<Rightarrow> builder" where
  "chx_sessionTicket cb m = if_stmts (ch_ticketSupported m) [
     AddUint16 cb extensionSessionTicket,
     AddUint16LengthPrefixed cb (AddBytes cb (ch_sessionTicket m))]"

definition chx_renegotiationInfo :: "cryptobyte \<Rightarrow> clientHelloMsg \<Rightarrow> builder \<Rightarrow> builder" where
  "chx_renegotiationInfo cb m = if_stmts (ch_secureRenegotiationSupported m) [
     AddUint16 cb extensionRenegotiationInfo,
     AddUint16LengthPrefixed cb (AddUint8LengthPrefixed cb (AddBytes cb (ch_secureRenegotiation m)))]"

definition chx_extendedMasterSecret :: "cryptobyte \<Rightarrow> clientHelloMsg \<Rightarrow> builder \<Rightarrow> builder" where
  "chx_extendedMasterSecret cb m = if_stmts (ch_extendedMasterSecret m) [
     AddUint16 cb extensionExtendedMasterSecret, AddUint16 cb 0]"

definition chx_scts :: "cryptobyte \<Rightarrow> clientHelloMsg \<Rightarrow> builder \<Rightarrow> builder" where
  "chx_scts cb m = if_stmts (ch_scts m) [AddUint16 cb extensionSCT, AddUint16 cb 0]"

definition chx_earlyData :: "cryptobyte \<Rightarrow> clientHelloMsg \<Rightarrow> builder \<Rightarrow> builder" where
  "chx_earlyData cb m = if_stmts (ch_earlyData m) [AddUint16 cb extensionEarlyData, AddUint16 cb 0]"

definition chx_quicTransportParameters :: "cryptobyte \<Rightarrow> clientHelloMsg \<Rightarrow> builder \<Rightarrow> builder" where
  "chx_quicTransportParameters cb m = if_stmts (ch_quicTransportParameters m \<noteq> None) [
     AddUint16 cb extensionQUICTransportParameters,
     AddUint16LengthPrefixed cb (AddBytes cb (the (ch_quicTransportParameters m)))]"

definition chx_encryptedClientHello :: "cryptobyte \<Rightarrow> clientHelloMsg \<Rightarrow> builder \<Rightarrow> builder" where
  "chx_encryptedClientHello cb m = if_stmts (length (ch_encryptedClientHello m) > 0) [
     AddUint16 cb extensionEncryptedClientHello,
     AddUint16LengthPrefixed cb (AddBytes cb (ch_encryptedClientHello m))]"

definition chx_statusRequest :: "cryptobyte \<Rightarrow> clientHelloMsg \<Rightarrow> builder \<Rightarrow> builder" where
  "chx_statusRequest cb m = if_stmts (ch_ocspStapling m) [
     AddUint16 cb extensionStatusRequest,
     AddUint16LengthPrefixed cb (stmts [AddUint8 cb 1, AddUint16 cb 0, AddUint16 cb 0])]"

definition chx_supportedCurves :: "cryptobyte \<Rightarrow> clientHelloMsg \<Rightarrow> builder \<Rightarrow> builder" where
  "chx_supportedCurves cb m = if_stmts (length (ch_supportedCurves m) > 0) [
     AddUint16 cb extensionSupportedCurves,
     AddUint16LengthPrefixed cb (AddUint16LengthPrefixed cb
       (stmts (map (AddUint16 cb) (ch_supportedCurves m))))]"

definition chx_signatureAlgorithms :: "cryptobyte \<Rightarrow> clientHelloMsg \<Rightarrow> builder \<Rightarrow> builder" where
  "chx_signatureAlgorithms cb m = if_stmts (length (ch_supportedSignatureAlgorithms m) > 0) [
     AddUint16 cb extensionSignatureAlgorithms,
     AddUint16LengthPrefixed cb (AddUint16LengthPrefixed cb
       (stmts (map (AddUint16 cb) (ch_supportedSignatureAlgorithms m))))]"

definition chx_signatureAlgorithmsCert :: "cryptobyte \<Rightarrow> clientHelloMsg \<Rightarrow> builder \<Rightarrow> builder" where
  "chx_signatureAlgorithmsCert cb m = if_stmts (length (ch_supportedSignatureAlgorithmsCert m) > 0) [
     AddUint16 cb extensionSignatureAlgorithmsCert,
     AddUint16LengthPrefixed cb (AddUint16LengthPrefixed cb
       (stmts (map (AddUint16 cb) (ch_supportedSignatureAlgorithmsCert m))))]"

definition chx_alpn :: "cryptobyte \<Rightarrow> clientHelloMsg \<Rightarrow> builder \<Rightarrow> builder" where
  "chx_alpn cb m = if_stmts (length (ch_alpnProtocols m) > 0) [
     AddUint16 cb extensionALPN,
     AddUint16LengthPrefixed cb (AddUint16LengthPrefixed cb (stmts (map
       (\<lambda>proto. AddUint8LengthPrefixed cb (AddBytes cb proto)) (ch_alpnProtocols m))))]"

definition chx_versions :: "cryptobyte \<Rightarrow> u16 list \<Rightarrow> builder \<Rightarrow> builder" where
  "chx_versions cb versions = if_stmts (length versions > 0) [
     AddUint16 cb extensionSupportedVersions,
     AddUint16LengthPrefixed cb (AddUint8LengthPrefixed cb (stmts (map (AddUint16 cb) versions)))]"

definition chx_cookie :: "cryptobyte \<Rightarrow> clientHelloMsg \<Rightarrow> builder \<Rightarrow> builder" where
  "chx_cookie cb m = if_stmts (length (ch_cookie m) > 0) [
     AddUint16 cb extensionCookie,
     AddUint16LengthPrefixed cb (AddUint16LengthPrefixed cb (AddBytes cb (ch_cookie m)))]"

definition chx_keyShares :: "cryptobyte \<Rightarrow> clientHelloMsg \<Rightarrow> builder \<Rightarrow> builder" where
  "chx_keyShares cb m = if_stmts (length (ch_keyShares m) > 0) [
     AddUint16 cb extensionKeyShare,
     AddUint16LengthPrefixed cb (AddUint16LengthPrefixed cb (stmts (map (\<lambda>ks. stmts [
       AddUint16 cb (ks_group ks),
       AddUint16LengthPrefixed cb (AddBytes cb (ks_data ks))]) (ch_keyShares m))))]"

definition chx_pskModes :: "cryptobyte \<Rightarrow> clientHelloMsg \<Rightarrow> builder \<Rightarrow> builder" where
  "chx_pskModes cb m = if_stmts (length (ch_pskModes m) > 0) [
     AddUint16 cb extensionPSKModes,
     AddUint16LengthPrefixed cb (AddUint8LengthPrefixed cb (AddBytes cb (ch_pskModes m)))]"

definition chx_preSharedKey :: "cryptobyte \<Rightarrow> clientHelloMsg \<Rightarrow> builder \<Rightarrow> builder" where
  "chx_preSharedKey cb m = if_stmts (length (ch_pskIdentities m) > 0) [
     AddUint16 cb extensionPreSharedKey,
     AddUint16LengthPrefixed cb (stmts [
       AddUint16LengthPrefixed cb (stmts (map (\<lambda>psk. stmts [
         AddUint16LengthPrefixed cb (AddBytes cb (psk_label psk)),
         AddUint32 cb (psk_obfuscatedTicketAge psk)]) (ch_pskIdentities m))),
       AddUint16LengthPrefixed cb (stmts (map
         (\<lambda>binder. AddUint8LengthPrefixed cb (AddBytes cb binder)) (ch_pskBinders m)))])]"

definition chx_echOuterExtensions :: "cryptobyte \<Rightarrow> u16 list \<Rightarrow> builder \<Rightarrow> builder" where
  "chx_echOuterExtensions cb es = if_stmts (length es > 0) [
     AddUint16 cb extensionECHOuterExtensions,
     AddUint16LengthPrefixed cb (AddUint8LengthPrefixed cb (stmts (map (AddUint16 cb) es)))]"


section \<open>Serialisation\<close>

definition is_grease :: "u16 \<Rightarrow> bool" where
  "is_grease v \<longleftrightarrow> v AND 0x0f0f = 0x0a0a"

text \<open>The extensions that the inner hello takes from the outer one.\<close>

definition ech_compressible :: "u16 \<Rightarrow> bool" where
  "ech_compressible extType \<longleftrightarrow> is_grease extType \<or>
     extType \<in> {extensionPSKModes, extensionSupportedCurves, extensionALPN, extensionSignatureAlgorithms,
       extensionQUICTransportParameters, extensionKeyShare, extensionRenegotiationInfo, extensionSCT,
       extensionSupportedPoints, extensionSessionTicket, extensionStatusRequest,
       extensionExtendedMasterSecret, extensionSignatureAlgorithmsCert,
       utlsExtensionCompressCertificate, utlsExtensionApplicationSettings, utlsExtensionApplicationSettingsNew,
       extensionSupportedVersions, extensionEarlyData}"

definition innerHello_exts :: "cryptobyte \<Rightarrow> clientHelloMsg \<Rightarrow> u16 list \<Rightarrow> builder \<Rightarrow> builder" where
  "innerHello_exts cb m outerExts =
     (let echOuterExts = filter ech_compressible outerExts;
          supportedVersionsInOuter = (extensionSupportedVersions \<in> set echOuterExts)
      in stmts [
        chx_encryptedClientHello cb m,
        chx_serverName cb m,
        chx_echOuterExtensions cb echOuterExts,
        if_stmts (\<not> supportedVersionsInOuter \<and> length (ch_supportedVersions m) > 0)
          [chx_versions cb [VersionTLS13]],
        chx_preSharedKey cb m])"

definition chromeECHOuterOrder :: "u16 list" where
  "chromeECHOuterOrder = [extensionALPN, extensionKeyShare, extensionSignatureAlgorithms,
     extensionSupportedVersions, extensionPSKModes, extensionSupportedCurves,
     extensionQUICTransportParameters, extensionStatusRequest, extensionSupportedPoints, extensionSCT,
     extensionExtendedMasterSecret, extensionSessionTicket, extensionSignatureAlgorithmsCert,
     extensionRenegotiationInfo]"

definition clientHello_echOuterExts :: "clientHelloMsg \<Rightarrow> bool \<Rightarrow> u16 list option \<Rightarrow> u16 list" where
  "clientHello_echOuterExts m echInner outerExts =
     (let echOuterExts =
        (if ch_quicTransportParameters m \<noteq> None \<and> echInner then [extensionQUICTransportParameters] else [])
        @ (if ch_ocspStapling m \<and> echInner then [extensionStatusRequest] else [])
        @ (if length (ch_supportedCurves m) > 0 \<and> echInner then [extensionSupportedCurves] else [])
        @ (if length (ch_supportedSignatureAlgorithms m) > 0 \<and> echInner then [extensionSignatureAlgorithms] else [])
        @ (if length (ch_supportedSignatureAlgorithmsCert m) > 0 \<and> echInner
           then [extensionSignatureAlgorithmsCert] else [])
        @ (if length (ch_alpnProtocols m) > 0 \<and> echInner then [extensionALPN] else [])
        @ (if length (ch_cookie m) > 0 \<and> echInner then [extensionCookie] else [])
        @ (if length (ch_keyShares m) > 0 \<and> echInner then [extensionKeyShare] else [])
        @ (if length (ch_pskModes m) > 0 \<and> echInner then [extensionPSKModes] else [])
      in if echInner \<and> outerExts \<noteq> None
         then filter (\<lambda>e. e \<in> set echOuterExts) chromeECHOuterOrder else echOuterExts)"

definition clientHello_exts :: "cryptobyte \<Rightarrow> clientHelloMsg \<Rightarrow> bool \<Rightarrow> u16 list option \<Rightarrow> builder \<Rightarrow> builder" where
  "clientHello_exts cb m echInner outerExts = stmts [
     chx_serverName cb m,
     if_stmts (\<not> echInner) [chx_supportedPoints cb m],
     if_stmts (\<not> echInner) [chx_sessionTicket cb m],
     if_stmts (\<not> echInner) [chx_renegotiationInfo cb m],
     if_stmts (\<not> echInner) [chx_extendedMasterSecret cb m],
     if_stmts (\<not> echInner) [chx_scts cb m],
     if_stmts (\<not> echInner) [chx_earlyData cb m],
     if_stmts (\<not> echInner) [chx_quicTransportParameters cb m],
     if_stmts (\<not> echInner) [chx_encryptedClientHello cb m],
     if_stmts (\<not> echInner) [chx_statusRequest cb m],
     if_stmts (\<not> echInner) [chx_supportedCurves cb m],
     if_stmts (\<not> echInner) [chx_signatureAlgorithms cb m],
     if_stmts (\<not> echInner) [chx_signatureAlgorithmsCert cb m],
     if_stmts (\<not> echInner) [chx_alpn cb m],
     if_stmts (length (ch_supportedVersions m) > 0) [
       chx_versions cb (if echInner
         then filter (\<lambda>vers. vers = VersionTLS13 \<or> is_grease vers) (ch_supportedVersions m)
         else ch_supportedVersions m)],
     if_stmts (\<not> echInner) [chx_cookie cb m],
     if_stmts (\<not> echInner) [chx_keyShares cb m],
     if_stmts (\<not> echInner) [chx_pskModes cb m],
     if_stmts echInner [chx_echOuterExtensions cb (clientHello_echOuterExts m echInner outerExts)],
     chx_preSharedKey cb m]"

text \<open>The label \<open>buildClientHello\<close>, which \<open>marshalExpandedECH\<close> repeats.\<close>

definition buildClientHello :: "cryptobyte \<Rightarrow> u16 \<Rightarrow> (builder \<Rightarrow> builder) \<Rightarrow> bytes \<Rightarrow> u16 list \<Rightarrow> bytes \<Rightarrow>
    bytes \<Rightarrow> gerror + bytes" where
  "buildClientHello cb vers addRandom sessionId cipherSuites compressionMethods extBytes =
     Bytes cb (stmts [
       AddUint8 cb typeClientHello,
       AddUint24LengthPrefixed cb (stmts [
         AddUint16 cb vers,
         addRandom,
         AddUint8LengthPrefixed cb (AddBytes cb sessionId),
         AddUint16LengthPrefixed cb (stmts (map (AddUint16 cb) cipherSuites)),
         AddUint8LengthPrefixed cb (AddBytes cb compressionMethods),
         if_stmts (length extBytes > 0) [AddUint16LengthPrefixed cb (AddBytes cb extBytes)]])] new_builder)"

definition marshalMsgReorderOuterExts :: "cryptobyte \<Rightarrow> clientHelloMsg \<Rightarrow> bool \<Rightarrow> u16 list option \<Rightarrow> gerror + bytes" where
  "marshalMsgReorderOuterExts cb m echInner outerExts =
     (case Bytes cb ((if echInner \<and> outerExts \<noteq> None then innerHello_exts cb m (the outerExts)
                      else clientHello_exts cb m echInner outerExts) new_builder) of
        Inl e \<Rightarrow> Inl e
      | Inr extBytes \<Rightarrow> buildClientHello cb (ch_vers m) (addBytesWithLength cb (ch_random m) 32)
          (if \<not> echInner then ch_sessionId m else []) (ch_cipherSuites m) (ch_compressionMethods m) extBytes)"

definition marshalMsg :: "cryptobyte \<Rightarrow> clientHelloMsg \<Rightarrow> bool \<Rightarrow> gerror + bytes" where
  "marshalMsg cb m echInner = marshalMsgReorderOuterExts cb m echInner None"

definition clientHelloMsg_marshal :: "cryptobyte \<Rightarrow> clientHelloMsg \<Rightarrow> gerror + bytes" where
  "clientHelloMsg_marshal cb m = (case ch_original m of Some d \<Rightarrow> Inr d | None \<Rightarrow> marshalMsg cb m False)"

text \<open>The tail of the message that holds the binders: a length prefix, then a length and the bytes of each.\<close>

definition bindersLen :: "clientHelloMsg \<Rightarrow> nat" where
  "bindersLen m = fold (\<lambda>binder n. n + 1 + length binder) (ch_pskBinders m) 2"

definition cut_binders :: "clientHelloMsg \<Rightarrow> bytes \<Rightarrow> gerror + bytes" where
  "cut_binders m fullMessage =
     (if length fullMessage < bindersLen m then Inl (Panic ''slice bounds out of range'')
      else Inr (take (length fullMessage - bindersLen m) fullMessage))"

definition marshalWithoutBinders :: "cryptobyte \<Rightarrow> clientHelloMsg \<Rightarrow> gerror + bytes" where
  "marshalWithoutBinders cb m =
     (case (case ch_original m of Some d \<Rightarrow> Inr d | None \<Rightarrow> clientHelloMsg_marshal cb m) of
        Inl e \<Rightarrow> Inl e | Inr fullMessage \<Rightarrow> cut_binders m fullMessage)"

definition marshalWithoutBindersECH :: "cryptobyte \<Rightarrow> clientHelloMsg \<Rightarrow> u16 list option \<Rightarrow> gerror + bytes" where
  "marshalWithoutBindersECH cb m outerExts =
     (case marshalMsgReorderOuterExts cb m True outerExts of
        Inl e \<Rightarrow> Inl e | Inr fullMessage \<Rightarrow> cut_binders m fullMessage)"

text \<open>The fallback of the expansion, for an outer extension whose raw bytes are not known.\<close>

definition expanded_fallback :: "cryptobyte \<Rightarrow> clientHelloMsg \<Rightarrow> u16 \<Rightarrow> builder \<Rightarrow> builder" where
  "expanded_fallback cb m extType =
     (if extType = extensionPSKModes then chx_pskModes cb m
      else if extType = extensionSupportedCurves then chx_supportedCurves cb m
      else if extType = extensionALPN then chx_alpn cb m
      else if extType = extensionSignatureAlgorithms then chx_signatureAlgorithms cb m
      else if extType = extensionSignatureAlgorithmsCert then chx_signatureAlgorithmsCert cb m
      else if extType = extensionKeyShare then chx_keyShares cb m
      else if extType = extensionQUICTransportParameters
      then (case ch_quicTransportParameters m of None \<Rightarrow> stmts []
            | Some q \<Rightarrow> if_stmts (length q > 0) [
                AddUint16 cb extensionQUICTransportParameters,
                AddUint16LengthPrefixed cb (AddBytes cb q)])
      else if extType = extensionRenegotiationInfo then chx_renegotiationInfo cb m
      else if extType = extensionSCT then chx_scts cb m
      else if extType = extensionSupportedPoints then chx_supportedPoints cb m
      else if extType = extensionSessionTicket then chx_sessionTicket cb m
      else if extType = extensionStatusRequest then chx_statusRequest cb m
      else if extType = extensionExtendedMasterSecret then chx_extendedMasterSecret cb m
      else stmts [])"

definition expandedHello_outer :: "cryptobyte \<Rightarrow> clientHelloMsg \<Rightarrow> (u16 \<Rightarrow> bytes option) \<Rightarrow> u16 \<Rightarrow>
    builder \<Rightarrow> builder" where
  "expandedHello_outer cb m outerExtRawBytes extType =
     (if extType \<in> {extensionServerName, extensionEncryptedClientHello, extensionPreSharedKey} then stmts []
      else if \<not> ech_compressible extType then stmts []
      else case outerExtRawBytes extType of
        Some rawBytes \<Rightarrow> AddBytes cb rawBytes
      | None \<Rightarrow> expanded_fallback cb m extType)"

definition expandedHello_exts :: "cryptobyte \<Rightarrow> clientHelloMsg \<Rightarrow> u16 list \<Rightarrow> (u16 \<Rightarrow> bytes option) \<Rightarrow>
    builder \<Rightarrow> builder" where
  "expandedHello_exts cb m outerExts outerExtRawBytes = stmts [
     chx_encryptedClientHello cb m,
     chx_serverName cb m,
     stmts (map (expandedHello_outer cb m outerExtRawBytes) outerExts),
     chx_preSharedKey cb m]"

definition marshalExpandedECH :: "cryptobyte \<Rightarrow> clientHelloMsg \<Rightarrow> u16 list \<Rightarrow> (u16 \<Rightarrow> bytes option) \<Rightarrow>
    bytes \<Rightarrow> gerror + bytes" where
  "marshalExpandedECH cb m outerExts outerExtRawBytes outerSessionId =
     (case Bytes cb (expandedHello_exts cb m outerExts outerExtRawBytes new_builder) of
        Inl e \<Rightarrow> Inl e
      | Inr extBytes \<Rightarrow> buildClientHello cb VersionTLS12 (AddBytes cb (ch_random m)) outerSessionId
          (ch_cipherSuites m) (ch_compressionMethods m) extBytes)"

definition marshalExpandedECHWithoutBinders :: "cryptobyte \<Rightarrow> clientHelloMsg \<Rightarrow> u16 list \<Rightarrow>
    (u16 \<Rightarrow> bytes option) \<Rightarrow> bytes \<Rightarrow> gerror + bytes" where
  "marshalExpandedECHWithoutBinders cb m outerExts outerExtRawBytes outerSessionId =
     (case marshalExpandedECH cb m outerExts outerExtRawBytes outerSessionId of
        Inl e \<Rightarrow> Inl e | Inr fullMessage \<Rightarrow> cut_binders m fullMessage)"

definition updateBinders :: "clientHelloMsg \<Rightarrow> bytes list \<Rightarrow> gerror + clientHelloMsg" where
  "updateBinders m pskBinders =
     (if length pskBinders \<noteq> length (ch_pskBinders m)
      then Inl (Errorf ''tls: internal error: pskBinders length mismatch'')
      else if \<exists>i \<in> set [0..<length (ch_pskBinders m)]. length (pskBinders ! i) \<noteq> length (ch_pskBinders m ! i)
      then Inl (Errorf ''tls: internal error: pskBinders length mismatch'')
      else Inr (m\<lparr>ch_pskBinders := pskBinders\<rparr>))"


section \<open>Parsing\<close>

definition read_cipherSuites :: "cryptobyte \<Rightarrow> bytes \<Rightarrow> u16 list \<times> bool \<Rightarrow> (u16 list \<times> bool) option" where
  "read_cipherSuites cb s st = while_nonempty (\<lambda>s (suites, secureRenegotiationSupported). do {
     (suite, s) \<leftarrow> ReadUint16 cb s;
     Some ((suites @ [suite], secureRenegotiationSupported \<or> suite = scsvRenegotiation), s) }) s st"

definition hasSuffix_dot :: "bytes \<Rightarrow> bool" where
  "hasSuffix_dot name \<longleftrightarrow> name \<noteq> [] \<and> last name = 0x2e"

definition read_serverNames :: "cryptobyte \<Rightarrow> bytes \<Rightarrow> bytes \<Rightarrow> bytes option" where
  "read_serverNames cb nameList acc = while_nonempty (\<lambda>nameList name. do {
     (nameType, nameList) \<leftarrow> ReadUint8 cb nameList;
     (serverName, nameList) \<leftarrow> ReadUint16LengthPrefixed cb nameList;
     require (serverName \<noteq> []);
     if nameType \<noteq> 0 then Some (name, nameList)
     else do {
       require (length name = 0);
       require (\<not> hasSuffix_dot serverName);
       Some (serverName, nameList) } }) nameList acc"

definition read_keyShares :: "cryptobyte \<Rightarrow> bytes \<Rightarrow> keyShare list \<Rightarrow> keyShare list option" where
  "read_keyShares cb s acc = while_nonempty (\<lambda>s acc. do {
     (g, s) \<leftarrow> ReadUint16 cb s;
     (v, s) \<leftarrow> readUint16LengthPrefixed cb s;
     require (v \<noteq> []);
     Some (acc @ [\<lparr>ks_group = g, ks_data = v\<rparr>], s) }) s acc"

definition read_pskIdentities :: "cryptobyte \<Rightarrow> bytes \<Rightarrow> pskIdentity list \<Rightarrow> pskIdentity list option" where
  "read_pskIdentities cb s acc = while_nonempty (\<lambda>s acc. do {
     (v, s) \<leftarrow> readUint16LengthPrefixed cb s;
     (age, s) \<leftarrow> ReadUint32 cb s;
     require (v \<noteq> []);
     Some (acc @ [\<lparr>psk_label = v, psk_obfuscatedTicketAge = age\<rparr>], s) }) s acc"

definition clientHello_ext :: "cryptobyte \<Rightarrow> bool \<Rightarrow> u16 \<Rightarrow> bytes \<Rightarrow> clientHelloMsg \<Rightarrow> clientHelloMsg option" where
  "clientHello_ext cb isLast extension extData m =
     (if extension = extensionServerName then do {
        (nameList, extData) \<leftarrow> ReadUint16LengthPrefixed cb extData;
        require (nameList \<noteq> []);
        name \<leftarrow> read_serverNames cb nameList (ch_serverName m);
        require (extData = []);
        Some (m\<lparr>ch_serverName := name\<rparr>) }
      else if extension = extensionStatusRequest then do {
        (statusType, extData) \<leftarrow> ReadUint8 cb extData;
        (ignored, extData) \<leftarrow> ReadUint16LengthPrefixed cb extData;
        (ignored, extData) \<leftarrow> ReadUint16LengthPrefixed cb extData;
        require (extData = []);
        Some (m\<lparr>ch_ocspStapling := (statusType = statusTypeOCSP)\<rparr>) }
      else if extension = extensionSupportedCurves then do {
        (curves, extData) \<leftarrow> ReadUint16LengthPrefixed cb extData;
        require (curves \<noteq> []);
        cs \<leftarrow> read_uint16s cb curves (ch_supportedCurves m);
        require (extData = []);
        Some (m\<lparr>ch_supportedCurves := cs\<rparr>) }
      else if extension = extensionSupportedPoints then do {
        (v, extData) \<leftarrow> readUint8LengthPrefixed cb extData;
        require (v \<noteq> []);
        require (extData = []);
        Some (m\<lparr>ch_supportedPoints := v\<rparr>) }
      else if extension = extensionSessionTicket then
        (case ReadBytes cb extData (length extData) of
           None \<Rightarrow> do { require (extData = []); Some (m\<lparr>ch_ticketSupported := True\<rparr>) }
         | Some (v, extData) \<Rightarrow> do {
             require (extData = []);
             Some (m\<lparr>ch_ticketSupported := True, ch_sessionTicket := v\<rparr>) })
      else if extension = extensionSignatureAlgorithms then do {
        (sigAndAlgs, extData) \<leftarrow> ReadUint16LengthPrefixed cb extData;
        require (sigAndAlgs \<noteq> []);
        sigs \<leftarrow> read_uint16s cb sigAndAlgs (ch_supportedSignatureAlgorithms m);
        require (extData = []);
        Some (m\<lparr>ch_supportedSignatureAlgorithms := sigs\<rparr>) }
      else if extension = extensionSignatureAlgorithmsCert then do {
        (sigAndAlgs, extData) \<leftarrow> ReadUint16LengthPrefixed cb extData;
        require (sigAndAlgs \<noteq> []);
        sigs \<leftarrow> read_uint16s cb sigAndAlgs (ch_supportedSignatureAlgorithmsCert m);
        require (extData = []);
        Some (m\<lparr>ch_supportedSignatureAlgorithmsCert := sigs\<rparr>) }
      else if extension = extensionRenegotiationInfo then do {
        (v, extData) \<leftarrow> readUint8LengthPrefixed cb extData;
        require (extData = []);
        Some (m\<lparr>ch_secureRenegotiation := v, ch_secureRenegotiationSupported := True\<rparr>) }
      else if extension = extensionExtendedMasterSecret then do {
        require (extData = []);
        Some (m\<lparr>ch_extendedMasterSecret := True\<rparr>) }
      else if extension = extensionALPN then do {
        (protoList, extData) \<leftarrow> ReadUint16LengthPrefixed cb extData;
        require (protoList \<noteq> []);
        protos \<leftarrow> read_vec8s cb protoList (ch_alpnProtocols m);
        require (extData = []);
        Some (m\<lparr>ch_alpnProtocols := protos\<rparr>) }
      else if extension = extensionSCT then do {
        require (extData = []);
        Some (m\<lparr>ch_scts := True\<rparr>) }
      else if extension = extensionSupportedVersions then do {
        (versList, extData) \<leftarrow> ReadUint8LengthPrefixed cb extData;
        require (versList \<noteq> []);
        vs \<leftarrow> read_uint16s cb versList (ch_supportedVersions m);
        require (extData = []);
        Some (m\<lparr>ch_supportedVersions := vs\<rparr>) }
      else if extension = extensionCookie then do {
        (v, extData) \<leftarrow> readUint16LengthPrefixed cb extData;
        require (v \<noteq> []);
        require (extData = []);
        Some (m\<lparr>ch_cookie := v\<rparr>) }
      else if extension = extensionKeyShare then do {
        (clientShares, extData) \<leftarrow> ReadUint16LengthPrefixed cb extData;
        shares \<leftarrow> read_keyShares cb clientShares (ch_keyShares m);
        require (extData = []);
        Some (m\<lparr>ch_keyShares := shares\<rparr>) }
      else if extension = extensionEarlyData then do {
        require (extData = []);
        Some (m\<lparr>ch_earlyData := True\<rparr>) }
      else if extension = extensionPSKModes then do {
        (v, extData) \<leftarrow> readUint8LengthPrefixed cb extData;
        require (extData = []);
        Some (m\<lparr>ch_pskModes := v\<rparr>) }
      else if extension = extensionQUICTransportParameters then do {
        (v, extData) \<leftarrow> CopyBytes cb extData (length extData);
        require (extData = []);
        Some (m\<lparr>ch_quicTransportParameters := Some v\<rparr>) }
      else if extension = extensionPreSharedKey then do {
        require isLast;
        (identities, extData) \<leftarrow> ReadUint16LengthPrefixed cb extData;
        require (identities \<noteq> []);
        ids \<leftarrow> read_pskIdentities cb identities (ch_pskIdentities m);
        (binders, extData) \<leftarrow> ReadUint16LengthPrefixed cb extData;
        require (binders \<noteq> []);
        bs \<leftarrow> read_vec8s cb binders (ch_pskBinders m);
        require (extData = []);
        Some (m\<lparr>ch_pskIdentities := ids, ch_pskBinders := bs\<rparr>) }
      else if extension = extensionEncryptedClientHello then do {
        (v, extData) \<leftarrow> ReadBytes cb extData (length extData);
        require (extData = []);
        Some (m\<lparr>ch_encryptedClientHello := v\<rparr>) }
      else Some m)"

definition clientHello_step :: "cryptobyte \<Rightarrow> bool \<Rightarrow> u16 \<Rightarrow> bytes \<Rightarrow> clientHelloMsg \<Rightarrow> clientHelloMsg option" where
  "clientHello_step cb isLast extension extData m =
     clientHello_ext cb isLast extension extData (m\<lparr>ch_extensions := ch_extensions m @ [extension]\<rparr>)"

definition clientHelloMsg_zero :: "bytes \<Rightarrow> clientHelloMsg" where
  "clientHelloMsg_zero d = \<lparr>ch_original = Some d, ch_vers = 0, ch_random = [], ch_sessionId = [],
     ch_cipherSuites = [], ch_compressionMethods = [], ch_serverName = [], ch_ocspStapling = False,
     ch_supportedCurves = [], ch_supportedPoints = [], ch_ticketSupported = False, ch_sessionTicket = [],
     ch_supportedSignatureAlgorithms = [], ch_supportedSignatureAlgorithmsCert = [],
     ch_secureRenegotiationSupported = False, ch_secureRenegotiation = [], ch_extendedMasterSecret = False,
     ch_alpnProtocols = [], ch_scts = False, ch_supportedVersions = [], ch_cookie = [], ch_keyShares = [],
     ch_earlyData = False, ch_pskModes = [], ch_pskIdentities = [], ch_pskBinders = [],
     ch_quicTransportParameters = None, ch_encryptedClientHello = [], ch_extensions = [],
     ch_nextProtoNeg = False\<rparr>"

definition clientHelloMsg_unmarshal :: "cryptobyte \<Rightarrow> bytes \<Rightarrow> clientHelloMsg option" where
  "clientHelloMsg_unmarshal cb d = do {
     s \<leftarrow> Skip cb d 4;
     (v, s) \<leftarrow> ReadUint16 cb s;
     (r, s) \<leftarrow> ReadBytes cb s 32;
     (sid, s) \<leftarrow> readUint8LengthPrefixed cb s;
     (cipherSuites, s) \<leftarrow> ReadUint16LengthPrefixed cb s;
     (suites, reneg) \<leftarrow> read_cipherSuites cb cipherSuites ([], False);
     (cm, s) \<leftarrow> readUint8LengthPrefixed cb s;
     let m = (clientHelloMsg_zero d)\<lparr>ch_vers := v, ch_random := r, ch_sessionId := sid,
       ch_cipherSuites := suites, ch_secureRenegotiationSupported := reneg, ch_compressionMethods := cm\<rparr>;
     if s = [] then Some m
     else do {
       (extensions, s) \<leftarrow> ReadUint16LengthPrefixed cb s;
       require (s = []);
       (seenExts, m) \<leftarrow> for_extensions cb (with_seen (clientHello_step cb)) extensions ({}, m);
       Some m } }"

text \<open>\<open>slices.Clone\<close> copies the elements; the copy holds the same values.\<close>

definition clientHelloMsg_clone :: "clientHelloMsg \<Rightarrow> clientHelloMsg" where
  "clientHelloMsg_clone m = \<lparr>ch_original = ch_original m, ch_vers = ch_vers m, ch_random = ch_random m,
     ch_sessionId = ch_sessionId m, ch_cipherSuites = ch_cipherSuites m,
     ch_compressionMethods = ch_compressionMethods m, ch_serverName = ch_serverName m,
     ch_ocspStapling = ch_ocspStapling m, ch_supportedCurves = ch_supportedCurves m,
     ch_supportedPoints = ch_supportedPoints m, ch_ticketSupported = ch_ticketSupported m,
     ch_sessionTicket = ch_sessionTicket m, ch_supportedSignatureAlgorithms = ch_supportedSignatureAlgorithms m,
     ch_supportedSignatureAlgorithmsCert = ch_supportedSignatureAlgorithmsCert m,
     ch_secureRenegotiationSupported = ch_secureRenegotiationSupported m,
     ch_secureRenegotiation = ch_secureRenegotiation m, ch_extendedMasterSecret = ch_extendedMasterSecret m,
     ch_alpnProtocols = ch_alpnProtocols m, ch_scts = ch_scts m, ch_supportedVersions = ch_supportedVersions m,
     ch_cookie = ch_cookie m, ch_keyShares = ch_keyShares m, ch_earlyData = ch_earlyData m,
     ch_pskModes = ch_pskModes m, ch_pskIdentities = ch_pskIdentities m, ch_pskBinders = ch_pskBinders m,
     ch_quicTransportParameters = ch_quicTransportParameters m,
     ch_encryptedClientHello = ch_encryptedClientHello m, ch_extensions = [], ch_nextProtoNeg = False\<rparr>"


section \<open>The wire format\<close>

definition ks_enc :: "keyShare \<Rightarrow> bytes" where
  "ks_enc ks = be16 (ks_group ks) @ vec16 (ks_data ks)"

definition psk_enc :: "pskIdentity \<Rightarrow> bytes" where
  "psk_enc psk = vec16 (psk_label psk) @ be32 (psk_obfuscatedTicketAge psk)"

definition binders_enc :: "clientHelloMsg \<Rightarrow> bytes" where
  "binders_enc m = vec16 (concat (map vec8 (ch_pskBinders m)))"

definition preSharedKey_wire :: "clientHelloMsg \<Rightarrow> (u16 \<times> bytes) list" where
  "preSharedKey_wire m = (if length (ch_pskIdentities m) > 0
     then [(extensionPreSharedKey, vec16 (concat (map psk_enc (ch_pskIdentities m))) @ binders_enc m)] else [])"

definition serverName_wire :: "clientHelloMsg \<Rightarrow> (u16 \<times> bytes) list" where
  "serverName_wire m = (if length (ch_serverName m) > 0
     then [(extensionServerName, vec16 (0 # vec16 (ch_serverName m)))] else [])"

definition encryptedClientHello_wire :: "clientHelloMsg \<Rightarrow> (u16 \<times> bytes) list" where
  "encryptedClientHello_wire m = (if length (ch_encryptedClientHello m) > 0
     then [(extensionEncryptedClientHello, ch_encryptedClientHello m)] else [])"

definition versions_wire :: "u16 list \<Rightarrow> (u16 \<times> bytes) list" where
  "versions_wire vs = (if length vs > 0 then [(extensionSupportedVersions, vec8 (concat (map be16 vs)))] else [])"

text \<open>The extensions before and after the encrypted_client_hello one.\<close>

definition clientHello_wire1 :: "clientHelloMsg \<Rightarrow> (u16 \<times> bytes) list" where
  "clientHello_wire1 m =
     serverName_wire m
     @ (if length (ch_supportedPoints m) > 0 then [(extensionSupportedPoints, vec8 (ch_supportedPoints m))] else [])
     @ (if ch_ticketSupported m then [(extensionSessionTicket, ch_sessionTicket m)] else [])
     @ (if ch_secureRenegotiationSupported m
        then [(extensionRenegotiationInfo, vec8 (ch_secureRenegotiation m))] else [])
     @ (if ch_extendedMasterSecret m then [(extensionExtendedMasterSecret, [])] else [])
     @ (if ch_scts m then [(extensionSCT, [])] else [])
     @ (if ch_earlyData m then [(extensionEarlyData, [])] else [])
     @ (if ch_quicTransportParameters m \<noteq> None
        then [(extensionQUICTransportParameters, the (ch_quicTransportParameters m))] else [])"

definition clientHello_wire2 :: "clientHelloMsg \<Rightarrow> (u16 \<times> bytes) list" where
  "clientHello_wire2 m =
     (if ch_ocspStapling m then [(extensionStatusRequest, [1, 0, 0, 0, 0])] else [])
     @ (if length (ch_supportedCurves m) > 0
        then [(extensionSupportedCurves, vec16 (concat (map be16 (ch_supportedCurves m))))] else [])
     @ (if length (ch_supportedSignatureAlgorithms m) > 0
        then [(extensionSignatureAlgorithms, vec16 (concat (map be16 (ch_supportedSignatureAlgorithms m))))] else [])
     @ (if length (ch_supportedSignatureAlgorithmsCert m) > 0
        then [(extensionSignatureAlgorithmsCert,
               vec16 (concat (map be16 (ch_supportedSignatureAlgorithmsCert m))))] else [])
     @ (if length (ch_alpnProtocols m) > 0
        then [(extensionALPN, vec16 (concat (map vec8 (ch_alpnProtocols m))))] else [])
     @ versions_wire (ch_supportedVersions m)
     @ (if length (ch_cookie m) > 0 then [(extensionCookie, vec16 (ch_cookie m))] else [])
     @ (if length (ch_keyShares m) > 0
        then [(extensionKeyShare, vec16 (concat (map ks_enc (ch_keyShares m))))] else [])
     @ (if length (ch_pskModes m) > 0 then [(extensionPSKModes, vec8 (ch_pskModes m))] else [])
     @ preSharedKey_wire m"

definition clientHello_wire :: "clientHelloMsg \<Rightarrow> (u16 \<times> bytes) list" where
  "clientHello_wire m = clientHello_wire1 m @ encryptedClientHello_wire m @ clientHello_wire2 m"

lemmas clientHello_wire_defs = clientHello_wire_def clientHello_wire1_def clientHello_wire2_def append_assoc

text \<open>
  The lengths that the prefixes can express. A successful serialisation implies them.
\<close>

definition preSharedKey_fits :: "clientHelloMsg \<Rightarrow> bool" where
  "preSharedKey_fits m \<longleftrightarrow> length (ch_pskIdentities m) > 0 \<longrightarrow>
     (\<forall>psk \<in> set (ch_pskIdentities m). length (psk_label psk) < 65536)
     \<and> length (concat (map psk_enc (ch_pskIdentities m))) < 65536
     \<and> (\<forall>b \<in> set (ch_pskBinders m). length b < 256)
     \<and> length (concat (map vec8 (ch_pskBinders m))) < 65536"

definition clientHello_fits :: "clientHelloMsg \<Rightarrow> bool" where
  "clientHello_fits m \<longleftrightarrow>
     length (ch_serverName m) < 65533 \<and> length (ch_supportedPoints m) < 256
     \<and> (ch_secureRenegotiationSupported m \<longrightarrow> length (ch_secureRenegotiation m) < 256)
     \<and> length (ch_supportedCurves m) < 32768
     \<and> length (ch_supportedSignatureAlgorithms m) < 32768
     \<and> length (ch_supportedSignatureAlgorithmsCert m) < 32768
     \<and> (\<forall>p \<in> set (ch_alpnProtocols m). length p < 256) \<and> length (concat (map vec8 (ch_alpnProtocols m))) < 65536
     \<and> length (ch_supportedVersions m) < 128
     \<and> length (ch_cookie m) < 65536
     \<and> (\<forall>ks \<in> set (ch_keyShares m). length (ks_data ks) < 65536) \<and> length (concat (map ks_enc (ch_keyShares m))) < 65536
     \<and> length (ch_pskModes m) < 256
     \<and> preSharedKey_fits m"

lemma if_stmts_True: "if_stmts True [f] = f"
  by (rule ext) (simp add: if_stmts_def stmts.simps)

lemma if_stmts_False: "if_stmts False fs = stmts []"
  by (rule ext) (simp add: if_stmts_def stmts.simps)

lemma drop_nonempty_guards:
  "0 < k \<Longrightarrow> (length xs > 0 \<longrightarrow> length xs < k) \<longleftrightarrow> length xs < k"
  "0 < k \<Longrightarrow> (length ys > 0 \<longrightarrow> (\<forall>y \<in> set ys. P y) \<and> length (concat (map f ys)) < k)
    \<longleftrightarrow> (\<forall>y \<in> set ys. P y) \<and> length (concat (map f ys)) < k"
  by (cases xs; simp) (cases ys; simp)

context cryptobyte_laws
begin

lemma out_keyShares [codec_simps]:
  "out (stmts (map (\<lambda>ks. stmts [AddUint16 cb (ks_group ks), AddUint16LengthPrefixed cb (AddBytes cb (ks_data ks))]) kss))
    = (if \<forall>ks \<in> set kss. length (ks_data ks) < 65536 then Some (concat (map ks_enc kss)) else None)"
proof (induction kss)
  case (Cons ks kss)
  have e: "emitter (stmts (map (\<lambda>ks. stmts [AddUint16 cb (ks_group ks),
      AddUint16LengthPrefixed cb (AddBytes cb (ks_data ks))]) kss))"
    by (rule emitter_stmts_map) (intro emitter_rules)
  show ?case
    using Cons by (simp add: codec_simps emitter_rules e ks_enc_def [of ks])
qed (simp add: codec_simps)

lemma out_pskIdentities [codec_simps]:
  "out (stmts (map (\<lambda>psk. stmts [AddUint16LengthPrefixed cb (AddBytes cb (psk_label psk)),
      AddUint32 cb (psk_obfuscatedTicketAge psk)]) psks))
    = (if \<forall>psk \<in> set psks. length (psk_label psk) < 65536 then Some (concat (map psk_enc psks)) else None)"
proof (induction psks)
  case (Cons psk psks)
  have e: "emitter (stmts (map (\<lambda>psk. stmts [AddUint16LengthPrefixed cb (AddBytes cb (psk_label psk)),
      AddUint32 cb (psk_obfuscatedTicketAge psk)]) psks))"
    by (rule emitter_stmts_map) (intro emitter_rules)
  show ?case
    using Cons by (simp add: codec_simps emitter_rules e psk_enc_def [of psk])
qed (simp add: codec_simps)

lemma serverName_emits:
  "emits_exts (chx_serverName cb m) (serverName_wire m) (length (ch_serverName m) > 0 \<longrightarrow> length (ch_serverName m) < 65533)"
  unfolding chx_serverName_def serverName_wire_def
  by (intro emits_ext_block emitter_rules) (auto simp: codec_simps emitter_rules split: if_splits bind_splits)

lemma encryptedClientHello_emits: "emits_exts (chx_encryptedClientHello cb m) (encryptedClientHello_wire m)
    (length (ch_encryptedClientHello m) > 0 \<longrightarrow> True)"
  unfolding chx_encryptedClientHello_def encryptedClientHello_wire_def
  by (intro emits_ext_block emitter_rules) (auto simp: codec_simps)

lemma versions_emits: "emits_exts (chx_versions cb vs) (versions_wire vs) (length vs > 0 \<longrightarrow> length vs < 128)"
  unfolding chx_versions_def versions_wire_def
  by (intro emits_ext_block emitter_rules) (auto simp: codec_simps emitter_rules split: if_splits bind_splits)

lemma preSharedKey_emits: "emits_exts (chx_preSharedKey cb m) (preSharedKey_wire m) (preSharedKey_fits m)"
  unfolding chx_preSharedKey_def preSharedKey_wire_def preSharedKey_fits_def
  by (intro emits_ext_block emitter_rules)
    (auto simp: codec_simps emitter_rules binders_enc_def split: if_splits bind_splits)

lemma statusRequest_emits: "emits_exts (chx_statusRequest cb m)
    (if ch_ocspStapling m then [(extensionStatusRequest, [1, 0, 0, 0, 0])] else []) (ch_ocspStapling m \<longrightarrow> True)"
  unfolding chx_statusRequest_def
  by (intro emits_ext_block emitter_rules) (auto simp: codec_simps emitter_rules be16_def)

lemma clientHello_exts_False: "clientHello_exts cb m False outerExts = stmts [
     chx_serverName cb m, chx_supportedPoints cb m, chx_sessionTicket cb m, chx_renegotiationInfo cb m,
     chx_extendedMasterSecret cb m, chx_scts cb m, chx_earlyData cb m, chx_quicTransportParameters cb m,
     chx_encryptedClientHello cb m, chx_statusRequest cb m, chx_supportedCurves cb m,
     chx_signatureAlgorithms cb m, chx_signatureAlgorithmsCert cb m, chx_alpn cb m,
     chx_versions cb (ch_supportedVersions m), chx_cookie cb m, chx_keyShares cb m, chx_pskModes cb m,
     chx_preSharedKey cb m]"
proof -
  have "if_stmts (length vs > 0) [chx_versions cb vs] = chx_versions cb vs" for vs
    by (rule ext) (simp add: if_stmts_def stmts.simps chx_versions_def)
  then show ?thesis
    unfolding clientHello_exts_def not_False_eq_True if_stmts_True if_stmts_False if_False
    by (intro ext) (simp add: stmts.simps)
qed

lemma clientHello_emits: "emits_exts (clientHello_exts cb m False outerExts) (clientHello_wire m @ [])
   ((length (ch_serverName m) > 0 \<longrightarrow> length (ch_serverName m) < 65533)
    \<and> (length (ch_supportedPoints m) > 0 \<longrightarrow> length (ch_supportedPoints m) < 256)
    \<and> (ch_ticketSupported m \<longrightarrow> True)
    \<and> (ch_secureRenegotiationSupported m \<longrightarrow> length (ch_secureRenegotiation m) < 256)
    \<and> True \<and> True \<and> True \<and> (ch_quicTransportParameters m \<noteq> None \<longrightarrow> True)
    \<and> (length (ch_encryptedClientHello m) > 0 \<longrightarrow> True) \<and> (ch_ocspStapling m \<longrightarrow> True)
    \<and> (length (ch_supportedCurves m) > 0 \<longrightarrow> length (ch_supportedCurves m) < 32768)
    \<and> (length (ch_supportedSignatureAlgorithms m) > 0 \<longrightarrow> length (ch_supportedSignatureAlgorithms m) < 32768)
    \<and> (length (ch_supportedSignatureAlgorithmsCert m) > 0 \<longrightarrow> length (ch_supportedSignatureAlgorithmsCert m) < 32768)
    \<and> (length (ch_alpnProtocols m) > 0 \<longrightarrow> (\<forall>p \<in> set (ch_alpnProtocols m). length p < 256)
        \<and> length (concat (map vec8 (ch_alpnProtocols m))) < 65536)
    \<and> (length (ch_supportedVersions m) > 0 \<longrightarrow> length (ch_supportedVersions m) < 128)
    \<and> (length (ch_cookie m) > 0 \<longrightarrow> length (ch_cookie m) < 65536)
    \<and> (length (ch_keyShares m) > 0 \<longrightarrow> (\<forall>ks \<in> set (ch_keyShares m). length (ks_data ks) < 65536)
        \<and> length (concat (map ks_enc (ch_keyShares m))) < 65536)
    \<and> (length (ch_pskModes m) > 0 \<longrightarrow> length (ch_pskModes m) < 256)
    \<and> preSharedKey_fits m \<and> True)"
  unfolding clientHello_exts_False clientHello_wire_defs chx_supportedPoints_def chx_sessionTicket_def
    chx_renegotiationInfo_def chx_extendedMasterSecret_def chx_scts_def chx_earlyData_def
    chx_quicTransportParameters_def chx_supportedCurves_def chx_signatureAlgorithms_def
    chx_signatureAlgorithmsCert_def chx_alpn_def chx_cookie_def chx_keyShares_def chx_pskModes_def
  by (intro emits_exts_Cons emits_exts_Nil serverName_emits encryptedClientHello_emits versions_emits
      preSharedKey_emits statusRequest_emits emits_ext_block emits_ext_empty emitter_rules)
    (auto simp: codec_simps emitter_rules split: if_splits bind_splits)

lemma clientHello_emits_fits:
  assumes "out (clientHello_exts cb m False outerExts) = Some bs"
  shows "clientHello_fits m \<and> (\<forall>(i, d) \<in> set (clientHello_wire m). length d < 65536)
    \<and> bs = concat (map ext_enc (clientHello_wire m))"
  using emits_exts_out [OF clientHello_emits assms]
  by (simp only: drop_nonempty_guards clientHello_fits_def append_Nil2 zero_less_numeral simp_thms) blast

lemma read_keyShares_enc [codec_simps]:
  assumes "\<forall>ks \<in> set kss. ks_data ks \<noteq> []" "\<forall>ks \<in> set kss. length (ks_data ks) < 65536"
  shows "read_keyShares cb (concat (map ks_enc kss)) acc = Some (acc @ kss)"
proof -
  have "item_loop ks_enc (\<lambda>s acc. do { (g, s) \<leftarrow> ReadUint16 cb s; (v, s) \<leftarrow> readUint16LengthPrefixed cb s;
      require (v \<noteq> []); Some (acc @ [\<lparr>ks_group = g, ks_data = v\<rparr>], s) })
      (\<lambda>_ v acc. Some (acc @ [v])) (\<lambda>ks. ks_data ks \<noteq> [] \<and> length (ks_data ks) < 65536)"
    by unfold_locales (auto simp: codec_simps read_helpers ks_enc_def)
  from item_loop.while_nonempty_items [OF this, of kss acc] assms show ?thesis
    unfolding read_keyShares_def by (simp add: run_items_fold fold_snoc)
qed

lemma read_pskIdentities_enc [codec_simps]:
  assumes "\<forall>psk \<in> set psks. psk_label psk \<noteq> []" "\<forall>psk \<in> set psks. length (psk_label psk) < 65536"
  shows "read_pskIdentities cb (concat (map psk_enc psks)) acc = Some (acc @ psks)"
proof -
  have "item_loop psk_enc (\<lambda>s acc. do { (v, s) \<leftarrow> readUint16LengthPrefixed cb s; (age, s) \<leftarrow> ReadUint32 cb s;
      require (v \<noteq> []); Some (acc @ [\<lparr>psk_label = v, psk_obfuscatedTicketAge = age\<rparr>], s) })
      (\<lambda>_ v acc. Some (acc @ [v])) (\<lambda>psk. psk_label psk \<noteq> [] \<and> length (psk_label psk) < 65536)"
    by unfold_locales (auto simp: codec_simps read_helpers psk_enc_def)
  from item_loop.while_nonempty_items [OF this, of psks acc] assms show ?thesis
    unfolding read_pskIdentities_def by (simp add: run_items_fold fold_snoc)
qed

lemma read_cipherSuites_enc [codec_simps]:
  "read_cipherSuites cb (concat (map be16 vs)) (acc, r) = Some (acc @ vs, r \<or> scsvRenegotiation \<in> set vs)"
proof -
  have i: "item_loop be16 (\<lambda>s (suites, reneg). do { (suite, s) \<leftarrow> ReadUint16 cb s;
      Some ((suites @ [suite], reneg \<or> suite = scsvRenegotiation), s) })
      (\<lambda>_ v (suites, reneg). Some (suites @ [v], reneg \<or> v = scsvRenegotiation)) (\<lambda>_. True)"
    by unfold_locales (auto simp: codec_simps)
  have "run_items (\<lambda>_ v (suites, reneg). Some (suites @ [v], reneg \<or> v = scsvRenegotiation)) vs (acc, r)
      = Some (acc @ vs, r \<or> scsvRenegotiation \<in> set vs)"
    by (induction vs arbitrary: acc r) auto
  with item_loop.while_nonempty_items [OF i, of vs "(acc, r)"] show ?thesis
    unfolding read_cipherSuites_def by simp
qed

lemma read_serverName_enc:
  assumes "n \<noteq> []" "length n < 65536" "\<not> hasSuffix_dot n"
  shows "read_serverNames cb (0 # vec16 n) [] = Some n"
  using assms unfolding read_serverNames_def while_nonempty_def by (simp add: codec_simps)

lemma clientHello_ext_extensions:
  "clientHello_ext cb l i d (m\<lparr>ch_extensions := e\<rparr>) = map_option (ch_extensions_update (\<lambda>_. e)) (clientHello_ext cb l i d m)"
  unfolding clientHello_ext_def bind_require
  by (cases m) (simp add: map_option_bind comp_def split_def if_distrib [of "map_option _"]
      option.case_distrib [of "map_option _"] split del: if_split cong: if_cong option.case_cong)

lemma run_items_step:
  "run_items (\<lambda>l (i, d). clientHello_step cb l i d) xs m
    = map_option (ch_extensions_update (\<lambda>_. ch_extensions m @ map fst xs))
        (run_items (\<lambda>l (i, d). clientHello_ext cb l i d) xs m)"
proof (induction xs arbitrary: m)
  case (Cons x xs)
  obtain i d where x: "x = (i, d)"
    by (cases x)
  have *: "run_items (\<lambda>l (i, d). clientHello_ext cb l i d) xs (m\<lparr>ch_extensions := e\<rparr>)
      = map_option (ch_extensions_update (\<lambda>_. e)) (run_items (\<lambda>l (i, d). clientHello_ext cb l i d) xs m)" for e m
    by (induction xs arbitrary: m)
      (auto simp: clientHello_ext_extensions bind_map_option map_option_bind comp_def split: bind_splits)
  show ?case
    using Cons by (cases "clientHello_ext cb (xs = []) i d m")
      (auto simp: x clientHello_step_def clientHello_ext_extensions * option.map_comp comp_def)
qed simp

end

definition clientHello_ok :: "clientHelloMsg \<Rightarrow> bool" where
  "clientHello_ok m \<longleftrightarrow>
     ch_original m = None
     \<and> \<not> hasSuffix_dot (ch_serverName m)
     \<and> (ch_sessionTicket m \<noteq> [] \<longrightarrow> ch_ticketSupported m)
     \<and> (ch_secureRenegotiation m \<noteq> [] \<longrightarrow> ch_secureRenegotiationSupported m)
     \<and> (scsvRenegotiation \<in> set (ch_cipherSuites m) \<longrightarrow> ch_secureRenegotiationSupported m)
     \<and> [] \<notin> set (ch_alpnProtocols m)
     \<and> (\<forall>ks \<in> set (ch_keyShares m). ks_data ks \<noteq> [])
     \<and> (\<forall>psk \<in> set (ch_pskIdentities m). psk_label psk \<noteq> [])
     \<and> [] \<notin> set (ch_pskBinders m)
     \<and> (ch_pskIdentities m = [] \<longleftrightarrow> ch_pskBinders m = [])
     \<and> \<not> ch_nextProtoNeg m"

lemma concat_vec8_Nil: "concat (map vec8 xs) = [] \<longleftrightarrow> xs = []"
  by (cases xs) auto

lemma concat_psk_enc_Nil: "concat (map psk_enc xs) = [] \<longleftrightarrow> xs = []"
  by (cases xs) (auto simp: psk_enc_def)

lemma clientHello_wire_distinct: "distinct (map fst (clientHello_wire m))"
proof -
  have "distinct (map fst (clientHello_wire m @ []))"
    unfolding clientHello_wire_defs serverName_wire_def encryptedClientHello_wire_def versions_wire_def
      preSharedKey_wire_def
    by (simp only: distinct_optional notin_optional) simp
  then show ?thesis
    by simp
qed

context cryptobyte_laws
begin

lemma clientHello_parse:
  fixes z m :: clientHelloMsg
  assumes "clientHello_ok m" "clientHello_fits m"
    and "z = (clientHelloMsg_zero d)\<lparr>ch_vers := ch_vers m, ch_random := ch_random m, ch_sessionId := ch_sessionId m,
       ch_cipherSuites := ch_cipherSuites m,
       ch_secureRenegotiationSupported := (scsvRenegotiation \<in> set (ch_cipherSuites m)),
       ch_compressionMethods := ch_compressionMethods m\<rparr>"
  shows "run_items (\<lambda>l (i, d). clientHello_ext cb l i d) (clientHello_wire m) z
    = Some (m\<lparr>ch_original := Some d, ch_extensions := []\<rparr>)"
  (is "run_items ?step _ _ = _")
proof -
  let ?z1 = "z\<lparr>ch_serverName := ch_serverName m\<rparr>"
  let ?z2 = "?z1\<lparr>ch_supportedPoints := ch_supportedPoints m\<rparr>"
  let ?z3 = "?z2\<lparr>ch_ticketSupported := ch_ticketSupported m, ch_sessionTicket := ch_sessionTicket m\<rparr>"
  let ?z4 = "?z3\<lparr>ch_secureRenegotiation := ch_secureRenegotiation m, ch_secureRenegotiationSupported := ch_secureRenegotiationSupported m\<rparr>"
  let ?z5 = "?z4\<lparr>ch_extendedMasterSecret := ch_extendedMasterSecret m\<rparr>"
  let ?z6 = "?z5\<lparr>ch_scts := ch_scts m\<rparr>"
  let ?z7 = "?z6\<lparr>ch_earlyData := ch_earlyData m\<rparr>"
  let ?z8 = "?z7\<lparr>ch_quicTransportParameters := ch_quicTransportParameters m\<rparr>"
  let ?z9 = "?z8\<lparr>ch_encryptedClientHello := ch_encryptedClientHello m\<rparr>"
  let ?z10 = "?z9\<lparr>ch_ocspStapling := ch_ocspStapling m\<rparr>"
  let ?z11 = "?z10\<lparr>ch_supportedCurves := ch_supportedCurves m\<rparr>"
  let ?z12 = "?z11\<lparr>ch_supportedSignatureAlgorithms := ch_supportedSignatureAlgorithms m\<rparr>"
  let ?z13 = "?z12\<lparr>ch_supportedSignatureAlgorithmsCert := ch_supportedSignatureAlgorithmsCert m\<rparr>"
  let ?z14 = "?z13\<lparr>ch_alpnProtocols := ch_alpnProtocols m\<rparr>"
  let ?z15 = "?z14\<lparr>ch_supportedVersions := ch_supportedVersions m\<rparr>"
  let ?z16 = "?z15\<lparr>ch_cookie := ch_cookie m\<rparr>"
  let ?z17 = "?z16\<lparr>ch_keyShares := ch_keyShares m\<rparr>"
  let ?z18 = "?z17\<lparr>ch_pskModes := ch_pskModes m\<rparr>"
  let ?z19 = "?z18\<lparr>ch_pskIdentities := ch_pskIdentities m, ch_pskBinders := ch_pskBinders m\<rparr>"
  note ok = assms(1) [unfolded clientHello_ok_def] assms(2) [unfolded clientHello_fits_def preSharedKey_fits_def]
  have sr: "ReadUint16LengthPrefixed cb [0, 0, 0, 0] = Some ([], [0, 0])" "ReadUint16LengthPrefixed cb [0, 0] = Some ([], [])"
    using read_vec(3) [of "[]" "[0, 0]"] read_vec(4) [of "[]"] by (simp_all add: vec16_def be16_def)
  have "run_items ?step (clientHello_wire m) z = Some ?z19"
    unfolding clientHello_wire_defs serverName_wire_def encryptedClientHello_wire_def versions_wire_def
      preSharedKey_wire_def
    by (intro run_items_optional [of _ ?step _ z ?z1] run_items_optional [of _ ?step _ ?z1 ?z2]
        run_items_optional [of _ ?step _ ?z2 ?z3] run_items_optional [of _ ?step _ ?z3 ?z4]
        run_items_optional [of _ ?step _ ?z4 ?z5] run_items_optional [of _ ?step _ ?z5 ?z6]
        run_items_optional [of _ ?step _ ?z6 ?z7] run_items_optional [of _ ?step _ ?z7 ?z8]
        run_items_optional [of _ ?step _ ?z8 ?z9] run_items_optional [of _ ?step _ ?z9 ?z10]
        run_items_optional [of _ ?step _ ?z10 ?z11] run_items_optional [of _ ?step _ ?z11 ?z12]
        run_items_optional [of _ ?step _ ?z12 ?z13] run_items_optional [of _ ?step _ ?z13 ?z14]
        run_items_optional [of _ ?step _ ?z14 ?z15] run_items_optional [of _ ?step _ ?z15 ?z16]
        run_items_optional [of _ ?step _ ?z16 ?z17] run_items_optional [of _ ?step _ ?z17 ?z18]
        run_items_optional_last;
        insert ok; simp add: clientHello_ext_def assms(3) clientHelloMsg_zero_def codec_simps read_helpers sr
          read_serverName_enc binders_enc_def concat_vec8_Nil concat_psk_enc_Nil
          del: concat_eq_Nil_conv)
  then show ?thesis
    using ok by (cases m) (simp add: assms(3) clientHelloMsg_zero_def)
qed

end

definition hello_bytes :: "u16 \<Rightarrow> bytes \<Rightarrow> bytes \<Rightarrow> u16 list \<Rightarrow> bytes \<Rightarrow> (u16 \<times> bytes) list \<Rightarrow> bytes" where
  "hello_bytes vers random sessionId suites compression exts = typeClientHello # vec24 (be16 vers @ random
     @ vec8 sessionId @ vec16 (concat (map be16 suites)) @ vec8 compression
     @ (if exts = [] then [] else vec16 (concat (map ext_enc exts))))"

definition hello_fits :: "bytes \<Rightarrow> u16 list \<Rightarrow> bytes \<Rightarrow> (u16 \<times> bytes) list \<Rightarrow> bool" where
  "hello_fits sessionId suites compression exts \<longleftrightarrow> length sessionId < 256 \<and> length suites < 32768
     \<and> length compression < 256 \<and> length (concat (map ext_enc exts)) < 65536
     \<and> (\<forall>(i, d) \<in> set exts. length d < 65536)"

context cryptobyte_laws
begin

lemma buildClientHello_bytes:
  assumes "buildClientHello cb v R sid suites cm (concat (map ext_enc xs)) = Inr bs"
    and "emitter R" "out R = Some r" and "\<forall>(i, d) \<in> set xs. length d < 65536"
  shows "bs = hello_bytes v r sid suites cm xs \<and> hello_fits sid suites cm xs \<and> framed typeClientHello bs"
proof -
  have e: "(length (concat (map ext_enc xs)) > 0) = (xs \<noteq> [])"
    using concat_ext_enc_Nil [of xs] by (metis length_greater_0_conv)
  show ?thesis
    using assms unfolding buildClientHello_def framed_message e
    by (auto simp: hello_bytes_def hello_fits_def emitter_rules codec_simps split: bind_splits if_splits)
qed

lemma buildClientHello_random:
  assumes "buildClientHello cb v (addBytesWithLength cb r 32) sid suites cm x = Inr bs"
  shows "length r = 32"
proof (rule ccontr)
  assume "length r \<noteq> 32"
  then show False
    using assms out_bad_length [of r 32] by (auto simp: buildClientHello_def framed_message emitter_rules)
qed

lemma marshal_wire:
  assumes "marshalMsg cb m False = Inr bs"
  shows "clientHello_fits m \<and> length (ch_random m) = 32
    \<and> bs = hello_bytes (ch_vers m) (ch_random m) (ch_sessionId m) (ch_cipherSuites m) (ch_compressionMethods m)
        (clientHello_wire m)
    \<and> hello_fits (ch_sessionId m) (ch_cipherSuites m) (ch_compressionMethods m) (clientHello_wire m)
    \<and> framed typeClientHello bs"
proof -
  obtain x where x: "out (clientHello_exts cb m False None) = Some x" and
    b: "buildClientHello cb (ch_vers m) (addBytesWithLength cb (ch_random m) 32) (ch_sessionId m)
      (ch_cipherSuites m) (ch_compressionMethods m) x = Inr bs"
    using assms by (auto simp: marshalMsg_def marshalMsgReorderOuterExts_def Bytes_Inr split: sum.splits)
  have r: "length (ch_random m) = 32"
    using buildClientHello_random [OF b] .
  then have R: "emitter (addBytesWithLength cb (ch_random m) 32)"
    "out (addBytesWithLength cb (ch_random m) 32) = Some (ch_random m)"
    by (simp_all add: emitter_rules codec_simps)
  from clientHello_emits_fits [OF x] buildClientHello_bytes [OF _ R] b r show ?thesis
    by blast
qed

lemma parse_hello_bytes:
  assumes "length r = 32" "hello_fits sid suites cm xs"
    and "distinct (map fst xs)"
    and "run_items (\<lambda>l (i, d). clientHello_ext cb l i d) xs
      ((clientHelloMsg_zero bs)\<lparr>ch_vers := v, ch_random := r, ch_sessionId := sid, ch_cipherSuites := suites,
         ch_secureRenegotiationSupported := (scsvRenegotiation \<in> set suites), ch_compressionMethods := cm\<rparr>) = Some m"
    and "bs = hello_bytes v r sid suites cm xs"
  shows "clientHelloMsg_unmarshal cb bs = Some (m\<lparr>ch_extensions := map fst xs\<rparr>)"
proof -
  note fits = assms(2) [unfolded hello_fits_def]
  have "clientHelloMsg_unmarshal cb bs = do {
      m \<leftarrow> run_items (\<lambda>l (i, d). clientHello_step cb l i d) xs ((clientHelloMsg_zero bs)\<lparr>ch_vers := v,
         ch_random := r, ch_sessionId := sid, ch_cipherSuites := suites,
         ch_secureRenegotiationSupported := (scsvRenegotiation \<in> set suites), ch_compressionMethods := cm\<rparr>);
      Some m }"
    unfolding clientHelloMsg_unmarshal_def Let_def using fits assms(1,3) unfolding assms(5) hello_bytes_def
    by (auto simp: codec_simps read_helpers for_extensions_items run_items_with_seen bind_map_option comp_def)
  then show ?thesis
    using assms(4) by (simp add: run_items_step clientHelloMsg_zero_def)
qed

lemma clientHello_roundtrip:
  assumes "clientHelloMsg_marshal cb m = Inr bs" and "clientHello_ok m"
  shows "clientHelloMsg_unmarshal cb bs = Some (m\<lparr>ch_original := Some bs, ch_extensions := map fst (clientHello_wire m)\<rparr>)
    \<and> framed typeClientHello bs"
proof -
  have m: "marshalMsg cb m False = Inr bs"
    using assms by (simp add: clientHelloMsg_marshal_def clientHello_ok_def)
  note w = marshal_wire [OF m]
  then have f: "clientHello_fits m"
    by blast
  from parse_hello_bytes [OF _ _ clientHello_wire_distinct clientHello_parse [OF assms(2) f refl]] w show ?thesis
    by auto
qed

end


section \<open>The inner hello of Encrypted Client Hello\<close>

definition echOuterExtensions_wire :: "u16 list \<Rightarrow> (u16 \<times> bytes) list" where
  "echOuterExtensions_wire es =
     (if length es > 0 then [(extensionECHOuterExtensions, vec8 (concat (map be16 es)))] else [])"

definition innerHello_wire :: "clientHelloMsg \<Rightarrow> u16 list \<Rightarrow> (u16 \<times> bytes) list" where
  "innerHello_wire m outerExts =
     encryptedClientHello_wire m @ serverName_wire m
     @ echOuterExtensions_wire (filter ech_compressible outerExts)
     @ (if extensionSupportedVersions \<notin> set outerExts \<and> length (ch_supportedVersions m) > 0
        then versions_wire [VersionTLS13] else [])
     @ preSharedKey_wire m"

text \<open>
  \<open>outer\<close> are the extensions of the outer hello: the expansion replaces the reference by the
  compressible ones among them.
\<close>

definition expandedHello_wire :: "clientHelloMsg \<Rightarrow> (u16 \<times> bytes) list \<Rightarrow> (u16 \<times> bytes) list" where
  "expandedHello_wire m outer =
     encryptedClientHello_wire m @ serverName_wire m @ filter (\<lambda>x. ech_compressible (fst x)) outer @ preSharedKey_wire m"

lemma supportedVersions_compressible: "ech_compressible extensionSupportedVersions"
  by (simp add: ech_compressible_def)

lemma not_compressible:
  "\<not> ech_compressible extensionServerName" "\<not> ech_compressible extensionEncryptedClientHello"
  "\<not> ech_compressible extensionPreSharedKey" "\<not> ech_compressible extensionECHOuterExtensions"
  by (simp_all add: ech_compressible_def is_grease_def)

context cryptobyte_laws
begin

lemma echOuterExtensions_emits: "emits_exts (chx_echOuterExtensions cb es) (echOuterExtensions_wire es)
    (length es > 0 \<longrightarrow> length es < 128)"
  unfolding chx_echOuterExtensions_def echOuterExtensions_wire_def
  by (intro emits_ext_block emitter_rules) (auto simp: codec_simps emitter_rules split: if_splits bind_splits)

lemma innerHello_emits: "emits_exts (innerHello_exts cb m outerExts) (innerHello_wire m outerExts @ [])
    ((length (ch_encryptedClientHello m) > 0 \<longrightarrow> True)
     \<and> (length (ch_serverName m) > 0 \<longrightarrow> length (ch_serverName m) < 65533)
     \<and> (length (filter ech_compressible outerExts) > 0 \<longrightarrow> length (filter ech_compressible outerExts) < 128)
     \<and> (extensionSupportedVersions \<notin> set outerExts \<and> length (ch_supportedVersions m) > 0 \<longrightarrow>
         (length [VersionTLS13] > 0 \<longrightarrow> length [VersionTLS13] < 128) \<and> True)
     \<and> preSharedKey_fits m \<and> True)"
proof -
  have v: "emits_exts (if_stmts c [chx_versions cb vs]) (if c then versions_wire vs else [])
      (c \<longrightarrow> (length vs > 0 \<longrightarrow> length vs < 128) \<and> True)" for c vs
    using emits_exts_if [OF emits_exts_Cons [OF versions_emits [of vs] emits_exts_Nil], of c, unfolded append_Nil2] .
  have s: "extensionSupportedVersions \<in> set (filter ech_compressible outerExts)
      \<longleftrightarrow> extensionSupportedVersions \<in> set outerExts"
    by (simp add: supportedVersions_compressible)
  show ?thesis
    unfolding innerHello_exts_def innerHello_wire_def append_assoc Let_def s
    by (intro emits_exts_Cons emits_exts_Nil serverName_emits encryptedClientHello_emits v preSharedKey_emits
        echOuterExtensions_emits)
qed

lemma expandedHello_outer_out:
  assumes "\<forall>(i, d) \<in> set outer. raw i = Some (ext_enc (i, d))"
  shows "out (stmts (map (expandedHello_outer cb m raw) (map fst outer)))
      = Some (concat (map ext_enc (filter (\<lambda>x. ech_compressible (fst x)) outer)))
    \<and> emitter (stmts (map (expandedHello_outer cb m raw) (map fst outer)))"
  using assms
proof (induction outer)
  case (Cons x xs)
  obtain i d where x: "x = (i, d)"
    by (cases x)
  have "expandedHello_outer cb m raw i = (if ech_compressible i then AddBytes cb (ext_enc (i, d)) else stmts [])"
    using Cons.prems not_compressible by (auto simp: expandedHello_outer_def x)
  then show ?case
    using Cons by (auto simp: x codec_simps emitter_rules)
qed (simp add: codec_simps emitter_rules)

lemma expandedHello_emits:
  assumes "\<forall>(i, d) \<in> set outer. raw i = Some (ext_enc (i, d))" "\<forall>(i, d) \<in> set outer. length d < 65536"
  shows "emits_exts (expandedHello_exts cb m (map fst outer) raw) (expandedHello_wire m outer @ [])
    ((length (ch_encryptedClientHello m) > 0 \<longrightarrow> True)
     \<and> (length (ch_serverName m) > 0 \<longrightarrow> length (ch_serverName m) < 65533) \<and> True
     \<and> preSharedKey_fits m \<and> True)"
proof -
  have "emits_exts (stmts (map (expandedHello_outer cb m raw) (map fst outer)))
      (filter (\<lambda>x. ech_compressible (fst x)) outer) True"
    using expandedHello_outer_out [OF assms(1)] assms(2) by (auto simp: emits_exts_def)
  then show ?thesis
    unfolding expandedHello_exts_def expandedHello_wire_def append_assoc
    by (intro emits_exts_Cons emits_exts_Nil serverName_emits encryptedClientHello_emits preSharedKey_emits)
qed

lemma marshalInner_wire:
  assumes "marshalMsgReorderOuterExts cb m True (Some outerExts) = Inr bs"
  shows "length (ch_random m) = 32
    \<and> bs = hello_bytes (ch_vers m) (ch_random m) [] (ch_cipherSuites m) (ch_compressionMethods m)
        (innerHello_wire m outerExts)
    \<and> hello_fits [] (ch_cipherSuites m) (ch_compressionMethods m) (innerHello_wire m outerExts)
    \<and> length (filter ech_compressible outerExts) < 128"
proof -
  obtain x where x: "out (innerHello_exts cb m outerExts) = Some x" and
    b: "buildClientHello cb (ch_vers m) (addBytesWithLength cb (ch_random m) 32) []
      (ch_cipherSuites m) (ch_compressionMethods m) x = Inr bs"
    using assms by (auto simp: marshalMsgReorderOuterExts_def Bytes_Inr split: sum.splits)
  have r: "length (ch_random m) = 32"
    using buildClientHello_random [OF b] .
  then have R: "emitter (addBytesWithLength cb (ch_random m) 32)"
    "out (addBytesWithLength cb (ch_random m) 32) = Some (ch_random m)"
    by (simp_all add: emitter_rules codec_simps)
  note w = emits_exts_out [OF innerHello_emits x]
  then have "length (filter ech_compressible outerExts) < 128"
    by (cases "filter ech_compressible outerExts") auto
  moreover have "x = concat (map ext_enc (innerHello_wire m outerExts))"
    "\<forall>(i, d) \<in> set (innerHello_wire m outerExts). length d < 65536"
    using w by simp_all
  ultimately show ?thesis
    using buildClientHello_bytes [OF _ R] b r by blast
qed

lemma marshalExpandedECH_wire:
  assumes "marshalExpandedECH cb m (map fst outer) raw sid = Inr bs"
    and "\<forall>(i, d) \<in> set outer. raw i = Some (ext_enc (i, d))" "\<forall>(i, d) \<in> set outer. length d < 65536"
  shows "bs = hello_bytes VersionTLS12 (ch_random m) sid (ch_cipherSuites m) (ch_compressionMethods m)
        (expandedHello_wire m outer)
    \<and> hello_fits sid (ch_cipherSuites m) (ch_compressionMethods m) (expandedHello_wire m outer)
    \<and> framed typeClientHello bs"
proof -
  obtain x where x: "out (expandedHello_exts cb m (map fst outer) raw) = Some x" and
    b: "buildClientHello cb VersionTLS12 (AddBytes cb (ch_random m)) sid
      (ch_cipherSuites m) (ch_compressionMethods m) x = Inr bs"
    using assms(1) by (auto simp: marshalExpandedECH_def Bytes_Inr split: sum.splits)
  have R: "emitter (AddBytes cb (ch_random m))" "out (AddBytes cb (ch_random m)) = Some (ch_random m)"
    by (simp_all add: emitter_rules codec_simps)
  note w = emits_exts_out [OF expandedHello_emits [OF assms(2,3)] x, unfolded append_Nil2]
  show ?thesis
    using buildClientHello_bytes [OF _ R] b w by blast
qed

end

section \<open>The binders\<close>

text \<open>
  The binders stand at the end of the message, and the bytes before them depend only on their
  lengths.
\<close>

lemma bindersLen_eq: "bindersLen m = length (binders_enc m)"
proof -
  have "fold (\<lambda>binder n. n + 1 + length binder) bs n = n + length (concat (map vec8 bs))" for bs :: "bytes list" and n
    by (induction bs arbitrary: n) (simp_all add: vec8_def)
  then show ?thesis
    by (simp add: bindersLen_def binders_enc_def vec16_def)
qed

lemma clientHello_wire_binders:
  assumes "ch_pskIdentities m \<noteq> []"
  shows "\<exists>w i. clientHello_wire m = w @ [(extensionPreSharedKey, i @ binders_enc m)]
     \<and> (\<forall>bs. clientHello_wire (m\<lparr>ch_pskBinders := bs\<rparr>) = w @ [(extensionPreSharedKey, i @ binders_enc (m\<lparr>ch_pskBinders := bs\<rparr>))])"
  using assms unfolding clientHello_wire_defs preSharedKey_wire_def serverName_wire_def encryptedClientHello_wire_def
  by auto

lemma hello_bytes_last:
  "hello_bytes v r sid suites cm (w @ [(i, d @ b)]) = typeClientHello # be24 (of_nat (length (be16 v @ r
     @ vec8 sid @ vec16 (concat (map be16 suites)) @ vec8 cm @ vec16 (concat (map ext_enc (w @ [(i, d @ b)]))))))
   @ be16 v @ r @ vec8 sid @ vec16 (concat (map be16 suites)) @ vec8 cm
   @ be16 (of_nat (length (concat (map ext_enc w)) + 4 + length d + length b)) @ concat (map ext_enc w)
   @ be16 i @ be16 (of_nat (length d + length b)) @ d @ b"
  by (simp add: hello_bytes_def vec24_def vec16_def ext_enc_def algebra_simps)

lemma hello_bytes_binders:
  assumes "length b = length b'"
  shows "\<exists>p. hello_bytes v r sid suites cm (w @ [(i, d @ b)]) = p @ b \<and> hello_bytes v r sid suites cm (w @ [(i, d @ b')]) = p @ b'"
  unfolding hello_bytes_last using assms by (simp add: vec16_def ext_enc_def)


lemma updateBinders_same_shape:
  assumes "updateBinders m bs = Inr m'"
  shows "m' = m\<lparr>ch_pskBinders := bs\<rparr>" "length (binders_enc m') = length (binders_enc m)"
proof -
  have l: "length bs = length (ch_pskBinders m)" "\<forall>i < length bs. length (bs ! i) = length (ch_pskBinders m ! i)"
    and m': "m' = m\<lparr>ch_pskBinders := bs\<rparr>"
    using assms by (auto simp: updateBinders_def split: if_splits)
  then have "map length bs = map length (ch_pskBinders m)"
    by (intro nth_equalityI) auto
  moreover have "length (concat (map vec8 xs)) = length xs + sum_list (map length xs)" for xs
    by (induction xs) (simp_all add: vec8_def)
  ultimately show "length (binders_enc m') = length (binders_enc m)"
    by (simp add: m' binders_enc_def vec16_def l(1))
  show "m' = m\<lparr>ch_pskBinders := bs\<rparr>"
    by (rule m')
qed

context cryptobyte_laws
begin

lemma marshalWithoutBinders_split:
  assumes m: "clientHelloMsg_marshal cb m = Inr bs" "ch_original m = None" "ch_pskIdentities m \<noteq> []"
    and m': "updateBinders m b' = Inr m'" "clientHelloMsg_marshal cb m' = Inr bs'"
  shows "\<exists>p. bs = p @ binders_enc m \<and> bs' = p @ binders_enc m'
    \<and> marshalWithoutBinders cb m = Inr p \<and> marshalWithoutBinders cb m' = Inr p"
proof -
  note u = updateBinders_same_shape [OF m'(1)]
  obtain w i where w: "clientHello_wire m = w @ [(extensionPreSharedKey, i @ binders_enc m)]"
      "clientHello_wire m' = w @ [(extensionPreSharedKey, i @ binders_enc m')]"
    using clientHello_wire_binders [OF m(3)] unfolding u(1) by blast
  have o: "ch_original m' = None" and f: "ch_vers m' = ch_vers m" "ch_random m' = ch_random m"
      "ch_sessionId m' = ch_sessionId m" "ch_cipherSuites m' = ch_cipherSuites m"
      "ch_compressionMethods m' = ch_compressionMethods m"
    using m(2) u(1) by simp_all
  have "bs = hello_bytes (ch_vers m) (ch_random m) (ch_sessionId m) (ch_cipherSuites m) (ch_compressionMethods m) (clientHello_wire m)"
    "bs' = hello_bytes (ch_vers m') (ch_random m') (ch_sessionId m') (ch_cipherSuites m') (ch_compressionMethods m') (clientHello_wire m')"
    using marshal_wire m(1,2) m'(2) o by (simp_all add: clientHelloMsg_marshal_def)
  then obtain p where "bs = p @ binders_enc m" "bs' = p @ binders_enc m'"
    using hello_bytes_binders [OF u(2) [symmetric]] unfolding w f by blast
  then show ?thesis
    using m m'(2) o by (auto simp: marshalWithoutBinders_def cut_binders_def bindersLen_eq)
qed

end




section \<open>Properties\<close>

text \<open>
  C5. ClientHello: whatever \<open>clientHelloMsg.marshal\<close> produces for a message whose fields are
  consistent is parsed back by \<open>clientHelloMsg.unmarshal\<close> to the same message, with the
  bytes recorded as \<open>original\<close> and the extension types recorded in wire order.
\<close>

theorem clientHello_parse_marshal:
  assumes "cryptobyte_laws cb" and "clientHelloMsg_marshal cb m = Inr bs" and "clientHello_ok m"
  shows "clientHelloMsg_unmarshal cb bs
    = Some (m\<lparr>ch_original := Some bs, ch_extensions := map fst (clientHello_wire m)\<rparr>)"
  using cryptobyte_laws.clientHello_roundtrip [OF assms] by blast

lemmas hello_eval = clientHelloMsg_marshal_def marshalMsg_def marshalMsgReorderOuterExts_def clientHello_exts_def
  innerHello_exts_def chx_serverName_def chx_supportedPoints_def chx_sessionTicket_def chx_renegotiationInfo_def
  chx_extendedMasterSecret_def chx_scts_def chx_earlyData_def chx_quicTransportParameters_def
  chx_encryptedClientHello_def chx_statusRequest_def chx_supportedCurves_def chx_signatureAlgorithms_def
  chx_signatureAlgorithmsCert_def chx_alpn_def chx_versions_def chx_cookie_def chx_keyShares_def chx_pskModes_def
  chx_preSharedKey_def chx_echOuterExtensions_def buildClientHello_def addBytesWithLength_def

text \<open>A hello that offers a session for resumption.\<close>

definition psk_hello :: "bytes \<Rightarrow> clientHelloMsg" where
  "psk_hello binder = (clientHelloMsg_zero [])\<lparr>ch_original := None, ch_vers := VersionTLS12, ch_random := replicate 32 7,
     ch_cipherSuites := [0x1301], ch_compressionMethods := [0], ch_supportedVersions := [VersionTLS13],
     ch_pskModes := [1], ch_pskIdentities := [\<lparr>psk_label = [9], psk_obfuscatedTicketAge = 5\<rparr>],
     ch_pskBinders := [binder]\<rparr>"

lemma psk_hello_marshal: "\<exists>bs. clientHelloMsg_marshal cb_ref (psk_hello [a, b]) = Inr bs"
  by (simp add: psk_hello_def hello_eval cb_eval clientHelloMsg_zero_def)

theorem clientHello_parse_marshal_witness:
  "\<exists>bs. clientHelloMsg_marshal cb_ref (psk_hello [1, 2]) = Inr bs
    \<and> clientHelloMsg_unmarshal cb_ref bs = Some ((psk_hello [1, 2])\<lparr>ch_original := Some bs, ch_extensions :=
        [extensionSupportedVersions, extensionPSKModes, extensionPreSharedKey]\<rparr>)"
proof -
  obtain bs where bs: "clientHelloMsg_marshal cb_ref (psk_hello [1, 2]) = Inr bs"
    using psk_hello_marshal by blast
  have "clientHello_ok (psk_hello [1, 2])"
    by (simp add: clientHello_ok_def psk_hello_def clientHelloMsg_zero_def hasSuffix_dot_def)
  from clientHello_parse_marshal [OF ref.cryptobyte_laws_axioms bs this] show ?thesis
    using bs by (simp add: clientHello_wire_defs psk_hello_def clientHelloMsg_zero_def serverName_wire_def
        encryptedClientHello_wire_def versions_wire_def preSharedKey_wire_def)
qed

text \<open>
  C6. PSK binders: \<open>marshalWithoutBinders\<close> cuts exactly the binder list off the serialised
  ClientHello, and replacing the binders through \<open>updateBinders\<close> does not change the bytes
  that are left. So the transcript over which the binders are computed is the one the message
  finally sent has.
\<close>

theorem binders_do_not_change_what_they_bind:
  assumes "cryptobyte_laws cb" and "ch_original m = None" and "ch_pskIdentities m \<noteq> []"
    and "clientHelloMsg_marshal cb m = Inr bs"
    and "updateBinders m b' = Inr m'" and "clientHelloMsg_marshal cb m' = Inr bs'"
  shows "\<exists>p. marshalWithoutBinders cb m = Inr p \<and> marshalWithoutBinders cb m' = Inr p
    \<and> bs = p @ binders_enc m \<and> bs' = p @ binders_enc m'"
  using cryptobyte_laws.marshalWithoutBinders_split [OF assms(1,4,2,3,5,6)] by blast

theorem binders_do_not_change_what_they_bind_witness:
  "\<exists>p. marshalWithoutBinders cb_ref (psk_hello [0, 0]) = Inr p
    \<and> clientHelloMsg_marshal cb_ref (psk_hello [3, 4]) = Inr (p @ [0, 3, 2, 3, 4])"
proof -
  obtain bs bs' where bs: "clientHelloMsg_marshal cb_ref (psk_hello [0, 0]) = Inr bs"
    "clientHelloMsg_marshal cb_ref (psk_hello [3, 4]) = Inr bs'"
    using psk_hello_marshal by blast
  have "updateBinders (psk_hello [0, 0]) [[3, 4]] = Inr (psk_hello [3, 4])"
    by (simp add: updateBinders_def psk_hello_def)
  from binders_do_not_change_what_they_bind [OF ref.cryptobyte_laws_axioms _ _ bs(1) this bs(2)] show ?thesis
    using bs(2) by (auto simp: psk_hello_def binders_enc_def vec16_def vec8_def be16_def)
qed

end
