(* ===== verification/Hpke.thy ===== *)
theory Hpke
  imports Prelude
begin

text \<open>
  internal/hpke: the DHKEM, the key schedule and the encryption contexts of RFC 9180, over
  parameters for X25519, HKDF and the AEADs, which are code of other packages.
\<close>

section \<open>128-bit sequence numbers\<close>

record uint128 =
  hi :: u64
  lo :: u64

definition Add64 :: "u64 \<Rightarrow> u64 \<Rightarrow> u64 \<Rightarrow> u64 \<times> u64" where
  "Add64 x y carry = (x + y + carry, if unat x + unat y + unat carry \<ge> 2 ^ 64 then 1 else 0)"

fun nat_len :: "nat \<Rightarrow> nat" where
  "nat_len n = (if n = 0 then 0 else Suc (nat_len (n div 2)))"

declare nat_len.simps [simp del]

definition Len64 :: "u64 \<Rightarrow> nat" where
  "Len64 x = nat_len (unat x)"

definition addOne :: "uint128 \<Rightarrow> uint128" where
  "addOne u = (let (l, carry) = Add64 (lo u) 1 0 in \<lparr>hi = hi u + carry, lo = l\<rparr>)"

definition bitLen :: "uint128 \<Rightarrow> nat" where
  "bitLen u = Len64 (hi u) + Len64 (lo u)"

definition uint128_bytes :: "uint128 \<Rightarrow> bytes" where
  "uint128_bytes u = be64 (hi u) @ be64 (lo u)"

definition val128 :: "uint128 \<Rightarrow> nat" where
  "val128 u = unat (hi u) * 2 ^ 64 + unat (lo u)"


section \<open>Key derivation and key encapsulation\<close>

record hpke_crypto =
  hkdf_Extract :: "bytes \<Rightarrow> bytes \<Rightarrow> bytes"
  hkdf_Expand :: "bytes \<Rightarrow> bytes \<Rightarrow> nat \<Rightarrow> bytes"
  NewPublicKey :: "bytes \<Rightarrow> gerror + bytes"
  NewPrivateKey :: "bytes \<Rightarrow> gerror + bytes"
  PublicKey :: "bytes \<Rightarrow> bytes"
  ECDH :: "bytes \<Rightarrow> bytes \<Rightarrow> gerror + bytes"
  aead_new :: "u16 \<Rightarrow> bytes \<Rightarrow> gerror option"
  aead_Seal :: "u16 \<Rightarrow> bytes \<Rightarrow> bytes \<Rightarrow> bytes \<Rightarrow> bytes \<Rightarrow> bytes"
  aead_Open :: "u16 \<Rightarrow> bytes \<Rightarrow> bytes \<Rightarrow> bytes \<Rightarrow> bytes \<Rightarrow> gerror + bytes"

text \<open>A string literal as its bytes.\<close>

definition ascii :: "string \<Rightarrow> bytes" where
  "ascii s = map (\<lambda>c. of_nat (of_char c)) s"

definition LabeledExtract :: "hpke_crypto \<Rightarrow> bytes \<Rightarrow> bytes \<Rightarrow> string \<Rightarrow> bytes \<Rightarrow> bytes" where
  "LabeledExtract c sid salt label inputKey =
     hkdf_Extract c (ascii ''HPKE-v1'' @ sid @ ascii label @ inputKey) salt"

definition LabeledExpand :: "hpke_crypto \<Rightarrow> bytes \<Rightarrow> bytes \<Rightarrow> string \<Rightarrow> bytes \<Rightarrow> u16 \<Rightarrow> bytes" where
  "LabeledExpand c suiteID randomKey label info len =
     hkdf_Expand c randomKey (be16 len @ ascii ''HPKE-v1'' @ suiteID @ ascii label @ info) (unat len)"

abbreviation (input) DHKEM_X25519_HKDF_SHA256 :: u16 where "DHKEM_X25519_HKDF_SHA256 \<equiv> 0x0020"
abbreviation (input) AEAD_AES_128_GCM :: u16 where "AEAD_AES_128_GCM \<equiv> 0x0001"
abbreviation (input) AEAD_AES_256_GCM :: u16 where "AEAD_AES_256_GCM \<equiv> 0x0002"
abbreviation (input) AEAD_ChaCha20Poly1305 :: u16 where "AEAD_ChaCha20Poly1305 \<equiv> 0x0003"
abbreviation (input) KDF_HKDF_SHA256 :: u16 where "KDF_HKDF_SHA256 \<equiv> 0x0001"

definition SupportedKEMs :: "u16 \<Rightarrow> u16 option" where
  "SupportedKEMs kemID = (if kemID = DHKEM_X25519_HKDF_SHA256 then Some 32 else None)"

text \<open>Key size and nonce size.\<close>

definition SupportedAEADs :: "u16 \<Rightarrow> (u16 \<times> u16) option" where
  "SupportedAEADs aeadID =
     (if aeadID = AEAD_AES_128_GCM then Some (16, 12)
      else if aeadID = AEAD_AES_256_GCM then Some (32, 12)
      else if aeadID = AEAD_ChaCha20Poly1305 then Some (32, 12)
      else None)"

definition SupportedKDFs :: "u16 \<Rightarrow> bool" where
  "SupportedKDFs kdfID \<longleftrightarrow> kdfID = KDF_HKDF_SHA256"

text \<open>The suite identifier and secret length of a KEM.\<close>

definition newDHKem :: "u16 \<Rightarrow> gerror + (bytes \<times> u16)" where
  "newDHKem kemID = (case SupportedKEMs kemID of
     None \<Rightarrow> Inl (Errorf ''unsupported suite ID'')
   | Some nSecret \<Rightarrow> Inr (ascii ''KEM'' @ be16 kemID, nSecret))"

definition ExtractAndExpand :: "hpke_crypto \<Rightarrow> bytes \<times> u16 \<Rightarrow> bytes \<Rightarrow> bytes \<Rightarrow> bytes" where
  "ExtractAndExpand c kem dhKey kemContext =
     (let eaePRK = LabeledExtract c (fst kem) [] ''eae_prk'' dhKey
      in LabeledExpand c (fst kem) eaePRK ''shared_secret'' kemContext (snd kem))"

text \<open>The ephemeral private key that \<open>GenerateKey\<close> returns is an argument.\<close>

definition Encap :: "hpke_crypto \<Rightarrow> bytes \<times> u16 \<Rightarrow> bytes \<Rightarrow> bytes \<Rightarrow> gerror + (bytes \<times> bytes)" where
  "Encap c kem privEph pubRecipient =
     (case ECDH c privEph pubRecipient of
        Inl err \<Rightarrow> Inl err
      | Inr dhVal \<Rightarrow>
          let encPubEph = PublicKey c privEph; kemContext = encPubEph @ pubRecipient
          in Inr (ExtractAndExpand c kem dhVal kemContext, encPubEph))"

definition Decap :: "hpke_crypto \<Rightarrow> bytes \<times> u16 \<Rightarrow> bytes \<Rightarrow> bytes \<Rightarrow> gerror + bytes" where
  "Decap c kem encPubEph secRecipient =
     (case NewPublicKey c encPubEph of
        Inl err \<Rightarrow> Inl err
      | Inr pubEph \<Rightarrow>
     (case ECDH c secRecipient pubEph of
        Inl err \<Rightarrow> Inl err
      | Inr dhVal \<Rightarrow>
          let kemContext = encPubEph @ PublicKey c secRecipient
          in Inr (ExtractAndExpand c kem dhVal kemContext)))"


section \<open>Contexts\<close>

record hpke_context =
  ctx_aead :: u16
  ctx_sharedSecret :: bytes
  ctx_suiteID :: bytes
  ctx_key :: bytes
  ctx_baseNonce :: bytes
  ctx_exporterSecret :: bytes
  ctx_seqNum :: uint128

definition suiteID :: "u16 \<Rightarrow> u16 \<Rightarrow> u16 \<Rightarrow> bytes" where
  "suiteID kemID kdfID aeadID = ascii ''HPKE'' @ be16 kemID @ be16 kdfID @ be16 aeadID"

definition newContext :: "hpke_crypto \<Rightarrow> bytes \<Rightarrow> u16 \<Rightarrow> u16 \<Rightarrow> u16 \<Rightarrow> bytes \<Rightarrow> gerror + hpke_context" where
  "newContext c sharedSecret kemID kdfID aeadID info =
     (let sid = suiteID kemID kdfID aeadID in
      if \<not> SupportedKDFs kdfID then Inl (Errorf ''unsupported KDF id'')
      else case SupportedAEADs aeadID of
        None \<Rightarrow> Inl (Errorf ''unsupported AEAD id'')
      | Some (keySize, nonceSize) \<Rightarrow>
          let pskIDHash = LabeledExtract c sid [] ''psk_id_hash'' [];
              infoHash = LabeledExtract c sid [] ''info_hash'' info;
              ksContext = [0] @ pskIDHash @ infoHash;
              secret = LabeledExtract c sid sharedSecret ''secret'' [];
              key = LabeledExpand c sid secret ''key'' ksContext keySize;
              baseNonce = LabeledExpand c sid secret ''base_nonce'' ksContext nonceSize;
              exporterSecret = LabeledExpand c sid secret ''exp'' ksContext 32
          in case aead_new c aeadID key of
               Some err \<Rightarrow> Inl err
             | None \<Rightarrow> Inr \<lparr>ctx_aead = aeadID, ctx_sharedSecret = sharedSecret, ctx_suiteID = sid, ctx_key = key,
                 ctx_baseNonce = baseNonce, ctx_exporterSecret = exporterSecret, ctx_seqNum = \<lparr>hi = 0, lo = 0\<rparr>\<rparr>)"

definition SetupSender :: "hpke_crypto \<Rightarrow> bytes \<Rightarrow> u16 \<Rightarrow> u16 \<Rightarrow> u16 \<Rightarrow> bytes \<Rightarrow> bytes \<Rightarrow> gerror + (bytes \<times> hpke_context)" where
  "SetupSender c privEph kemID kdfID aeadID pub info =
     (case newDHKem kemID of
        Inl err \<Rightarrow> Inl err
      | Inr kem \<Rightarrow>
     (case Encap c kem privEph pub of
        Inl err \<Rightarrow> Inl err
      | Inr (sharedSecret, encapsulatedKey) \<Rightarrow>
     (case newContext c sharedSecret kemID kdfID aeadID info of
        Inl err \<Rightarrow> Inl err
      | Inr ctx \<Rightarrow> Inr (encapsulatedKey, ctx))))"

definition SetupReceipient :: "hpke_crypto \<Rightarrow> u16 \<Rightarrow> u16 \<Rightarrow> u16 \<Rightarrow> bytes \<Rightarrow> bytes \<Rightarrow> bytes \<Rightarrow> gerror + hpke_context" where
  "SetupReceipient c kemID kdfID aeadID priv info encPubEph =
     (case newDHKem kemID of
        Inl err \<Rightarrow> Inl err
      | Inr kem \<Rightarrow>
     (case Decap c kem encPubEph priv of
        Inl err \<Rightarrow> Inl err
      | Inr sharedSecret \<Rightarrow> newContext c sharedSecret kemID kdfID aeadID info))"

text \<open>
  \<open>NonceSize()\<close> is 12 for the three AEADs. The loop of \<open>nextNonce\<close> indexes the nonce by the
  positions of \<open>baseNonce\<close>, which newContext makes of the same size.
\<close>

definition aead_NonceSize :: "u16 \<Rightarrow> nat" where
  "aead_NonceSize aeadID = (case SupportedAEADs aeadID of None \<Rightarrow> 0 | Some (_, n) \<Rightarrow> unat n)"

definition nextNonce :: "hpke_context \<Rightarrow> bytes" where
  "nextNonce ctx =
     (let nonce = drop (16 - aead_NonceSize (ctx_aead ctx)) (uint128_bytes (ctx_seqNum ctx))
      in fold (\<lambda>i nonce. nonce[i := (nonce ! i) XOR (ctx_baseNonce ctx ! i)]) [0..<length (ctx_baseNonce ctx)] nonce)"

definition incrementNonce :: "hpke_context \<Rightarrow> gerror + hpke_context" where
  "incrementNonce ctx =
     (if bitLen (ctx_seqNum ctx) \<ge> aead_NonceSize (ctx_aead ctx) * 8 - 1 then Inl (Panic ''message limit reached'')
      else Inr (ctx\<lparr>ctx_seqNum := addOne (ctx_seqNum ctx)\<rparr>))"

definition Sender_Seal :: "hpke_crypto \<Rightarrow> hpke_context \<Rightarrow> bytes \<Rightarrow> bytes \<Rightarrow> gerror + (bytes \<times> hpke_context)" where
  "Sender_Seal c s aad plaintext =
     (let ciphertext = aead_Seal c (ctx_aead s) (ctx_key s) (nextNonce s) plaintext aad in
      case incrementNonce s of Inl e \<Rightarrow> Inl e | Inr s \<Rightarrow> Inr (ciphertext, s))"

definition Receipient_Open :: "hpke_crypto \<Rightarrow> hpke_context \<Rightarrow> bytes \<Rightarrow> bytes \<Rightarrow> gerror + (bytes \<times> hpke_context)" where
  "Receipient_Open c r aad ciphertext =
     (case aead_Open c (ctx_aead r) (ctx_key r) (nextNonce r) ciphertext aad of
        Inl err \<Rightarrow> Inl err
      | Inr plaintext \<Rightarrow> (case incrementNonce r of Inl e \<Rightarrow> Inl e | Inr r \<Rightarrow> Inr (plaintext, r)))"

definition ParseHPKEPublicKey :: "hpke_crypto \<Rightarrow> u16 \<Rightarrow> bytes \<Rightarrow> gerror + bytes" where
  "ParseHPKEPublicKey c kemID bs = (case SupportedKEMs kemID of
     None \<Rightarrow> Inl (Errorf ''unsupported KEM id'') | Some _ \<Rightarrow> NewPublicKey c bs)"

definition ParseHPKEPrivateKey :: "hpke_crypto \<Rightarrow> u16 \<Rightarrow> bytes \<Rightarrow> gerror + bytes" where
  "ParseHPKEPrivateKey c kemID bs = (case SupportedKEMs kemID of
     None \<Rightarrow> Inl (Errorf ''unsupported KEM id'') | Some _ \<Rightarrow> NewPrivateKey c bs)"


section \<open>Sender and recipient agree\<close>

text \<open>
  What the packages crypto/ecdh, crypto/hkdf and crypto/cipher document: the encoding of a public
  key is accepted, the Diffie-Hellman value does not depend on the side, \<open>Expand\<close> returns
  the length asked for, \<open>Open\<close> undoes \<open>Seal\<close> under the same key, nonce and data, and \<open>Seal\<close>
  appends a tag of 16 bytes.
\<close>

definition hpke_laws :: "hpke_crypto \<Rightarrow> bool" where
  "hpke_laws c \<longleftrightarrow>
     (\<forall>a. NewPublicKey c (PublicKey c a) = Inr (PublicKey c a))
     \<and> (\<forall>a b. ECDH c a (PublicKey c b) = ECDH c b (PublicKey c a))
     \<and> (\<forall>prk info n. length (hkdf_Expand c prk info n) = n)
     \<and> (\<forall>i k n p a. aead_Open c i k n (aead_Seal c i k n p a) a = Inr p)
     \<and> (\<forall>i k n p a. length (aead_Seal c i k n p a) = length p + 16)"

lemma setup_agree:
  assumes "hpke_laws c" and "SetupSender c e kemID kdfID aeadID (PublicKey c r) info = Inr (enc, ctx)"
  shows "SetupReceipient c kemID kdfID aeadID r info enc = Inr ctx"
  using assms by (auto simp: hpke_laws_def SetupSender_def SetupReceipient_def Encap_def Decap_def Let_def
      split: sum.splits)

lemma open_seal:
  assumes "hpke_laws c" and "Sender_Seal c s aad p = Inr (ct, s')"
  shows "Receipient_Open c s aad ct = Inr (p, s')"
  using assms by (auto simp: hpke_laws_def Sender_Seal_def Receipient_Open_def Let_def split: sum.splits)

fun seal_all :: "hpke_crypto \<Rightarrow> hpke_context \<Rightarrow> (bytes \<times> bytes) list \<Rightarrow> gerror + (bytes list \<times> hpke_context)" where
  "seal_all c s [] = Inr ([], s)"
| "seal_all c s ((aad, p) # ms) = (case Sender_Seal c s aad p of
     Inl e \<Rightarrow> Inl e
   | Inr (ct, s) \<Rightarrow> (case seal_all c s ms of Inl e \<Rightarrow> Inl e | Inr (cts, s) \<Rightarrow> Inr (ct # cts, s)))"

fun open_all :: "hpke_crypto \<Rightarrow> hpke_context \<Rightarrow> (bytes \<times> bytes) list \<Rightarrow> gerror + (bytes list \<times> hpke_context)" where
  "open_all c r [] = Inr ([], r)"
| "open_all c r ((aad, ct) # ms) = (case Receipient_Open c r aad ct of
     Inl e \<Rightarrow> Inl e
   | Inr (p, r) \<Rightarrow> (case open_all c r ms of Inl e \<Rightarrow> Inl e | Inr (ps, r) \<Rightarrow> Inr (p # ps, r)))"

lemma open_all_seal_all:
  assumes "hpke_laws c" and "seal_all c s ms = Inr (cts, s')"
  shows "open_all c s (zip (map fst ms) cts) = Inr (map snd ms, s')"
  using assms(2)
proof (induction ms arbitrary: s cts)
  case (Cons m ms)
  obtain aad p where m: "m = (aad, p)"
    by (cases m)
  obtain ct s1 cts' where "Sender_Seal c s aad p = Inr (ct, s1)" "seal_all c s1 ms = Inr (cts', s')" "cts = ct # cts'"
    using Cons.prems by (auto simp: m split: sum.splits prod.splits)
  then show ?case
    using Cons.IH [of s1 cts'] open_seal [OF assms(1)] by (simp add: m)
qed simp


section \<open>Nonces\<close>

lemma val128_addOne: "val128 (addOne u) = (val128 u + 1) mod 2 ^ 128"
proof -
  let ?H = "unat (hi u)" and ?L = "unat (lo u)"
  have h: "?H < 18446744073709551616" and l: "?L < 18446744073709551616"
    using unat_u64_less by auto
  show ?thesis
  proof (cases "?L + 1 = 18446744073709551616")
    case True
    then have v: "val128 (addOne u) = ((?H + 1) mod 18446744073709551616) * 18446744073709551616"
      by (simp add: val128_def addOne_def Add64_def unat_word_ariths)
    have "val128 u + 1 = (?H + 1) * 18446744073709551616"
      using True by (simp add: val128_def)
    then show ?thesis
      unfolding v mult_mod_left by simp
  next
    case False
    then have "val128 (addOne u) = val128 u + 1"
      using l by (simp add: val128_def addOne_def Add64_def unat_word_ariths)
    moreover have "val128 u + 1 < 2 ^ 128"
      using h l False by (simp add: val128_def)
    ultimately show ?thesis
      by simp
  qed
qed

lemma nat_len_le: "nat_len n \<le> k \<longleftrightarrow> n < 2 ^ k"
proof (induction n arbitrary: k rule: nat_len.induct)
  case (1 n)
  show ?case
  proof (cases k)
    case 0
    then show ?thesis
      by (simp add: nat_len.simps [of n])
  next
    case (Suc j)
    then show ?thesis
      using 1 [of j] by (cases "n = 0") (auto simp: nat_len.simps [of n] nat_len.simps [of 0] div_less_iff_less_mult)
  qed
qed

text \<open>
  The counter is refused once it has the value \<open>2^94 + 2^63\<close>: the bit length that the
  code computes adds the lengths of both halves.
\<close>

definition seq_limit :: nat where
  "seq_limit = 2 ^ 94 + 2 ^ 63"

lemma incrementNonce_val:
  assumes "incrementNonce ctx = Inr ctx'" "val128 (ctx_seqNum ctx) \<le> seq_limit" "aead_NonceSize (ctx_aead ctx) = 12"
  shows "val128 (ctx_seqNum ctx') = val128 (ctx_seqNum ctx) + 1 \<and> val128 (ctx_seqNum ctx') \<le> seq_limit"
proof -
  let ?u = "ctx_seqNum ctx"
  have v: "val128 (ctx_seqNum ctx') = (val128 ?u + 1) mod 2 ^ 128" and b: "bitLen ?u < 95"
    using assms(1,3) by (auto simp: incrementNonce_def val128_addOne split: if_splits)
  have "val128 ?u \<noteq> seq_limit"
  proof
    assume e: "val128 ?u = seq_limit"
    have "unat (hi ?u) = val128 ?u div 18446744073709551616" "unat (lo ?u) = val128 ?u mod 18446744073709551616"
      using unat_u64_less [of "lo ?u"] by (simp_all add: val128_def)
    then have "unat (hi ?u) = 1073741824" "unat (lo ?u) = 9223372036854775808"
      by (simp_all add: e seq_limit_def)
    then have "\<not> Len64 (hi ?u) \<le> 30" "\<not> Len64 (lo ?u) \<le> 63"
      by (simp_all add: Len64_def nat_len_le)
    with b show False
      by (simp add: bitLen_def)
  qed
  then show ?thesis
    using v assms(2) by (simp add: seq_limit_def)
qed

lemma from_be_nonce: "from_be (drop 4 (uint128_bytes u)) = val128 u mod 2 ^ 96"
proof -
  have d: "drop 4 (uint128_bytes u) = map (\<lambda>k. ucast (drop_bit (8 * k) (hi u))) (rev [0..<4]) @ be64 (lo u)"
    by (simp add: uint128_bytes_def be64_def upt_rec numeral_eq_Suc)
  have "from_be (be64 (lo u)) = unat (lo u)"
    unfolding be64_def from_be_low_bytes using unat_u64_less [of "lo u"] by simp
  moreover have "length (be64 (lo u)) = 8"
    by (simp add: be64_def)
  ultimately have "from_be (drop 4 (uint128_bytes u)) = (unat (hi u) mod 256 ^ 4) * 256 ^ 8 + unat (lo u)"
    unfolding d from_be_append from_be_low_bytes by simp
  moreover have "val128 u mod 2 ^ 96 = (unat (hi u) mod 256 ^ 4) * 256 ^ 8 + unat (lo u)"
    using mod_mult2_eq [of "val128 u" "2 ^ 64" "2 ^ 32"] unat_u64_less [of "lo u"]
    by (simp add: val128_def)
  ultimately show ?thesis
    by simp
qed

lemma fold_xor:
  "n \<le> length xs \<Longrightarrow> n \<le> length ks \<Longrightarrow>
    fold (\<lambda>i xs. xs[i := (xs ! i) XOR (ks ! i)]) [0..<n] xs
      = map2 (XOR) (take n xs) (take n ks :: bytes) @ drop n xs"
proof (induction n)
  case (Suc n)
  then show ?case
    by (simp add: take_Suc_conv_app_nth nth_append list_update_append flip: Cons_nth_drop_Suc)
qed simp

lemma map2_xor_cancel:
  "length xs = length ks \<Longrightarrow> map2 (XOR) (map2 (XOR) xs ks) (ks :: bytes) = xs"
  by (induction xs ks rule: list_induct2) (simp_all add: xor.assoc)

lemma nextNonce_inj:
  assumes "nextNonce ctx = nextNonce (ctx\<lparr>ctx_seqNum := v\<rparr>)" "aead_NonceSize (ctx_aead ctx) = 12"
    "length (ctx_baseNonce ctx) = 12"
  shows "val128 (ctx_seqNum ctx) mod 2 ^ 96 = val128 v mod 2 ^ 96"
proof -
  have l: "length (uint128_bytes u) = 16" for u
    by (simp add: uint128_bytes_def be64_def)
  have n: "nextNonce (ctx\<lparr>ctx_seqNum := u\<rparr>) = map2 (XOR) (drop 4 (uint128_bytes u)) (ctx_baseNonce ctx)" for u
    using assms(2,3) by (simp add: nextNonce_def fold_xor l)
  have x: "map2 (XOR) (nextNonce (ctx\<lparr>ctx_seqNum := u\<rparr>)) (ctx_baseNonce ctx) = drop 4 (uint128_bytes u)" for u
    unfolding n by (rule map2_xor_cancel) (simp add: l assms(3))
  have "ctx\<lparr>ctx_seqNum := ctx_seqNum ctx\<rparr> = ctx"
    by simp
  then have "drop 4 (uint128_bytes (ctx_seqNum ctx)) = drop 4 (uint128_bytes v)"
    using x [of v] x [of "ctx_seqNum ctx"] assms(1) by simp
  then show ?thesis
    using from_be_nonce [of v] from_be_nonce [of "ctx_seqNum ctx"] by (simp only:)
qed

definition ctx_ok :: "hpke_context \<Rightarrow> bool" where
  "ctx_ok s \<longleftrightarrow> aead_NonceSize (ctx_aead s) = 12 \<and> length (ctx_baseNonce s) = 12
     \<and> val128 (ctx_seqNum s) \<le> seq_limit"

lemma newContext_ok:
  assumes "hpke_laws c" "newContext c ss kemID kdfID aeadID info = Inr ctx"
  shows "ctx_ok ctx"
  using assms by (auto simp: newContext_def Let_def ctx_ok_def hpke_laws_def aead_NonceSize_def SupportedAEADs_def
      LabeledExpand_def val128_def split: if_splits option.splits)

lemma Sender_Seal_next:
  assumes "Sender_Seal c s aad p = Inr (ct, s')" "ctx_ok s"
  shows "ctx_ok s' \<and> val128 (ctx_seqNum s') = val128 (ctx_seqNum s) + 1 \<and> (\<exists>u. s' = s\<lparr>ctx_seqNum := u\<rparr>)"
proof -
  have i: "incrementNonce s = Inr s'"
    using assms(1) by (auto simp: Sender_Seal_def Let_def split: sum.splits)
  then obtain u where "s' = s\<lparr>ctx_seqNum := u\<rparr>"
    by (auto simp: incrementNonce_def split: if_splits)
  then show ?thesis
    using incrementNonce_val [OF i] assms(2) by (auto simp: ctx_ok_def)
qed

text \<open>
  A run of \<open>Seal\<close>: the nonces \<open>ns\<close> are the ones that the AEAD is given, because the ciphertexts
  are those of any AEAD whatsoever under these nonces.
\<close>

definition sealed_with :: "hpke_crypto \<Rightarrow> hpke_context \<Rightarrow> bytes list \<Rightarrow> (bytes \<times> bytes) list \<Rightarrow> bytes list" where
  "sealed_with c s ns ms = map2 (\<lambda>n (aad, p). aead_Seal c (ctx_aead s) (ctx_key s) n p aad) ns ms"

lemma seal_all_nonces:
  assumes "ctx_ok s" "seal_all c s ms = Inr (cts, s')"
  shows "\<exists>ns. distinct ns \<and> length ns = length ms \<and> (\<forall>c'. seal_all c' s ms = Inr (sealed_with c' s ns ms, s'))
    \<and> (\<forall>n \<in> set ns. \<exists>u. n = nextNonce (s\<lparr>ctx_seqNum := u\<rparr>) \<and> val128 (ctx_seqNum s) \<le> val128 u \<and> val128 u \<le> seq_limit)"
  using assms
proof (induction ms arbitrary: s cts)
  case Nil
  then show ?case
    by (intro exI [of _ "[]"]) (simp add: sealed_with_def)
next
  case (Cons m ms)
  obtain aad p where m: "m = (aad, p)"
    by (cases m)
  obtain ct s1 cts1 where s1: "Sender_Seal c s aad p = Inr (ct, s1)" and rest: "seal_all c s1 ms = Inr (cts1, s')"
    using Cons.prems(2) by (auto simp: m split: sum.splits prod.splits)
  note n = Sender_Seal_next [OF s1 Cons.prems(1)]
  then obtain v where v: "s1 = s\<lparr>ctx_seqNum := v\<rparr>"
    by blast
  have first: "Sender_Seal c' s aad p = Inr (aead_Seal c' (ctx_aead s) (ctx_key s) (nextNonce s) p aad, s1)" for c'
    using s1 by (auto simp: Sender_Seal_def Let_def split: sum.splits)
  from Cons.IH [OF conjunct1 [OF n] rest] obtain ns where ns: "distinct ns" "length ns = length ms"
      "\<And>c'. seal_all c' s1 ms = Inr (sealed_with c' s1 ns ms, s')"
      "\<And>x. x \<in> set ns \<Longrightarrow> \<exists>u. x = nextNonce (s\<lparr>ctx_seqNum := u\<rparr>) \<and> val128 (ctx_seqNum s) < val128 u \<and> val128 u \<le> seq_limit"
    using n v by fastforce
  have "nextNonce s \<notin> set ns"
  proof
    assume "nextNonce s \<in> set ns"
    from ns(4) [OF this] obtain u where u: "nextNonce s = nextNonce (s\<lparr>ctx_seqNum := u\<rparr>)"
        "val128 (ctx_seqNum s) < val128 u" "val128 u \<le> seq_limit"
      by blast
    with nextNonce_inj [OF u(1)] Cons.prems(1) show False
      by (auto simp: ctx_ok_def seq_limit_def)
  qed
  moreover have "\<exists>u. nextNonce s = nextNonce (s\<lparr>ctx_seqNum := u\<rparr>) \<and> val128 (ctx_seqNum s) \<le> val128 u \<and> val128 u \<le> seq_limit"
    using Cons.prems(1) by (intro exI [of _ "ctx_seqNum s"]) (simp add: ctx_ok_def)
  ultimately show ?case
    using ns(1,2,3) ns(4) [THEN exE] first v
    by (intro exI [of _ "nextNonce s # ns"]) (auto simp: m sealed_with_def dest!: ns(4) intro: less_imp_le)
qed

lemma bitLen_limit:
  assumes "val128 u \<le> seq_limit"
  shows "bitLen u < 95 \<longleftrightarrow> val128 u < seq_limit"
proof (cases "unat (hi u) < 1073741824")
  case True
  then have "Len64 (hi u) \<le> 30" "Len64 (lo u) \<le> 64"
    using unat_u64_less [of "lo u"] by (simp_all add: Len64_def nat_len_le)
  moreover have "val128 u < seq_limit"
    using True unat_u64_less [of "lo u"] by (simp add: val128_def seq_limit_def)
  ultimately show ?thesis
    by (simp add: bitLen_def)
next
  case False
  then have h: "unat (hi u) = 1073741824"
    using assms unat_u64_less [of "lo u"] by (simp add: val128_def seq_limit_def)
  then have "Len64 (hi u) = 31"
    by (simp add: Len64_def nat_len.simps)
  moreover have "val128 u < seq_limit \<longleftrightarrow> Len64 (lo u) \<le> 63"
    using h by (simp add: val128_def seq_limit_def Len64_def nat_len_le)
  ultimately show ?thesis
    by (auto simp: bitLen_def)
qed

lemma incrementNonce_limit:
  assumes "ctx_ok s"
  shows "incrementNonce s = (if val128 (ctx_seqNum s) < seq_limit then Inr (s\<lparr>ctx_seqNum := addOne (ctx_seqNum s)\<rparr>)
    else Inl (Panic ''message limit reached''))"
  using bitLen_limit [of "ctx_seqNum s"] assms by (auto simp: incrementNonce_def ctx_ok_def)

lemma seal_all_limit:
  "ctx_ok s \<Longrightarrow>
    if val128 (ctx_seqNum s) + length ms \<le> seq_limit
    then \<exists>cts s'. seal_all c s ms = Inr (cts, s') \<and> length cts = length ms \<and> val128 (ctx_seqNum s') = val128 (ctx_seqNum s) + length ms
    else seal_all c s ms = Inl (Panic ''message limit reached'')"
proof (induction ms arbitrary: s)
  case (Cons m ms)
  obtain aad p where m: "m = (aad, p)"
    by (cases m)
  show ?case
  proof (cases "val128 (ctx_seqNum s) < seq_limit")
    case True
    then obtain ct s1 where s1: "Sender_Seal c s aad p = Inr (ct, s1)"
      using incrementNonce_limit [OF Cons.prems] by (auto simp: Sender_Seal_def Let_def)
    note n = Sender_Seal_next [OF s1 Cons.prems]
    show ?thesis
      using Cons.IH [OF conjunct1 [OF n]] n s1 by (auto simp: m split: if_splits)
  next
    case False
    then have "seal_all c s (m # ms) = Inl (Panic ''message limit reached'')"
      using incrementNonce_limit [OF Cons.prems] by (simp add: m Sender_Seal_def Let_def)
    then show ?thesis
      using False Cons.prems by (simp add: ctx_ok_def)
  qed
qed (simp add: ctx_ok_def)

lemma SetupSender_ok:
  assumes "hpke_laws c" "SetupSender c e kemID kdfID aeadID pub info = Inr (enc, ctx)"
  shows "ctx_ok ctx \<and> val128 (ctx_seqNum ctx) = 0"
proof -
  obtain ss where n: "newContext c ss kemID kdfID aeadID info = Inr ctx"
    using assms(2) by (auto simp: SetupSender_def split: sum.splits)
  then have "ctx_seqNum ctx = \<lparr>hi = 0, lo = 0\<rparr>"
    by (auto simp: newContext_def Let_def split: if_splits option.splits)
  then show ?thesis
    using newContext_ok [OF assms(1) n] by (simp add: val128_def)
qed

section \<open>Properties\<close>

text \<open>
  An instance of the parameter that satisfies the laws (and keeps nothing secret), to show that
  they can hold.
\<close>

definition hpke_plain :: hpke_crypto where
  "hpke_plain = \<lparr>hkdf_Extract = (\<lambda>secret salt. []), hkdf_Expand = (\<lambda>prk info n. replicate n 0),
    NewPublicKey = Inr, NewPrivateKey = Inr, PublicKey = (\<lambda>a. a), ECDH = (\<lambda>a p. Inr []),
    aead_new = (\<lambda>i k. None),
    aead_Seal = (\<lambda>i k n p a. p @ replicate 16 0xee),
    aead_Open = (\<lambda>i k n c a. if length c < 16 \<or> drop (length c - 16) c \<noteq> replicate 16 0xee
      then Inl (Errorf ''cipher: message authentication failed'')
      else Inr (take (length c - 16) c))\<rparr>"

lemma hpke_plain_laws: "hpke_laws hpke_plain"
  by (auto simp: hpke_laws_def hpke_plain_def)

definition plain_ctx :: hpke_context where
  "plain_ctx = \<lparr>ctx_aead = 1, ctx_sharedSecret = replicate 32 0, ctx_suiteID = [72, 80, 75, 69, 0, 32, 0, 1, 0, 1],
     ctx_key = replicate 16 0, ctx_baseNonce = replicate 12 0, ctx_exporterSecret = replicate 32 0,
     ctx_seqNum = \<lparr>hi = 0, lo = 0\<rparr>\<rparr>"

lemma plain_sender:
  "SetupSender hpke_plain [2] DHKEM_X25519_HKDF_SHA256 KDF_HKDF_SHA256 AEAD_AES_128_GCM (PublicKey hpke_plain [3]) info
    = Inr ([2], plain_ctx)"
  by (simp add: SetupSender_def newDHKem_def SupportedKEMs_def Encap_def newContext_def SupportedAEADs_def
      SupportedKDFs_def Let_def LabeledExtract_def LabeledExpand_def hpke_plain_def ExtractAndExpand_def suiteID_def
      ascii_def be16_def plain_ctx_def)

lemmas seal_eval = Sender_Seal_def hpke_plain_def incrementNonce_def addOne_def Add64_def plain_ctx_def bitLen_def
  Len64_def nat_len.simps aead_NonceSize_def SupportedAEADs_def Let_def

text \<open>
  C21. HPKE channel: a recipient that sets up its context from the sender's encapsulated key opens
  every message of the sender, in order, to the plaintext that was sealed, and both contexts
  end with the same sequence number.
\<close>

theorem hpke_recipient_opens_all:
  assumes "hpke_laws c" and "SetupSender c e kemID kdfID aeadID (PublicKey c r) info = Inr (enc, ctx)"
    and "seal_all c ctx ms = Inr (cts, ctx')"
  shows "\<exists>rctx. SetupReceipient c kemID kdfID aeadID r info enc = Inr rctx
    \<and> open_all c rctx (zip (map fst ms) cts) = Inr (map snd ms, ctx')"
  using setup_agree [OF assms(1,2)] open_all_seal_all [OF assms(1,3)] by blast

theorem hpke_recipient_opens_all_witness:
  "\<exists>cts ctx' rctx. seal_all hpke_plain plain_ctx [([1], [5, 6]), ([], [7])] = Inr (cts, ctx')
    \<and> SetupReceipient hpke_plain DHKEM_X25519_HKDF_SHA256 KDF_HKDF_SHA256 AEAD_AES_128_GCM [3] [] [2] = Inr rctx
    \<and> open_all hpke_plain rctx (zip [[1], []] cts) = Inr ([[5, 6], [7]], ctx')"
proof -
  obtain cts ctx' where "seal_all hpke_plain plain_ctx [([1], [5, 6]), ([], [7])] = Inr (cts, ctx')"
    by (simp add: seal_eval)
  from hpke_recipient_opens_all [OF hpke_plain_laws plain_sender this] this show ?thesis
    by auto
qed

text \<open>
  C22. Nonces never repeat: there is one list of pairwise different nonces, one for each message that
  a sender seals from the set-up of its context on, under which the messages are sealed, all with the
  same key. That these are the nonces that \<open>Seal\<close> passes to the AEAD is said by \<open>\<forall>c'\<close>: the run
  gives the ciphertexts under these nonces for every AEAD, also for one whose output is its nonce.
\<close>

theorem hpke_nonces_never_repeat:
  assumes "hpke_laws c" and "SetupSender c e kemID kdfID aeadID pub info = Inr (enc, ctx)"
    and "seal_all c ctx ms = Inr (cts, ctx')"
  shows "\<exists>ns. distinct ns \<and> length ns = length ms \<and>
    (\<forall>c'. seal_all c' ctx ms = Inr (map2 (\<lambda>n (aad, p). aead_Seal c' (ctx_aead ctx) (ctx_key ctx) n p aad) ns ms, ctx'))"
  using seal_all_nonces [OF conjunct1 [OF SetupSender_ok [OF assms(1,2)]] assms(3)] unfolding sealed_with_def by blast

theorem hpke_nonces_never_repeat_witness:
  "\<exists>n1 n2 ctx'. n1 \<noteq> n2 \<and>
    seal_all (hpke_plain\<lparr>aead_Seal := \<lambda>i k n p aad. n\<rparr>) plain_ctx [([1], [5, 6]), ([], [7])] = Inr ([n1, n2], ctx')"
proof -
  let ?ms = "[([1], [5, 6]), ([], [7])] :: (bytes \<times> bytes) list" and ?c = "hpke_plain\<lparr>aead_Seal := \<lambda>i k n p aad. n\<rparr>"
  obtain cts ctx' where "seal_all hpke_plain plain_ctx ?ms = Inr (cts, ctx')"
    by (simp add: seal_eval)
  from hpke_nonces_never_repeat [OF hpke_plain_laws plain_sender this] obtain ns where ns: "distinct ns" "length ns = length ?ms"
    and run: "seal_all ?c plain_ctx ?ms = Inr (map2 (\<lambda>n (aad, p). aead_Seal ?c (ctx_aead plain_ctx) (ctx_key plain_ctx) n p aad) ns ?ms, ctx')"
    by blast
  from ns obtain n1 n2 where "ns = [n1, n2]" "n1 \<noteq> n2"
    by (auto simp: length_Suc_conv)
  then show ?thesis
    using run by (intro exI [of _ n1] exI [of _ n2] exI [of _ ctx']) simp
qed

text \<open>
  C23. The message limit: from the set-up of its context on, a sender seals every sequence of up to
  \<open>2^94 + 2^63\<close> messages, and the number of the context is then the number of messages; a longer
  sequence panics. The comment of \<open>incrementNonce\<close> names \<open>2^95 + 1\<close>; the limit is another one because
  \<open>bitLen\<close> adds the bit lengths of the two halves of the number.
\<close>

theorem hpke_message_limit:
  assumes "hpke_laws c" and "SetupSender c e kemID kdfID aeadID pub info = Inr (enc, ctx)"
  shows "if length ms \<le> 2 ^ 94 + 2 ^ 63
    then \<exists>cts ctx'. seal_all c ctx ms = Inr (cts, ctx') \<and> length cts = length ms \<and> val128 (ctx_seqNum ctx') = length ms
    else seal_all c ctx ms = Inl (Panic ''message limit reached'')"
proof -
  have "ctx_ok ctx" "val128 (ctx_seqNum ctx) = 0"
    using SetupSender_ok [OF assms] by simp_all
  with seal_all_limit [of ctx ms c] show ?thesis
    unfolding seq_limit_def by (metis add_0)
qed

theorem hpke_message_limit_witness:
  "seal_all hpke_plain plain_ctx (replicate (2 ^ 94 + 2 ^ 63 + 1) ([], [5])) = Inl (Panic ''message limit reached'')
    \<and> (\<exists>cts ctx'. seal_all hpke_plain plain_ctx (replicate (2 ^ 94 + 2 ^ 63) ([], [5])) = Inr (cts, ctx')
       \<and> val128 (ctx_seqNum ctx') = 2 ^ 94 + 2 ^ 63)"
proof
  let ?ms = "\<lambda>k. replicate k ([], [5]) :: (bytes \<times> bytes) list"
  have "\<not> length (?ms (2 ^ 94 + 2 ^ 63 + 1)) \<le> 2 ^ 94 + 2 ^ 63"
    by (simp only: length_replicate)
  then show "seal_all hpke_plain plain_ctx (?ms (2 ^ 94 + 2 ^ 63 + 1)) = Inl (Panic ''message limit reached'')"
    using hpke_message_limit [OF hpke_plain_laws plain_sender, of "?ms (2 ^ 94 + 2 ^ 63 + 1)"] by (simp only: if_False)
  have "length (?ms (2 ^ 94 + 2 ^ 63)) = 2 ^ 94 + 2 ^ 63"
    by (simp only: length_replicate)
  then show "\<exists>cts ctx'. seal_all hpke_plain plain_ctx (?ms (2 ^ 94 + 2 ^ 63)) = Inr (cts, ctx')
       \<and> val128 (ctx_seqNum ctx') = 2 ^ 94 + 2 ^ 63"
    using hpke_message_limit [OF hpke_plain_laws plain_sender, of "?ms (2 ^ 94 + 2 ^ 63)"]
    by (simp only: order.refl if_True) blast
qed

end
