(* ===== verification/Ech.thy ===== *)
theory Ech
  imports ClientHello Hpke
begin

text \<open>
  Encrypted Client Hello: configurations and their selection, the encoding of the inner
  hello by the client and its reconstruction by the server, and the server's trial
  decryption. The HPKE operations are parameters.
\<close>

section \<open>Configurations\<close>

record echCipher =
  KDFID :: u16
  AEADID :: u16

record echExtension =
  ext_Type :: u16
  ext_Data :: bytes

record echConfig =
  ec_raw :: bytes
  ec_Version :: u16
  ec_Length :: u16
  ec_ConfigID :: u8
  ec_KemID :: u16
  ec_PublicKey :: bytes
  ec_SymmetricCipherSuite :: "echCipher list"
  ec_MaxNameLength :: u8
  ec_PublicName :: bytes
  ec_Extensions :: "echExtension list"

record EncryptedClientHelloKey =
  Config :: bytes
  PrivateKey :: bytes
  SendAsRetry :: bool

definition errMalformedECHConfig :: gerror where
  "errMalformedECHConfig = Errorf ''tls: malformed ECHConfigList''"

definition read_echCiphers :: "cryptobyte \<Rightarrow> bytes \<Rightarrow> echCipher list \<Rightarrow> echCipher list option" where
  "read_echCiphers cb s acc = while_nonempty (\<lambda>s acc. do {
     (kdf, s) \<leftarrow> ReadUint16 cb s;
     (aead, s) \<leftarrow> ReadUint16 cb s;
     Some (acc @ [\<lparr>KDFID = kdf, AEADID = aead\<rparr>], s) }) s acc"

definition read_echExtensions :: "cryptobyte \<Rightarrow> bytes \<Rightarrow> echExtension list \<Rightarrow> echExtension list option" where
  "read_echExtensions cb s acc = while_nonempty (\<lambda>s acc. do {
     (t, s) \<leftarrow> ReadUint16 cb s;
     (d, s) \<leftarrow> ReadUint16LengthPrefixed cb s;
     Some (acc @ [\<lparr>ext_Type = t, ext_Data = d\<rparr>], s) }) s acc"

text \<open>
  The fields after the version and length, of a configuration of the supported version.
  Every failure of the source is the same error.
\<close>

definition parseECHConfig_body :: "cryptobyte \<Rightarrow> bytes \<Rightarrow> u16 \<Rightarrow> u16 \<Rightarrow> bytes \<Rightarrow> echConfig option" where
  "parseECHConfig_body cb raw version len s = do {
     (configID, s) \<leftarrow> ReadUint8 cb s;
     (kemID, s) \<leftarrow> ReadUint16 cb s;
     (publicKey, s) \<leftarrow> readUint16LengthPrefixed cb s;
     (cipherSuites, s) \<leftarrow> ReadUint16LengthPrefixed cb s;
     suites \<leftarrow> read_echCiphers cb cipherSuites [];
     (maxNameLength, s) \<leftarrow> ReadUint8 cb s;
     (publicName, s) \<leftarrow> ReadUint8LengthPrefixed cb s;
     (extensions, s) \<leftarrow> ReadUint16LengthPrefixed cb s;
     exts \<leftarrow> read_echExtensions cb extensions [];
     Some \<lparr>ec_raw = raw, ec_Version = version, ec_Length = len, ec_ConfigID = configID, ec_KemID = kemID,
       ec_PublicKey = publicKey, ec_SymmetricCipherSuite = suites, ec_MaxNameLength = maxNameLength,
       ec_PublicName = publicName, ec_Extensions = exts\<rparr> }"

text \<open>
  \<open>Inr None\<close> is a configuration to skip. \<open>ec.Length+4\<close> in the slice expression is a 16-bit
  sum, unlike the one in the comparison.
\<close>

definition parseECHConfig :: "cryptobyte \<Rightarrow> bytes \<Rightarrow> gerror + echConfig option" where
  "parseECHConfig cb enc =
     (case ReadUint16 cb enc of
        None \<Rightarrow> Inl errMalformedECHConfig
      | Some (version, s) \<Rightarrow>
     (case ReadUint16 cb s of
        None \<Rightarrow> Inl errMalformedECHConfig
      | Some (len, s) \<Rightarrow>
          if length enc < unat len + 4 then Inl errMalformedECHConfig
          else let raw = take (unat (len + 4)) enc in
          if version \<noteq> extensionEncryptedClientHello then Inr None
          else case parseECHConfig_body cb raw version len s of
            None \<Rightarrow> Inl errMalformedECHConfig
          | Some ec \<Rightarrow> Inr (Some ec)))"

text \<open>
  The loop over the list need not end: it moves by the 16-bit sum \<open>configLen+4\<close>. \<open>None\<close> is
  a run that does not return.
\<close>

partial_function (option) parseECHConfigs ::
    "cryptobyte \<Rightarrow> bytes \<Rightarrow> echConfig list \<Rightarrow> (gerror + echConfig list) option" where
  "parseECHConfigs cb s configs =
     (if length s > 0 then
        if length s < 4 then Some (Inl (Errorf ''tls: malformed ECHConfig''))
        else let configLen = u16_of (s ! 2) (s ! 3) in
        (case parseECHConfig cb s of
           Inl err \<Rightarrow> Some (Inl err)
         | Inr ec \<Rightarrow> parseECHConfigs cb (drop (unat (configLen + 4)) s)
             (case ec of None \<Rightarrow> configs | Some c \<Rightarrow> configs @ [c]))
      else Some (Inr configs))"

definition parseECHConfigList :: "cryptobyte \<Rightarrow> bytes \<Rightarrow> (gerror + echConfig list) option" where
  "parseECHConfigList cb d =
     (case ReadUint16 cb d of
        None \<Rightarrow> Some (Inl errMalformedECHConfig)
      | Some (len, s) \<Rightarrow>
          if len \<noteq> of_nat (length d - 2) then Some (Inl errMalformedECHConfig)
          else parseECHConfigs cb s [])"

text \<open>\<open>strings.Split(name, ".")\<close>: always at least one label.\<close>

fun split_dots :: "bytes \<Rightarrow> bytes list" where
  "split_dots [] = [[]]"
| "split_dots (b # bs) =
     (if b = 0x2e then [] # split_dots bs
      else case split_dots bs of l # ls \<Rightarrow> (b # l) # ls | [] \<Rightarrow> [[b]])"

text \<open>
  The loop over a label ranges over runes. A byte of 128 and above, alone or as part of a
  rune, is refused by the last condition, as the model refuses it.
\<close>

definition label_char :: "u8 \<Rightarrow> bool" where
  "label_char r \<longleftrightarrow> (0x30 \<le> r \<and> r \<le> 0x39) \<or> (0x61 \<le> r \<and> r \<le> 0x7a) \<or> (0x41 \<le> r \<and> r \<le> 0x5a) \<or> r = 0x2d"

definition valid_label :: "bytes \<Rightarrow> bool" where
  "valid_label l \<longleftrightarrow> length l \<noteq> 0 \<and> (\<forall>i \<in> set [0..<length l].
     \<not> (l ! i = 0x2d \<and> (i = 0 \<or> i = length l - 1)) \<and> label_char (l ! i))"

definition validDNSName :: "bytes \<Rightarrow> bool" where
  "validDNSName name \<longleftrightarrow> \<not> length name > 253 \<and> \<not> length (split_dots name) \<le> 1
     \<and> (\<forall>l \<in> set (split_dots name). valid_label l)"

fun pickECHConfig :: "echConfig list \<Rightarrow> echConfig option" where
  "pickECHConfig [] = None"
| "pickECHConfig (ec # list) =
     (if SupportedKEMs (ec_KemID ec) = None then pickECHConfig list
      else if \<not> (\<exists>cs \<in> set (ec_SymmetricCipherSuite ec). SupportedAEADs (AEADID cs) \<noteq> None \<and> SupportedKDFs (KDFID cs))
      then pickECHConfig list
      else if \<not> validDNSName (ec_PublicName ec) then pickECHConfig list
      else if \<exists>ext \<in> set (ec_Extensions ec). ext_Type ext AND 0x8000 \<noteq> 0 then pickECHConfig list
      else Some ec)"

fun pickECHCipherSuite :: "echCipher list \<Rightarrow> gerror + echCipher" where
  "pickECHCipherSuite [] = Inl (Errorf ''tls: no supported symmetric ciphersuites for ECH'')"
| "pickECHCipherSuite (s # suites) =
     (if SupportedAEADs (AEADID s) = None then pickECHCipherSuite suites
      else if \<not> SupportedKDFs (KDFID s) then pickECHCipherSuite suites
      else Inr s)"


section \<open>The client: encoding the inner hello\<close>

text \<open>
  \<open>31 - ((len(h) + paddingLen - 1) % 32)\<close> with Go's truncating remainder; \<open>h\<close> is never
  empty, so the dividend is not negative.
\<close>

definition inner_padding :: "clientHelloMsg \<Rightarrow> nat \<Rightarrow> bytes \<Rightarrow> nat" where
  "inner_padding inner maxNameLength h =
     (let paddingLen = (if ch_serverName inner \<noteq> [] then maxNameLength - length (ch_serverName inner)
                        else maxNameLength + 9)
      in 31 - ((length h + paddingLen - 1) mod 32))"

definition encodeInnerClientHelloReorderOuterExts ::
    "cryptobyte \<Rightarrow> clientHelloMsg \<Rightarrow> nat \<Rightarrow> u16 list option \<Rightarrow> gerror + bytes" where
  "encodeInnerClientHelloReorderOuterExts cb inner maxNameLength outerExts =
     (case marshalMsgReorderOuterExts cb inner True outerExts of
        Inl e \<Rightarrow> Inl e
      | Inr h \<Rightarrow> let h = drop 4 h in Inr (h @ replicate (inner_padding inner maxNameLength h) 0))"

definition encodeInnerClientHello :: "cryptobyte \<Rightarrow> clientHelloMsg \<Rightarrow> nat \<Rightarrow> gerror + bytes" where
  "encodeInnerClientHello cb inner maxNameLength =
     encodeInnerClientHelloReorderOuterExts cb inner maxNameLength None"

definition generateOuterECHExt :: "cryptobyte \<Rightarrow> u8 \<Rightarrow> u16 \<Rightarrow> u16 \<Rightarrow> bytes \<Rightarrow> bytes \<Rightarrow> gerror + bytes" where
  "generateOuterECHExt cb configID kdfID aeadID encodedKey payload = Bytes cb (stmts [
     AddUint8 cb 0,
     AddUint16 cb kdfID,
     AddUint16 cb aeadID,
     AddUint8 cb configID,
     AddUint16LengthPrefixed cb (AddBytes cb encodedKey),
     AddUint16LengthPrefixed cb (AddBytes cb payload)] new_builder)"

text \<open>
  The offsets that \<open>extractExtensionTypes\<close> and \<open>extractExtensionBytesFromHello\<close> compute:
  where the extensions start and end.
\<close>

definition hello_extensions_at :: "bytes \<Rightarrow> (nat \<times> nat) option" where
  "hello_extensions_at hello = do {
     require (\<not> length hello < 38);
     let offset = 34 + 1 + unat (hello ! 34);
     require (\<not> offset + 2 > length hello);
     let offset = offset + 2 + unat (u16_of (hello ! offset) (hello ! (offset + 1)));
     require (\<not> offset + 1 > length hello);
     let offset = offset + 1 + unat (hello ! offset);
     require (\<not> offset + 2 > length hello);
     let extLen = unat (u16_of (hello ! offset) (hello ! (offset + 1)));
     Some (offset + 2, offset + 2 + extLen) }"

function hello_extension_types :: "bytes \<Rightarrow> nat \<Rightarrow> nat \<Rightarrow> u16 list \<Rightarrow> u16 list" where
  "hello_extension_types hello endOffset offset exts =
     (if offset + 4 \<le> length hello \<and> offset < endOffset then
        let extType = u16_of (hello ! offset) (hello ! (offset + 1));
            extDataLen = unat (u16_of (hello ! (offset + 2)) (hello ! (offset + 3)))
        in hello_extension_types hello endOffset (offset + 4 + extDataLen) (exts @ [extType])
      else exts)"
  by pat_completeness auto

termination hello_extension_types
  by (relation "measure (\<lambda>(hello, _, offset, _). length hello - offset)") auto

definition extractExtensionTypes :: "bytes \<Rightarrow> u16 list" where
  "extractExtensionTypes hello =
     (case hello_extensions_at hello of None \<Rightarrow> []
      | Some (offset, endOffset) \<Rightarrow> hello_extension_types hello endOffset offset [])"

function hello_extension_bytes :: "bytes \<Rightarrow> nat \<Rightarrow> nat \<Rightarrow> (u16 \<Rightarrow> bytes option) \<Rightarrow> (u16 \<Rightarrow> bytes option)" where
  "hello_extension_bytes hello endOffset offset result =
     (if offset + 4 \<le> length hello \<and> offset < endOffset then
        let extType = u16_of (hello ! offset) (hello ! (offset + 1));
            extDataLen = unat (u16_of (hello ! (offset + 2)) (hello ! (offset + 3)));
            fullExtLen = 4 + extDataLen
        in hello_extension_bytes hello endOffset (offset + fullExtLen)
             (if offset + fullExtLen \<le> length hello
              then result(extType \<mapsto> take fullExtLen (drop offset hello)) else result)
      else result)"
  by pat_completeness auto

termination hello_extension_bytes
  by (relation "measure (\<lambda>(hello, _, offset, _). length hello - offset)") auto

definition extractExtensionBytesFromHello :: "bytes \<Rightarrow> u16 \<Rightarrow> bytes option" where
  "extractExtensionBytesFromHello hello =
     (case hello_extensions_at hello of None \<Rightarrow> Map.empty
      | Some (offset, endOffset) \<Rightarrow> hello_extension_bytes hello endOffset offset Map.empty)"

record echClientContext =
  ecc_config :: echConfig
  ecc_hpkeContext :: hpke_context
  ecc_encapsulatedKey :: bytes
  ecc_kdfID :: u16
  ecc_aeadID :: u16

text \<open>A nil slice is \<open>None\<close>: \<open>extractExtensionTypes\<close> of a hello without extensions returns nil.\<close>

definition nilable :: "'a list \<Rightarrow> 'a list option" where
  "nilable xs = (if xs = [] then None else Some xs)"

definition computeAndUpdateOuterECHExtension :: "cryptobyte \<Rightarrow> hpke_crypto \<Rightarrow> clientHelloMsg \<Rightarrow> clientHelloMsg \<Rightarrow>
    echClientContext \<Rightarrow> bool \<Rightarrow> gerror + (clientHelloMsg \<times> echClientContext)" where
  "computeAndUpdateOuterECHExtension cb hc outer inner ech useKey =
     (let encapKey = (if useKey then ecc_encapsulatedKey ech else []);
          configID = ec_ConfigID (ecc_config ech) in
      case clientHelloMsg_marshal cb outer of
        Inl e \<Rightarrow> Inl e
      | Inr tempOuter \<Rightarrow>
     (let outerExts = nilable (extractExtensionTypes (drop 4 tempOuter)) in
      case encodeInnerClientHelloReorderOuterExts cb inner (unat (ec_MaxNameLength (ecc_config ech))) outerExts of
        Inl e \<Rightarrow> Inl e
      | Inr encodedInner \<Rightarrow>
     (let encryptedLen = length encodedInner + 16 in
      case generateOuterECHExt cb configID (ecc_kdfID ech) (ecc_aeadID ech) encapKey (replicate encryptedLen 0) of
        Inl e \<Rightarrow> Inl e
      | Inr ext \<Rightarrow>
     (let outer = outer\<lparr>ch_encryptedClientHello := ext\<rparr> in
      case clientHelloMsg_marshal cb outer of
        Inl e \<Rightarrow> Inl e
      | Inr serializedOuter \<Rightarrow>
     (case Sender_Seal hc (ecc_hpkeContext ech) (drop 4 serializedOuter) encodedInner of
        Inl e \<Rightarrow> Inl e
      | Inr (encryptedInner, ctx) \<Rightarrow>
     (case generateOuterECHExt cb configID (ecc_kdfID ech) (ecc_aeadID ech) encapKey encryptedInner of
        Inl e \<Rightarrow> Inl e
      | Inr ext \<Rightarrow> Inr (outer\<lparr>ch_encryptedClientHello := ext\<rparr>, ech\<lparr>ecc_hpkeContext := ctx\<rparr>)))))))"


section \<open>The server: reconstructing the inner hello\<close>

definition skipUint8LengthPrefixed :: "cryptobyte \<Rightarrow> bytes \<Rightarrow> bytes option" where
  "skipUint8LengthPrefixed cb s = do { (skip, s) \<leftarrow> ReadUint8 cb s; Skip cb s (unat skip) }"

definition skipUint16LengthPrefixed :: "cryptobyte \<Rightarrow> bytes \<Rightarrow> bytes option" where
  "skipUint16LengthPrefixed cb s = do { (skip, s) \<leftarrow> ReadUint16 cb s; Skip cb s (unat skip) }"

definition extractRawExtensions :: "cryptobyte \<Rightarrow> clientHelloMsg \<Rightarrow> gerror + (u16 \<times> bytes) list" where
  "extractRawExtensions cb hello =
     (case do {
        s \<leftarrow> Skip cb (case ch_original hello of None \<Rightarrow> [] | Some d \<Rightarrow> d) (4 + 2 + 32);
        s \<leftarrow> skipUint8LengthPrefixed cb s;
        s \<leftarrow> skipUint16LengthPrefixed cb s;
        s \<leftarrow> skipUint8LengthPrefixed cb s;
        (extensions, s) \<leftarrow> ReadUint16LengthPrefixed cb s;
        Some extensions } of
        None \<Rightarrow> Inl (Errorf ''tls: malformed outer client hello'')
      | Some extensions \<Rightarrow>
          (case for_extensions cb (\<lambda>_ extension extData rawExtensions.
                 Some (rawExtensions @ [(extension, extData)])) extensions [] of
             None \<Rightarrow> Inl (Errorf ''tls: invalid inner client hello'')
           | Some rawExtensions \<Rightarrow> Inr rawExtensions))"

text \<open>
  \<open>for ; i <= len(rawOuterExts); i++\<close>: the first position from \<open>i\<close> on that has the type.
\<close>

function scan_outer :: "(u16 \<times> bytes) list \<Rightarrow> nat \<Rightarrow> u16 \<Rightarrow> nat option" where
  "scan_outer rawOuterExts i extType =
     (if i \<ge> length rawOuterExts then None
      else if fst (rawOuterExts ! i) = extType then Some i
      else scan_outer rawOuterExts (i + 1) extType)"
  by pat_completeness auto

termination scan_outer
  by (relation "measure (\<lambda>(raw, i, _). length raw - i)") auto

text \<open>
  The loop over the list of references. A failure sets the error of the builder and returns,
  which leaves no input for the loop; the flag tells the outer loop to return as well.
\<close>

definition expand_reference :: "cryptobyte \<Rightarrow> (u16 \<times> bytes) list \<Rightarrow> bytes \<Rightarrow> nat \<times> bool \<times> builder \<Rightarrow>
    ((nat \<times> bool \<times> builder) \<times> bytes) option" where
  "expand_reference cb rawOuterExts extData = (\<lambda>(i, ok, recon).
     (case ReadUint16 cb extData of
        None \<Rightarrow> Some ((i, False, SetError cb (Errorf ''tls: invalid inner client hello'') recon), [])
      | Some (extType, extData) \<Rightarrow>
          if extType = extensionEncryptedClientHello
          then Some ((i, False, SetError cb (Errorf ''tls: invalid outer extensions'') recon), [])
          else case scan_outer rawOuterExts i extType of
            None \<Rightarrow> Some ((i, False, SetError cb (Errorf ''tls: invalid outer extensions'') recon), [])
          | Some i \<Rightarrow> Some ((i, ok, stmts [
              AddUint16 cb (fst (rawOuterExts ! i)),
              AddUint16LengthPrefixed cb (AddBytes cb (snd (rawOuterExts ! i)))] recon), extData)))"

definition recon_extension :: "cryptobyte \<Rightarrow> (u16 \<times> bytes) list \<Rightarrow> bytes \<Rightarrow> builder \<Rightarrow> (builder \<times> bytes) option" where
  "recon_extension cb rawOuterExts extensions recon =
     (case do {
        (extension, extensions) \<leftarrow> ReadUint16 cb extensions;
        (extData, extensions) \<leftarrow> ReadUint16LengthPrefixed cb extensions;
        Some (extension, extData, extensions) } of
        None \<Rightarrow> Some (SetError cb (Errorf ''tls: invalid inner client hello'') recon, [])
      | Some (extension, extData, extensions) \<Rightarrow>
          if extension = extensionECHOuterExtensions then
            (case ReadUint8LengthPrefixed cb extData of
               None \<Rightarrow> Some (SetError cb (Errorf ''tls: invalid inner client hello'') recon, [])
             | Some (extData, _) \<Rightarrow> do {
                 (i, ok, recon) \<leftarrow> while_nonempty (expand_reference cb rawOuterExts) extData (0, True, recon);
                 Some (recon, if ok then extensions else []) })
          else Some (stmts [
            AddUint16 cb extension,
            AddUint16LengthPrefixed cb (AddBytes cb extData)] recon, extensions))"

definition recon_extensions :: "cryptobyte \<Rightarrow> (u16 \<times> bytes) list \<Rightarrow> bytes \<Rightarrow> builder \<Rightarrow> builder" where
  "recon_extensions cb rawOuterExts extensions recon =
     (case while_nonempty (recon_extension cb rawOuterExts) extensions recon of
        Some recon \<Rightarrow> recon | None \<Rightarrow> recon)"

text \<open>The first part of \<open>decodeInnerClientHelloWithRaw\<close>, up to \<open>reconBytes\<close>.\<close>

definition reconstructInnerHello :: "cryptobyte \<Rightarrow> clientHelloMsg \<Rightarrow> bytes \<Rightarrow> gerror + bytes" where
  "reconstructInnerHello cb outer encoded =
     (case do {
        (versionAndRandom, s) \<leftarrow> ReadBytes cb encoded (2 + 32);
        (sessionID, s) \<leftarrow> readUint8LengthPrefixed cb s;
        require (length sessionID = 0);
        (cipherSuites, s) \<leftarrow> readUint16LengthPrefixed cb s;
        (compressionMethods, s) \<leftarrow> readUint8LengthPrefixed cb s;
        (extensions, s) \<leftarrow> ReadUint16LengthPrefixed cb s;
        require (\<forall>p \<in> set s. p = 0);
        Some (versionAndRandom, cipherSuites, compressionMethods, extensions) } of
        None \<Rightarrow> Inl (Errorf ''tls: invalid inner client hello'')
      | Some (versionAndRandom, cipherSuites, compressionMethods, extensions) \<Rightarrow>
     (case extractRawExtensions cb outer of
        Inl err \<Rightarrow> Inl err
      | Inr rawOuterExts \<Rightarrow> Bytes cb (stmts [
          AddUint8 cb typeClientHello,
          AddUint24LengthPrefixed cb (stmts [
            AddBytes cb versionAndRandom,
            AddUint8LengthPrefixed cb (AddBytes cb (ch_sessionId outer)),
            AddUint16LengthPrefixed cb (AddBytes cb cipherSuites),
            AddUint8LengthPrefixed cb (AddBytes cb compressionMethods),
            AddUint16LengthPrefixed cb (recon_extensions cb rawOuterExts extensions)])] new_builder)))"

abbreviation (input) innerECHExt :: u8 where "innerECHExt \<equiv> 1"
abbreviation (input) outerECHExt :: u8 where "outerECHExt \<equiv> 0"

definition errMalformedECHExt :: gerror where
  "errMalformedECHExt = Errorf ''tls: malformed encrypted_client_hello extension''"

definition errInvalidECHExt :: gerror where
  "errInvalidECHExt = Errorf ''tls: client sent invalid encrypted_client_hello extension''"

definition decodeInnerClientHelloWithRaw :: "cryptobyte \<Rightarrow> clientHelloMsg \<Rightarrow> bytes \<Rightarrow> gerror + (clientHelloMsg \<times> bytes)" where
  "decodeInnerClientHelloWithRaw cb outer encoded =
     (case reconstructInnerHello cb outer encoded of
        Inl err \<Rightarrow> Inl err
      | Inr reconBytes \<Rightarrow>
     (case clientHelloMsg_unmarshal cb reconBytes of
        None \<Rightarrow> Inl (Errorf ''tls: invalid reconstructed inner client hello'')
      | Some inner \<Rightarrow>
          if ch_encryptedClientHello inner \<noteq> [innerECHExt] then Inl errInvalidECHExt
          else if length (ch_supportedVersions inner) \<noteq> 1
            \<or> (length (ch_supportedVersions inner) \<ge> 1 \<and> ch_supportedVersions inner ! 0 \<noteq> VersionTLS13)
          then Inl (Errorf ''tls: client sent encrypted_client_hello extension and offered incompatible versions'')
          else Inr (inner, reconBytes)))"

definition decodeInnerClientHello :: "cryptobyte \<Rightarrow> clientHelloMsg \<Rightarrow> bytes \<Rightarrow> gerror + clientHelloMsg" where
  "decodeInnerClientHello cb outer encoded =
     (case decodeInnerClientHelloWithRaw cb outer encoded of Inl e \<Rightarrow> Inl e | Inr (inner, _) \<Rightarrow> Inr inner)"


section \<open>The server: trial decryption\<close>

text \<open>
  \<open>bytes.Replace(s, old, new, 1)\<close>; an empty \<open>old\<close> is replaced at the front.
\<close>

fun replace_first :: "bytes \<Rightarrow> bytes \<Rightarrow> bytes \<Rightarrow> bytes" where
  "replace_first [] old new = (if old = [] then new else [])"
| "replace_first (x # xs) old new =
     (if take (length old) (x # xs) = old then new @ drop (length old) (x # xs)
      else x # replace_first xs old new)"

definition decryptECHPayload :: "hpke_crypto \<Rightarrow> hpke_context \<Rightarrow> bytes \<Rightarrow> bytes \<Rightarrow> gerror + (bytes \<times> hpke_context)" where
  "decryptECHPayload hc ctx hello payload =
     (let outerAAD = replace_first (drop 4 hello) payload (replicate (length payload) 0)
      in Receipient_Open hc ctx outerAAD payload)"

definition parseECHExt :: "cryptobyte \<Rightarrow> bytes \<Rightarrow> gerror + (u8 \<times> echCipher \<times> u8 \<times> bytes \<times> bytes)" where
  "parseECHExt cb ext =
     (case ReadUint8 cb ext of
        None \<Rightarrow> Inl errMalformedECHExt
      | Some (echType, s) \<Rightarrow>
          if echType = innerECHExt then
            if s \<noteq> [] then Inl errMalformedECHExt
            else Inr (echType, \<lparr>KDFID = 0, AEADID = 0\<rparr>, 0, [], [])
          else if echType \<noteq> outerECHExt then Inl errInvalidECHExt
          else case do {
            (kdf, s) \<leftarrow> ReadUint16 cb s;
            (aead, s) \<leftarrow> ReadUint16 cb s;
            (configID, s) \<leftarrow> ReadUint8 cb s;
            (encap, s) \<leftarrow> readUint16LengthPrefixed cb s;
            (payload, s) \<leftarrow> readUint16LengthPrefixed cb s;
            Some (kdf, aead, configID, encap, payload) } of
              None \<Rightarrow> Inl errMalformedECHExt
            | Some (kdf, aead, configID, encap, payload) \<Rightarrow>
                Inr (echType, \<lparr>KDFID = kdf, AEADID = aead\<rparr>, configID, encap, payload))"

definition marshalEncryptedClientHelloConfigList :: "cryptobyte \<Rightarrow> EncryptedClientHelloKey list \<Rightarrow> gerror + bytes" where
  "marshalEncryptedClientHelloConfigList cb configs =
     Bytes cb (AddUint16LengthPrefixed cb (stmts (map (\<lambda>c. AddBytes cb (Config c)) configs)) new_builder)"

record echServerContext =
  esc_hpkeContext :: "hpke_context option"
  esc_configID :: u8
  esc_ciphersuite :: echCipher
  esc_inner :: bool

text \<open>What the call does to the connection, and what it returns.\<close>

record ech_result =
  er_alert :: "u8 option"
  er_accepted :: bool
  er_result :: "gerror + (clientHelloMsg \<times> echServerContext option)"

fun tryECHKeys :: "cryptobyte \<Rightarrow> hpke_crypto \<Rightarrow> EncryptedClientHelloKey list \<Rightarrow> clientHelloMsg \<Rightarrow> echCipher \<Rightarrow> u8 \<Rightarrow>
    bytes \<Rightarrow> bytes \<Rightarrow> ech_result" where
  "tryECHKeys cb hc [] outer cs configID encap payload =
     \<lparr>er_alert = None, er_accepted = False, er_result = Inr (outer, None)\<rparr>"
| "tryECHKeys cb hc (echKey # keys) outer cs configID encap payload =
     (case parseECHConfig cb (Config echKey) of
        Inl err \<Rightarrow> \<lparr>er_alert = Some alertInternalError, er_accepted = False,
          er_result = Inl (Errorf ''tls: invalid EncryptedClientHelloKeys Config'')\<rparr>
      | Inr None \<Rightarrow> \<lparr>er_alert = Some alertInternalError, er_accepted = False,
          er_result = Inl (Errorf ''tls: invalid EncryptedClientHelloKeys Config'')\<rparr>
      | Inr (Some config) \<Rightarrow>
     (case ParseHPKEPrivateKey hc (ec_KemID config) (PrivateKey echKey) of
        Inl err \<Rightarrow> \<lparr>er_alert = Some alertInternalError, er_accepted = False,
          er_result = Inl (Errorf ''tls: invalid EncryptedClientHelloKeys PrivateKey'')\<rparr>
      | Inr echPriv \<Rightarrow>
     (let info = ascii ''tls ech'' @ [0] @ Config echKey in
      case SetupReceipient hc DHKEM_X25519_HKDF_SHA256 (KDFID cs) (AEADID cs) echPriv info encap of
        Inl err \<Rightarrow> tryECHKeys cb hc keys outer cs configID encap payload
      | Inr hpkeContext \<Rightarrow>
     (case decryptECHPayload hc hpkeContext (case ch_original outer of None \<Rightarrow> [] | Some d \<Rightarrow> d) payload of
        Inl err \<Rightarrow> tryECHKeys cb hc keys outer cs configID encap payload
      | Inr (encodedInner, hpkeContext) \<Rightarrow>
     (case decodeInnerClientHello cb outer encodedInner of
        Inl err \<Rightarrow> \<lparr>er_alert = Some alertIllegalParameter, er_accepted = False, er_result = Inl errInvalidECHExt\<rparr>
      | Inr echInner \<Rightarrow> \<lparr>er_alert = None, er_accepted = True, er_result = Inr (echInner,
          Some \<lparr>esc_hpkeContext = Some hpkeContext, esc_configID = configID, esc_ciphersuite = cs,
            esc_inner = False\<rparr>)\<rparr>)))))"

definition processECHClientHello :: "cryptobyte \<Rightarrow> hpke_crypto \<Rightarrow> EncryptedClientHelloKey list \<Rightarrow> clientHelloMsg \<Rightarrow> ech_result" where
  "processECHClientHello cb hc keys outer =
     (case parseECHExt cb (ch_encryptedClientHello outer) of
        Inl err \<Rightarrow> \<lparr>er_alert = Some (if err = errInvalidECHExt then alertIllegalParameter else alertDecodeError),
          er_accepted = False, er_result = Inl errInvalidECHExt\<rparr>
      | Inr (echType, echCiphersuite, configID, encap, payload) \<Rightarrow>
          if echType = innerECHExt then
            \<lparr>er_alert = None, er_accepted = False, er_result = Inr (outer,
               Some \<lparr>esc_hpkeContext = None, esc_configID = 0, esc_ciphersuite = \<lparr>KDFID = 0, AEADID = 0\<rparr>,
                 esc_inner = True\<rparr>)\<rparr>
          else if length keys = 0 then
            \<lparr>er_alert = None, er_accepted = False, er_result = Inr (outer, None)\<rparr>
          else tryECHKeys cb hc keys outer echCiphersuite configID encap payload)"

definition buildRetryConfigList :: "cryptobyte \<Rightarrow> EncryptedClientHelloKey list \<Rightarrow> gerror + bytes option" where
  "buildRetryConfigList cb keys =
     (if \<not> (\<exists>c \<in> set keys. SendAsRetry c) then Inr None
      else case Bytes cb (AddUint16LengthPrefixed cb
        (stmts (map (\<lambda>c. if_stmts (SendAsRetry c) [AddBytes cb (Config c)]) keys)) new_builder) of
          Inl e \<Rightarrow> Inl e | Inr bs \<Rightarrow> Inr (Some bs))"

section \<open>Choosing a configuration\<close>

lemma pickECHConfig_find: "pickECHConfig list = find (\<lambda>ec. SupportedKEMs (ec_KemID ec) \<noteq> None
     \<and> (\<exists>cs \<in> set (ec_SymmetricCipherSuite ec). SupportedAEADs (AEADID cs) \<noteq> None \<and> SupportedKDFs (KDFID cs))
     \<and> validDNSName (ec_PublicName ec) \<and> (\<forall>ext \<in> set (ec_Extensions ec). ext_Type ext AND 0x8000 = 0)) list"
  by (induction list) auto

lemma pickECHCipherSuite_find: "pickECHCipherSuite suites = (case find (\<lambda>s. SupportedAEADs (AEADID s) \<noteq> None \<and> SupportedKDFs (KDFID s)) suites
    of Some s \<Rightarrow> Inr s | None \<Rightarrow> Inl (Errorf ''tls: no supported symmetric ciphersuites for ECH''))"
  by (induction suites) auto

text \<open>
  C27. Choosing an ECH configuration: a configuration that \<open>pickECHConfig\<close> returns has a cipher
  suite that \<open>pickECHCipherSuite\<close> finds, and setting up HPKE with its KEM and that suite fails
  only if the AEAD itself refuses the key: no identifier of it is unsupported.
\<close>

theorem picked_config_usable:
  assumes "pickECHConfig list = Some ec"
  shows "\<exists>cs. pickECHCipherSuite (ec_SymmetricCipherSuite ec) = Inr cs \<and> cs \<in> set (ec_SymmetricCipherSuite ec)
    \<and> (\<exists>kem. newDHKem (ec_KemID ec) = Inr kem)
    \<and> (newContext c ss (ec_KemID ec) (KDFID cs) (AEADID cs) info = Inl err \<longrightarrow> (\<exists>key. aead_new c (AEADID cs) key = Some err))"
proof -
  from assms have k: "SupportedKEMs (ec_KemID ec) \<noteq> None"
    and cs: "\<exists>cs \<in> set (ec_SymmetricCipherSuite ec). SupportedAEADs (AEADID cs) \<noteq> None \<and> SupportedKDFs (KDFID cs)"
    unfolding pickECHConfig_find find_Some_iff by blast+
  then obtain cs where f: "find (\<lambda>s. SupportedAEADs (AEADID s) \<noteq> None \<and> SupportedKDFs (KDFID s)) (ec_SymmetricCipherSuite ec) = Some cs"
    by (cases "find (\<lambda>s. SupportedAEADs (AEADID s) \<noteq> None \<and> SupportedKDFs (KDFID s)) (ec_SymmetricCipherSuite ec)")
      (auto simp: find_None_iff)
  then have "cs \<in> set (ec_SymmetricCipherSuite ec)" "SupportedAEADs (AEADID cs) \<noteq> None" "SupportedKDFs (KDFID cs)"
    by (auto simp: find_Some_iff)
  then show ?thesis
    using f k by (intro exI [of _ cs])
      (auto simp: pickECHCipherSuite_find newDHKem_def newContext_def Let_def split: option.splits)
qed

definition two_suites :: echConfig where
  "two_suites = \<lparr>ec_raw = [], ec_Version = extensionEncryptedClientHello, ec_Length = 0, ec_ConfigID = 5,
     ec_KemID = DHKEM_X25519_HKDF_SHA256, ec_PublicKey = [3],
     ec_SymmetricCipherSuite = [\<lparr>KDFID = 9, AEADID = 1\<rparr>, \<lparr>KDFID = 1, AEADID = 3\<rparr>],
     ec_MaxNameLength = 8, ec_PublicName = [97, 46, 98], ec_Extensions = []\<rparr>"

theorem picked_config_usable_witness:
  "pickECHConfig [two_suites] = Some two_suites
    \<and> (\<exists>cs. pickECHCipherSuite (ec_SymmetricCipherSuite two_suites) = Inr cs \<and> KDFID cs = 1)"
proof -
  have p: "pickECHConfig [two_suites] = Some two_suites"
    by (simp add: two_suites_def SupportedKEMs_def SupportedAEADs_def SupportedKDFs_def validDNSName_def
        valid_label_def label_char_def)
  from picked_config_usable [OF p] obtain cs where
    cs: "pickECHCipherSuite (ec_SymmetricCipherSuite two_suites) = Inr cs"
    by blast
  then have "KDFID cs = 1"
    by (auto simp: two_suites_def SupportedAEADs_def SupportedKDFs_def)
  with p cs show ?thesis
    by blast
qed

end
