(* ===== verification/Ech_Reconstruction.thy ===== *)
theory Ech_Reconstruction
  imports Ech
begin

text \<open>
  The server reconstructs from the compressed inner hello, and the outer hello it came with,
  exactly the bytes over which the client computes its PSK binders.
\<close>

section \<open>The extensions of the outer hello\<close>

context cryptobyte_laws
begin

lemma skip_vecs:
  "length c < 256 \<Longrightarrow> skipUint8LengthPrefixed cb (vec8 c @ r) = Some r"
  "length c < 65536 \<Longrightarrow> skipUint16LengthPrefixed cb (vec16 c @ r) = Some r"
  by (simp_all add: skipUint8LengthPrefixed_def skipUint16LengthPrefixed_def vec8_def vec16_def codec_simps
      Skip take_prefix_def unat_of_nat8 unat_of_nat16)

lemma extractRawExtensions_hello:
  assumes "ch_original hello = Some (hello_bytes v r sid suites cm xs)" "length r = 32" "hello_fits sid suites cm xs"
    "xs \<noteq> []"
  shows "extractRawExtensions cb hello = Inr xs"
proof -
  note fits = assms(3) [unfolded hello_fits_def]
  have s: "Skip cb (ty # be24 n @ be16 v @ r @ s) 38 = Some s" for ty n s
    using assms(2) by (simp add: Skip take_prefix_def be24_def be16_def)
  have "run_items (\<lambda>l (i, d) acc. Some (acc @ [(i, d)])) xs acc = Some (acc @ xs)" for acc
    by (induction xs arbitrary: acc) auto
  then have f: "for_extensions cb (\<lambda>_ i d acc. Some (acc @ [(i, d)])) (concat (map ext_enc xs)) [] = Some xs"
    using fits by (simp add: for_extensions_items)
  show ?thesis
    using assms fits f unfolding extractRawExtensions_def
    by (simp add: hello_bytes_def vec24_def [of "be16 v @ _"] s skip_vecs codec_simps)
qed

end


section \<open>Expanding the references\<close>

declare scan_outer.simps [simp del]

lemma scan_outer_first:
  assumes "i \<le> j" "j < length raw" "fst (raw ! j) = t" "\<forall>k. i \<le> k \<and> k < j \<longrightarrow> fst (raw ! k) \<noteq> t"
  shows "scan_outer raw i t = Some j"
  using assms
proof (induction "j - i" arbitrary: i)
  case 0
  then show ?case
    by (simp add: scan_outer.simps [of raw i])
next
  case (Suc n)
  then have "scan_outer raw (i + 1) t = Some j"
    by (intro Suc.hyps(1)) auto
  then show ?case
    using Suc.prems Suc.hyps(2) by (simp add: scan_outer.simps [of raw i])
qed

lemma scan_outer_distinct:
  assumes "distinct (map fst (pre @ x # suf))" "i \<le> length pre"
  shows "scan_outer (pre @ x # suf) i (fst x) = Some (length pre)"
proof (rule scan_outer_first)
  show "\<forall>k. i \<le> k \<and> k < length pre \<longrightarrow> fst ((pre @ x # suf) ! k) \<noteq> fst x"
    using assms(1) by (auto simp: nth_append) (metis imageI nth_mem)
qed (use assms(2) in auto)

definition expand1 :: "(u16 \<times> bytes) list \<Rightarrow> u16 \<times> bytes \<Rightarrow> (u16 \<times> bytes) list" where
  "expand1 outer = (\<lambda>(i, d). if i = extensionECHOuterExtensions
     then filter (\<lambda>x. ech_compressible (fst x)) outer else [(i, d)])"

context cryptobyte_laws
begin

lemma add_extension:
  "length d < 65536 \<Longrightarrow> stmts [AddUint16 cb i, AddUint16LengthPrefixed cb (AddBytes cb d)] (Inr w)
    = Inr (w @ ext_enc (i, d))"
  by (simp add: stmts.simps AddUint16 AddUint16LengthPrefixed AddBytes append_result_def append_child_def
      ext_enc_def vec16_def)

lemma consuming_expand_reference: "consuming (expand_reference cb raw)"
  unfolding consuming_def expand_reference_def
  by (auto split: option.splits if_splits prod.splits dest: read_consumes(2))

lemma expand_references:
  assumes "distinct (map fst (pre @ suf))" "i \<le> length pre" "\<forall>(i, d) \<in> set suf. length d < 65536"
  shows "\<exists>i'. while_nonempty (expand_reference cb (pre @ suf))
      (concat (map be16 (filter ech_compressible (map fst suf)))) (i, True, Inr w)
    = Some (i', True, Inr (w @ concat (map ext_enc (filter (\<lambda>x. ech_compressible (fst x)) suf))))"
  using assms
proof (induction suf arbitrary: pre i w)
  case (Cons x suf)
  show ?case
  proof (cases "ech_compressible (fst x)")
    case True
    let ?refs = "concat (map be16 (filter ech_compressible (map fst suf)))"
    have "length (snd x) < 65536" "fst x \<noteq> extensionEncryptedClientHello"
      using Cons.prems(3) True not_compressible(2) by auto
    then have "expand_reference cb (pre @ x # suf) (be16 (fst x) @ ?refs) (i, True, Inr w)
        = Some ((length pre, True, Inr (w @ ext_enc x)), ?refs)"
      using scan_outer_distinct [OF Cons.prems(1,2)]
      by (simp add: expand_reference_def codec_simps add_extension)
    then have "while_nonempty (expand_reference cb (pre @ x # suf)) (be16 (fst x) @ ?refs) (i, True, Inr w)
        = while_nonempty (expand_reference cb (pre @ x # suf)) ?refs (length pre, True, Inr (w @ ext_enc x))"
      by (subst while_nonempty_unfold [OF consuming_expand_reference]) (auto simp: be16_def)
    then show ?thesis
      using Cons.IH [of "pre @ [x]" "length pre" "w @ ext_enc x"] Cons.prems True by simp
  next
    case False
    then show ?thesis
      using Cons.IH [of "pre @ [x]" i w] Cons.prems by simp
  qed
qed simp

lemma consuming_recon_extension: "consuming (recon_extension cb raw)"
  unfolding consuming_def
proof (intro allI impI)
  fix s st st' s'
  assume s: "s \<noteq> []" and r: "recon_extension cb raw s st = Some (st', s')"
  have "s' = [] \<or> (\<exists>i d r. ReadUint16 cb s = Some (i, r) \<and> ReadUint16LengthPrefixed cb r = Some (d, s'))"
    using r by (auto simp: recon_extension_def split: option.splits if_splits bind_splits prod.splits)
  then show "length s' < length s"
  proof
    assume "\<exists>i d r. ReadUint16 cb s = Some (i, r) \<and> ReadUint16LengthPrefixed cb r = Some (d, s')"
    then show ?thesis
      using read_consumes(2) read_consumes(5) less_trans by blast
  qed (use s in simp)
qed

lemma recon_wire:
  assumes "distinct (map fst outer)" "\<forall>(i, d) \<in> set outer. length d < 65536" "\<forall>(i, d) \<in> set xs. length d < 65536"
    and "\<forall>d. (extensionECHOuterExtensions, d) \<in> set xs \<longrightarrow>
      d = vec8 (concat (map be16 (filter ech_compressible (map fst outer))))"
    and "length (filter ech_compressible (map fst outer)) < 128"
  shows "while_nonempty (recon_extension cb outer) (concat (map ext_enc xs)) (Inr w)
    = Some (Inr (w @ concat (map ext_enc (concat (map (expand1 outer) xs)))))"
  using assms(3,4)
proof (induction xs arbitrary: w)
  case (Cons x xs)
  obtain i d where x: "x = (i, d)"
    by (cases x)
  have d: "length d < 65536"
    using Cons.prems(1) x by auto
  have e0: "ext_enc (i, d) = be16 i @ vec16 d"
    by (simp add: ext_enc_def)
  have step: "recon_extension cb outer (ext_enc (i, d) @ concat (map ext_enc xs)) (Inr w)
      = Some (Inr (w @ concat (map ext_enc (expand1 outer (i, d)))), concat (map ext_enc xs))"
  proof (cases "i = extensionECHOuterExtensions")
    case True
    then have e: "d = vec8 (concat (map be16 (filter ech_compressible (map fst outer))))"
      using Cons.prems(2) x by auto
    show ?thesis
      using True d assms(5) expand_references [of "[]" outer 0 w] assms(1,2)
      unfolding e0 by (auto simp: recon_extension_def codec_simps e expand1_def)
  next
    case False
    then show ?thesis
      using d by (simp add: recon_extension_def e0 codec_simps add_extension expand1_def)
  qed
  show ?case
    using Cons step by (subst while_nonempty_unfold [OF consuming_recon_extension])
      (auto simp: x e0)
qed simp

end

lemma expand_innerHello_wire:
  assumes "extensionSupportedVersions \<in> set (map fst outer) \<or> ch_supportedVersions m = []"
  shows "concat (map (expand1 outer) (innerHello_wire m (map fst outer))) = expandedHello_wire m outer"
proof -
  have f: "filter ech_compressible (map fst outer) = map fst (filter (\<lambda>x. ech_compressible (fst x)) outer)"
    by (simp add: filter_map comp_def)
  have "concat (map (expand1 outer) (echOuterExtensions_wire (filter ech_compressible (map fst outer))))
      = filter (\<lambda>x. ech_compressible (fst x)) outer"
    by (cases "filter (\<lambda>x. ech_compressible (fst x)) outer") (simp_all add: echOuterExtensions_wire_def f expand1_def)
  then show ?thesis
    using assms by (auto simp: innerHello_wire_def expandedHello_wire_def encryptedClientHello_wire_def
        serverName_wire_def preSharedKey_wire_def expand1_def)
qed

lemma innerHello_wire_reference:
  "(extensionECHOuterExtensions, d) \<in> set (innerHello_wire m outerExts) \<Longrightarrow>
    d = vec8 (concat (map be16 (filter ech_compressible outerExts)))"
  by (auto simp: innerHello_wire_def encryptedClientHello_wire_def serverName_wire_def preSharedKey_wire_def
      echOuterExtensions_wire_def versions_wire_def split: if_splits)

context cryptobyte_laws
begin

lemma recon_extensions_inner:
  assumes "distinct (map fst outer)" "\<forall>(i, d) \<in> set outer. length d < 65536"
    "hello_fits sid suites cm (innerHello_wire m (map fst outer))"
    "length (filter ech_compressible (map fst outer)) < 128"
    "extensionSupportedVersions \<in> set (map fst outer) \<or> ch_supportedVersions m = []"
  shows "out (recon_extensions cb outer (concat (map ext_enc (innerHello_wire m (map fst outer)))))
    = Some (concat (map ext_enc (expandedHello_wire m outer)))"
proof -
  have "while_nonempty (recon_extension cb outer) (concat (map ext_enc (innerHello_wire m (map fst outer)))) (Inr [])
      = Some (Inr ([] @ concat (map ext_enc (concat (map (expand1 outer) (innerHello_wire m (map fst outer)))))))"
    by (rule recon_wire [OF assms(1,2)])
      (use assms(3,4) innerHello_wire_reference in \<open>auto simp: hello_fits_def\<close>)
  then show ?thesis
    unfolding expand_innerHello_wire [OF assms(5)] by (simp add: recon_extensions_def out_def)
qed

lemma reconstruct_expanded:
  fixes inner outer :: clientHelloMsg
  assumes outer: "ch_original outer = Some (hello_bytes v r (ch_sessionId outer) suites cm ox)" "length r = 32"
      "hello_fits (ch_sessionId outer) suites cm ox" "ox \<noteq> []" "distinct (map fst ox)"
    and enc: "encodeInnerClientHelloReorderOuterExts cb inner maxName (Some (map fst ox)) = Inr encoded"
    and exp: "marshalExpandedECH cb inner (map fst ox) raw (ch_sessionId outer) = Inr bs"
      "\<forall>(i, d) \<in> set ox. raw i = Some (ext_enc (i, d))"
    and inner: "ch_vers inner = VersionTLS12" "ch_encryptedClientHello inner \<noteq> []"
      "extensionSupportedVersions \<in> set (map fst ox) \<or> ch_supportedVersions inner = []"
  shows "reconstructInnerHello cb outer encoded = Inr bs"
proof -
  let ?iw = "innerHello_wire inner (map fst ox)" and ?ew = "expandedHello_wire inner ox"
  have lens: "\<forall>(i, d) \<in> set ox. length d < 65536"
    using outer(3) by (simp add: hello_fits_def)
  obtain h n where h: "marshalMsgReorderOuterExts cb inner True (Some (map fst ox)) = Inr h"
    and encoded: "encoded = drop 4 h @ replicate n 0"
    using enc by (auto simp: encodeInnerClientHelloReorderOuterExts_def Let_def split: sum.splits)
  note mi = marshalInner_wire [OF h]
  note me = marshalExpandedECH_wire [OF exp lens]
  have ne: "?iw \<noteq> []" "?ew \<noteq> []"
    using inner(2) by (auto simp: innerHello_wire_def expandedHello_wire_def encryptedClientHello_wire_def)
  have drop: "drop 4 h = be16 VersionTLS12 @ ch_random inner @ vec8 [] @ vec16 (concat (map be16 (ch_cipherSuites inner)))
      @ vec8 (ch_compressionMethods inner) @ vec16 (concat (map ext_enc ?iw))"
    using mi ne inner(1) by (simp add: hello_bytes_def vec24_def be24_def)
  note fi = mi [unfolded hello_fits_def] and fe = me [unfolded hello_fits_def]
  have r34: "ReadBytes cb (be16 VersionTLS12 @ ch_random inner @ x) 34 = Some (be16 VersionTLS12 @ ch_random inner, x)" for x
    using read_bytes(1) [of "be16 VersionTLS12 @ ch_random inner" 34] mi by simp
  have o: "out (recon_extensions cb ox (concat (map ext_enc ?iw))) = Some (concat (map ext_enc ?ew))"
    using mi by (intro recon_extensions_inner [OF outer(5) lens _ _ inner(3)]) blast+
  have "length (concat (map ext_enc ?ew)) < 65536"
    using fe by blast
  moreover obtain p where "length p < 16777216" "bs = typeClientHello # vec24 p"
    using me by (auto simp: framed_def)
  ultimately show ?thesis
    using fi fe ne o unfolding reconstructInnerHello_def encoded drop
    by (simp add: r34 codec_simps read_helpers extractRawExtensions_hello [OF outer(1-4)] framed_message emitter_rules
        hello_bytes_def inner(1))
qed

end


section \<open>The lists that the client extracts from its outer hello\<close>

declare hello_extension_types.simps [simp del] hello_extension_bytes.simps [simp del]

lemma take_4_plus: "take (4 + n) (a # b # c # d # xs) = a # b # c # d # take n xs"
  by (simp add: numeral_eq_Suc)

lemma at_extension:
  fixes pre rest :: bytes and i :: u16
  assumes "length d < 65536"
  defines "h \<equiv> pre @ ext_enc (i, d) @ rest"
  shows "u16_of (h ! length pre) (h ! (length pre + 1)) = i"
    "unat (u16_of (h ! (length pre + 2)) (h ! (length pre + 3))) = length d"
    "take (4 + length d) (drop (length pre) h) = ext_enc (i, d)"
    "length h = length pre + 4 + length d + length rest"
  using unat_of_nat16 [OF assms(1)]
  by (simp_all add: h_def ext_enc_def vec16_def be16_def nth_append take_4_plus)

lemma at_extension_head:
  "u16_of ((pre @ be16 i @ rest) ! length pre) ((pre @ be16 i @ rest) ! (length pre + 1)) = i"
  by (simp add: be16_def nth_append)

lemma hello_extension_types_enc:
  assumes "\<forall>(i, d) \<in> set xs. length d < 65536"
  shows "hello_extension_types (pre @ concat (map ext_enc xs)) (length (pre @ concat (map ext_enc xs))) (length pre) acc
    = acc @ map fst xs"
  using assms
proof (induction xs arbitrary: pre acc)
  case (Cons x xs)
  obtain i d where x: "x = (i, d)" and d: "length d < 65536"
    using Cons.prems by (cases x) auto
  note a = at_extension [OF d, of pre i "concat (map ext_enc xs)"]
  have "length (pre @ ext_enc (i, d)) = length pre + 4 + length d"
    by (simp add: ext_enc_def)
  with Cons.IH [of "pre @ ext_enc (i, d)" "acc @ [i]"] Cons.prems a show ?case
    by (subst hello_extension_types.simps) (simp add: x Let_def add.assoc)
qed (simp add: hello_extension_types.simps)

lemma hello_extension_bytes_enc:
  assumes "\<forall>(i, d) \<in> set xs. length d < 65536"
  shows "hello_extension_bytes (pre @ concat (map ext_enc xs)) (length (pre @ concat (map ext_enc xs))) (length pre) m
    = m ++ map_of (rev (map (\<lambda>x. (fst x, ext_enc x)) xs))"
  using assms
proof (induction xs arbitrary: pre m)
  case (Cons x xs)
  obtain i d where x: "x = (i, d)" and d: "length d < 65536"
    using Cons.prems by (cases x) auto
  note a = at_extension [OF d, of pre i "concat (map ext_enc xs)"]
  have "length (pre @ ext_enc (i, d)) = length pre + (4 + length d)"
    by (simp add: ext_enc_def)
  moreover have "m ++ (\<lambda>a. if a = i then Some y else None) = (\<lambda>a. if a = i then Some y else m a)" for y
    by (rule ext) (simp add: map_add_def)
  ultimately show ?case
    using Cons.IH [of "pre @ ext_enc (i, d)" "m(i \<mapsto> ext_enc (i, d))"] Cons.prems a
    by (subst hello_extension_bytes.simps) (simp add: x Let_def add.assoc fun_upd_def)
qed (simp add: hello_extension_bytes.simps)

lemma nth_after: "length p = n \<Longrightarrow> (p @ x # r) ! n = x"
  by auto

lemma hello_extensions_at_hello:
  assumes "length r = 32" "hello_fits sid suites cm xs" "xs \<noteq> []"
  obtains pre where "drop 4 (hello_bytes v r sid suites cm xs) = pre @ concat (map ext_enc xs)"
    and "hello_extensions_at (pre @ concat (map ext_enc xs)) = Some (length pre, length (pre @ concat (map ext_enc xs)))"
proof
  let ?X = "concat (map ext_enc xs)" and ?S = "concat (map be16 suites)"
  let ?p1 = "be16 v @ r" and ?p2 = "be16 v @ r @ vec8 sid" and ?p3 = "be16 v @ r @ vec8 sid @ vec16 ?S"
  let ?p4 = "be16 v @ r @ vec8 sid @ vec16 ?S @ vec8 cm"
  let ?pre = "?p4 @ be16 (of_nat (length ?X))"
  let ?h = "?pre @ ?X"
  note fits = assms(2) [unfolded hello_fits_def]
  show "drop 4 (hello_bytes v r sid suites cm xs) = ?h"
    using assms(3) by (simp add: hello_bytes_def vec24_def be24_def vec16_def [of ?X])
  have n: "?h ! 34 = of_nat (length sid)"
    using nth_after [of ?p1 34 "of_nat (length sid)" "sid @ vec16 ?S @ vec8 cm @ be16 (of_nat (length ?X)) @ ?X"]
      assms(1) by (simp add: vec8_def)
  have u2: "u16_of (?h ! length ?p2) (?h ! (length ?p2 + 1)) = of_nat (length ?S)"
    using at_extension_head [of ?p2 "of_nat (length ?S)" "?S @ vec8 cm @ be16 (of_nat (length ?X)) @ ?X"]
    by (simp add: vec16_def)
  have n3: "?h ! length ?p3 = of_nat (length cm)"
    using nth_after [of ?p3 "length ?p3" "of_nat (length cm)" "cm @ be16 (of_nat (length ?X)) @ ?X"] by (simp add: vec8_def)
  have u4: "u16_of (?h ! length ?p4) (?h ! (length ?p4 + 1)) = of_nat (length ?X)"
    using at_extension_head [of ?p4 "of_nat (length ?X)" ?X] by simp
  have l: "length ?p2 = 35 + length sid" "length ?p3 = length ?p2 + 2 + length ?S" "length ?p4 = length ?p3 + 1 + length cm"
    using assms(1) by simp_all
  have un: "unat (of_nat (length sid) :: u8) = length sid" "unat (of_nat (length ?S) :: u16) = length ?S"
    "unat (of_nat (length cm) :: u8) = length cm" "unat (of_nat (length ?X) :: u16) = length ?X"
    by (rule unat_of_nat8 unat_of_nat16; use fits in simp)+
  have e: "34 + 1 + length sid = length ?p2" "length ?p2 + 2 + length ?S = length ?p3"
    "length ?p3 + 1 + length cm = length ?p4" "length ?p4 + 2 + length ?X = length ?h" "length ?p4 + 2 = length ?pre"
    using assms(1) by simp_all
  have b: "\<not> length ?h < 38" "\<not> length ?h < length ?p2 + 2" "\<not> length ?h < length ?p3 + 1" "\<not> length ?h < length ?p4 + 2"
    using assms(1) by simp_all
  show "hello_extensions_at ?h = Some (length ?pre, length ?h)"
    unfolding hello_extensions_at_def Let_def n un(1) e(1) u2 un(2) e(2) n3 un(3) e(3) u4 un(4) e(4)
    using b e(4,5) by (simp only: bind_require if_True not_less simp_thms)
qed

lemma extractExtensionTypes_hello:
  assumes "length r = 32" "hello_fits sid suites cm xs" "xs \<noteq> []"
  shows "extractExtensionTypes (drop 4 (hello_bytes v r sid suites cm xs)) = map fst xs"
proof -
  obtain pre where "drop 4 (hello_bytes v r sid suites cm xs) = pre @ concat (map ext_enc xs)"
    "hello_extensions_at (pre @ concat (map ext_enc xs)) = Some (length pre, length (pre @ concat (map ext_enc xs)))"
    using hello_extensions_at_hello [OF assms] .
  then show ?thesis
    using hello_extension_types_enc [of xs pre "[]"] assms(2) by (simp add: extractExtensionTypes_def hello_fits_def)
qed

lemma extractExtensionBytes_hello:
  assumes "length r = 32" "hello_fits sid suites cm xs" "xs \<noteq> []" "distinct (map fst xs)" "(i, d) \<in> set xs"
  shows "extractExtensionBytesFromHello (drop 4 (hello_bytes v r sid suites cm xs)) i = Some (ext_enc (i, d))"
proof -
  obtain pre where "drop 4 (hello_bytes v r sid suites cm xs) = pre @ concat (map ext_enc xs)"
    "hello_extensions_at (pre @ concat (map ext_enc xs)) = Some (length pre, length (pre @ concat (map ext_enc xs)))"
    using hello_extensions_at_hello [OF assms(1-3)] .
  then have "extractExtensionBytesFromHello (drop 4 (hello_bytes v r sid suites cm xs))
      = map_of (rev (map (\<lambda>x. (fst x, ext_enc x)) xs))"
    using hello_extension_bytes_enc [of xs pre Map.empty] assms(2)
    by (simp add: extractExtensionBytesFromHello_def hello_fits_def)
  moreover have "distinct (map fst (rev (map (\<lambda>x. (fst x, ext_enc x)) xs)))"
    using assms(4) by (simp add: comp_def flip: rev_map)
  moreover have "(i, ext_enc (i, d)) \<in> set (rev (map (\<lambda>x. (fst x, ext_enc x)) xs))"
    using assms(5) by force
  ultimately show ?thesis
    by simp
qed

end
