(* ===== verification/Ech_Handshake.thy ===== *)
theory Ech_Handshake
  imports Ech_Reconstruction
begin

text \<open>
  From end to end: the outer hello that the client computes makes the server, if it holds the
  key of the configuration, accept and continue with the client's inner hello.
\<close>

section \<open>The payload inside the outer hello\<close>

definition occurs_at :: "bytes \<Rightarrow> bytes \<Rightarrow> nat \<Rightarrow> bool" where
  "occurs_at s sub k \<longleftrightarrow> k + length sub \<le> length s \<and> take (length sub) (drop k s) = sub"

lemma occurs_at_nth: "occurs_at s p j \<Longrightarrow> i < length p \<Longrightarrow> s ! (j + i) = p ! i"
  unfolding occurs_at_def by (metis add_leD1 nth_drop nth_take)

lemma replace_first_at:
  assumes "length new = length old" "\<And>k. k < length pre \<Longrightarrow> \<not> occurs_at (pre @ old @ post) old k" "old \<noteq> []"
  shows "replace_first (pre @ old @ post) old new = pre @ new @ post"
  using assms(2)
proof (induction pre)
  case Nil
  obtain x xs where "old = x # xs"
    using assms(3) by (cases old) auto
  then show ?case
    using assms(1) by simp
next
  case (Cons a pre)
  have "\<not> occurs_at (a # pre @ old @ post) old 0"
    using Cons.prems [of 0] by simp
  moreover have "\<not> occurs_at (pre @ old @ post) old k" if "k < length pre" for k
    using Cons.prems [of "Suc k"] that by (simp add: occurs_at_def)
  ultimately show ?case
    using Cons.IH by (simp add: occurs_at_def)
qed

definition ech_ext :: "u8 \<Rightarrow> u16 \<Rightarrow> u16 \<Rightarrow> bytes \<Rightarrow> bytes \<Rightarrow> bytes" where
  "ech_ext configID kdf aead enc payload =
     0 # be16 kdf @ be16 aead @ configID # vec16 enc @ vec16 payload"

lemma clientHello_wire_ech:
  "clientHello_wire (m\<lparr>ch_encryptedClientHello := e\<rparr>)
    = clientHello_wire1 m @ (if length e > 0 then [(extensionEncryptedClientHello, e)] else []) @ clientHello_wire2 m"
  by (simp add: clientHello_wire_def clientHello_wire1_def clientHello_wire2_def serverName_wire_def
      encryptedClientHello_wire_def preSharedKey_wire_def binders_enc_def cong: if_cong)

lemma hello_bytes_payload:
  assumes "length p = length q"
    and "\<And>e. wire (e :: bytes) = A @ (if length e > 0 then [(extensionEncryptedClientHello, e)] else []) @ B"
  shows "\<exists>pre post. drop 4 (hello_bytes v r sid suites cm (wire (ech_ext c kdf aead enc p))) = pre @ p @ post
    \<and> drop 4 (hello_bytes v r sid suites cm (wire (ech_ext c kdf aead enc q))) = pre @ q @ post"
proof -
  let ?hd = "0 # be16 kdf @ be16 aead @ c # vec16 enc @ be16 (of_nat (length p))"
  have w: "wire (ech_ext c kdf aead enc x) = A @ [(extensionEncryptedClientHello, ?hd @ x)] @ B" if "length x = length p" for x
    using assms(2) that by (simp add: ech_ext_def vec16_def)
  let ?pre = "be16 v @ r @ vec8 sid @ vec16 (concat (map be16 suites)) @ vec8 cm
    @ be16 (of_nat (length (concat (map ext_enc (A @ [(extensionEncryptedClientHello, ?hd @ p)] @ B)))))
    @ concat (map ext_enc A) @ be16 extensionEncryptedClientHello @ be16 (of_nat (length (?hd @ p))) @ ?hd"
  have "drop 4 (hello_bytes v r sid suites cm (wire (ech_ext c kdf aead enc x))) = ?pre @ x @ concat (map ext_enc B)"
    if "length x = length p" for x
    unfolding hello_bytes_def w [OF that] using that by (simp add: vec24_def be24_def ext_enc_def vec16_def)
  then show ?thesis
    using assms(1) by metis
qed

context cryptobyte_laws
begin

lemma generateOuterECHExt_bytes:
  "generateOuterECHExt cb c kdf aead enc p = Inr e \<longleftrightarrow>
    length enc < 65536 \<and> length p < 65536 \<and> e = ech_ext c kdf aead enc p"
  by (auto simp: generateOuterECHExt_def Bytes_Inr emitter_rules codec_simps ech_ext_def split: bind_splits if_splits)

lemma parseECHExt_outer:
  "length enc < 65536 \<Longrightarrow> length p < 65536 \<Longrightarrow>
    parseECHExt cb (ech_ext c kdf aead enc p) = Inr (outerECHExt, \<lparr>KDFID = kdf, AEADID = aead\<rparr>, c, enc, p)"
  by (simp add: parseECHExt_def ech_ext_def codec_simps read_helpers)

lemma innerHello_exts_cong:
  "filter ech_compressible es = filter ech_compressible es' \<Longrightarrow> innerHello_exts cb m es = innerHello_exts cb m es'"
  by (simp add: innerHello_exts_def)

lemma computeAndUpdate_steps:
  assumes "computeAndUpdateOuterECHExtension cb hc outer inner ech True = Inr (outer', ech')"
  defines "ext \<equiv> ech_ext (ec_ConfigID (ecc_config ech)) (ecc_kdfID ech) (ecc_aeadID ech) (ecc_encapsulatedKey ech)"
  obtains temp encoded ser ct ctx where "clientHelloMsg_marshal cb outer = Inr temp"
    and "encodeInnerClientHelloReorderOuterExts cb inner (unat (ec_MaxNameLength (ecc_config ech)))
      (nilable (extractExtensionTypes (drop 4 temp))) = Inr encoded"
    and "clientHelloMsg_marshal cb (outer\<lparr>ch_encryptedClientHello := ext (replicate (length encoded + 16) 0)\<rparr>) = Inr ser"
    and "Sender_Seal hc (ecc_hpkeContext ech) (drop 4 ser) encoded = Inr (ct, ctx)"
    and "outer' = outer\<lparr>ch_encryptedClientHello := ext ct\<rparr>"
    and "length (ecc_encapsulatedKey ech) < 65536" and "length ct < 65536"
  using assms(1) unfolding ext_def
  by (auto simp: computeAndUpdateOuterECHExtension_def Let_def generateOuterECHExt_bytes split: sum.splits)

lemma marshal_ech_wire:
  assumes "clientHelloMsg_marshal cb (m\<lparr>ch_encryptedClientHello := e\<rparr>) = Inr bs" "ch_original m = None"
  shows "bs = hello_bytes (ch_vers m) (ch_random m) (ch_sessionId m) (ch_cipherSuites m) (ch_compressionMethods m)
        (clientHello_wire (m\<lparr>ch_encryptedClientHello := e\<rparr>))
    \<and> hello_fits (ch_sessionId m) (ch_cipherSuites m) (ch_compressionMethods m)
        (clientHello_wire (m\<lparr>ch_encryptedClientHello := e\<rparr>))
    \<and> length (ch_random m) = 32"
  using assms marshal_wire [of "m\<lparr>ch_encryptedClientHello := e\<rparr>" bs] by (simp add: clientHelloMsg_marshal_def)

lemma decrypt_payload:
  assumes "hpke_laws hc" and "ch_original m = None"
    and "clientHelloMsg_marshal cb (m\<lparr>ch_encryptedClientHello := ech_ext c kdf aead enc (replicate (length p + 16) 0)\<rparr>) = Inr ser"
    and "Sender_Seal hc ctx (drop 4 ser) p = Inr (ct, ctx')"
    and "clientHelloMsg_marshal cb (m\<lparr>ch_encryptedClientHello := ech_ext c kdf aead enc ct\<rparr>) = Inr bs"
    and "\<forall>j k. occurs_at (drop 4 bs) ct j \<longrightarrow> occurs_at (drop 4 bs) ct k \<longrightarrow> j = k"
  shows "decryptECHPayload hc ctx bs ct = Inr (p, ctx')"
proof -
  have l: "length ct = length p + 16"
    using assms(1,4) by (auto simp: hpke_laws_def Sender_Seal_def Let_def split: sum.splits)
  then have z: "length ct = length (replicate (length p + 16) (0 :: u8))"
    by simp
  obtain pre post where b: "drop 4 bs = pre @ ct @ post" and s: "drop 4 ser = pre @ replicate (length p + 16) 0 @ post"
    using hello_bytes_payload [OF z clientHello_wire_ech] marshal_ech_wire [OF assms(3,2)]
      marshal_ech_wire [OF assms(5,2)] by metis
  have "occurs_at (pre @ ct @ post) ct (length pre)"
    by (simp add: occurs_at_def)
  then have "\<not> occurs_at (pre @ ct @ post) ct k" if "k < length pre" for k
    using assms(6) that unfolding b by blast
  moreover have "ct \<noteq> []"
    using l by auto
  ultimately have "replace_first (drop 4 bs) ct (replicate (length ct) 0) = drop 4 ser"
    unfolding b s l by (intro replace_first_at) (simp_all add: l)
  then show ?thesis
    using open_seal [OF assms(1,4)] by (simp add: decryptECHPayload_def)
qed

lemma encode_cong:
  assumes "filter ech_compressible es = filter ech_compressible es'"
  shows "encodeInnerClientHelloReorderOuterExts cb m n (Some es) = encodeInnerClientHelloReorderOuterExts cb m n (Some es')"
  by (simp add: encodeInnerClientHelloReorderOuterExts_def marshalMsgReorderOuterExts_def innerHello_exts_cong [OF assms])

lemma versions_in_wire2:
  "ch_supportedVersions m \<noteq> [] \<Longrightarrow> extensionSupportedVersions \<in> set (map fst (clientHello_wire2 m))"
  by (auto simp: clientHello_wire2_def versions_wire_def)

lemma ech_server_accepts:
  fixes outer inner :: clientHelloMsg
  assumes laws: "hpke_laws hc"
    and outer: "clientHello_ok outer" "ch_supportedVersions outer \<noteq> []"
    and upd: "computeAndUpdateOuterECHExtension cb hc outer inner ech True = Inr (outer', ech')"
    and bs: "clientHelloMsg_marshal cb outer' = Inr bs"
    and sender: "SetupSender hc eph DHKEM_X25519_HKDF_SHA256 (ecc_kdfID ech) (ecc_aeadID ech) (PublicKey hc priv)
        (ascii ''tls ech'' @ [0] @ Config key) = Inr (ecc_encapsulatedKey ech, ecc_hpkeContext ech)"
    and key: "parseECHConfig cb (Config key) = Inr (Some config)" "ec_KemID config = DHKEM_X25519_HKDF_SHA256"
      "NewPrivateKey hc (PrivateKey key) = Inr priv"
    and uniq: "parseECHExt cb (ch_encryptedClientHello outer') = Inr (ty, cs, cid, enc, payload)"
      "\<forall>j k. occurs_at (drop 4 bs) payload j \<longrightarrow> occurs_at (drop 4 bs) payload k \<longrightarrow> j = k"
    and inner: "ch_vers inner = VersionTLS12" "ch_encryptedClientHello inner = [innerECHExt]"
    and expd: "marshalExpandedECH cb inner (extractExtensionTypes (drop 4 bs)) (extractExtensionBytesFromHello (drop 4 bs))
        (ch_sessionId outer) = Inr expanded"
    and acc: "clientHelloMsg_unmarshal cb expanded = Some im" "ch_encryptedClientHello im = [innerECHExt]"
      "ch_supportedVersions im = [VersionTLS13]"
  shows "\<exists>so ctx. clientHelloMsg_unmarshal cb bs = Some so \<and> processECHClientHello cb hc [key] so =
    \<lparr>er_alert = None, er_accepted = True, er_result = Inr (im, Some \<lparr>esc_hpkeContext = Some ctx,
       esc_configID = ec_ConfigID (ecc_config ech),
       esc_ciphersuite = \<lparr>KDFID = ecc_kdfID ech, AEADID = ecc_aeadID ech\<rparr>, esc_inner = False\<rparr>)\<rparr>"
proof -
  let ?ext = "ech_ext (ec_ConfigID (ecc_config ech)) (ecc_kdfID ech) (ecc_aeadID ech) (ecc_encapsulatedKey ech)"
  have orig: "ch_original outer = None"
    using outer(1) by (simp add: clientHello_ok_def)
  obtain temp encoded ser ct ctx where temp: "clientHelloMsg_marshal cb outer = Inr temp"
    and enc: "encodeInnerClientHelloReorderOuterExts cb inner (unat (ec_MaxNameLength (ecc_config ech)))
      (nilable (extractExtensionTypes (drop 4 temp))) = Inr encoded"
    and ser: "clientHelloMsg_marshal cb (outer\<lparr>ch_encryptedClientHello := ?ext (replicate (length encoded + 16) 0)\<rparr>) = Inr ser"
    and seal: "Sender_Seal hc (ecc_hpkeContext ech) (drop 4 ser) encoded = Inr (ct, ctx)"
    and o': "outer' = outer\<lparr>ch_encryptedClientHello := ?ext ct\<rparr>"
    and lens: "length (ecc_encapsulatedKey ech) < 65536" "length ct < 65536"
    using computeAndUpdate_steps [OF upd] by blast
  have pl: "payload = ct"
    using uniq(1) parseECHExt_outer [OF lens] by (simp add: o')
  note dec = decrypt_payload [OF laws orig ser seal bs [unfolded o'] uniq(2) [unfolded pl]]
  have ok': "clientHello_ok outer'"
    using outer(1) by (simp add: o' clientHello_ok_def)
  define so where "so = outer'\<lparr>ch_original := Some bs, ch_extensions := map fst (clientHello_wire outer')\<rparr>"
  have so: "clientHelloMsg_unmarshal cb bs = Some so"
    using clientHello_roundtrip [OF bs ok'] by (simp add: so_def)
  note w' = marshal_ech_wire [OF bs [unfolded o'] orig, folded o']
  note w = marshal_ech_wire [of "ch_encryptedClientHello outer" outer temp, simplified, OF temp orig]
  have wo': "clientHello_wire outer' = clientHello_wire1 outer @ [(extensionEncryptedClientHello, ?ext ct)] @ clientHello_wire2 outer"
    unfolding o' clientHello_wire_ech by (simp add: ech_ext_def)
  have wo: "clientHello_wire outer = clientHello_wire1 outer @ encryptedClientHello_wire outer @ clientHello_wire2 outer"
    by (rule clientHello_wire_def)
  have "clientHello_wire2 outer \<noteq> []"
    using versions_in_wire2 [OF outer(2)] by auto
  then have ne: "clientHello_wire outer \<noteq> []" "clientHello_wire outer' \<noteq> []"
    unfolding wo wo' by simp_all
  have sv: "extensionSupportedVersions \<in> set (map fst (clientHello_wire outer'))"
    unfolding wo' using versions_in_wire2 [OF outer(2)] by simp
  have types: "extractExtensionTypes (drop 4 temp) = map fst (clientHello_wire outer)"
    "extractExtensionTypes (drop 4 bs) = map fst (clientHello_wire outer')"
    using extractExtensionTypes_hello [OF _ _ ne(1)] w extractExtensionTypes_hello [OF _ _ ne(2)] w' by blast+
  have "filter ech_compressible (map fst (clientHello_wire outer)) = filter ech_compressible (map fst (clientHello_wire outer'))"
    unfolding wo wo' using not_compressible(2) by (simp add: encryptedClientHello_wire_def)
  from encode_cong [OF this] have enc': "encodeInnerClientHelloReorderOuterExts cb inner (unat (ec_MaxNameLength (ecc_config ech)))
      (Some (map fst (clientHello_wire outer'))) = Inr encoded"
    using enc ne(1) by (simp add: types nilable_def)
  have raw: "\<forall>(i, d) \<in> set (clientHello_wire outer'). extractExtensionBytesFromHello (drop 4 bs) i = Some (ext_enc (i, d))"
    using extractExtensionBytes_hello [OF _ _ ne(2) clientHello_wire_distinct] w' by blast
  have sid: "ch_sessionId so = ch_sessionId outer"
    by (simp add: so_def o')
  have so_orig: "ch_original so = Some (hello_bytes (ch_vers outer) (ch_random outer) (ch_sessionId so)
      (ch_cipherSuites outer) (ch_compressionMethods outer) (clientHello_wire outer'))"
    unfolding sid using conjunct1 [OF w'] by (simp add: so_def)
  have "reconstructInnerHello cb so encoded = Inr expanded"
  proof (rule reconstruct_expanded [OF so_orig _ _ ne(2) clientHello_wire_distinct enc' _ raw inner(1)])
    show "marshalExpandedECH cb inner (map fst (clientHello_wire outer')) (extractExtensionBytesFromHello (drop 4 bs))
        (ch_sessionId so) = Inr expanded"
      using expd unfolding types sid .
  qed (use w' sid inner(2) sv in auto)
  then have "decodeInnerClientHello cb so encoded = Inr im"
    using acc by (simp add: decodeInnerClientHello_def decodeInnerClientHelloWithRaw_def)
  moreover have "ch_encryptedClientHello so = ?ext ct" "ch_original so = Some bs"
    by (simp_all add: so_def o')
  moreover have "ParseHPKEPrivateKey hc (ec_KemID config) (PrivateKey key) = Inr priv"
    using key by (simp add: ParseHPKEPrivateKey_def SupportedKEMs_def)
  ultimately have "processECHClientHello cb hc [key] so = \<lparr>er_alert = None, er_accepted = True, er_result = Inr (im,
      Some \<lparr>esc_hpkeContext = Some ctx, esc_configID = ec_ConfigID (ecc_config ech),
       esc_ciphersuite = \<lparr>KDFID = ecc_kdfID ech, AEADID = ecc_aeadID ech\<rparr>, esc_inner = False\<rparr>)\<rparr>"
    using setup_agree [OF laws sender] dec key(1)
    by (simp add: processECHClientHello_def parseECHExt_outer [OF lens])
  with so show ?thesis
    by blast
qed

end

section \<open>The rebuilt hello and its length\<close>

context cryptobyte_laws
begin

lemma inner_length_name:
  assumes "marshalMsgReorderOuterExts cb inner True (Some ox) = Inr h"
    "marshalMsgReorderOuterExts cb (inner\<lparr>ch_serverName := n\<rparr>) True (Some ox) = Inr h'"
    "ch_serverName inner \<noteq> []" "n \<noteq> []"
  shows "length h + length n = length h' + length (ch_serverName inner)" "length h \<ge> 40" "length h' \<ge> 40"
proof -
  have w: "length (concat (map ext_enc (innerHello_wire inner ox))) + length n
     = length (concat (map ext_enc (innerHello_wire (inner\<lparr>ch_serverName := n\<rparr>) ox))) + length (ch_serverName inner)"
    "innerHello_wire inner ox \<noteq> []"  "innerHello_wire (inner\<lparr>ch_serverName := n\<rparr>) ox \<noteq> []"
    using assms(3,4) by (simp_all add: innerHello_wire_def serverName_wire_def encryptedClientHello_wire_def
      preSharedKey_wire_def ext_enc_def binders_enc_def vec16_def)
  show "length h + length n = length h' + length (ch_serverName inner)" "length h \<ge> 40" "length h' \<ge> 40"
    using marshalInner_wire [OF assms(1)] marshalInner_wire [OF assms(2)] w
    by (auto simp: hello_bytes_def vec24_def vec16_def vec8_def)
qed

lemma encode_inner_length_name:
  assumes "encodeInnerClientHelloReorderOuterExts cb inner maxLen (Some ox) = Inr e"
    "encodeInnerClientHelloReorderOuterExts cb (inner\<lparr>ch_serverName := n\<rparr>) maxLen (Some ox) = Inr e'"
    "ch_serverName inner \<noteq> []" "n \<noteq> []" "length (ch_serverName inner) \<le> maxLen" "length n \<le> maxLen"
  shows "length e + length n = length e' + length (ch_serverName inner)"
proof -
  obtain h h' where h: "marshalMsgReorderOuterExts cb inner True (Some ox) = Inr h"
      "marshalMsgReorderOuterExts cb (inner\<lparr>ch_serverName := n\<rparr>) True (Some ox) = Inr h'"
    and e: "e = drop 4 h @ replicate (inner_padding inner maxLen (drop 4 h)) 0"
      "e' = drop 4 h' @ replicate (inner_padding (inner\<lparr>ch_serverName := n\<rparr>) maxLen (drop 4 h')) 0"
    using assms(1,2) by (auto simp: encodeInnerClientHelloReorderOuterExts_def Let_def split: sum.splits)
  note l = inner_length_name [OF h assms(3,4)]
  then have "length (drop 4 h) + (maxLen - length (ch_serverName inner)) = length (drop 4 h') + (maxLen - length n)"
    using assms(5,6) by simp
  then have "inner_padding inner maxLen (drop 4 h) = inner_padding (inner\<lparr>ch_serverName := n\<rparr>) maxLen (drop 4 h')"
    using assms(3,4) by (simp add: inner_padding_def)
  then show ?thesis
    using l by (simp add: e)
qed

lemma rebuilt_hello:
  assumes "clientHelloMsg_marshal cb sent = Inr wire" "clientHello_ok sent" "ch_supportedVersions sent \<noteq> []"
    and enc: "encodeInnerClientHelloReorderOuterExts cb inner maxName (nilable (extractExtensionTypes (drop 4 wire))) = Inr encoded"
    and exp: "marshalExpandedECH cb inner (extractExtensionTypes (drop 4 wire)) (extractExtensionBytesFromHello (drop 4 wire))
        (ch_sessionId sent) = Inr bs"
    and inner: "ch_vers inner = VersionTLS12" "ch_encryptedClientHello inner \<noteq> []"
  shows "\<exists>outer. clientHelloMsg_unmarshal cb wire = Some outer \<and> reconstructInnerHello cb outer encoded = Inr bs"
proof -
  have orig: "ch_original sent = None"
    using assms(2) by (simp add: clientHello_ok_def)
  note w = marshal_wire [of sent wire, OF assms(1) [unfolded clientHelloMsg_marshal_def orig option.case]]
  have ne: "clientHello_wire sent \<noteq> []" "extensionSupportedVersions \<in> set (map fst (clientHello_wire sent))"
    using versions_in_wire2 [OF assms(3)] by (auto simp: clientHello_wire_def)
  have types: "extractExtensionTypes (drop 4 wire) = map fst (clientHello_wire sent)"
    using extractExtensionTypes_hello [OF _ _ ne(1)] w by blast
  define outer where "outer = sent\<lparr>ch_original := Some wire, ch_extensions := map fst (clientHello_wire sent)\<rparr>"
  have raw: "\<forall>(i, d) \<in> set (clientHello_wire sent). extractExtensionBytesFromHello (drop 4 wire) i = Some (ext_enc (i, d))"
    using extractExtensionBytes_hello [OF _ _ ne(1) clientHello_wire_distinct] w by blast
  have e: "encodeInnerClientHelloReorderOuterExts cb inner maxName (Some (map fst (clientHello_wire sent))) = Inr encoded"
    using enc ne(1) by (simp add: types nilable_def)
  have "ch_original outer = Some (hello_bytes (ch_vers sent) (ch_random sent) (ch_sessionId outer) (ch_cipherSuites sent)
      (ch_compressionMethods sent) (clientHello_wire sent))"
    "hello_fits (ch_sessionId outer) (ch_cipherSuites sent) (ch_compressionMethods sent) (clientHello_wire sent)"
    "length (ch_random sent) = 32"
    using w by (simp_all add: outer_def)
  from reconstruct_expanded [OF this(1,3,2) ne(1) clientHello_wire_distinct e _ raw inner, of bs]
  have "reconstructInnerHello cb outer encoded = Inr bs"
    using exp ne(2) by (simp add: types outer_def)
  then show ?thesis
    using clientHello_roundtrip [OF assms(1,2)] by (auto simp: outer_def)
qed

end


section \<open>Properties\<close>

text \<open>
  C1. Encrypted Client Hello from end to end: the client updates its outer hello by
  \<open>computeAndUpdateOuterECHExtension\<close> and sends it; the server parses it and runs
  \<open>processECHClientHello\<close> with the key whose public half the client used. If the expanded inner
  hello, over which the client computed its binders, is an acceptable inner hello, then the
  server accepts without an alert and continues with exactly that message. The payload must
  occur once in the hello, because the server blanks its first occurrence.
\<close>

theorem ech_end_to_end:
  fixes outer inner :: clientHelloMsg
  assumes "cryptobyte_laws cb" and "hpke_laws hc"
    and "clientHello_ok outer" and "ch_supportedVersions outer \<noteq> []"
    and "computeAndUpdateOuterECHExtension cb hc outer inner ech True = Inr (outer', ech')"
    and "clientHelloMsg_marshal cb outer' = Inr bs"
    and "SetupSender hc eph DHKEM_X25519_HKDF_SHA256 (ecc_kdfID ech) (ecc_aeadID ech) (PublicKey hc priv)
        (ascii ''tls ech'' @ [0] @ Config key) = Inr (ecc_encapsulatedKey ech, ecc_hpkeContext ech)"
    and "parseECHConfig cb (Config key) = Inr (Some config)" and "ec_KemID config = DHKEM_X25519_HKDF_SHA256"
    and "NewPrivateKey hc (PrivateKey key) = Inr priv"
    and "parseECHExt cb (ch_encryptedClientHello outer') = Inr (ty, cs, cid, enc, payload)"
    and "\<forall>j k. occurs_at (drop 4 bs) payload j \<longrightarrow> occurs_at (drop 4 bs) payload k \<longrightarrow> j = k"
    and "ch_vers inner = VersionTLS12" and "ch_encryptedClientHello inner = [innerECHExt]"
    and "marshalExpandedECH cb inner (extractExtensionTypes (drop 4 bs)) (extractExtensionBytesFromHello (drop 4 bs))
        (ch_sessionId outer) = Inr expanded"
    and "clientHelloMsg_unmarshal cb expanded = Some im" and "ch_encryptedClientHello im = [innerECHExt]"
    and "ch_supportedVersions im = [VersionTLS13]"
  shows "\<exists>so ctx. clientHelloMsg_unmarshal cb bs = Some so \<and> processECHClientHello cb hc [key] so =
    \<lparr>er_alert = None, er_accepted = True, er_result = Inr (im, Some \<lparr>esc_hpkeContext = Some ctx,
       esc_configID = ec_ConfigID (ecc_config ech),
       esc_ciphersuite = \<lparr>KDFID = ecc_kdfID ech, AEADID = ecc_aeadID ech\<rparr>, esc_inner = False\<rparr>)\<rparr>"
  using cryptobyte_laws.ech_server_accepts [OF assms] .

text \<open>
  C2. Rebuilding the inner hello: what \<open>decodeInnerClientHello\<close> puts together from the outer
  hello it received and the compressed inner hello is, byte for byte, what the client's
  \<open>marshalExpandedECH\<close> computes from the outer hello it sent.
\<close>

theorem server_rebuilds_what_client_expands:
  assumes "cryptobyte_laws cb" and "clientHelloMsg_marshal cb sent = Inr wire" and "clientHello_ok sent"
    and "ch_supportedVersions sent \<noteq> []"
    and "encodeInnerClientHelloReorderOuterExts cb inner maxName (nilable (extractExtensionTypes (drop 4 wire)))
        = Inr encoded"
    and "marshalExpandedECH cb inner (extractExtensionTypes (drop 4 wire)) (extractExtensionBytesFromHello (drop 4 wire))
        (ch_sessionId sent) = Inr bs"
    and "ch_vers inner = VersionTLS12" and "ch_encryptedClientHello inner \<noteq> []"
  shows "\<exists>outer. clientHelloMsg_unmarshal cb wire = Some outer \<and> reconstructInnerHello cb outer encoded = Inr bs"
  using cryptobyte_laws.rebuilt_hello [OF assms] .

text \<open>
  C28. The padding of the inner hello does not hide the length of the server name: for two names
  that both fit the maximum of the configuration, the encoded inner hellos differ in length by
  as much as the names do.
\<close>

theorem inner_hello_length_reveals_name_length:
  assumes "cryptobyte_laws cb"
    and "encodeInnerClientHelloReorderOuterExts cb inner maxLen (Some ox) = Inr e"
    and "encodeInnerClientHelloReorderOuterExts cb (inner\<lparr>ch_serverName := n\<rparr>) maxLen (Some ox) = Inr e'"
    and "ch_serverName inner \<noteq> []" and "n \<noteq> []" and "length (ch_serverName inner) \<le> maxLen" and "length n \<le> maxLen"
  shows "length e + length n = length e' + length (ch_serverName inner)"
  using cryptobyte_laws.encode_inner_length_name [OF assms] .

end
