(* ===== verification/Ech_Config.thy ===== *)
theory Ech_Config
  imports Ech
begin

text \<open>
  Lists of ECH configurations: what the parser returns on an encoded list, when its loop
  ends, and the selection of a configuration and of a cipher suite.
\<close>

section \<open>Encoded configurations\<close>

definition echCipher_enc :: "echCipher \<Rightarrow> bytes" where
  "echCipher_enc c = be16 (KDFID c) @ be16 (AEADID c)"

definition echExtension_enc :: "echExtension \<Rightarrow> bytes" where
  "echExtension_enc e = be16 (ext_Type e) @ vec16 (ext_Data e)"

definition echConfig_contents :: "echConfig \<Rightarrow> bytes" where
  "echConfig_contents ec = ec_ConfigID ec # be16 (ec_KemID ec) @ vec16 (ec_PublicKey ec)
     @ vec16 (concat (map echCipher_enc (ec_SymmetricCipherSuite ec)))
     @ ec_MaxNameLength ec # vec8 (ec_PublicName ec)
     @ vec16 (concat (map echExtension_enc (ec_Extensions ec)))"

definition echConfig_enc :: "echConfig \<Rightarrow> bytes" where
  "echConfig_enc ec = be16 extensionEncryptedClientHello @ vec16 (echConfig_contents ec)"

text \<open>A parsed configuration: its version, length and raw bytes are those of its encoding.\<close>

definition echConfig_ok :: "echConfig \<Rightarrow> bool" where
  "echConfig_ok ec \<longleftrightarrow> length (ec_PublicKey ec) < 65536
     \<and> length (concat (map echCipher_enc (ec_SymmetricCipherSuite ec))) < 65536
     \<and> length (ec_PublicName ec) < 256
     \<and> (\<forall>e \<in> set (ec_Extensions ec). length (ext_Data e) < 65536)
     \<and> length (concat (map echExtension_enc (ec_Extensions ec))) < 65536
     \<and> length (echConfig_contents ec) < 65532
     \<and> ec_Version ec = extensionEncryptedClientHello
     \<and> ec_Length ec = of_nat (length (echConfig_contents ec))
     \<and> ec_raw ec = echConfig_enc ec"

lemma length_echConfig_enc [simp]: "length (echConfig_enc ec) = length (echConfig_contents ec) + 4"
  by (simp add: echConfig_enc_def)

context cryptobyte_laws
begin

lemma read_echCiphers_enc: "read_echCiphers cb (concat (map echCipher_enc cs)) acc = Some (acc @ cs)"
proof -
  have "item_loop echCipher_enc (\<lambda>s acc. do { (kdf, s) \<leftarrow> ReadUint16 cb s; (aead, s) \<leftarrow> ReadUint16 cb s;
      Some (acc @ [\<lparr>KDFID = kdf, AEADID = aead\<rparr>], s) }) (\<lambda>_ v acc. Some (acc @ [v])) (\<lambda>_. True)"
    by unfold_locales (auto simp: codec_simps echCipher_enc_def)
  from item_loop.while_nonempty_items [OF this, of cs acc] show ?thesis
    unfolding read_echCiphers_def by (simp add: run_items_fold fold_snoc)
qed

lemma read_echExtensions_enc:
  assumes "\<forall>e \<in> set es. length (ext_Data e) < 65536"
  shows "read_echExtensions cb (concat (map echExtension_enc es)) acc = Some (acc @ es)"
proof -
  have "item_loop echExtension_enc (\<lambda>s acc. do { (t, s) \<leftarrow> ReadUint16 cb s; (d, s) \<leftarrow> ReadUint16LengthPrefixed cb s;
      Some (acc @ [\<lparr>ext_Type = t, ext_Data = d\<rparr>], s) }) (\<lambda>_ v acc. Some (acc @ [v])) (\<lambda>e. length (ext_Data e) < 65536)"
    by unfold_locales (auto simp: codec_simps echExtension_enc_def)
  from item_loop.while_nonempty_items [OF this assms, of acc] show ?thesis
    unfolding read_echExtensions_def by (simp add: run_items_fold fold_snoc)
qed

lemma parseECHConfig_enc:
  assumes "echConfig_ok ec"
  shows "parseECHConfig cb (echConfig_enc ec @ rest) = Inr (Some ec)"
proof -
  note ok = assms [unfolded echConfig_ok_def]
  let ?n = "length (echConfig_contents ec)"
  have n: "unat (of_nat ?n :: u16) = ?n" "unat (of_nat ?n + 4 :: u16) = ?n + 4"
    using ok unat_of_nat16 [of ?n] unat_of_nat16 [of "?n + 4"] by simp_all
  have "parseECHConfig_body cb (echConfig_enc ec) extensionEncryptedClientHello (of_nat ?n) (echConfig_contents ec @ rest) = Some ec"
    using ok by (cases ec) (simp add: parseECHConfig_body_def echConfig_contents_def codec_simps read_helpers
        read_echCiphers_enc read_echExtensions_enc)
  moreover have "take (?n + 4) (echConfig_enc ec @ rest) = echConfig_enc ec"
    by simp
  moreover have "ReadUint16 cb (echConfig_enc ec @ rest) = Some (extensionEncryptedClientHello, vec16 (echConfig_contents ec) @ rest)"
    "ReadUint16 cb (vec16 (echConfig_contents ec) @ rest) = Some (of_nat ?n, echConfig_contents ec @ rest)"
    by (simp_all add: echConfig_enc_def vec16_def codec_simps)
  ultimately show ?thesis
    by (simp add: parseECHConfig_def Let_def n del: length_append) simp
qed

lemma parseECHConfigs_enc:
  assumes "\<forall>ec \<in> set ecs. echConfig_ok ec"
  shows "parseECHConfigs cb (concat (map echConfig_enc ecs)) acc = Some (Inr (acc @ ecs))"
  using assms
proof (induction ecs arbitrary: acc)
  case (Cons ec ecs)
  let ?rest = "concat (map echConfig_enc ecs)" and ?n = "length (echConfig_contents ec)"
  let ?s = "echConfig_enc ec @ ?rest"
  have ok: "echConfig_ok ec"
    using Cons.prems by simp
  have "?n + 4 < 65536"
    using ok by (simp add: echConfig_ok_def)
  then have "unat (of_nat ?n + 4 :: u16) = ?n + 4"
    using unat_of_nat16 [of "?n + 4"] by simp
  moreover have "u16_of (?s ! 2) (?s ! 3) = of_nat ?n"
    by (simp add: echConfig_enc_def vec16_def be16_def)
  ultimately have "drop (unat (u16_of (?s ! 2) (?s ! 3) + 4)) ?s = ?rest"
    by simp
  then show ?case
    using Cons parseECHConfig_enc [OF ok, of ?rest]
    by (subst parseECHConfigs.simps) (simp add: Let_def)
qed (simp add: parseECHConfigs.simps)

lemma parseECHConfigList_enc:
  assumes "\<forall>ec \<in> set ecs. echConfig_ok ec" "length (concat (map echConfig_enc ecs)) < 65536"
  shows "parseECHConfigList cb (vec16 (concat (map echConfig_enc ecs))) = Some (Inr ecs)"
  using parseECHConfigs_enc [OF assms(1), of "[]"]
  by (simp add: parseECHConfigList_def vec16_def codec_simps)


section \<open>When the loop ends\<close>

lemma parseECHConfig_bound:
  assumes "parseECHConfig cb s = Inr ec" "4 \<le> length s"
  shows "unat (u16_of (s ! 2) (s ! 3)) + 4 \<le> length s"
proof -
  obtain a b c d r where "s = a # b # c # d # r"
    using assms(2) by (cases s; cases "tl s"; cases "tl (tl s)"; cases "tl (tl (tl s))") auto
  then show ?thesis
    using assms(1) by (auto simp: parseECHConfig_def ReadUint16 Let_def split: if_splits)
qed

lemma parseECHConfigs_returns:
  "length s < 65536 \<Longrightarrow> \<exists>r. parseECHConfigs cb s acc = Some r"
proof (induction "length s" arbitrary: s acc rule: less_induct)
  case less
  show ?case
  proof (cases "length s < 4")
    case True
    then show ?thesis
      by (subst parseECHConfigs.simps) auto
  next
    case False
    show ?thesis
    proof (cases "parseECHConfig cb s")
      case (Inl e)
      then show ?thesis
        using False by (subst parseECHConfigs.simps) (auto simp: Let_def)
    next
      case (Inr ec)
      let ?l = "u16_of (s ! 2) (s ! 3)"
      have "unat ?l + 4 \<le> length s"
        using parseECHConfig_bound [OF Inr] False by simp
      then have "unat (?l + 4) = unat ?l + 4"
        using less.prems by (simp add: unat_word_ariths)
      then have "length (drop (unat (?l + 4)) s) < length s"
        using False by simp
      then show ?thesis
        using less False Inr by (subst parseECHConfigs.simps) (auto simp: Let_def)
    qed
  qed
qed

lemma parseECHConfigList_returns:
  assumes "length d \<le> 65537"
  shows "\<exists>r. parseECHConfigList cb d = Some r"
proof (cases "ReadUint16 cb d")
  case (Some x)
  obtain len s where "x = (len, s)"
    by (cases x)
  then show ?thesis
    using Some assms parseECHConfigs_returns [of s "[]"] by (auto simp: parseECHConfigList_def ReadUint16 split: list.splits)
qed (simp add: parseECHConfigList_def)

end

text \<open>
  A list of 65538 bytes whose length field is 0, with one configuration of another version
  that claims 65532 bytes: the sum \<open>configLen+4\<close> is 0 and the loop makes no progress.
\<close>

definition stuck_config :: bytes where
  "stuck_config = [0, 0, 0xff, 0xfc] @ replicate 65532 0"

context cryptobyte_laws
begin

lemma parseECHConfig_stuck: "parseECHConfig cb stuck_config = Inr None"
  by (simp add: parseECHConfig_def ReadUint16 stuck_config_def u16_of_def Let_def)

text \<open>Rule induction on the runs that return: none of them starts there.\<close>

lemma parseECHConfigs_stuck: "parseECHConfigs cb stuck_config acc = None"
proof -
  have "c = cb \<longrightarrow> s \<noteq> stuck_config" if "parseECHConfigs c s acc = Some r" for c s acc r
  proof (rule parseECHConfigs.raw_induct [of "\<lambda>c s acc r. c = cb \<longrightarrow> s \<noteq> stuck_config", OF _ that])
    fix f c s configs r
    assume IH: "\<And>c s configs r. f c s configs = Some r \<Longrightarrow> c = cb \<longrightarrow> s \<noteq> stuck_config"
      and body: "(if length s > 0 then
          if length s < 4 then Some (Inl (Errorf ''tls: malformed ECHConfig''))
          else let configLen = u16_of (s ! 2) (s ! 3) in
          (case parseECHConfig c s of Inl err \<Rightarrow> Some (Inl err)
           | Inr ec \<Rightarrow> f c (drop (unat (configLen + 4)) s) (case ec of None \<Rightarrow> configs | Some c \<Rightarrow> configs @ [c]))
        else Some (Inr configs)) = Some r"
    have d: "drop (unat (u16_of (stuck_config ! 2) (stuck_config ! 3) + 4)) stuck_config = stuck_config"
      by (simp add: stuck_config_def u16_of_def)
    have l: "length stuck_config = 65536"
      by (simp add: stuck_config_def)
    show "c = cb \<longrightarrow> s \<noteq> stuck_config"
    proof (intro impI notI)
      assume "c = cb" "s = stuck_config"
      then have "f cb stuck_config configs = Some r"
        using body by (simp add: Let_def l d parseECHConfig_stuck)
      then show False
        using IH by blast
    qed
  qed
  then show ?thesis
    by (metis not_Some_eq)
qed

end


section \<open>Properties\<close>

text \<open>
  C24. Configuration lists: \<open>parseECHConfigList\<close> returns, from the encoding of a list of
  configurations, exactly these configurations in their order, each with its raw bytes.
\<close>

theorem parseECHConfigList_parses_encoding:
  assumes "cryptobyte_laws cb" and "\<forall>ec \<in> set ecs. echConfig_ok ec" and "length (concat (map echConfig_enc ecs)) < 65536"
  shows "parseECHConfigList cb (vec16 (concat (map echConfig_enc ecs))) = Some (Inr ecs)"
  using cryptobyte_laws.parseECHConfigList_enc [OF assms] .

definition small_config :: "u8 \<Rightarrow> echConfig" where
  "small_config i = (let ec = \<lparr>ec_raw = [], ec_Version = extensionEncryptedClientHello, ec_Length = 18, ec_ConfigID = i,
     ec_KemID = DHKEM_X25519_HKDF_SHA256, ec_PublicKey = [3], ec_SymmetricCipherSuite = [\<lparr>KDFID = 1, AEADID = 1\<rparr>],
     ec_MaxNameLength = 8, ec_PublicName = [97, 98], ec_Extensions = []\<rparr> in ec\<lparr>ec_raw := echConfig_enc ec\<rparr>)"

lemma small_config_ok: "echConfig_ok (small_config i)" "length (echConfig_contents (small_config i)) = 18"
  by (simp_all add: echConfig_ok_def small_config_def Let_def echConfig_enc_def echConfig_contents_def echCipher_enc_def
      vec16_def vec8_def)

theorem parseECHConfigList_parses_encoding_witness:
  "parseECHConfigList cb_ref (vec16 (concat (map echConfig_enc [small_config 1, small_config 2])))
    = Some (Inr [small_config 1, small_config 2])"
  by (rule parseECHConfigList_parses_encoding [OF ref.cryptobyte_laws_axioms])
    (simp_all add: small_config_ok)

text \<open>
  C25. Configuration lists: \<open>parseECHConfigList\<close> returns, with a list or an error, on every input
  of at most 65537 bytes, that is, on every input whose length the list's length prefix can state.
\<close>

theorem parseECHConfigList_terminates:
  assumes "cryptobyte_laws cb" and "length d \<le> 65537"
  shows "\<exists>r. parseECHConfigList cb d = Some r"
  using cryptobyte_laws.parseECHConfigList_returns [OF assms] .

theorem parseECHConfigList_terminates_witness: "\<exists>r. parseECHConfigList cb_ref [0, 4, 0, 1, 0, 9] = Some r"
  by (rule parseECHConfigList_terminates [OF ref.cryptobyte_laws_axioms]) simp

text \<open>
  C26. One byte beyond that the loop can run forever: the length check compares modulo \<open>2^16\<close>, and
  the step \<open>configLen + 4\<close> wraps around to 0, so that \<open>parseECHConfigList\<close> does not return on an
  input of 65538 bytes.
\<close>

theorem parseECHConfigList_can_loop:
  assumes "cryptobyte_laws cb"
  shows "length (0 # 0 # stuck_config) = 65538 \<and> parseECHConfigList cb (0 # 0 # stuck_config) = None"
  using cryptobyte_laws.parseECHConfigs_stuck [OF assms]
  by (simp add: parseECHConfigList_def cryptobyte_laws.ReadUint16 [OF assms] stuck_config_def u16_of_def)

theorem parseECHConfigList_can_loop_witness: "parseECHConfigList cb_ref (0 # 0 # stuck_config) = None"
  using parseECHConfigList_can_loop [OF ref.cryptobyte_laws_axioms] by blast

end
