(* ===== verification/Ech_Example.thy ===== *)
theory Ech_Example
  imports Ech_Handshake Ech_Config
begin

text \<open>
  A handshake with Encrypted Client Hello computed in full: a client with the inner name
  \<open>sec.ex\<close> behind the public name \<open>pub.ex\<close>. Its data are the witnesses of the properties of the
  theory about Encrypted Client Hello.
\<close>

section \<open>The hellos and the configuration\<close>

definition ex_outer :: clientHelloMsg where
  "ex_outer = (clientHelloMsg_zero [])\<lparr>ch_original := None, ch_vers := VersionTLS12, ch_random := replicate 32 7,
    ch_sessionId := [1, 2], ch_cipherSuites := [0x1301], ch_compressionMethods := [0],
    ch_serverName := ascii ''pub.ex'', ch_supportedVersions := [VersionTLS13]\<rparr>"

definition ex_inner :: clientHelloMsg where
  "ex_inner = ex_outer\<lparr>ch_random := replicate 32 9, ch_sessionId := [],
    ch_serverName := ascii ''sec.ex'', ch_encryptedClientHello := [innerECHExt]\<rparr>"

definition ex_config :: echConfig where
  "ex_config = \<lparr>ec_raw = [], ec_Version = extensionEncryptedClientHello, ec_Length = 0, ec_ConfigID = 5,
     ec_KemID = DHKEM_X25519_HKDF_SHA256, ec_PublicKey = [3], ec_SymmetricCipherSuite = [\<lparr>KDFID = 1, AEADID = 1\<rparr>],
     ec_MaxNameLength = 8, ec_PublicName = ascii ''pub.ex'', ec_Extensions = []\<rparr>"

definition ex_bytes :: bytes where
  "ex_bytes = echConfig_enc ex_config"

definition ex_ech :: echClientContext where
  "ex_ech = \<lparr>ecc_config = ex_config, ecc_hpkeContext = plain_ctx, ecc_encapsulatedKey = [2], ecc_kdfID = 1, ecc_aeadID = 1\<rparr>"

definition ex_encoded :: bytes where
  "ex_encoded = [3, 3] @ replicate 32 9 @ [0, 0, 2, 0x13, 1, 1, 0, 0, 27, 0xfe, 0x0d, 0, 1, 1, 0, 0, 0, 11, 0, 9, 0, 0, 6,
     115, 101, 99, 46, 101, 120, 0xfd, 0, 0, 3, 2, 0, 43] @ replicate 24 0"

definition ex_sent :: clientHelloMsg where
  "ex_sent = ex_outer\<lparr>ch_encryptedClientHello := [0, 0, 1, 0, 1, 5, 0, 1, 2, 0, 110] @ ex_encoded @ replicate 16 0xee\<rparr>"

definition ex_bs :: bytes where
  "ex_bs = [1, 0, 0, 192, 3, 3] @ replicate 32 7 @
  [2, 1, 2, 0, 2, 0x13, 1, 1, 0, 0, 147, 0, 0, 0, 11, 0, 9, 0, 0, 6, 112, 117, 98, 46, 101, 120,
   0xfe, 0x0d, 0, 121, 0, 0, 1, 0, 1, 5, 0, 1, 2, 0, 110] @ ex_encoded @ replicate 16 0xee @ [0, 43, 0, 3, 2, 3, 4]"

definition ex_expanded :: bytes where
  "ex_expanded = [1, 0, 0, 72, 3, 3] @ replicate 32 9 @ 
  [2, 1, 2, 0, 2, 0x13, 1, 1, 0, 0, 27, 0xfe, 0x0d, 0, 1, 1, 0, 0,
    0, 11, 0, 9, 0, 0, 6, 115, 101, 99, 46, 101, 120, 0, 43, 0, 3, 2, 3, 4]"

definition ex_im :: clientHelloMsg where
  "ex_im = ex_inner\<lparr>ch_original := Some ex_expanded, ch_sessionId := [1, 2], ch_extensions := [extensionEncryptedClientHello, extensionServerName, extensionSupportedVersions]\<rparr>"


section \<open>The computation\<close>

lemma ex_outer_marshal: "clientHelloMsg_marshal cb_ref ex_outer = Inr ([1, 0, 0, 67, 3, 3] @ replicate 32 7 @
  [2, 1, 2, 0, 2, 0x13, 1, 1, 0, 0, 22, 0, 0, 0, 11, 0, 9, 0, 0, 6, 112, 117, 98, 46, 101, 120, 0, 43, 0, 3, 2, 3, 4])"
  by (simp add: hello_eval cb_eval ascii_def ex_outer_def clientHelloMsg_zero_def)

lemma ex_outer_types: "extractExtensionTypes (drop 4 ([1, 0, 0, 67, 3, 3] @ replicate 32 7 @
  [2, 1, 2, 0, 2, 0x13, 1, 1, 0, 0, 22, 0, 0, 0, 11, 0, 9, 0, 0, 6, 112, 117, 98, 46, 101, 120, 0, 43, 0, 3, 2, 3, 4])) = [extensionServerName, extensionSupportedVersions]"
  by (simp add: extractExtensionTypes_def hello_extensions_at_def Let_def nth_append hello_extension_types.simps u16_of_def)

lemma ex_inner_encode: "encodeInnerClientHelloReorderOuterExts cb_ref ex_inner 8 (Some [extensionServerName, extensionSupportedVersions]) = Inr ex_encoded"
  by (simp add: ex_encoded_def encodeInnerClientHelloReorderOuterExts_def hello_eval cb_eval ascii_def ex_inner_def ex_outer_def clientHelloMsg_zero_def Let_def inner_padding_def ech_compressible_def is_grease_def)

lemma ex_update: "computeAndUpdateOuterECHExtension cb_ref hpke_plain ex_outer ex_inner ex_ech True = Inr (ex_sent, ex_ech\<lparr>ecc_hpkeContext := plain_ctx\<lparr>ctx_seqNum := \<lparr>hi = 0, lo = 1\<rparr>\<rparr>\<rparr>)"
  by (simp add: computeAndUpdateOuterECHExtension_def Let_def ex_outer_marshal ex_outer_types [simplified] ex_inner_encode ex_ech_def ex_config_def nilable_def) (simp add: generateOuterECHExt_def hello_eval cb_eval ascii_def ex_outer_def clientHelloMsg_zero_def ex_sent_def Sender_Seal_def hpke_plain_def ex_encoded_def
     incrementNonce_def addOne_def Add64_def plain_ctx_def bitLen_def Len64_def nat_len.simps aead_NonceSize_def SupportedAEADs_def Let_def)

lemma ex_sent_marshal: "clientHelloMsg_marshal cb_ref ex_sent = Inr ex_bs"
  by (simp add: hello_eval cb_eval ascii_def ex_sent_def ex_outer_def clientHelloMsg_zero_def ex_bs_def ex_encoded_def)

lemma ex_types: "extractExtensionTypes (drop 4 ex_bs) = [extensionServerName, extensionEncryptedClientHello, extensionSupportedVersions]"
  by (simp add: ex_bs_def ex_encoded_def extractExtensionTypes_def hello_extensions_at_def Let_def nth_append hello_extension_types.simps u16_of_def)

lemma ex_versions: "extractExtensionBytesFromHello (drop 4 ex_bs) extensionSupportedVersions = Some [0, 43, 0, 3, 2, 3, 4]"
  by (simp add: ex_bs_def ex_encoded_def extractExtensionBytesFromHello_def hello_extensions_at_def Let_def nth_append hello_extension_bytes.simps u16_of_def)

lemma ex_expand: "marshalExpandedECH cb_ref ex_inner (extractExtensionTypes (drop 4 ex_bs)) (extractExtensionBytesFromHello (drop 4 ex_bs)) [1,2] = Inr ex_expanded"
  by (simp add: ex_expanded_def ex_types ex_versions marshalExpandedECH_def expandedHello_exts_def expandedHello_outer_def hello_eval cb_eval ascii_def ex_inner_def ex_outer_def clientHelloMsg_zero_def ech_compressible_def is_grease_def)

lemma ex_payload_once: "\<forall>j k. occurs_at (drop 4 ex_bs) (ex_encoded @ replicate 16 0xee) j \<longrightarrow>
    occurs_at (drop 4 ex_bs) (ex_encoded @ replicate 16 0xee) k \<longrightarrow> j = k"
proof -
  have e: "list_all (\<lambda>j. drop 4 ex_bs ! (j + 1) = 3 \<and> drop 4 ex_bs ! (j + 2) = 9 \<longrightarrow> j = 75) [0..<87]"
  proof -
    have u: "[0..<87] = 0 # 1 # [2..<87]"
      by (simp add: upt_conv_Cons)
    show ?thesis
      unfolding u by (simp add: ex_bs_def ex_encoded_def upt_rec_numeral nth_append)
  qed
  have "j = 75" if o: "occurs_at (drop 4 ex_bs) (ex_encoded @ replicate 16 0xee) j" for j
  proof -
    have "drop 4 ex_bs ! (j + 1) = 3" "drop 4 ex_bs ! (j + 2) = 9"
      using occurs_at_nth [OF o, of 1] occurs_at_nth [OF o, of 2] by (simp_all add: ex_encoded_def nth_append)
    moreover have "j < 87"
      using o by (simp add: occurs_at_def ex_bs_def ex_encoded_def)
    ultimately show ?thesis
      using e by (simp add: list_all_iff)
  qed
  then show ?thesis
    by blast
qed

lemma ex_parse: "clientHelloMsg_unmarshal cb_ref ex_expanded = Some ex_im"
  by (simp add: ex_expanded_def clientHelloMsg_unmarshal_def cb_ref_def take_prefix_def read_helpers read_cipherSuites_def while_nonempty_def
     for_nonempty.simps for_extensions_def u16_of_def require_def clientHello_step_def clientHello_ext_def with_seen_def
     read_serverNames_def read_uint16s_def hasSuffix_dot_def clientHelloMsg_zero_def ex_im_def ex_inner_def ex_outer_def ascii_def)

lemma ex_ech_ext: "parseECHExt cb_ref (ch_encryptedClientHello ex_sent) = Inr (outerECHExt, \<lparr>KDFID = 1, AEADID = 1\<rparr>, 5, [2], ex_encoded @ replicate 16 0xee)"
  by (simp add: parseECHExt_def ex_sent_def cb_ref_def take_prefix_def ex_encoded_def u16_of_def read_helpers)

lemma ex_config_parse: "parseECHConfig cb_ref ex_bytes = Inr (Some (ex_config\<lparr>ec_raw := ex_bytes, ec_Length := 22\<rparr>))"
  using ref.parseECHConfig_enc [of "ex_config\<lparr>ec_raw := ex_bytes, ec_Length := 22\<rparr>" "[]"]
  by (simp add: ex_bytes_def ex_config_def echConfig_ok_def echConfig_enc_def echConfig_contents_def vec16_def vec8_def echCipher_enc_def be16_def ascii_def)


section \<open>Witnesses\<close>

theorem ech_end_to_end_witness: "\<exists>so ctx. clientHelloMsg_unmarshal cb_ref ex_bs = Some so \<and>
    processECHClientHello cb_ref hpke_plain [\<lparr>Config = ex_bytes, PrivateKey = [3], SendAsRetry = True\<rparr>] so =
    \<lparr>er_alert = None, er_accepted = True, er_result = Inr (ex_im, Some \<lparr>esc_hpkeContext = Some ctx,
       esc_configID = 5, esc_ciphersuite = \<lparr>KDFID = 1, AEADID = 1\<rparr>, esc_inner = False\<rparr>)\<rparr>"
proof -
  let ?key = "\<lparr>Config = ex_bytes, PrivateKey = [3], SendAsRetry = True\<rparr>"
  have v: "ch_sessionId ex_outer = [1, 2]" "ecc_kdfID ex_ech = 1" "ecc_aeadID ex_ech = 1" "ecc_encapsulatedKey ex_ech = [2]"
    "ecc_hpkeContext ex_ech = plain_ctx" "ec_ConfigID (ecc_config ex_ech) = 5"
    by (simp_all add: ex_outer_def ex_ech_def ex_config_def)
  have ok: "clientHello_ok ex_outer" "ch_supportedVersions ex_outer \<noteq> []" "ch_vers ex_inner = VersionTLS12"
    "ch_encryptedClientHello ex_inner = [innerECHExt]"  "ch_encryptedClientHello ex_im = [innerECHExt]"
    "ch_supportedVersions ex_im = [VersionTLS13]"
    by (simp_all add: ex_outer_def ex_inner_def ex_im_def clientHelloMsg_zero_def clientHello_ok_def hasSuffix_dot_def ascii_def)
  have key: "ec_KemID (ex_config\<lparr>ec_raw := ex_bytes, ec_Length := 22\<rparr>) = DHKEM_X25519_HKDF_SHA256"
     "NewPrivateKey hpke_plain [3] = Inr [3]"
    by (simp_all add: ex_config_def hpke_plain_def)
  show ?thesis
    using ech_end_to_end [OF ref.cryptobyte_laws_axioms, of hpke_plain ex_outer ex_inner ex_ech ex_sent _ ex_bs "[2]" "[3]" ?key,
     simplified v, OF hpke_plain_laws ok(1,2) ex_update ex_sent_marshal _ _ key(1) _ ex_ech_ext ex_payload_once ok(3,4) ex_expand ex_parse ok(5,6)]
     plain_sender ex_config_parse key by (simp add: v)
qed

theorem server_rebuilds_what_client_expands_witness:
  "\<exists>outer. clientHelloMsg_unmarshal cb_ref ex_bs = Some outer \<and> reconstructInnerHello cb_ref outer ex_encoded = Inr ex_expanded"
proof -
  have ok: "clientHello_ok ex_sent" "ch_supportedVersions ex_sent \<noteq> []" "ch_vers ex_inner = VersionTLS12"
    "ch_encryptedClientHello ex_inner \<noteq> []" "ch_sessionId ex_sent = [1, 2]"
    by (simp_all add: ex_sent_def ex_outer_def ex_inner_def clientHelloMsg_zero_def clientHello_ok_def
        hasSuffix_dot_def ascii_def)
  have e: "encodeInnerClientHelloReorderOuterExts cb_ref ex_inner 8 (nilable (extractExtensionTypes (drop 4 ex_bs)))
      = Inr ex_encoded"
    by (simp add: ex_types nilable_def ex_encoded_def encodeInnerClientHelloReorderOuterExts_def hello_eval cb_eval
        ascii_def ex_inner_def ex_outer_def clientHelloMsg_zero_def Let_def inner_padding_def ech_compressible_def
        is_grease_def)
  show ?thesis
    using server_rebuilds_what_client_expands [OF ref.cryptobyte_laws_axioms ex_sent_marshal ok(1,2) e _ ok(3,4)]
      ex_expand ok(5) by simp
qed

theorem inner_hello_length_reveals_name_length_witness:
  "\<exists>e e'. encodeInnerClientHelloReorderOuterExts cb_ref ex_inner 8 (Some [extensionServerName, extensionSupportedVersions]) = Inr e
    \<and> encodeInnerClientHelloReorderOuterExts cb_ref (ex_inner\<lparr>ch_serverName := [97, 46, 98]\<rparr>) 8
        (Some [extensionServerName, extensionSupportedVersions]) = Inr e'
    \<and> length e = length e' + 3"
proof -
  have "\<exists>e'. encodeInnerClientHelloReorderOuterExts cb_ref (ex_inner\<lparr>ch_serverName := [97, 46, 98]\<rparr>) 8
      (Some [extensionServerName, extensionSupportedVersions]) = Inr e'"
    by (simp add: encodeInnerClientHelloReorderOuterExts_def hello_eval cb_eval ascii_def ex_inner_def
        ex_outer_def clientHelloMsg_zero_def Let_def inner_padding_def ech_compressible_def is_grease_def)
  then obtain e' where e': "encodeInnerClientHelloReorderOuterExts cb_ref (ex_inner\<lparr>ch_serverName := [97, 46, 98]\<rparr>) 8
      (Some [extensionServerName, extensionSupportedVersions]) = Inr e'"
    by blast
  have n: "length (ch_serverName ex_inner) = 6" "ch_serverName ex_inner \<noteq> []"
    by (simp_all add: ex_inner_def ascii_def)
  show ?thesis
    using inner_hello_length_reveals_name_length [OF ref.cryptobyte_laws_axioms ex_inner_encode e' n(2)] n(1)
      ex_inner_encode e' by auto
qed

end
