(* ===== verification/Record_Layer.thy ===== *)
theory Record_Layer
  imports Prelude
begin

text \<open>
  The protection of records: the state of one direction of a connection (\<open>halfConn\<close> of
  conn.go), the AEAD wrappers and the MAC of cipher_suites.go, \<open>encrypt\<close> and \<open>decrypt\<close>. The
  ciphers, AEADs and hash functions of the crypto packages are parameters.
\<close>

section \<open>Errors and parameters\<close>

datatype conn_error =
    AlertErr u8
  | LocalError u8
  | RemoteError u8
  | IoEOF
  | IoUnexpectedEOF
  | NetError bool
  | RecordHeaderError bool string bytes
  | ConnErr string
  | ConnPanic string
  | MarshalErr gerror
  | PermanentError conn_error

abbreviation (input) recordTypeChangeCipherSpec :: u8 where "recordTypeChangeCipherSpec \<equiv> 20"
abbreviation (input) recordTypeAlert :: u8 where "recordTypeAlert \<equiv> 21"
abbreviation (input) recordTypeHandshake :: u8 where "recordTypeHandshake \<equiv> 22"
abbreviation (input) recordTypeApplicationData :: u8 where "recordTypeApplicationData \<equiv> 23"

abbreviation (input) recordHeaderLen :: nat where "recordHeaderLen \<equiv> 5"
abbreviation (input) maxPlaintext :: nat where "maxPlaintext \<equiv> 16384"
abbreviation (input) maxCiphertext :: nat where "maxCiphertext \<equiv> 18432"
abbreviation (input) maxCiphertextTLS13 :: nat where "maxCiphertextTLS13 \<equiv> 16640"

datatype aead_alg = AESGCM bytes | ChaCha20Poly1305 bytes
datatype block_cipher = TripleDES bytes | AES bytes
datatype hmac = HMAC_SHA1 bytes | HMAC_SHA256 bytes

text \<open>
  The primitives of the crypto packages, each given its key: the key stream of RC4 by position,
  the AEADs, the block ciphers and the MACs.
\<close>

record record_crypto =
  rc_keystream :: "bytes \<Rightarrow> nat \<Rightarrow> u8"
  rc_Seal :: "aead_alg \<Rightarrow> bytes \<Rightarrow> bytes \<Rightarrow> bytes \<Rightarrow> bytes"
  rc_Open :: "aead_alg \<Rightarrow> bytes \<Rightarrow> bytes \<Rightarrow> bytes \<Rightarrow> bytes option"
  rc_Encrypt :: "block_cipher \<Rightarrow> bytes \<Rightarrow> bytes"
  rc_Decrypt :: "block_cipher \<Rightarrow> bytes \<Rightarrow> bytes"
  rc_Sum :: "hmac \<Rightarrow> bytes \<Rightarrow> bytes"

text \<open>The sizes that these packages document.\<close>

definition Size :: "hmac \<Rightarrow> nat" where
  "Size h = (case h of HMAC_SHA1 _ \<Rightarrow> 20 | HMAC_SHA256 _ \<Rightarrow> 32)"

definition BlockSize :: "block_cipher \<Rightarrow> nat" where
  "BlockSize b = (case b of TripleDES _ \<Rightarrow> 8 | AES _ \<Rightarrow> 16)"

abbreviation (input) aeadOverhead :: nat where "aeadOverhead \<equiv> 16"


section \<open>Ciphers\<close>

text \<open>
  The dynamic types of \<open>halfConn.cipher\<close>: RC4 with its key and the position in the key stream; the
  two wrappers of an AEAD with their nonce; a block cipher in CBC mode with its direction
  (\<open>isRead\<close>) and current vector.
\<close>

datatype cipher =
    StreamCipher bytes nat
  | PrefixNonceAEAD bytes aead_alg
  | XorNonceAEAD bytes aead_alg
  | CBCMode bool block_cipher bytes

definition XORKeyStream :: "record_crypto \<Rightarrow> bytes \<Rightarrow> nat \<Rightarrow> bytes \<Rightarrow> bytes" where
  "XORKeyStream rc key pos src = map2 (XOR) src (map (rc_keystream rc key) [pos..<pos + length src])"

text \<open>\<open>CryptBlocks\<close> of the standard library: the output and the last ciphertext block.\<close>

function cbc_encrypt :: "record_crypto \<Rightarrow> block_cipher \<Rightarrow> bytes \<Rightarrow> bytes \<Rightarrow> bytes \<times> bytes" where
  "cbc_encrypt rc b iv src =
     (if src = [] then ([], iv)
      else
        let block = rc_Encrypt rc b (map2 (XOR) (take (BlockSize b) src) iv);
            (dst, iv) = cbc_encrypt rc b block (drop (BlockSize b) src)
        in (block @ dst, iv))"
  by pat_completeness auto

termination
  by (relation "measure (\<lambda>(rc, b, iv, src). length src)") (auto simp: BlockSize_def split: block_cipher.splits)

function cbc_decrypt :: "record_crypto \<Rightarrow> block_cipher \<Rightarrow> bytes \<Rightarrow> bytes \<Rightarrow> bytes \<times> bytes" where
  "cbc_decrypt rc b iv src =
     (if src = [] then ([], iv)
      else
        let block = take (BlockSize b) src;
            (dst, iv') = cbc_decrypt rc b block (drop (BlockSize b) src)
        in (map2 (XOR) (rc_Decrypt rc b block) iv @ dst, iv'))"
  by pat_completeness auto

termination
  by (relation "measure (\<lambda>(rc, b, iv, src). length src)") (auto simp: BlockSize_def split: block_cipher.splits)

declare cbc_encrypt.simps [simp del] cbc_decrypt.simps [simp del]

definition CryptBlocks :: "record_crypto \<Rightarrow> bool \<Rightarrow> block_cipher \<Rightarrow> bytes \<Rightarrow> bytes \<Rightarrow> bytes \<times> bytes" where
  "CryptBlocks rc isRead b iv src = (if isRead then cbc_decrypt rc b iv src else cbc_encrypt rc b iv src)"

definition cipherRC4 :: "bytes \<Rightarrow> cipher" where
  "cipherRC4 key = StreamCipher key 0"

definition newCBC :: "block_cipher \<Rightarrow> bytes \<Rightarrow> bool \<Rightarrow> gerror + cipher" where
  "newCBC block iv isRead =
     (if length iv \<noteq> BlockSize block then Inl (Panic ''IV length must equal block size'')
      else Inr (CBCMode isRead block iv))"

definition cipher3DES :: "bytes \<Rightarrow> bytes \<Rightarrow> bool \<Rightarrow> gerror + cipher" where
  "cipher3DES key iv isRead =
     (if length key \<noteq> 24 then Inl (Panic ''nil pointer dereference'') else newCBC (TripleDES key) iv isRead)"

definition cipherAES :: "bytes \<Rightarrow> bytes \<Rightarrow> bool \<Rightarrow> gerror + cipher" where
  "cipherAES key iv isRead =
     (if length key \<notin> {16, 24, 32} then Inl (Panic ''nil pointer dereference'') else newCBC (AES key) iv isRead)"

definition macSHA1 :: "bytes \<Rightarrow> hmac" where
  "macSHA1 key = HMAC_SHA1 key"

definition macSHA256 :: "bytes \<Rightarrow> hmac" where
  "macSHA256 key = HMAC_SHA256 key"

text \<open>\<open>copy(f.nonce[4:], nonce)\<close> on an array of 12 bytes.\<close>

definition prefix_nonce :: "bytes \<Rightarrow> bytes \<Rightarrow> bytes" where
  "prefix_nonce fnonce nonce = take 4 fnonce @ take 8 nonce @ drop (4 + length (take 8 nonce)) fnonce"

definition xor_nonce :: "bytes \<Rightarrow> bytes \<Rightarrow> bytes" where
  "xor_nonce nonceMask nonce = fold (\<lambda>i m. m[4 + i := (m ! (4 + i)) XOR (nonce ! i)]) [0..<length nonce] nonceMask"

definition cipher_Seal :: "record_crypto \<Rightarrow> cipher \<Rightarrow> bytes \<Rightarrow> bytes \<Rightarrow> bytes \<Rightarrow> bytes \<times> cipher" where
  "cipher_Seal rc f nonce plaintext additionalData = (case f of
     PrefixNonceAEAD fnonce key \<Rightarrow>
       let fnonce = prefix_nonce fnonce nonce
       in (rc_Seal rc key fnonce plaintext additionalData, PrefixNonceAEAD fnonce key)
   | XorNonceAEAD nonceMask key \<Rightarrow>
       let nonceMask = xor_nonce nonceMask nonce;
           result = rc_Seal rc key nonceMask plaintext additionalData
       in (result, XorNonceAEAD (xor_nonce nonceMask nonce) key)
   | f \<Rightarrow> ([], f))"

definition cipher_Open :: "record_crypto \<Rightarrow> cipher \<Rightarrow> bytes \<Rightarrow> bytes \<Rightarrow> bytes \<Rightarrow> bytes option \<times> cipher" where
  "cipher_Open rc f nonce ciphertext additionalData = (case f of
     PrefixNonceAEAD fnonce key \<Rightarrow>
       let fnonce = prefix_nonce fnonce nonce
       in (rc_Open rc key fnonce ciphertext additionalData, PrefixNonceAEAD fnonce key)
   | XorNonceAEAD nonceMask key \<Rightarrow>
       let nonceMask = xor_nonce nonceMask nonce;
           result = rc_Open rc key nonceMask ciphertext additionalData
       in (result, XorNonceAEAD (xor_nonce nonceMask nonce) key)
   | f \<Rightarrow> (None, f))"

text \<open>The constructors of the AEADs panic on a key or a nonce of the wrong length.\<close>

definition aeadAESGCM :: "bytes \<Rightarrow> bytes \<Rightarrow> gerror + cipher" where
  "aeadAESGCM key noncePrefix =
     (if length noncePrefix \<noteq> 4 then Inl (Panic ''tls: internal error: wrong nonce length'')
      else if length key \<notin> {16, 24, 32} then Inl (Panic ''crypto/aes: invalid key size'')
      else Inr (PrefixNonceAEAD (noncePrefix @ replicate 8 0) (AESGCM key)))"

definition aeadAESGCMTLS13 :: "bytes \<Rightarrow> bytes \<Rightarrow> gerror + cipher" where
  "aeadAESGCMTLS13 key nonceMask =
     (if length nonceMask \<noteq> 12 then Inl (Panic ''tls: internal error: wrong nonce length'')
      else if length key \<notin> {16, 24, 32} then Inl (Panic ''crypto/aes: invalid key size'')
      else Inr (XorNonceAEAD nonceMask (AESGCM key)))"

definition aeadChaCha20Poly1305 :: "bytes \<Rightarrow> bytes \<Rightarrow> gerror + cipher" where
  "aeadChaCha20Poly1305 key nonceMask =
     (if length nonceMask \<noteq> 12 then Inl (Panic ''tls: internal error: wrong nonce length'')
      else if length key \<noteq> 32 then Inl (Panic ''chacha20poly1305: bad key length'')
      else Inr (XorNonceAEAD nonceMask (ChaCha20Poly1305 key)))"

text \<open>The digest does not depend on what is written to the hash after \<open>Sum\<close> (the \<open>extra\<close> data).\<close>

definition tls10MAC :: "record_crypto \<Rightarrow> hmac \<Rightarrow> bytes \<Rightarrow> bytes \<Rightarrow> bytes \<Rightarrow> bytes" where
  "tls10MAC rc h sq header dat = rc_Sum rc h (sq @ header @ dat)"


section \<open>One direction of the connection\<close>

record halfConn =
  hc_err :: "conn_error option"
  hc_version :: u16
  hc_cipher :: "cipher option"
  hc_mac :: "hmac option"
  hc_seq :: bytes
  hc_nextCipher :: "cipher option"
  hc_nextMac :: "hmac option"
  hc_level :: nat
  hc_trafficSecret :: bytes

text \<open>
  The errors that implement \<open>net.Error\<close>: those of the connection, the \<open>net.OpError\<close>s of alerts,
  and \<open>permanentError\<close> itself.
\<close>

definition is_net_Error :: "conn_error \<Rightarrow> bool" where
  "is_net_Error err \<longleftrightarrow> (case err of LocalError _ \<Rightarrow> True | RemoteError _ \<Rightarrow> True | NetError _ \<Rightarrow> True | PermanentError _ \<Rightarrow> True
     | _ \<Rightarrow> False)"

definition setErrorLocked :: "conn_error \<Rightarrow> halfConn \<Rightarrow> conn_error \<times> halfConn" where
  "setErrorLocked err hc =
     (let err = (if is_net_Error err then PermanentError err else err) in (err, hc\<lparr>hc_err := Some err\<rparr>))"

definition prepareCipherSpec :: "u16 \<Rightarrow> cipher \<Rightarrow> hmac option \<Rightarrow> halfConn \<Rightarrow> halfConn" where
  "prepareCipherSpec version cipher mac hc = hc\<lparr>hc_version := version, hc_nextCipher := Some cipher, hc_nextMac := mac\<rparr>"

definition changeCipherSpec :: "halfConn \<Rightarrow> u8 + halfConn" where
  "changeCipherSpec hc =
     (if hc_nextCipher hc = None \<or> hc_version hc = VersionTLS13 then Inl alertInternalError
      else Inr (hc\<lparr>hc_cipher := hc_nextCipher hc, hc_mac := hc_nextMac hc, hc_nextCipher := None, hc_nextMac := None,
        hc_seq := map (\<lambda>_. 0) (hc_seq hc)\<rparr>))"

text \<open>The loop of \<open>incSeq\<close> from index \<open>i - 1\<close> downwards; \<open>None\<close> is the panic.\<close>

fun incSeq_from :: "nat \<Rightarrow> bytes \<Rightarrow> bytes option" where
  "incSeq_from 0 sq = None"
| "incSeq_from (Suc i) sq =
     (let sq = sq[i := sq ! i + 1] in if sq ! i \<noteq> 0 then Some sq else incSeq_from i sq)"

definition incSeq :: "halfConn \<Rightarrow> conn_error + halfConn" where
  "incSeq hc = (case incSeq_from 8 (hc_seq hc) of
     None \<Rightarrow> Inl (ConnPanic ''TLS: sequence number wraparound'')
   | Some sq \<Rightarrow> Inr (hc\<lparr>hc_seq := sq\<rparr>))"

definition explicitNonceLen :: "halfConn \<Rightarrow> nat" where
  "explicitNonceLen hc = (case hc_cipher hc of
     None \<Rightarrow> 0
   | Some (StreamCipher _ _) \<Rightarrow> 0
   | Some (PrefixNonceAEAD _ _) \<Rightarrow> 8
   | Some (XorNonceAEAD _ _) \<Rightarrow> 0
   | Some (CBCMode _ block _) \<Rightarrow> (if hc_version hc \<ge> VersionTLS11 then BlockSize block else 0))"

text \<open>
  \<open>byte(int32(^t) >> 31)\<close> for a \<open>uint\<close> of 64 bits: the complement, cut to 32 bits, shifted
  arithmetically.
\<close>

definition msb_clear_mask :: "u64 \<Rightarrow> u8" where
  "msb_clear_mask t = ucast (signed_drop_bit 31 (ucast (NOT t) :: u32))"

definition extractPadding :: "bytes \<Rightarrow> nat \<times> u8" where
  "extractPadding payload =
     (if length payload < 1 then (0, 0)
      else
        let paddingLen = payload ! (length payload - 1);
            t = of_nat (length payload - 1) - ucast paddingLen;
            good = msb_clear_mask t;
            toCheck = (if 256 > length payload then length payload else 256);
            good = fold (\<lambda>i good.
              let t = ucast paddingLen - of_nat i;
                  msk = msb_clear_mask t;
                  b = payload ! (length payload - 1 - i)
              in good AND NOT ((msk AND paddingLen) XOR (msk AND b))) [0..<toCheck] good;
            good = good AND push_bit 4 good;
            good = good AND push_bit 2 good;
            good = good AND push_bit 1 good;
            good = signed_drop_bit 7 good;
            paddingLen = paddingLen AND good
        in (unat paddingLen + 1, good))"

definition roundUp :: "nat \<Rightarrow> nat \<Rightarrow> nat" where
  "roundUp a b = a + (b - a mod b) mod b"


section \<open>decrypt\<close>

text \<open>\<open>byte(n>>8), byte(n)\<close>.\<close>

definition two_bytes :: "int \<Rightarrow> bytes" where
  "two_bytes n = [word_of_int (n div 256), word_of_int n]"

text \<open>
  The \<open>switch\<close> of \<open>decrypt\<close>: the decrypted payload, the plaintext of an AEAD, and what
  \<open>extractPadding\<close> says, with the next state of the cipher. A nil \<open>hc.mac\<close> panics.
\<close>

definition decrypt_switch :: "record_crypto \<Rightarrow> halfConn \<Rightarrow> cipher \<Rightarrow> bytes \<Rightarrow>
    (conn_error + bytes \<times> bytes \<times> nat \<times> u8) \<times> cipher" where
  "decrypt_switch rc hc c record =
     (let payload = drop recordHeaderLen record; nonceLen = explicitNonceLen hc in
      case c of
        StreamCipher key pos \<Rightarrow>
          (Inr (XORKeyStream rc key pos payload, [], 0, 255), StreamCipher key (pos + length payload))
      | CBCMode isRead block iv \<Rightarrow> (case hc_mac hc of
          None \<Rightarrow> (Inl (ConnPanic ''nil pointer dereference''), c)
        | Some mac \<Rightarrow>
            if length payload mod BlockSize block \<noteq> 0
              \<or> length payload < nonceLen + roundUp (Size mac + 1) (BlockSize block)
            then (Inl (AlertErr alertBadRecordMAC), c)
            else
              let (iv, payload) = (if nonceLen > 0 then (take nonceLen payload, drop nonceLen payload) else (iv, payload));
                  (payload, iv) = CryptBlocks rc isRead block iv payload;
                  (paddingLen, paddingGood) = extractPadding payload
              in (Inr (payload, [], paddingLen, paddingGood), CBCMode isRead block iv))
      | _ \<Rightarrow>
          if length payload < nonceLen then (Inl (AlertErr alertBadRecordMAC), c)
          else
            let nonce = (if nonceLen = 0 then hc_seq hc else take nonceLen payload);
                payload = drop nonceLen payload;
                additionalData = (if hc_version hc = VersionTLS13 then take recordHeaderLen record
                  else hc_seq hc @ take 3 record @ two_bytes (int (length payload) - int aeadOverhead))
            in (case cipher_Open rc c nonce payload additionalData of
                 (None, c) \<Rightarrow> (Inl (AlertErr alertBadRecordMAC), c)
               | (Some plaintext, c) \<Rightarrow> (Inr (payload, plaintext, 0, 255), c)))"

text \<open>The content type and the plaintext of TLS 1.3, scanning from the end.\<close>

definition inner_plaintext :: "u8 \<Rightarrow> bytes \<Rightarrow> u8 + (u8 \<times> bytes)" where
  "inner_plaintext typ plaintext =
     (if typ \<noteq> recordTypeApplicationData then Inl alertUnexpectedMessage
      else if length plaintext > maxPlaintext + 1 then Inl alertRecordOverflow
      else if plaintext = [] then Inr (typ, [])
      else (case dropWhile (\<lambda>b. b = 0) (rev plaintext) of
          [] \<Rightarrow> Inl alertUnexpectedMessage
        | b # before \<Rightarrow> Inr (b, rev before)))"

text \<open>The check of the MAC, given the decrypted payload: \<open>None\<close> where it fails.\<close>

definition check_mac :: "record_crypto \<Rightarrow> hmac \<Rightarrow> bytes \<Rightarrow> bytes \<Rightarrow> bytes \<Rightarrow> nat \<Rightarrow> u8 \<Rightarrow> bytes option" where
  "check_mac rc mac sq header payload paddingLen paddingGood =
     (let macSize = Size mac in
      if length payload < macSize then None
      else
        let n = int (length payload) - int macSize - int paddingLen;
            n = nat (if drop_bit 31 (word_of_int n :: u32) = 1 then 0 else n);
            header = take 3 header @ two_bytes (int n);
            remoteMAC = take macSize (drop n payload);
            localMAC = tls10MAC rc mac sq header (take n payload);
            macAndPaddingGood = (if localMAC = remoteMAC then 1 else 0) AND unat paddingGood
        in if macAndPaddingGood \<noteq> 1 then None else Some (take n payload))"

text \<open>
  Up to the MAC: the decrypted payload, the plaintext, the padding and the type of the content.
\<close>

definition open_record :: "record_crypto \<Rightarrow> halfConn \<Rightarrow> bytes \<Rightarrow>
    (conn_error + bytes \<times> bytes \<times> nat \<times> u8 \<times> u8) \<times> halfConn" where
  "open_record rc hc record =
     (let typ = record ! 0; payload = drop recordHeaderLen record in
      case hc_cipher hc of
        None \<Rightarrow> (Inr (payload, payload, 0, 255, typ), hc)
      | Some c \<Rightarrow>
          let (r, c) = decrypt_switch rc hc c record; hc = hc\<lparr>hc_cipher := Some c\<rparr> in
          (case r of
            Inl e \<Rightarrow> (Inl e, hc)
          | Inr (payload, plaintext, paddingLen, paddingGood) \<Rightarrow>
              if hc_version hc = VersionTLS13 then
                (case inner_plaintext typ plaintext of
                  Inl a \<Rightarrow> (Inl (AlertErr a), hc)
                | Inr (typ, plaintext) \<Rightarrow> (Inr (payload, plaintext, paddingLen, paddingGood, typ), hc))
              else (Inr (payload, plaintext, paddingLen, paddingGood, typ), hc)))"

definition decrypt :: "record_crypto \<Rightarrow> halfConn \<Rightarrow> bytes \<Rightarrow> (conn_error + bytes \<times> u8) \<times> halfConn" where
  "decrypt rc hc record =
     (if length record < recordHeaderLen then (Inl (ConnPanic ''slice bounds out of range''), hc)
      else if hc_version hc = VersionTLS13 \<and> record ! 0 = recordTypeChangeCipherSpec
      then (Inr (drop recordHeaderLen record, record ! 0), hc)
      else (case open_record rc hc record of
          (Inl e, hc) \<Rightarrow> (Inl e, hc)
        | (Inr (payload, plaintext, paddingLen, paddingGood, typ), hc) \<Rightarrow>
            (case (case hc_mac hc of
                 None \<Rightarrow> Some plaintext
               | Some mac \<Rightarrow> check_mac rc mac (hc_seq hc) (take recordHeaderLen record) payload paddingLen paddingGood) of
               None \<Rightarrow> (Inl (AlertErr alertBadRecordMAC), hc)
             | Some plaintext \<Rightarrow> (case incSeq hc of
                 Inl e \<Rightarrow> (Inl e, hc)
               | Inr hc \<Rightarrow> (Inr (plaintext, typ), hc)))))"


section \<open>encrypt\<close>

text \<open>\<open>io.ReadFull\<close> on the bytes that the source of randomness still has.\<close>

definition ReadFull :: "bytes \<Rightarrow> nat \<Rightarrow> (conn_error + bytes) \<times> bytes" where
  "ReadFull rand n =
     (if length rand \<ge> n then (Inr (take n rand), drop n rand)
      else (Inl (if rand = [] then IoEOF else IoUnexpectedEOF), []))"

definition is_CBC :: "cipher \<Rightarrow> bool" where
  "is_CBC c \<longleftrightarrow> (case c of CBCMode _ _ _ \<Rightarrow> True | _ \<Rightarrow> False)"

text \<open>The explicit nonce of a record: the sequence number (both have 8 bytes), or random bytes.\<close>

definition explicit_nonce :: "halfConn \<Rightarrow> cipher \<Rightarrow> bytes \<Rightarrow> (conn_error + bytes) \<times> bytes" where
  "explicit_nonce hc c rand =
     (let n = explicitNonceLen hc in
      if n > 0 then if \<not> is_CBC c \<and> n < 16 then (Inr (take n (hc_seq hc)), rand) else ReadFull rand n
      else (Inr [], rand))"

definition set_length :: "int \<Rightarrow> bytes \<Rightarrow> bytes" where
  "set_length n record = record[3 := two_bytes n ! 0, 4 := two_bytes n ! 1]"

text \<open>The \<open>switch\<close> of \<open>encrypt\<close>, on the record that already holds the explicit nonce.\<close>

definition encrypt_switch :: "record_crypto \<Rightarrow> halfConn \<Rightarrow> cipher \<Rightarrow> bytes \<Rightarrow> bytes \<Rightarrow> bytes \<Rightarrow> (conn_error + bytes) \<times> cipher" where
  "encrypt_switch rc hc c record explicitNonce payload =
     (let header = take recordHeaderLen record in
      case c of
        StreamCipher key pos \<Rightarrow> (case hc_mac hc of
          None \<Rightarrow> (Inl (ConnPanic ''nil pointer dereference''), c)
        | Some h \<Rightarrow>
            let mac = tls10MAC rc h (hc_seq hc) header payload;
                dst = XORKeyStream rc key pos payload; pos = pos + length payload;
                dst2 = XORKeyStream rc key pos mac; pos = pos + length mac
            in (Inr (record @ dst @ dst2), StreamCipher key pos))
      | CBCMode isRead block iv \<Rightarrow> (case hc_mac hc of
          None \<Rightarrow> (Inl (ConnPanic ''nil pointer dereference''), c)
        | Some h \<Rightarrow>
            let mac = tls10MAC rc h (hc_seq hc) header payload;
                plaintextLen = length payload + length mac;
                paddingLen = BlockSize block - plaintextLen mod BlockSize block;
                dst = payload @ mac @ replicate paddingLen (of_nat (paddingLen - 1));
                iv = (if length explicitNonce > 0 then explicitNonce else iv);
                (dst, iv) = CryptBlocks rc isRead block iv dst
            in (Inr (record @ dst), CBCMode isRead block iv))
      | _ \<Rightarrow>
          let nonce = (if length explicitNonce = 0 then hc_seq hc else explicitNonce) in
          if hc_version hc = VersionTLS13 then
            let inner = drop recordHeaderLen (record @ payload) @ [record ! 0];
                header = set_length (int (length payload + 1 + aeadOverhead)) (header[0 := recordTypeApplicationData]);
                (ciphertext, c) = cipher_Seal rc c nonce inner header
            in (Inr (header @ ciphertext), c)
          else
            let (ciphertext, c) = cipher_Seal rc c nonce payload (hc_seq hc @ header)
            in (Inr (record @ ciphertext), c))"

definition encrypt :: "record_crypto \<Rightarrow> halfConn \<Rightarrow> bytes \<Rightarrow> bytes \<Rightarrow> bytes \<Rightarrow> (conn_error + bytes) \<times> halfConn \<times> bytes" where
  "encrypt rc hc record payload rand = (case hc_cipher hc of
     None \<Rightarrow> (Inr (record @ payload), hc, rand)
   | Some c \<Rightarrow> (case explicit_nonce hc c rand of
       (Inl e, rand) \<Rightarrow> (Inl e, hc, rand)
     | (Inr explicitNonce, rand) \<Rightarrow>
         let (r, c) = encrypt_switch rc hc c (record @ explicitNonce) explicitNonce payload;
             hc = hc\<lparr>hc_cipher := Some c\<rparr>
         in (case r of
              Inl e \<Rightarrow> (Inl e, hc, rand)
            | Inr record \<Rightarrow>
                let record = set_length (int (length record) - int recordHeaderLen) record in
                (case incSeq hc of Inl e \<Rightarrow> (Inl e, hc, rand) | Inr hc \<Rightarrow> (Inr record, hc, rand)))))"

end
