(* ===== verification/Connection.thy ===== *)
theory Connection
  imports Record_Layer
begin

text \<open>
  The record layer of a connection (conn.go): writing records of bounded size, reading them from a
  transport that delivers its bytes in pieces of any size, alerts, and the buffering of handshake
  bytes. The connection has no QUIC transport (\<open>c.quic == nil\<close>).
\<close>

section \<open>State\<close>

text \<open>
  The fields of \<open>Conn\<close> that the record layer uses. The transport is the list of the pieces that
  its reads will return, the error that ends it, the bytes written so far and, if it will fail, the
  number of bytes that it still takes and the error with which it then fails: a write of more bytes
  is a partial one. \<open>c_rand\<close> holds the bytes that \<open>config.rand()\<close> will return.
\<close>

record conn =
  c_isClient :: bool
  c_vers :: u16
  c_haveVers :: bool
  c_isHandshakeComplete :: bool
  c_in :: halfConn
  c_out :: halfConn
  c_rawInput :: bytes
  c_input :: bytes
  c_hand :: bytes
  c_buffering :: bool
  c_sendBuf :: bytes
  c_bytesSent :: nat
  c_packetsSent :: nat
  c_retryCount :: nat
  c_DynamicRecordSizingDisabled :: bool
  c_rand :: bytes
  c_net :: "bytes list"
  c_netErr :: conn_error
  c_sent :: bytes
  c_writeErr :: "(nat \<times> conn_error) option"

abbreviation (input) alertLevelWarning :: u8 where "alertLevelWarning \<equiv> 1"
abbreviation (input) alertLevelError :: u8 where "alertLevelError \<equiv> 2"
abbreviation (input) maxUselessRecords :: nat where "maxUselessRecords \<equiv> 32"
abbreviation (input) tcpMSSEstimate :: int where "tcpMSSEstimate \<equiv> 1208"
abbreviation (input) recordSizeBoostThreshold :: nat where "recordSizeBoostThreshold \<equiv> 128 * 1024"

definition is_panic :: "conn_error option \<Rightarrow> bool" where
  "is_panic e \<longleftrightarrow> (case e of Some (ConnPanic _) \<Rightarrow> True | _ \<Rightarrow> False)"


section \<open>Writing\<close>

definition macSize :: "halfConn \<Rightarrow> int option" where
  "macSize hc = map_option (\<lambda>h. int (Size h)) (hc_mac hc)"

text \<open>The payload that fits in one segment; \<open>None\<close> is a nil \<open>mac\<close>, whose \<open>Size\<close> panics.\<close>

definition segment_payload :: "conn \<Rightarrow> int option" where
  "segment_payload c =
     (let out = c_out c;
          payloadBytes = tcpMSSEstimate - int recordHeaderLen - int (explicitNonceLen out);
          r = (case hc_cipher out of
               None \<Rightarrow> Some payloadBytes
             | Some (StreamCipher _ _) \<Rightarrow> map_option (\<lambda>s. payloadBytes - s) (macSize out)
             | Some (CBCMode _ b _) \<Rightarrow>
                 map_option (\<lambda>s. (payloadBytes AND NOT (int (BlockSize b) - 1)) - 1 - s) (macSize out)
             | Some _ \<Rightarrow> Some (payloadBytes - int aeadOverhead))
      in map_option (\<lambda>payloadBytes. if c_vers c = VersionTLS13 then payloadBytes - 1 else payloadBytes) r)"

definition maxPayloadSizeForWrite :: "u8 \<Rightarrow> conn \<Rightarrow> (int \<times> conn) option" where
  "maxPayloadSizeForWrite typ c =
     (if c_DynamicRecordSizingDisabled c \<or> typ \<noteq> recordTypeApplicationData then Some (int maxPlaintext, c)
      else if c_bytesSent c \<ge> recordSizeBoostThreshold then Some (int maxPlaintext, c)
      else (case segment_payload c of
          None \<Rightarrow> None
        | Some payloadBytes \<Rightarrow>
            let pkt = c_packetsSent c; c = c\<lparr>c_packetsSent := pkt + 1\<rparr>
            in if pkt > 1000 then Some (int maxPlaintext, c)
               else
                 let n = payloadBytes * int (pkt + 1)
                 in Some (if n > int maxPlaintext then int maxPlaintext else n, c)))"

definition net_Write :: "bytes \<Rightarrow> conn \<Rightarrow> conn_error option \<times> conn" where
  "net_Write dat c = (case c_writeErr c of
     None \<Rightarrow> (None, c\<lparr>c_sent := c_sent c @ dat, c_bytesSent := c_bytesSent c + length dat\<rparr>)
   | Some (k, e) \<Rightarrow>
       let n = min k (length dat)
       in (if n < length dat then Some e else None,
           c\<lparr>c_sent := c_sent c @ take n dat, c_bytesSent := c_bytesSent c + n, c_writeErr := Some (k - n, e)\<rparr>))"

definition conn_write :: "bytes \<Rightarrow> conn \<Rightarrow> conn_error option \<times> conn" where
  "conn_write dat c =
     (if c_buffering c then (None, c\<lparr>c_sendBuf := c_sendBuf c @ dat\<rparr>) else net_Write dat c)"

definition flush :: "conn \<Rightarrow> conn_error option \<times> conn" where
  "flush c =
     (if c_sendBuf c = [] then (None, c)
      else let (err, c) = net_Write (c_sendBuf c) c in (err, c\<lparr>c_sendBuf := [], c_buffering := False\<rparr>))"

definition record_header :: "u8 \<Rightarrow> u16 \<Rightarrow> nat \<Rightarrow> bytes" where
  "record_header typ vers m =
     (let vers = (if vers = 0 then VersionTLS10 else if vers = VersionTLS13 then VersionTLS12 else vers)
      in [typ] @ be16 vers @ two_bytes (int m))"

lemma explicitNonceLen_cases: "explicitNonceLen hc \<in> {0, 8, 16}"
  by (simp add: explicitNonceLen_def BlockSize_def split: option.split cipher.split block_cipher.split)

lemma Size_le: "Size h \<le> 32"
  by (cases h) (simp_all add: Size_def)

lemma segment_payload_pos:
  assumes "segment_payload c = Some p"
  shows "0 < p"
proof -
  have nl: "explicitNonceLen (c_out c) = 0 \<or> explicitNonceLen (c_out c) = 8 \<or> explicitNonceLen (c_out c) = 16"
    using explicitNonceLen_cases [of "c_out c"] by auto
  have ms: "macSize (c_out c) = Some s \<Longrightarrow> s \<le> 32" for s
    using Size_le by (auto simp: macSize_def)
  have cbc: "1100 < (1208 - 5 - int (explicitNonceLen (c_out c))) AND NOT (int (BlockSize b) - 1)" for b
    using nl by (auto simp: BlockSize_def split: block_cipher.split)
  show ?thesis
  proof (cases "hc_cipher (c_out c)")
    case None
    then show ?thesis
      using assms nl by (auto simp: segment_payload_def Let_def split: if_splits)
  next
    case (Some ci)
    show ?thesis
    proof (cases ci)
      case (CBCMode r b iv)
      then show ?thesis
        using assms Some cbc [of b] by (auto simp: segment_payload_def Let_def dest!: ms split: if_splits)
    qed (use assms Some nl in \<open>auto simp: segment_payload_def Let_def dest!: ms split: if_splits\<close>)
  qed
qed

lemma maxPayload_pos:
  assumes "maxPayloadSizeForWrite typ c = Some (n, c')"
  shows "0 < n \<and> n \<le> int maxPlaintext"
  using assms by (auto simp: maxPayloadSizeForWrite_def Let_def dest!: segment_payload_pos split: if_splits option.splits)

lemma maxPayload_state:
  assumes "maxPayloadSizeForWrite typ c = Some (n, c')"
  shows "c' = c\<lparr>c_packetsSent := c_packetsSent c'\<rparr>"
  using assms by (auto simp: maxPayloadSizeForWrite_def Let_def split: if_splits option.splits)

text \<open>
  The body of the loop of \<open>writeRecordLocked\<close>: an error, or the number of bytes of the record; and
  the loop, with the number of bytes written and the error. It ends because
  \<open>maxPayloadSizeForWrite\<close> is always positive.
\<close>

definition write_one :: "record_crypto \<Rightarrow> u8 \<Rightarrow> bytes \<Rightarrow> conn \<Rightarrow> (conn_error + nat) \<times> conn" where
  "write_one rc typ dat c = (case maxPayloadSizeForWrite typ c of
     None \<Rightarrow> (Inl (ConnPanic ''nil pointer dereference''), c)
   | Some (maxPayload, c) \<Rightarrow>
       let m = (if int (length dat) > maxPayload then nat maxPayload else length dat);
           outBuf = record_header typ (c_vers c) m
       in (case encrypt rc (c_out c) outBuf (take m dat) (c_rand c) of
            (Inl err, out, rand) \<Rightarrow> (Inl err, c\<lparr>c_out := out, c_rand := rand\<rparr>)
          | (Inr outBuf, out, rand) \<Rightarrow> (case conn_write outBuf (c\<lparr>c_out := out, c_rand := rand\<rparr>) of
              (Some err, c) \<Rightarrow> (Inl err, c)
            | (None, c) \<Rightarrow> (Inr m, c))))"

lemma write_one_pos: "write_one rc typ dat c = (Inr m, c') \<Longrightarrow> dat \<noteq> [] \<Longrightarrow> 0 < m \<and> m \<le> length dat \<and> m \<le> maxPlaintext"
  by (auto simp: write_one_def Let_def dest!: maxPayload_pos split: option.splits prod.splits sum.splits if_splits)

function write_records :: "record_crypto \<Rightarrow> u8 \<Rightarrow> bytes \<Rightarrow> conn \<Rightarrow> nat \<times> conn_error option \<times> conn" where
  "write_records rc typ dat c =
     (if dat = [] then (0, None, c)
      else (case write_one rc typ dat c of
          (Inl err, c) \<Rightarrow> (0, Some err, c)
        | (Inr m, c) \<Rightarrow> (case write_records rc typ (drop m dat) c of (n, err, c) \<Rightarrow> (m + n, err, c))))"
  by pat_completeness auto

termination
  by (relation "measure (\<lambda>(rc, typ, dat, c). length dat)") (auto dest!: sym [of "(Inr _, _)"] write_one_pos)

declare write_records.simps [simp del]

text \<open>An alert is written by \<open>writeRecordLocked\<close>, where only the loop does anything (its type is not CCS).\<close>

definition sendAlertLocked :: "record_crypto \<Rightarrow> u8 \<Rightarrow> conn \<Rightarrow> conn_error option \<times> conn" where
  "sendAlertLocked rc err c =
     (let level = (if err = alertNoRenegotiation \<or> err = alertCloseNotify then alertLevelWarning else alertLevelError);
          (n, writeErr, c) = write_records rc recordTypeAlert [level, err] c
      in if is_panic writeErr \<or> err = alertCloseNotify then (writeErr, c)
         else let (e, out) = setErrorLocked (LocalError err) (c_out c) in (Some e, c\<lparr>c_out := out\<rparr>))"

definition writeRecordLocked :: "record_crypto \<Rightarrow> u8 \<Rightarrow> bytes \<Rightarrow> conn \<Rightarrow> nat \<times> conn_error option \<times> conn" where
  "writeRecordLocked rc typ dat c = (case write_records rc typ dat c of
     (n, Some err, c) \<Rightarrow> (n, Some err, c)
   | (n, None, c) \<Rightarrow>
       if typ = recordTypeChangeCipherSpec \<and> c_vers c \<noteq> VersionTLS13 then
         (case changeCipherSpec (c_out c) of
           Inl a \<Rightarrow> (let (e, c) = sendAlertLocked rc a c in (n, e, c))
         | Inr out \<Rightarrow> (n, None, c\<lparr>c_out := out\<rparr>))
       else (n, None, c))"

definition writeChangeCipherRecord :: "record_crypto \<Rightarrow> conn \<Rightarrow> conn_error option \<times> conn" where
  "writeChangeCipherRecord rc c = (case writeRecordLocked rc recordTypeChangeCipherSpec [1] c of (n, err, c) \<Rightarrow> (err, c))"


section \<open>Reading\<close>

fun read_pieces :: "nat \<Rightarrow> bytes \<Rightarrow> bytes list \<Rightarrow> bytes \<times> bytes list" where
  "read_pieces n raw [] = (raw, [])"
| "read_pieces n raw (p # net) = (if length raw \<ge> n then (raw, p # net) else read_pieces n (raw @ p) net)"

definition readFromUntil :: "nat \<Rightarrow> conn \<Rightarrow> conn_error option \<times> conn" where
  "readFromUntil n c =
     (let (raw, net) = read_pieces n (c_rawInput c) (c_net c); c = c\<lparr>c_rawInput := raw, c_net := net\<rparr>
      in if length raw \<ge> n then (None, c)
         else (Some (if c_netErr c = IoEOF then IoUnexpectedEOF else c_netErr c), c))"

definition in_setError :: "conn_error \<Rightarrow> conn \<Rightarrow> conn_error option \<times> conn" where
  "in_setError err c = (let (e, hc) = setErrorLocked err (c_in c) in (Some e, c\<lparr>c_in := hc\<rparr>))"

text \<open>\<open>c.in.setErrorLocked(c.sendAlert(a))\<close>, and \<open>c.sendAlert(a)\<close> followed by \<open>c.in.setErrorLocked(err)\<close>.\<close>

definition fail_alert :: "record_crypto \<Rightarrow> u8 \<Rightarrow> conn \<Rightarrow> conn_error option \<times> conn" where
  "fail_alert rc a c = (case sendAlertLocked rc a c of
     (None, c) \<Rightarrow> (None, c\<lparr>c_in := (c_in c)\<lparr>hc_err := None\<rparr>\<rparr>)
   | (Some e, c) \<Rightarrow> if is_panic (Some e) then (Some e, c) else in_setError e c)"

definition alert_and_fail :: "record_crypto \<Rightarrow> u8 \<Rightarrow> conn_error \<Rightarrow> conn \<Rightarrow> conn_error option \<times> conn" where
  "alert_and_fail rc a err c = (case sendAlertLocked rc a c of
     (e, c) \<Rightarrow> if is_panic e then (e, c) else in_setError err c)"

definition is_temporary :: "conn_error \<Rightarrow> bool" where
  "is_temporary err \<longleftrightarrow> (case err of NetError temporary \<Rightarrow> temporary | _ \<Rightarrow> False)"

definition newRecordHeaderError :: "bool \<Rightarrow> string \<Rightarrow> conn \<Rightarrow> conn_error" where
  "newRecordHeaderError conn msg c = RecordHeaderError conn msg (take 5 (c_rawInput c @ replicate 5 0))"

text \<open>The return of the function, or a call of \<open>retryReadRecord\<close>.\<close>

datatype 'r outcome = Return 'r | Retry

abbreviation returned :: "conn_error option \<times> conn \<Rightarrow> conn_error option outcome \<times> conn" where
  "returned r \<equiv> (Return (fst r), snd r)"

definition process_alert :: "record_crypto \<Rightarrow> bytes \<Rightarrow> conn \<Rightarrow> conn_error option outcome \<times> conn" where
  "process_alert rc dat c =
     (if length dat \<noteq> 2 then returned (fail_alert rc alertUnexpectedMessage c)
      else if dat ! 1 = alertCloseNotify then returned (in_setError IoEOF c)
      else if c_vers c = VersionTLS13 then returned (in_setError (RemoteError (dat ! 1)) c)
      else if dat ! 0 = alertLevelWarning then (Retry, c)
      else if dat ! 0 = alertLevelError then returned (in_setError (RemoteError (dat ! 1)) c)
      else returned (fail_alert rc alertUnexpectedMessage c))"

definition process_ccs :: "record_crypto \<Rightarrow> bool \<Rightarrow> bytes \<Rightarrow> conn \<Rightarrow> conn_error option outcome \<times> conn" where
  "process_ccs rc expectChangeCipherSpec dat c =
     (if dat \<noteq> [1] then returned (fail_alert rc alertDecodeError c)
      else if c_hand c \<noteq> [] then returned (fail_alert rc alertUnexpectedMessage c)
      else if c_vers c = VersionTLS13 \<and> \<not> c_isHandshakeComplete c then (Retry, c)
      else if \<not> expectChangeCipherSpec then returned (fail_alert rc alertUnexpectedMessage c)
      else (case changeCipherSpec (c_in c) of
          Inl a \<Rightarrow> returned (fail_alert rc a c)
        | Inr hc \<Rightarrow> (Return None, c\<lparr>c_in := hc\<rparr>)))"

definition process_appdata :: "record_crypto \<Rightarrow> bool \<Rightarrow> bytes \<Rightarrow> conn \<Rightarrow> conn_error option outcome \<times> conn" where
  "process_appdata rc expectChangeCipherSpec dat c =
     (if \<not> c_isHandshakeComplete c \<or> expectChangeCipherSpec then returned (fail_alert rc alertUnexpectedMessage c)
      else if dat = [] then (Retry, c)
      else (Return None, c\<lparr>c_input := dat\<rparr>))"

definition process_handshake :: "record_crypto \<Rightarrow> bool \<Rightarrow> bytes \<Rightarrow> conn \<Rightarrow> conn_error option outcome \<times> conn" where
  "process_handshake rc expectChangeCipherSpec dat c =
     (if dat = [] \<or> expectChangeCipherSpec then returned (fail_alert rc alertUnexpectedMessage c)
      else (Return None, c\<lparr>c_hand := c_hand c @ dat\<rparr>))"

text \<open>What follows \<open>decrypt\<close>.\<close>

definition process_record :: "record_crypto \<Rightarrow> bool \<Rightarrow> u8 \<Rightarrow> bytes \<Rightarrow> conn \<Rightarrow> conn_error option outcome \<times> conn" where
  "process_record rc expectChangeCipherSpec typ dat c =
     (if length dat > maxPlaintext then returned (fail_alert rc alertRecordOverflow c)
      else if hc_cipher (c_in c) = None \<and> typ = recordTypeApplicationData then returned (fail_alert rc alertUnexpectedMessage c)
      else
        let c = (if typ \<noteq> recordTypeAlert \<and> typ \<noteq> recordTypeChangeCipherSpec \<and> length dat > 0 then c\<lparr>c_retryCount := 0\<rparr> else c)
        in if c_vers c = VersionTLS13 \<and> typ \<noteq> recordTypeHandshake \<and> c_hand c \<noteq> []
           then returned (fail_alert rc alertUnexpectedMessage c)
           else if typ = recordTypeAlert then process_alert rc dat c
           else if typ = recordTypeChangeCipherSpec then process_ccs rc expectChangeCipherSpec dat c
           else if typ = recordTypeApplicationData then process_appdata rc expectChangeCipherSpec dat c
           else if typ = recordTypeHandshake then process_handshake rc expectChangeCipherSpec dat c
           else returned (fail_alert rc alertUnexpectedMessage c))"

text \<open>The reading of the header with its checks: an error, or the length of the payload.\<close>

definition read_header :: "record_crypto \<Rightarrow> conn \<Rightarrow> (conn_error option + nat) \<times> conn" where
  "read_header rc c = (case readFromUntil recordHeaderLen c of
     (Some err, c) \<Rightarrow>
       let err = (if err = IoUnexpectedEOF \<and> c_rawInput c = [] then IoEOF else err);
           c = (if is_temporary err then c else snd (in_setError err c))
       in (Inl (Some err), c)
   | (None, c) \<Rightarrow>
       let hdr = take recordHeaderLen (c_rawInput c);
           typ = hdr ! 0;
           vers = u16_of (hdr ! 1) (hdr ! 2);
           expectedVers = (if c_vers c = VersionTLS13 then VersionTLS12 else c_vers c);
           n = unat (u16_of (hdr ! 3) (hdr ! 4))
       in if \<not> c_isHandshakeComplete c \<and> typ = 0x80 then
            apfst Inl (alert_and_fail rc alertProtocolVersion
              (newRecordHeaderError False ''unsupported SSLv2 handshake received'' c) c)
          else if c_haveVers c \<and> vers \<noteq> expectedVers then
            apfst Inl (alert_and_fail rc alertProtocolVersion
              (newRecordHeaderError False ''received record with unexpected version'' c) c)
          else if \<not> c_haveVers c \<and> ((typ \<noteq> recordTypeAlert \<and> typ \<noteq> recordTypeHandshake) \<or> vers \<ge> 0x1000) then
            apfst Inl (in_setError (newRecordHeaderError True ''first record does not look like a TLS handshake'' c) c)
          else if c_vers c = VersionTLS13 \<and> n > maxCiphertextTLS13 \<or> n > maxCiphertext then
            apfst Inl (alert_and_fail rc alertRecordOverflow (newRecordHeaderError False ''oversized record received'' c) c)
          else (Inr n, c))"

definition read_one :: "record_crypto \<Rightarrow> bool \<Rightarrow> conn \<Rightarrow> conn_error option outcome \<times> conn" where
  "read_one rc expectChangeCipherSpec c =
     (if hc_err (c_in c) \<noteq> None then (Return (hc_err (c_in c)), c)
      else if c_input c \<noteq> [] then
        returned (in_setError (ConnErr ''tls: internal error: attempted to read record with pending application data'') c)
      else (case read_header rc c of
        (Inl err, c) \<Rightarrow> (Return err, c)
      | (Inr n, c) \<Rightarrow> (case readFromUntil (recordHeaderLen + n) c of
          (Some err, c) \<Rightarrow> (Return (Some err), if is_temporary err then c else snd (in_setError err c))
        | (None, c) \<Rightarrow>
            let record = take (recordHeaderLen + n) (c_rawInput c);
                c = c\<lparr>c_rawInput := drop (recordHeaderLen + n) (c_rawInput c)\<rparr>
            in (case decrypt rc (c_in c) record of
                 (Inl (AlertErr a), hc) \<Rightarrow> returned (fail_alert rc a (c\<lparr>c_in := hc\<rparr>))
               | (Inl e, hc) \<Rightarrow> (Return (Some e), c\<lparr>c_in := hc\<rparr>)
               | (Inr (dat, typ), hc) \<Rightarrow> process_record rc expectChangeCipherSpec typ dat (c\<lparr>c_in := hc\<rparr>)))))"

text \<open>A retry keeps the count of useless records, so at most \<open>maxUselessRecords\<close> follow each other.\<close>

lemma readFromUntil_state:
  "readFromUntil n c = (e, c') \<Longrightarrow> c' = c\<lparr>c_rawInput := c_rawInput c', c_net := c_net c'\<rparr>"
  by (auto simp: readFromUntil_def Let_def split: if_splits prod.splits)

lemma read_header_ok:
  assumes "read_header rc c = (Inr n, c')"
  shows "readFromUntil recordHeaderLen c = (None, c')"
  using assms by (auto simp: read_header_def Let_def apfst_def map_prod_def split: prod.splits option.splits if_splits)

lemma process_record_retry:
  assumes "process_record rc e typ dat c = (Retry, c')"
  shows "c' = c"
  using assms
  by (auto simp: process_record_def Let_def process_alert_def process_ccs_def process_appdata_def process_handshake_def
      split: if_splits sum.splits)

lemma read_one_retry_count:
  assumes "read_one rc e c = (Retry, c')"
  shows "c_retryCount c' = c_retryCount c"
proof -
  obtain n c1 c2 hc dat t where h: "read_header rc c = (Inr n, c1)" and b: "readFromUntil (recordHeaderLen + n) c1 = (None, c2)"
    and p: "process_record rc e t dat (c2\<lparr>c_rawInput := drop (recordHeaderLen + n) (c_rawInput c2), c_in := hc\<rparr>) = (Retry, c')"
    using assms by (auto simp: read_one_def Let_def split: if_splits prod.splits sum.splits option.splits conn_error.splits)
  have "c_retryCount c2 = c_retryCount c1" "c_retryCount c1 = c_retryCount c"
    using readFromUntil_state [OF b] readFromUntil_state [OF read_header_ok [OF h]]
    by (metis conn.select_convs(14) conn.surjective conn.update_convs(7,17))+
  then show ?thesis
    using process_record_retry [OF p] by simp
qed

function readRecordOrCCS :: "record_crypto \<Rightarrow> bool \<Rightarrow> conn \<Rightarrow> conn_error option \<times> conn" where
  "readRecordOrCCS rc expectChangeCipherSpec c = (case read_one rc expectChangeCipherSpec c of
     (Return err, c) \<Rightarrow> (err, c)
   | (Retry, c) \<Rightarrow>
       let c = c\<lparr>c_retryCount := c_retryCount c + 1\<rparr>
       in if c_retryCount c > maxUselessRecords
          then alert_and_fail rc alertUnexpectedMessage (ConnErr ''tls: too many ignored records'') c
          else readRecordOrCCS rc expectChangeCipherSpec c)"
  by pat_completeness auto

termination
  by (relation "measure (\<lambda>(rc, e, c). 33 - c_retryCount c)") (auto dest!: sym [of "(Retry, _)"] read_one_retry_count)

declare readRecordOrCCS.simps [simp del]

end
