(* ===== verification/Connection_Reading.thy ===== *)
theory Connection_Reading
  imports Connection
begin

text \<open>
  The reading side of a connection: what the operations leave alone, the ways in which reading a
  record ends, and the loop that gathers handshake bytes.
\<close>

section \<open>What the operations leave alone\<close>

text \<open>
  The connection without the writing side: writing, alerts included, does not change this part.
\<close>

definition reading :: "conn \<Rightarrow> conn" where
  "reading c = c\<lparr>c_out := c_in c, c_sendBuf := [], c_bytesSent := 0, c_packetsSent := 0, c_rand := [], c_sent := [],
     c_writeErr := None\<rparr>"

lemma readingD:
  assumes "reading c' = reading c"
  shows "c_in c' = c_in c" "c_rawInput c' = c_rawInput c" "c_input c' = c_input c" "c_hand c' = c_hand c" "c_net c' = c_net c"
    "c_vers c' = c_vers c" "c_haveVers c' = c_haveVers c" "c_isHandshakeComplete c' = c_isHandshakeComplete c"
    "c_retryCount c' = c_retryCount c" "c_netErr c' = c_netErr c" "c_isClient c' = c_isClient c"
    "c_buffering c' = c_buffering c"
    "c_DynamicRecordSizingDisabled c' = c_DynamicRecordSizingDisabled c"
  using assms by (cases c; cases c'; simp add: reading_def)+

lemma reading_updates [simp]:
  "reading (c\<lparr>c_out := out\<rparr>) = reading c" "reading (c\<lparr>c_sendBuf := buf\<rparr>) = reading c" "reading (c\<lparr>c_rand := rand\<rparr>) = reading c"
  "reading (c\<lparr>c_bytesSent := n\<rparr>) = reading c" "reading (c\<lparr>c_packetsSent := n\<rparr>) = reading c" "reading (c\<lparr>c_sent := s\<rparr>) = reading c"
  "reading (c\<lparr>c_writeErr := f\<rparr>) = reading c"
  by (simp_all add: reading_def)

lemma conn_write_reading: "conn_write dat c = (e, c') \<Longrightarrow> reading c' = reading c"
  by (auto simp: conn_write_def net_Write_def Let_def split: if_splits option.splits)

lemma maxPayload_reading: "maxPayloadSizeForWrite t c = Some (n, c') \<Longrightarrow> reading c' = reading c"
  using maxPayload_state reading_updates(5) by metis

lemma write_one_reading: "write_one rc t dat c = (r, c') \<Longrightarrow> reading c' = reading c"
  by (auto simp: write_one_def Let_def dest!: maxPayload_reading conn_write_reading
      split: option.splits prod.splits sum.splits if_splits)

lemma write_records_step:
  assumes "dat \<noteq> []" "write_one rc t dat c = (Inr m, c1)" "write_records rc t (drop m dat) c1 = (n, e, c')"
  shows "write_records rc t dat c = (m + n, e, c')"
  using assms by (subst write_records.simps) simp

lemma write_records_cases:
  assumes "write_records rc t dat c = (n, e, c')"
  obtains (finish) "dat = []" "n = 0" "e = None" "c' = c"
    | (fail) err where "dat \<noteq> []" "write_one rc t dat c = (Inl err, c')" "n = 0" "e = Some err"
    | (step) m n' c1 where "dat \<noteq> []" "write_one rc t dat c = (Inr m, c1)" "0 < m" "m \<le> length dat" "m \<le> maxPlaintext"
        "write_records rc t (drop m dat) c1 = (n', e, c')" "n = m + n'"
proof (cases "dat = []")
  case True
  then show ?thesis
    using assms that(1) by (simp add: write_records.simps)
next
  case False
  obtain r c1 where w: "write_one rc t dat c = (r, c1)"
    by (cases "write_one rc t dat c")
  show ?thesis
  proof (cases r)
    case (Inl err)
    then show ?thesis
      using assms False w that(2) by (simp add: write_records.simps)
  next
    case (Inr m)
    then show ?thesis
      using assms False w that(3) write_one_pos [OF w [unfolded Inr] False]
      by (cases "write_records rc t (drop m dat) c1") (simp add: write_records.simps [of rc t dat c])
  qed
qed

lemma write_records_reading: "write_records rc t dat c = (n, e, c') \<Longrightarrow> reading c' = reading c"
proof (induction "length dat" arbitrary: dat n c rule: less_induct)
  case less
  from less.prems show ?case
  proof (cases rule: write_records_cases)
    case (step m n' c1)
    then have "reading c' = reading c1"
      using less.hyps [of "drop m dat"] by simp
    then show ?thesis
      using write_one_reading [OF step(2)] by simp
  qed (auto dest: write_one_reading)
qed

lemma sendAlertLocked_reading: "sendAlertLocked rc a c = (e, c') \<Longrightarrow> reading c' = reading c"
  by (auto simp: sendAlertLocked_def setErrorLocked_def Let_def dest!: write_records_reading split: prod.splits if_splits)

section \<open>The incoming bytes\<close>

definition incoming :: "conn \<Rightarrow> bytes" where
  "incoming c = c_rawInput c @ concat (c_net c)"

lemma read_pieces_incoming:
  "read_pieces n raw net = (raw', net') \<Longrightarrow> raw' @ concat net' = raw @ concat net \<and> (n \<le> length raw' \<longleftrightarrow> n \<le> length (raw @ concat net))"
  by (induction n raw net rule: read_pieces.induct) (auto split: if_splits)

lemma readFromUntil_incoming:
  assumes "readFromUntil n c = (e, c')"
  shows "incoming c' = incoming c" "e = None \<longleftrightarrow> n \<le> length (incoming c)" "e = None \<Longrightarrow> n \<le> length (c_rawInput c')"
    "reading c' = reading (c\<lparr>c_rawInput := c_rawInput c', c_net := c_net c'\<rparr>)"
    "c_hand c' = c_hand c" "c_input c' = c_input c" "c_in c' = c_in c" "c_out c' = c_out c"
    "c_vers c' = c_vers c" "c_haveVers c' = c_haveVers c" "c_isHandshakeComplete c' = c_isHandshakeComplete c"
    "c_netErr c' = c_netErr c" "e \<noteq> None \<Longrightarrow> is_temporary (the e) \<Longrightarrow> e = Some (c_netErr c)"
proof -
  obtain raw net where p: "read_pieces n (c_rawInput c) (c_net c) = (raw, net)"
    by (cases "read_pieces n (c_rawInput c) (c_net c)")
  note q = read_pieces_incoming [OF p]
  show "incoming c' = incoming c" "e = None \<longleftrightarrow> n \<le> length (incoming c)" "e = None \<Longrightarrow> n \<le> length (c_rawInput c')"
    "reading c' = reading (c\<lparr>c_rawInput := c_rawInput c', c_net := c_net c'\<rparr>)"
    "c_hand c' = c_hand c" "c_input c' = c_input c" "c_in c' = c_in c" "c_out c' = c_out c"
    "c_vers c' = c_vers c" "c_haveVers c' = c_haveVers c" "c_isHandshakeComplete c' = c_isHandshakeComplete c"
    "c_netErr c' = c_netErr c" "e \<noteq> None \<Longrightarrow> is_temporary (the e) \<Longrightarrow> e = Some (c_netErr c)"
    using assms q by (auto simp: readFromUntil_def p Let_def incoming_def is_temporary_def split: if_splits)
qed

lemma in_setError_result:
  assumes "in_setError err c = (e, c')"
  shows "e \<noteq> None" "hc_err (c_in c') = e" "c_hand c' = c_hand c" "c_input c' = c_input c" "incoming c' = incoming c"
  using assms by (auto simp: in_setError_def setErrorLocked_def Let_def incoming_def)

lemma reading_incoming: "reading c' = reading c \<Longrightarrow> incoming c' = incoming c"
  using readingD(2,5) [of c' c] by (simp add: incoming_def)

text \<open>Decryption changes only the state of the cipher and the sequence number.\<close>

definition unkeyed :: "halfConn \<Rightarrow> halfConn" where
  "unkeyed hc = hc\<lparr>hc_cipher := None, hc_seq := []\<rparr>"

lemma unkeyed_updates [simp]: "unkeyed (hc\<lparr>hc_cipher := c\<rparr>) = unkeyed hc" "unkeyed (hc\<lparr>hc_seq := s\<rparr>) = unkeyed hc"
  by (simp_all add: unkeyed_def)

lemma unkeyedD:
  assumes "unkeyed hc' = unkeyed hc"
  shows "hc_err hc' = hc_err hc" "hc_version hc' = hc_version hc" "hc_mac hc' = hc_mac hc"
    "hc_nextCipher hc' = hc_nextCipher hc" "hc_nextMac hc' = hc_nextMac hc" "hc_trafficSecret hc' = hc_trafficSecret hc"
  using assms by (cases hc; cases hc'; simp add: unkeyed_def)+

lemma incSeq_keeps: "incSeq hc = Inr hc' \<Longrightarrow> unkeyed hc' = unkeyed hc"
  by (auto simp: incSeq_def split: option.splits)

lemma open_record_keeps: "open_record rc hc record = (r, hc') \<Longrightarrow> unkeyed hc' = unkeyed hc"
  by (auto simp: open_record_def Let_def split: if_splits prod.splits sum.splits option.splits)

lemma decrypt_keeps:
  assumes "decrypt rc hc record = (r, hc')"
  shows "unkeyed hc' = unkeyed hc"
proof -
  obtain r1 hc1 where o1: "open_record rc hc record = (r1, hc1)"
    by (cases "open_record rc hc record")
  show ?thesis
    using assms open_record_keeps [OF o1] unfolding decrypt_def o1
    by (auto split: if_splits sum.splits option.splits dest!: incSeq_keeps)
qed

text \<open>
  An operation of the reading side fails: an error is returned, nothing is delivered, the keys are
  not switched, and the error stays, unless it is the temporary error of the transport or a panic.
\<close>

definition same_keys :: "halfConn \<Rightarrow> halfConn \<Rightarrow> bool" where
  "same_keys hc' hc \<longleftrightarrow> unkeyed (hc'\<lparr>hc_err := None\<rparr>) = unkeyed (hc\<lparr>hc_err := None\<rparr>)"

lemma same_keys_refl [simp]: "same_keys hc hc"
  by (simp add: same_keys_def)

lemma same_keys_err [simp]: "same_keys (hc'\<lparr>hc_err := e\<rparr>) hc \<longleftrightarrow> same_keys hc' hc"
  by (simp add: same_keys_def)

lemma same_keys_unkeyed: "unkeyed hc' = unkeyed hc \<Longrightarrow> same_keys hc' hc"
  by (cases hc; cases hc') (simp add: same_keys_def unkeyed_def)

lemma same_keysD:
  assumes "same_keys hc' hc"
  shows "hc_version hc' = hc_version hc" "hc_mac hc' = hc_mac hc" "hc_nextCipher hc' = hc_nextCipher hc"
    "hc_nextMac hc' = hc_nextMac hc" "hc_trafficSecret hc' = hc_trafficSecret hc"
  using unkeyedD(2-6) [OF assms [unfolded same_keys_def]] by simp_all

definition fails :: "conn \<Rightarrow> conn_error option \<times> conn \<Rightarrow> bool" where
  "fails c r \<longleftrightarrow> (case r of (e, c') \<Rightarrow> e \<noteq> None \<and> c_hand c' = c_hand c \<and> c_input c' = c_input c \<and> same_keys (c_in c') (c_in c)
     \<and> (hc_err (c_in c') \<noteq> None
        \<or> hc_err (c_in c') = hc_err (c_in c) \<and> e = Some (c_netErr c) \<and> is_temporary (c_netErr c)
        \<or> is_panic e))"

lemma fails_from:
  assumes "fails c1 q" "c_hand c1 = c_hand c" "c_input c1 = c_input c" "unkeyed (c_in c1) = unkeyed (c_in c)" "c_netErr c1 = c_netErr c"
  shows "fails c q"
  using assms unkeyedD(1) [OF assms(4)] same_keys_unkeyed [OF assms(4)]
  by (auto simp: fails_def same_keys_def split: prod.splits)

lemma fails_in_setError: "fails c (in_setError err c)"
  using in_setError_result [of err c] by (auto simp: fails_def in_setError_def setErrorLocked_def Let_def)

lemma sendAlertLocked_error: "a \<noteq> alertCloseNotify \<Longrightarrow> sendAlertLocked rc a c = (e, c') \<Longrightarrow> e \<noteq> None"
  by (auto simp: sendAlertLocked_def setErrorLocked_def Let_def is_panic_def split: prod.splits if_splits option.splits)

lemma fails_alert:
  assumes "a \<noteq> alertCloseNotify"
  shows "fails c (fail_alert rc a c)" "fails c (alert_and_fail rc a err c)"
proof -
  obtain e c1 where s: "sendAlertLocked rc a c = (e, c1)"
    by (cases "sendAlertLocked rc a c")
  obtain x where e: "e = Some x"
    using sendAlertLocked_error [OF assms s] by auto
  have r: "c_hand c1 = c_hand c" "c_input c1 = c_input c" "c_in c1 = c_in c" "c_netErr c1 = c_netErr c"
    using readingD(1,3,4,10) [OF sendAlertLocked_reading [OF s]] by simp_all
  note f = fails_from [OF fails_in_setError [of c1 x], of c] fails_from [OF fails_in_setError [of c1 err], of c]
  show "fails c (fail_alert rc a c)" "fails c (alert_and_fail rc a err c)"
    using f r by (auto simp: fail_alert_def alert_and_fail_def s e fails_def)
qed

text \<open>An error of the transport: it is recorded, unless it is temporary.\<close>

lemma fails_transport:
  assumes "readFromUntil n c = (Some err, c1)" "err' = err \<or> \<not> is_temporary err'" "err' = IoEOF \<or> err' = err"
  shows "fails c (Some err', if is_temporary err' then c1 else snd (in_setError err' c1))"
proof -
  note k = readFromUntil_incoming(5-7,12,13) [OF assms(1)]
  show ?thesis
  proof (cases "is_temporary err'")
    case True
    then have "err' = err"
      using assms(2) by simp
    then show ?thesis
      using True k by (auto simp: fails_def)
  next
    case False
    have "fails c1 (Some err', snd (in_setError err' c1))"
      using fails_in_setError [of c1 err'] by (auto simp: fails_def in_setError_def setErrorLocked_def Let_def)
    then show ?thesis
      using False fails_from [of c1 _ c] k by simp
  qed
qed

section \<open>What reading a record does\<close>

text \<open>
  A whole record on the wire, with the header that the reader accepts, and the records that are
  dropped: warnings, a ChangeCipherSpec during a handshake of TLS 1.3, empty application data.
\<close>

definition whole_record :: "conn \<Rightarrow> bytes \<Rightarrow> bool" where
  "whole_record c r \<longleftrightarrow> recordHeaderLen \<le> length r \<and> length r = recordHeaderLen + unat (u16_of (r ! 3) (r ! 4))
     \<and> length r \<le> recordHeaderLen + (if c_vers c = VersionTLS13 then maxCiphertextTLS13 else maxCiphertext)
     \<and> (c_haveVers c \<longrightarrow> u16_of (r ! 1) (r ! 2) = (if c_vers c = VersionTLS13 then VersionTLS12 else c_vers c))"

definition ignorable :: "conn \<Rightarrow> u8 \<Rightarrow> bytes \<Rightarrow> bool" where
  "ignorable c typ dat \<longleftrightarrow>
     (typ = recordTypeAlert \<and> c_vers c \<noteq> VersionTLS13 \<and> (\<exists>a. dat = [alertLevelWarning, a] \<and> a \<noteq> alertCloseNotify))
     \<or> (typ = recordTypeChangeCipherSpec \<and> c_vers c = VersionTLS13 \<and> \<not> c_isHandshakeComplete c \<and> dat = [1] \<and> c_hand c = [])
     \<or> (typ = recordTypeApplicationData \<and> c_isHandshakeComplete c \<and> dat = [])"

fun skip_records :: "record_crypto \<Rightarrow> conn \<Rightarrow> halfConn \<Rightarrow> bytes list \<Rightarrow> halfConn option" where
  "skip_records rc c hc [] = Some hc"
| "skip_records rc c hc (r # rs) = (case decrypt rc hc r of
     (Inl e, hc) \<Rightarrow> None
   | (Inr (dat, typ), hc) \<Rightarrow> if ignorable c typ dat then skip_records rc c hc rs else None)"

text \<open>
  The three ways in which \<open>readRecordOrCCS\<close> succeeds, on the content of a record that was decrypted
  with the state \<open>hc\<close> as result. They exclude each other, and nothing else of the connection changes.
\<close>

definition delivers :: "bool \<Rightarrow> conn \<Rightarrow> halfConn \<Rightarrow> u8 \<Rightarrow> bytes \<Rightarrow> conn \<Rightarrow> bool" where
  "delivers expectChangeCipherSpec c hc typ dat c' \<longleftrightarrow>
     (typ = recordTypeHandshake \<and> \<not> expectChangeCipherSpec \<and> dat \<noteq> []
        \<and> c_hand c' = c_hand c @ dat \<and> c_input c' = [] \<and> c_in c' = hc \<and> c_retryCount c' = 0)
     \<or> (typ = recordTypeChangeCipherSpec \<and> expectChangeCipherSpec \<and> dat = [1] \<and> c_hand c = []
        \<and> c_hand c' = [] \<and> c_input c' = [] \<and> changeCipherSpec hc = Inr (c_in c'))
     \<or> (typ = recordTypeApplicationData \<and> \<not> expectChangeCipherSpec \<and> c_isHandshakeComplete c \<and> hc_cipher hc \<noteq> None \<and> dat \<noteq> []
        \<and> c_hand c' = c_hand c \<and> c_input c' = dat \<and> c_in c' = hc \<and> c_retryCount c' = 0)"

definition rest_same :: "conn \<Rightarrow> conn \<Rightarrow> bool" where
  "rest_same c c' \<longleftrightarrow> c' = c\<lparr>c_in := c_in c', c_rawInput := c_rawInput c', c_net := c_net c', c_hand := c_hand c',
     c_input := c_input c', c_retryCount := c_retryCount c'\<rparr>"

lemma not_delivered:
  "a \<noteq> alertCloseNotify \<Longrightarrow> fst (fail_alert rc a x) \<noteq> None" "fst (in_setError err x) \<noteq> None"
  using fails_alert(1) [of a x rc] fails_in_setError [of x err] by (auto simp: fails_def)

lemma changeCipherSpec_alert: "changeCipherSpec hc = Inl a \<Longrightarrow> a \<noteq> alertCloseNotify"
  by (auto simp: changeCipherSpec_def split: if_splits)

lemma process_alert_Return: "process_alert rc dat c \<noteq> (Return None, c')"
  by (simp add: process_alert_def not_delivered)

lemma process_ccs_Return:
  assumes "process_ccs rc e dat c = (Return None, c')"
  shows "e \<and> dat = [1] \<and> c_hand c = [] \<and> changeCipherSpec (c_in c) = Inr (c_in c') \<and> c' = c\<lparr>c_in := c_in c'\<rparr>"
proof (cases "changeCipherSpec (c_in c)")
  case (Inl a)
  then show ?thesis
    using assms changeCipherSpec_alert [OF Inl] by (simp add: process_ccs_def not_delivered split: if_split_asm)
next
  case (Inr hc)
  then show ?thesis
    using assms by (simp add: process_ccs_def not_delivered split: if_split_asm) auto
qed

lemma process_appdata_Return:
  "process_appdata rc e dat c = (Return None, c') \<Longrightarrow> \<not> e \<and> c_isHandshakeComplete c \<and> dat \<noteq> [] \<and> c' = c\<lparr>c_input := dat\<rparr>"
  by (simp add: process_appdata_def not_delivered split: if_split_asm)

lemma process_handshake_Return:
  "process_handshake rc e dat c = (Return None, c') \<Longrightarrow> \<not> e \<and> dat \<noteq> [] \<and> c' = c\<lparr>c_hand := c_hand c @ dat\<rparr>"
  by (simp add: process_handshake_def not_delivered split: if_split_asm)

lemma process_record_Return:
  assumes "process_record rc e t dat c = (Return None, c')" "c_input c = []"
  shows "delivers e c (c_in c) t dat c' \<and> rest_same c c' \<and> incoming c' = incoming c
    \<and> (t = recordTypeChangeCipherSpec \<longrightarrow> c_retryCount c' = c_retryCount c)"
proof -
  define c1 where "c1 = (if t \<noteq> recordTypeAlert \<and> t \<noteq> recordTypeChangeCipherSpec \<and> length dat > 0 then c\<lparr>c_retryCount := 0\<rparr> else c)"
  have c1: "c_hand c1 = c_hand c" "c_in c1 = c_in c" "c_isHandshakeComplete c1 = c_isHandshakeComplete c"
    by (simp_all add: c1_def)
  have key: "t = recordTypeApplicationData \<longrightarrow> hc_cipher (c_in c) \<noteq> None"
    using assms(1) by (auto simp: process_record_def not_delivered split: if_split_asm)
  have "t = recordTypeChangeCipherSpec \<and> process_ccs rc e dat c1 = (Return None, c')
      \<or> t = recordTypeApplicationData \<and> process_appdata rc e dat c1 = (Return None, c')
      \<or> t = recordTypeHandshake \<and> process_handshake rc e dat c1 = (Return None, c')"
    using assms(1) process_alert_Return unfolding process_record_def c1_def [symmetric] Let_def
    by (simp add: not_delivered split: if_split_asm)
  then show ?thesis
  proof (elim disjE conjE)
    assume t: "t = recordTypeChangeCipherSpec" and p: "process_ccs rc e dat c1 = (Return None, c')"
    then have "c1 = c"
      by (simp add: c1_def)
    then obtain hc where "c' = c\<lparr>c_in := hc\<rparr>" "e" "dat = [1]" "c_hand c = []" "changeCipherSpec (c_in c) = Inr hc"
      using process_ccs_Return [OF p] by auto
    then show ?thesis
      using t assms(2) by (simp add: delivers_def rest_same_def incoming_def)
  next
    assume t: "t = recordTypeApplicationData" and p: "process_appdata rc e dat c1 = (Return None, c')"
    note q = process_appdata_Return [OF p]
    then have "c' = c\<lparr>c_retryCount := 0, c_input := dat\<rparr>"
      using t by (simp add: c1_def)
    then show ?thesis
      using t q c1(3) key by (simp add: delivers_def rest_same_def incoming_def)
  next
    assume t: "t = recordTypeHandshake" and p: "process_handshake rc e dat c1 = (Return None, c')"
    note q = process_handshake_Return [OF p]
    then have "c' = c\<lparr>c_retryCount := 0, c_hand := c_hand c @ dat\<rparr>"
      using t by (simp add: c1_def)
    then show ?thesis
      using t q assms(2) by (simp add: delivers_def rest_same_def incoming_def)
  qed
qed

lemma process_record_ignorable:
  assumes "process_record rc e t dat c = (Retry, c')"
  shows "ignorable c t dat"
proof -
  have "process_alert rc dat c = (Retry, c') \<Longrightarrow> c_vers c \<noteq> VersionTLS13 \<and> (\<exists>a. dat = [alertLevelWarning, a] \<and> a \<noteq> alertCloseNotify)" for c
    by (cases dat; cases "tl dat") (auto simp: process_alert_def split: if_split_asm)
  moreover have "process_ccs rc e dat c = (Retry, c') \<Longrightarrow> c_vers c = VersionTLS13 \<and> \<not> c_isHandshakeComplete c \<and> dat = [1] \<and> c_hand c = []" for c
    by (simp add: process_ccs_def split: if_split_asm sum.split_asm)
  moreover have "process_appdata rc e dat c = (Retry, c') \<Longrightarrow> c_isHandshakeComplete c \<and> dat = []" for c
    by (simp add: process_appdata_def split: if_split_asm)
  moreover have "process_handshake rc e dat c \<noteq> (Retry, c')" for c
    by (simp add: process_handshake_def)
  ultimately show ?thesis
    using assms by (auto simp: process_record_def Let_def ignorable_def split: if_split_asm)
qed

lemma read_header_fails:
  assumes "read_header rc c = (Inl err, c')"
  shows "fails c (err, c')"
proof -
  obtain e c1 where r: "readFromUntil recordHeaderLen c = (e, c1)"
    by (cases "readFromUntil recordHeaderLen c")
  show ?thesis
  proof (cases e)
    case (Some x)
    let ?x = "if x = IoUnexpectedEOF \<and> c_rawInput c1 = [] then IoEOF else x"
    have "(err, c') = (Some ?x, if is_temporary ?x then c1 else snd (in_setError ?x c1))"
      using assms Some by (simp add: read_header_def r Let_def)
    then show ?thesis
      using fails_transport [OF r [unfolded Some], of ?x] by (auto simp: is_temporary_def split: if_splits)
  next
    case None
    note k = readFromUntil_incoming(5-7,12) [OF r]
    have al: "apfst Inl (alert_and_fail rc a x c1) = (Inl err :: conn_error option + nat, c') \<Longrightarrow> a \<noteq> 0 \<Longrightarrow> fails c1 (err, c')" for a x
      using fails_alert(2) [of a c1 rc x] by (cases "alert_and_fail rc a x c1") simp
    have er: "apfst Inl (in_setError x c1) = (Inl err :: conn_error option + nat, c') \<Longrightarrow> fails c1 (err, c')" for x
      using fails_in_setError [of c1 x] by (cases "in_setError x c1") simp
    have "fails c1 (err, c')"
      using assms None unfolding read_header_def r Let_def prod.case option.case
      by (simp split: if_split_asm) (use al er in auto)
    then show ?thesis
      using fails_from [of c1 "(err, c')" c] k by simp
  qed
qed

lemma read_header_accepts:
  assumes "read_header rc c = (Inr n, c1)"
  defines "h \<equiv> take recordHeaderLen (c_rawInput c1)"
  shows "n = unat (u16_of (h ! 3) (h ! 4))" "n \<le> (if c_vers c = VersionTLS13 then maxCiphertextTLS13 else maxCiphertext)"
    "c_haveVers c \<Longrightarrow> u16_of (h ! 1) (h ! 2) = (if c_vers c = VersionTLS13 then VersionTLS12 else c_vers c)"
proof -
  note r = read_header_ok [OF assms(1)]
  note k = readFromUntil_incoming(9,10) [OF r]
  show "n = unat (u16_of (h ! 3) (h ! 4))" "n \<le> (if c_vers c = VersionTLS13 then maxCiphertextTLS13 else maxCiphertext)"
    "c_haveVers c \<Longrightarrow> u16_of (h ! 1) (h ! 2) = (if c_vers c = VersionTLS13 then VersionTLS12 else c_vers c)"
    using assms(1) unfolding read_header_def r prod.case option.case Let_def h_def [symmetric] k
    by (auto simp: apfst_def map_prod_def not_less split: if_split_asm prod.split_asm)
qed

lemma read_one_cases:
  assumes "read_one rc e c = (r, c')" "hc_err (c_in c) = None" "c_input c = []"
  obtains (header) err where "read_header rc c = (Inl err, c')" "r = Return err"
    | (body) n c1 c2 err where "read_header rc c = (Inr n, c1)" "readFromUntil (recordHeaderLen + n) c1 = (Some err, c2)"
        "r = Return (Some err)" "c' = (if is_temporary err then c2 else snd (in_setError err c2))"
    | (bad) n c1 c2 x hc where "read_header rc c = (Inr n, c1)" "readFromUntil (recordHeaderLen + n) c1 = (None, c2)"
        "decrypt rc (c_in c2) (take (recordHeaderLen + n) (c_rawInput c2)) = (Inl x, hc)"
        "(r, c') = (case x of
            AlertErr a \<Rightarrow> returned (fail_alert rc a (c2\<lparr>c_rawInput := drop (recordHeaderLen + n) (c_rawInput c2), c_in := hc\<rparr>))
          | _ \<Rightarrow> (Return (Some x), c2\<lparr>c_rawInput := drop (recordHeaderLen + n) (c_rawInput c2), c_in := hc\<rparr>))"
    | (good) n c1 c2 dat t hc where "read_header rc c = (Inr n, c1)" "readFromUntil (recordHeaderLen + n) c1 = (None, c2)"
        "decrypt rc (c_in c2) (take (recordHeaderLen + n) (c_rawInput c2)) = (Inr (dat, t), hc)"
        "(r, c') = process_record rc e t dat (c2\<lparr>c_rawInput := drop (recordHeaderLen + n) (c_rawInput c2), c_in := hc\<rparr>)"
proof -
  obtain h c1 where h: "read_header rc c = (h, c1)"
    by (cases "read_header rc c")
  show thesis
  proof (cases h)
    case (Inl err)
    then show thesis
      using assms h header by (simp add: read_one_def)
  next
    case (Inr n)
    obtain f c2 where f: "readFromUntil (recordHeaderLen + n) c1 = (f, c2)"
      by (cases "readFromUntil (recordHeaderLen + n) c1")
    show thesis
    proof (cases f)
      case (Some err)
      then show thesis
        using assms h Inr f by (intro body [of n c1 err c2]) (simp_all add: read_one_def)
    next
      case None
      obtain d hc where d: "decrypt rc (c_in c2) (take (recordHeaderLen + n) (c_rawInput c2)) = (d, hc)"
        by (cases "decrypt rc (c_in c2) (take (recordHeaderLen + n) (c_rawInput c2))")
      show thesis
      proof (cases d)
        case (Inl x)
        then show thesis
          using assms h Inr f None d
          by (intro bad [of n c1 c2 x hc]) (auto simp: read_one_def Let_def split: conn_error.splits)
      next
        case dt: (Inr dt)
        obtain dat t where "dt = (dat, t)"
          by (cases dt)
        then show thesis
          using assms h Inr f None d dt
          by (intro good [of n c1 c2 dat t hc]) (simp_all add: read_one_def Let_def)
      qed
    qed
  qed
qed

lemma decrypt_error:
  assumes "decrypt rc hc record = (Inl x, hc')"
  shows "(\<exists>a. x = AlertErr a \<and> a \<noteq> alertCloseNotify) \<or> (\<exists>m. x = ConnPanic m)"
proof -
  have s: "decrypt_switch rc hc c record = (Inl e, c') \<Longrightarrow> e = AlertErr alertBadRecordMAC \<or> (\<exists>m. e = ConnPanic m)" for c e c'
    by (auto simp: decrypt_switch_def Let_def split: cipher.splits option.splits if_splits prod.splits)
  have i: "inner_plaintext t p = Inl x \<Longrightarrow> x \<noteq> 0" for t p x
    by (auto simp: inner_plaintext_def split: if_splits list.splits)
  have q: "incSeq h = Inl e \<Longrightarrow> \<exists>m. e = ConnPanic m" for h e
    by (auto simp: incSeq_def split: option.splits)
  have o1: "open_record rc hc record = (Inl y, h) \<Longrightarrow> (\<exists>a. y = AlertErr a \<and> a \<noteq> 0) \<or> (\<exists>m. y = ConnPanic m)" for y h
    by (auto simp: open_record_def Let_def split: if_splits prod.splits sum.splits option.splits dest!: s i)
  obtain r1 hc1 where o2: "open_record rc hc record = (r1, hc1)"
    by (cases "open_record rc hc record")
  show ?thesis
    using assms o1 [of x hc1] unfolding decrypt_def o2
    by (auto split: if_splits sum.splits option.splits dest!: q)
qed

text \<open>The record that \<open>read_one\<close> takes from the incoming bytes.\<close>

lemma record_taken:
  assumes "read_header rc c = (Inr n, c1)" "readFromUntil (recordHeaderLen + n) c1 = (None, c2)"
  defines "r \<equiv> take (recordHeaderLen + n) (c_rawInput c2)"
    and "c3 \<equiv> c2\<lparr>c_rawInput := drop (recordHeaderLen + n) (c_rawInput c2)\<rparr>"
  shows "whole_record c r" "incoming c = r @ incoming c3" "c3 = c\<lparr>c_rawInput := c_rawInput c3, c_net := c_net c3\<rparr>"
proof -
  note f1 = read_header_ok [OF assms(1)]
  note k1 = readFromUntil_incoming(1,3) [OF f1] and k2 = readFromUntil_incoming(1,3) [OF assms(2)]
  have i: "c_rawInput c1 @ concat (c_net c1) = c_rawInput c2 @ concat (c_net c2)"
    using k2(1) by (simp add: incoming_def)
  have h: "take recordHeaderLen (c_rawInput c1) = take recordHeaderLen (c_rawInput c2)"
    using arg_cong [OF i, of "take 5"] k1(2) k2(2) by simp
  have l: "length r = 5 + n"
    using k2(2) by (simp add: r_def)
  have "take recordHeaderLen (c_rawInput c2) ! j = r ! j" if "j < 5" for j
    using that by (simp add: r_def)
  then show "whole_record c r"
    using read_header_accepts [OF assms(1)] l by (auto simp: whole_record_def h split: if_splits)
  show "incoming c = r @ incoming c3"
    using k1(1) k2(1) by (simp add: r_def c3_def incoming_def flip: append_assoc)
  show "c3 = c\<lparr>c_rawInput := c_rawInput c3, c_net := c_net c3\<rparr>"
    using readFromUntil_state [OF f1] readFromUntil_state [OF assms(2)] by (cases c; cases c1; cases c2) (simp add: c3_def)
qed

text \<open>One round: a record that is delivered, a record that is dropped, or a failure.\<close>

definition round_ok :: "record_crypto \<Rightarrow> bool \<Rightarrow> conn \<Rightarrow> conn_error option outcome \<times> conn \<Rightarrow> bool" where
  "round_ok rc e c q \<longleftrightarrow> (case q of
     (Return (Some x), c') \<Rightarrow> fails c (Some x, c')
   | (Return None, c') \<Rightarrow> \<exists>r hc dat typ. whole_record c r \<and> incoming c = r @ incoming c'
       \<and> decrypt rc (c_in c) r = (Inr (dat, typ), hc) \<and> delivers e c hc typ dat c' \<and> rest_same c c'
       \<and> (typ = recordTypeChangeCipherSpec \<longrightarrow> c_retryCount c' = c_retryCount c)
   | (Retry, c') \<Rightarrow> \<exists>r hc dat typ. whole_record c r \<and> incoming c = r @ incoming c'
       \<and> decrypt rc (c_in c) r = (Inr (dat, typ), hc) \<and> ignorable c typ dat \<and> hc_err hc = None
       \<and> c' = c\<lparr>c_in := hc, c_rawInput := c_rawInput c', c_net := c_net c'\<rparr>)"

lemma round_ok_fails: "fails c q \<Longrightarrow> round_ok rc e c (returned q)"
  by (cases q) (auto simp: round_ok_def fails_def)

definition error_ok :: "conn \<Rightarrow> conn_error option outcome \<times> conn \<Rightarrow> bool" where
  "error_ok c q \<longleftrightarrow> (\<forall>x c'. q = (Return (Some x), c') \<longrightarrow> fails c (Some x, c'))"

lemma error_ok_simps [simp]: "error_ok c (Retry, c')" "error_ok c (Return None, c')"
  by (simp_all add: error_ok_def)

lemma error_ok_fails:
  "fails c q \<Longrightarrow> error_ok c (returned q)" "a \<noteq> alertCloseNotify \<Longrightarrow> error_ok c (returned (fail_alert rc a c))"
  "error_ok c (returned (in_setError err c))"
proof -
  show f: "fails c q \<Longrightarrow> error_ok c (returned q)" for q
    by (cases q) (auto simp: error_ok_def)
  show "a \<noteq> alertCloseNotify \<Longrightarrow> error_ok c (returned (fail_alert rc a c))" "error_ok c (returned (in_setError err c))"
    by (rule f, erule fails_alert(1), rule f, rule fails_in_setError)
qed

lemma process_record_fails: "error_ok c (process_record rc e t dat c)"
proof -
  define c1 where "c1 = (if t \<noteq> recordTypeAlert \<and> t \<noteq> recordTypeChangeCipherSpec \<and> length dat > 0 then c\<lparr>c_retryCount := 0\<rparr> else c)"
  have "error_ok c1 (process_alert rc dat c1)"
    by (simp add: process_alert_def error_ok_fails)
  moreover have "error_ok c1 (process_ccs rc e dat c1)"
    using changeCipherSpec_alert [of "c_in c1"] by (auto simp: process_ccs_def error_ok_fails split: sum.split)
  moreover have "error_ok c1 (process_appdata rc e dat c1)" "error_ok c1 (process_handshake rc e dat c1)"
    by (simp_all add: process_appdata_def process_handshake_def error_ok_fails)
  moreover have move: "error_ok c1 q \<Longrightarrow> error_ok c q" for q
    using fails_from [of c1 _ c] by (auto simp: error_ok_def c1_def split: if_splits)
  ultimately show ?thesis
    unfolding process_record_def c1_def [symmetric] Let_def using error_ok_fails(2) [of _ c rc] error_ok_fails(2) [of _ c1 rc]
    by (simp add: move)
qed

lemma round_ok_good:
  assumes "read_header rc c = (Inr n, c1)" "readFromUntil (recordHeaderLen + n) c1 = (None, c2)" "hc_err (c_in c) = None" "c_input c = []"
    and "decrypt rc (c_in c2) (take (recordHeaderLen + n) (c_rawInput c2)) = (Inr (dat, t), hc)"
  shows "round_ok rc e c (process_record rc e t dat (c2\<lparr>c_rawInput := drop (recordHeaderLen + n) (c_rawInput c2), c_in := hc\<rparr>))"
proof -
  let ?r = "take (recordHeaderLen + n) (c_rawInput c2)"
  note t = record_taken [OF assms(1,2)]
  define c4 where "c4 = c2\<lparr>c_rawInput := drop (recordHeaderLen + n) (c_rawInput c2), c_in := hc\<rparr>"
  have c4: "c4 = c\<lparr>c_in := hc, c_rawInput := c_rawInput c4, c_net := c_net c4\<rparr>" "incoming c = ?r @ incoming c4" "c_in c2 = c_in c"
    using t(2,3) by (cases c; cases c2; simp add: c4_def incoming_def)+
  have d: "decrypt rc (c_in c) ?r = (Inr (dat, t), hc)"
    using assms(5) c4(3) by simp
  note u = decrypt_keeps [OF d]
  have k: "c_hand c4 = c_hand c" "c_input c4 = c_input c" "c_in c4 = hc" "c_netErr c4 = c_netErr c" "c_vers c4 = c_vers c"
      "c_isHandshakeComplete c4 = c_isHandshakeComplete c" "c_retryCount c4 = c_retryCount c"
    using c4(1) by (cases c; cases c4; simp)+
  obtain q c' where p: "process_record rc e t dat c4 = (q, c')"
    by (cases "process_record rc e t dat c4")
  consider (Retry) "q = Retry" | (fail) x where "q = Return (Some x)" | (ok) "q = Return None"
    by (cases q) auto
  then have "round_ok rc e c (q, c')"
  proof cases
    case Retry
    then have "ignorable c t dat" "c' = c4"
      using process_record_ignorable [OF p [unfolded Retry]] process_record_retry [OF p [unfolded Retry]] k by (simp_all add: ignorable_def)
    then show ?thesis
      using Retry t(1) c4(1,2) d unkeyedD(1) [OF u] assms(3) by (auto simp: round_ok_def)
  next
    case fail
    then show ?thesis
      using fails_from [of c4 "(Some x, c')" c] process_record_fails [of c4 rc e t dat] p k u by (simp add: error_ok_def round_ok_def)
  next
    case ok
    note s = process_record_Return [OF p [unfolded ok] k(2) [unfolded assms(4)]]
    have "delivers e c hc t dat c'"
      using s k by (simp add: delivers_def)
    moreover have "rest_same c c'"
      using s c4(1) by (cases c; cases c4; cases c') (simp add: rest_same_def)
    ultimately show ?thesis
      using ok s t(1) c4(2) d k(7) by (auto simp: round_ok_def)
  qed
  then show ?thesis
    using p by (simp add: c4_def)
qed

lemma read_one_round:
  assumes "hc_err (c_in c) = None" "c_input c = []"
  shows "round_ok rc e c (read_one rc e c)"
proof -
  obtain q c' where q: "read_one rc e c = (q, c')"
    by (cases "read_one rc e c")
  from q assms show ?thesis
  proof (cases rule: read_one_cases)
    case (header err)
    then show ?thesis
      using round_ok_fails [OF read_header_fails [OF header(1)], of rc e] q by simp
  next
    case (body n c1 c2 err)
    note k = readFromUntil_incoming(5-7,12) [OF read_header_ok [OF body(1)]]
    have "fails c (Some err, c')"
      using fails_from [OF fails_transport [OF body(2), of err], of c] k body(4) by simp
    then show ?thesis
      using round_ok_fails [of c "(Some err, c')" rc e] body(3) q by simp
  next
    case (bad n c1 c2 x hc)
    let ?c3 = "c2\<lparr>c_rawInput := drop (recordHeaderLen + n) (c_rawInput c2), c_in := hc\<rparr>"
    note t = record_taken(3) [OF bad(1,2)]
    have k: "c_hand c2 = c_hand c" "c_input c2 = c_input c" "c_in c2 = c_in c" "c_netErr c2 = c_netErr c"
      using t by (cases c; cases c2; simp)+
    have move: "fails ?c3 p \<Longrightarrow> fails c p" for p
      using fails_from [of ?c3 p c] k decrypt_keeps [OF bad(3)] by simp
    from decrypt_error [OF bad(3)] show ?thesis
    proof (elim disjE exE conjE)
      fix a assume a: "x = AlertErr a" "a \<noteq> alertCloseNotify"
      then show ?thesis
        using round_ok_fails [OF move [OF fails_alert(1) [OF a(2)]], of rc e] bad(4) q by simp
    next
      fix m assume m: "x = ConnPanic m"
      then have "fails ?c3 (Some x, ?c3)"
        by (simp add: fails_def is_panic_def)
      then show ?thesis
        using round_ok_fails [OF move, of "(Some x, ?c3)" rc e] bad(4) m q by simp
    qed
  next
    case (good n c1 c2 dat t hc)
    then show ?thesis
      using round_ok_good [OF good(1,2) assms good(3), of e] q by simp
  qed
qed

lemma readRecordOrCCS_step:
  "readRecordOrCCS rc e c = (case read_one rc e c of
     (Return err, c) \<Rightarrow> (err, c)
   | (Retry, c) \<Rightarrow>
       if c_retryCount c + 1 > maxUselessRecords
       then alert_and_fail rc alertUnexpectedMessage (ConnErr ''tls: too many ignored records'') (c\<lparr>c_retryCount := c_retryCount c + 1\<rparr>)
       else readRecordOrCCS rc e (c\<lparr>c_retryCount := c_retryCount c + 1\<rparr>))"
  by (subst readRecordOrCCS.simps) (simp add: Let_def split: prod.split outcome.split)

text \<open>
  A call that succeeds: records that are dropped, then one that is delivered.
\<close>

definition reads_record :: "record_crypto \<Rightarrow> bool \<Rightarrow> conn \<Rightarrow> conn \<Rightarrow> bool" where
  "reads_record rc e c c' \<longleftrightarrow> (\<exists>dropped r hc0 hc dat typ.
     (\<forall>x \<in> set (r # dropped). whole_record c x) \<and> incoming c = concat dropped @ r @ incoming c'
     \<and> (dropped \<noteq> [] \<longrightarrow> c_retryCount c + length dropped \<le> maxUselessRecords)
     \<and> skip_records rc c (c_in c) dropped = Some hc0 \<and> decrypt rc hc0 r = (Inr (dat, typ), hc)
     \<and> delivers e c hc typ dat c' \<and> rest_same c c'
     \<and> (typ = recordTypeChangeCipherSpec \<longrightarrow> c_retryCount c' = c_retryCount c + length dropped))"

lemma skip_records_cong:
  assumes "c_vers c' = c_vers c" "c_isHandshakeComplete c' = c_isHandshakeComplete c" "c_hand c' = c_hand c"
  shows "skip_records rc c' hc rs = skip_records rc c hc rs"
proof -
  have "ignorable c' = ignorable c"
    using assms by (intro ext) (simp add: ignorable_def)
  then show ?thesis
    by (induction rs arbitrary: hc) (simp_all split: prod.split sum.split)
qed

lemma reads_record_drop:
  assumes "whole_record c r" "incoming c = r @ incoming c1" "decrypt rc (c_in c) r = (Inr (dat, typ), hc)" "ignorable c typ dat"
    and c1: "c1 = c\<lparr>c_in := hc, c_rawInput := c_rawInput c1, c_net := c_net c1, c_retryCount := c_retryCount c + 1\<rparr>"
    and "c_retryCount c + 1 \<le> maxUselessRecords" "reads_record rc e c1 c'"
  shows "reads_record rc e c c'"
proof -
  have k: "c_hand c1 = c_hand c" "c_in c1 = hc" "c_vers c1 = c_vers c" "c_haveVers c1 = c_haveVers c"
      "c_isHandshakeComplete c1 = c_isHandshakeComplete c" "c_retryCount c1 = c_retryCount c + 1"
    using c1 by (cases c; cases c1; simp)+
  from assms(7) obtain dropped s hc0 hc' dat' typ' where
      w: "\<forall>x \<in> set (s # dropped). whole_record c1 x" and i: "incoming c1 = concat dropped @ s @ incoming c'"
    and n: "dropped \<noteq> [] \<longrightarrow> c_retryCount c1 + length dropped \<le> maxUselessRecords"
    and sk: "skip_records rc c1 hc dropped = Some hc0" and d: "decrypt rc hc0 s = (Inr (dat', typ'), hc')"
    and dl: "delivers e c1 hc' typ' dat' c'" "rest_same c1 c'"
    and n': "typ' = recordTypeChangeCipherSpec \<longrightarrow> c_retryCount c' = c_retryCount c1 + length dropped"
    unfolding reads_record_def k(2) by blast
  have "whole_record c1 = whole_record c"
    by (intro ext) (simp add: whole_record_def k)
  moreover have "skip_records rc c (c_in c) (r # dropped) = Some hc0"
    using assms(3,4) sk skip_records_cong [OF k(3,5,1)] by simp
  moreover have "delivers e c hc' typ' dat' c'"
    using dl(1) k by (simp add: delivers_def)
  moreover have "rest_same c c'"
    using dl(2) c1 by (cases c; cases c1; cases c') (simp add: rest_same_def)
  ultimately show ?thesis
    unfolding reads_record_def using w i n n' d assms(1,2,6) k(6)
    by (intro exI [of _ "r # dropped"] exI [of _ s] exI [of _ hc0] exI [of _ hc'] exI [of _ dat'] exI [of _ typ']) (auto simp: Suc_le_eq)
qed

lemma readRecordOrCCS_effect:
  assumes "readRecordOrCCS rc e c = (err, c')" "hc_err (c_in c) = None" "c_input c = []"
  shows "if err = None then reads_record rc e c c' else fails c (err, c')"
  using assms
proof (induction "33 - c_retryCount c" arbitrary: c rule: less_induct)
  case less
  obtain q c1 where q: "read_one rc e c = (q, c1)"
    by (cases "read_one rc e c")
  have ok: "round_ok rc e c (q, c1)"
    using read_one_round [OF less.prems(2,3), of rc e] q by simp
  show ?case
  proof (cases q)
    case (Return x)
    show ?thesis
    proof (cases x)
      case None
      from ok [unfolded Return None] obtain r hc dat ty where "whole_record c r" "incoming c = r @ incoming c1"
          "decrypt rc (c_in c) r = (Inr (dat, ty), hc)" "delivers e c hc ty dat c1" "rest_same c c1"
          "ty = recordTypeChangeCipherSpec \<longrightarrow> c_retryCount c1 = c_retryCount c"
        by (auto simp: round_ok_def)
      then have "reads_record rc e c c1"
        unfolding reads_record_def
        by (intro exI [of _ "[]"] exI [of _ r] exI [of _ "c_in c"] exI [of _ hc] exI [of _ dat] exI [of _ ty]) simp
      then show ?thesis
        using less.prems(1) q Return None by (simp add: readRecordOrCCS_step [of rc e c])
    next
      case (Some y)
      then show ?thesis
        using ok less.prems(1) q Return by (auto simp: round_ok_def readRecordOrCCS_step [of rc e c])
    qed
  next
    case Retry
    let ?c2 = "c1\<lparr>c_retryCount := c_retryCount c1 + 1\<rparr>"
    from ok [unfolded Retry] obtain r hc dat ty where d: "whole_record c r" "incoming c = r @ incoming c1"
        "decrypt rc (c_in c) r = (Inr (dat, ty), hc)" "ignorable c ty dat" "hc_err hc = None"
        "c1 = c\<lparr>c_in := hc, c_rawInput := c_rawInput c1, c_net := c_net c1\<rparr>"
      by (auto simp: round_ok_def)
    have k: "c_hand ?c2 = c_hand c" "c_input ?c2 = c_input c" "c_in ?c2 = hc" "c_netErr ?c2 = c_netErr c"
        "c_retryCount c1 = c_retryCount c" "incoming ?c2 = incoming c1"
      using d(6) by (cases c; cases c1; simp add: incoming_def)+
    have move: "fails ?c2 p \<Longrightarrow> fails c p" for p
      using fails_from [of ?c2 p c] k decrypt_keeps [OF d(3)] by simp
    have c2: "?c2 = c\<lparr>c_in := hc, c_rawInput := c_rawInput ?c2, c_net := c_net ?c2, c_retryCount := c_retryCount c + 1\<rparr>"
      using d(6) by (cases c; cases c1) simp
    show ?thesis
    proof (cases "c_retryCount c1 + 1 > maxUselessRecords")
      case True
      have "fails ?c2 (err, c')"
        using True less.prems(1) fails_alert(2) [of alertUnexpectedMessage ?c2 rc "ConnErr ''tls: too many ignored records''"]
        by (simp add: readRecordOrCCS_step [of rc e c] q Retry)
      from move [OF this] show ?thesis
        by (auto simp: fails_def)
    next
      case False
      then have "if err = None then reads_record rc e ?c2 c' else fails ?c2 (err, c')"
        using less.prems k d(5) by (intro less.hyps) (simp_all add: readRecordOrCCS_step [of rc e c] q Retry)
      then show ?thesis
        using reads_record_drop [OF d(1) _ d(3,4) c2, of e c'] d(2) k(5,6) False move by (auto split: if_splits)
    qed
  qed
qed

text \<open>Every record takes its header from the incoming bytes.\<close>

lemma readRecordOrCCS_consumes:
  assumes "readRecordOrCCS rc e c = (None, c')"
  shows "length (incoming c') + 5 \<le> length (incoming c)"
proof -
  have "hc_err (c_in c) = None" "c_input c = []"
    using assms by (auto simp: readRecordOrCCS_step read_one_def in_setError_def setErrorLocked_def Let_def split: if_splits)
  from readRecordOrCCS_effect [OF assms this] obtain dropped r where
      "incoming c = concat dropped @ r @ incoming c'" "recordHeaderLen \<le> length r"
    unfolding reads_record_def whole_record_def by auto
  then show ?thesis
    by simp
qed

text \<open>The loop of \<open>readHandshakeBytes\<close> ends: each record is taken from finitely many incoming bytes.\<close>

function readHandshakeBytes :: "record_crypto \<Rightarrow> nat \<Rightarrow> conn \<Rightarrow> conn_error option \<times> conn" where
  "readHandshakeBytes rc n c =
     (if length (c_hand c) < n then
        (case readRecordOrCCS rc False c of
          (Some err, c) \<Rightarrow> (Some err, c)
        | (None, c) \<Rightarrow> readHandshakeBytes rc n c)
      else (None, c))"
  by pat_completeness auto

termination
  by (relation "measure (\<lambda>(rc, n, c). length (incoming c))") (auto dest!: sym [of "(None, _)"] readRecordOrCCS_consumes)

declare readHandshakeBytes.simps [simp del]

end
