(* ===== verification/Record_Protection.thy ===== *)
theory Record_Protection
  imports Record_Layer
begin

text \<open>
  What the protection of records promises: a record that one side encrypts is the record that the
  other side decrypts, the sequence number counts, nonces do not repeat, and the check of the
  padding in constant time is the check of the standard.
\<close>

section \<open>Primitives\<close>

text \<open>
  What the crypto packages promise: opening undoes sealing and a sealed message is 16 bytes longer
  (\<open>cipher.AEAD\<close>), decrypting a block undoes encrypting it and keeps its length
  (\<open>cipher.Block\<close>), and a digest has \<open>Size\<close> bytes (\<open>hash.Hash\<close>).
\<close>

definition record_laws :: "record_crypto \<Rightarrow> bool" where
  "record_laws rc \<longleftrightarrow>
     (\<forall>a nonce p ad. rc_Open rc a nonce (rc_Seal rc a nonce p ad) ad = Some p)
     \<and> (\<forall>a nonce p ad. length (rc_Seal rc a nonce p ad) = length p + aeadOverhead)
     \<and> (\<forall>b x. length x = BlockSize b \<longrightarrow> rc_Decrypt rc b (rc_Encrypt rc b x) = x)
     \<and> (\<forall>b x. length x = BlockSize b \<longrightarrow> length (rc_Encrypt rc b x) = BlockSize b)
     \<and> (\<forall>h d. length (rc_Sum rc h d) = Size h)"

lemma map2_XOR_twice: "length xs \<le> length ys \<Longrightarrow> map2 (XOR) (map2 (XOR) xs ys) ys = (xs :: bytes)"
proof (induction xs arbitrary: ys)
  case (Cons x xs)
  then show ?case
    by (cases ys) (simp_all add: xor.assoc)
qed simp

lemma length_XORKeyStream [simp]: "length (XORKeyStream rc key pos src) = length src"
  by (simp add: XORKeyStream_def)

lemma XORKeyStream_append:
  "XORKeyStream rc key pos (p @ q) = XORKeyStream rc key pos p @ XORKeyStream rc key (pos + length p) q"
proof -
  have "[pos..<pos + length (p @ q)] = [pos..<pos + length p] @ [pos + length p..<pos + length p + length q]"
    using upt_add_eq_append [of pos "pos + length p" "length q"] by (simp add: add.assoc)
  then show ?thesis
    by (simp add: XORKeyStream_def zip_append)
qed

lemma XORKeyStream_twice [simp]: "XORKeyStream rc key pos (XORKeyStream rc key pos src) = src"
  by (simp add: XORKeyStream_def map2_XOR_twice)

lemma BlockSize_pos [simp]: "0 < BlockSize b"
  by (simp add: BlockSize_def split: block_cipher.split)

lemma cbc_decrypt_encrypt:
  assumes "record_laws rc" "length iv = BlockSize b" "length src mod BlockSize b = 0"
  shows "cbc_decrypt rc b iv (fst (cbc_encrypt rc b iv src)) = (src, snd (cbc_encrypt rc b iv src))
     \<and> length (fst (cbc_encrypt rc b iv src)) = length src
     \<and> length (snd (cbc_encrypt rc b iv src)) = BlockSize b"
  using assms(2,3)
proof (induction "length src" arbitrary: iv src rule: less_induct)
  case less
  show ?case
  proof (cases "src = []")
    case True
    then show ?thesis
      using less.prems by (simp add: cbc_encrypt.simps cbc_decrypt.simps)
  next
    case False
    let ?n = "BlockSize b" and ?x = "map2 (XOR) (take (BlockSize b) src) iv"
    let ?rest = "drop ?n src" and ?blk = "rc_Encrypt rc b ?x"
    have n: "?n \<le> length src"
      using False less.prems(2) by (auto intro!: dvd_imp_le simp: mod_eq_0_iff_dvd)
    have blk: "length ?blk = ?n" "rc_Decrypt rc b ?blk = ?x"
      using assms(1) less.prems(1) n by (simp_all add: record_laws_def)
    have m: "length ?rest mod ?n = 0"
      using n less.prems(2) by (simp add: le_mod_geq)
    have ih: "cbc_decrypt rc b ?blk (fst (cbc_encrypt rc b ?blk ?rest)) = (?rest, snd (cbc_encrypt rc b ?blk ?rest))
       \<and> length (fst (cbc_encrypt rc b ?blk ?rest)) = length ?rest
       \<and> length (snd (cbc_encrypt rc b ?blk ?rest)) = ?n"
      using less.hyps [of ?rest ?blk] False m blk by simp
    have e: "cbc_encrypt rc b iv src = (?blk @ fst (cbc_encrypt rc b ?blk ?rest), snd (cbc_encrypt rc b ?blk ?rest))"
      using False by (subst cbc_encrypt.simps) (simp add: Let_def case_prod_unfold)
    have ne: "?blk \<noteq> []"
      using blk(1) BlockSize_pos [of b] by (auto simp del: BlockSize_pos)
    show ?thesis
      unfolding e using ih blk ne n less.prems(1)
      by (subst cbc_decrypt.simps) (simp add: Let_def map2_XOR_twice)
  qed
qed

lemma xor_nonce_length [simp]: "length (xor_nonce nonceMask nonce) = length nonceMask"
proof -
  have "length (fold (\<lambda>i m. m[4 + i := (m ! (4 + i)) XOR (nonce ! i)]) is nonceMask) = length nonceMask" for "is"
    by (induction "is" arbitrary: nonceMask) auto
  then show ?thesis
    by (simp add: xor_nonce_def)
qed

lemma xor_nonce_nth:
  assumes "length nonceMask = 12" "length nonce \<le> 8" "j < 12"
  shows "xor_nonce nonceMask nonce ! j =
    (if 4 \<le> j \<and> j < 4 + length nonce then (nonceMask ! j) XOR (nonce ! (j - 4)) else nonceMask ! j)"
proof -
  have "k \<le> length nonce \<Longrightarrow> length (fold (\<lambda>i m. m[4 + i := (m ! (4 + i)) XOR (nonce ! i)]) [0..<k] nonceMask) = 12 \<and>
    fold (\<lambda>i m. m[4 + i := (m ! (4 + i)) XOR (nonce ! i)]) [0..<k] nonceMask ! j =
    (if 4 \<le> j \<and> j < 4 + k then (nonceMask ! j) XOR (nonce ! (j - 4)) else nonceMask ! j)" for k
  proof (induction k)
    case (Suc k)
    then show ?case
      using assms by (auto simp: nth_list_update)
  qed (use assms in auto)
  then show ?thesis
    unfolding xor_nonce_def by blast
qed

lemma xor_nonce_restores:
  assumes "length nonceMask = 12" "length nonce \<le> 8"
  shows "xor_nonce (xor_nonce nonceMask nonce) nonce = nonceMask"
  using assms by (intro nth_equalityI) (auto simp: xor_nonce_nth xor.assoc)

lemma xor_nonce_inj:
  assumes "length nonceMask = 12" "length s = 8" "length t = 8" "xor_nonce nonceMask s = xor_nonce nonceMask t"
  shows "s = t"
proof (rule nth_equalityI)
  fix i assume i: "i < length s"
  have "xor_nonce nonceMask s ! (4 + i) = xor_nonce nonceMask t ! (4 + i)"
    using assms(4) by simp
  then have "(nonceMask ! (4 + i)) XOR (s ! i) = (nonceMask ! (4 + i)) XOR (t ! i)"
    using assms(1-3) i by (simp add: xor_nonce_nth)
  then have "(nonceMask ! (4 + i)) XOR ((nonceMask ! (4 + i)) XOR (s ! i)) =
      (nonceMask ! (4 + i)) XOR ((nonceMask ! (4 + i)) XOR (t ! i))"
    by (rule arg_cong)
  then show "s ! i = t ! i"
    by (simp add: xor.assoc [symmetric])
qed (use assms in simp)


section \<open>Sequence numbers\<close>

lemma from_be_snoc: "from_be (xs @ [b]) = from_be xs * 256 + unat b"
  by (simp add: from_be_append) (simp add: from_be_def)

lemma from_be_less: "from_be xs < 256 ^ length xs"
proof (induction xs rule: rev_induct)
  case (snoc b xs)
  have "from_be xs * 256 + unat b < (from_be xs + 1) * 256"
    using unat_u8_less [of b] by simp
  also have "\<dots> \<le> 256 ^ length xs * 256"
    using snoc by (intro mult_le_mono1) simp
  finally show ?case
    by (simp add: from_be_snoc mult.commute)
qed (simp add: from_be_def)

lemma base256_inj:
  assumes "a * 256 + b = c * 256 + d" "b < 256" "d < 256"
  shows "a = c \<and> b = (d :: nat)"
  using arg_cong [OF assms(1), of "\<lambda>x. x div 256"] arg_cong [OF assms(1), of "\<lambda>x. x mod 256"] assms(2,3) by simp

lemma from_be_inj: "length xs = length ys \<Longrightarrow> from_be xs = from_be ys \<Longrightarrow> xs = ys"
proof (induction xs arbitrary: ys rule: rev_induct)
  case (snoc b xs)
  obtain c zs where ys: "ys = zs @ [c]"
    using snoc.prems(1) by (cases ys rule: rev_cases) auto
  have e: "from_be xs * 256 + unat b = from_be zs * 256 + unat c"
    using snoc.prems(2) by (simp add: ys from_be_snoc)
  then have "unat b = unat c" "from_be xs = from_be zs"
    using base256_inj [OF e unat_u8_less unat_u8_less] by simp_all
  then show ?case
    using snoc.IH [of zs] snoc.prems(1) by (simp add: ys word_unat_eq_iff)
qed simp

lemma incSeq_from_value:
  assumes "length sq = i"
  shows "(case incSeq_from i (sq @ rest) of
      None \<Rightarrow> from_be sq + 1 = 256 ^ i
    | Some sq' \<Rightarrow> \<exists>xs. sq' = xs @ rest \<and> length xs = i \<and> from_be xs = from_be sq + 1)"
  using assms
proof (induction i arbitrary: sq rest)
  case (Suc i)
  obtain b xs where sq: "sq = xs @ [b]" and l: "length xs = i"
    using Suc.prems by (cases sq rule: rev_cases) auto
  show ?case
  proof (cases "b + 1 = 0")
    case True
    then have "b = - 1"
      by (simp add: eq_neg_iff_add_eq_0)
    then have u: "unat b = 255" "b + 1 = 0"
      by (simp_all add: unsigned_minus_1_eq_mask mask_eq_exp_minus_1)
    have "incSeq_from (Suc i) (sq @ rest) = incSeq_from i (xs @ 0 # rest)"
      by (simp add: sq l [symmetric] u list_update_append nth_append)
    moreover have "(\<exists>ys. sq' = ys @ 0 # rest \<and> length ys = i \<and> from_be ys = from_be xs + 1) \<Longrightarrow>
        \<exists>ys. sq' = ys @ rest \<and> length ys = Suc i \<and> from_be ys = from_be xs * 256 + 255 + 1" for sq'
      by (elim exE, rule_tac x = "ys @ [0]" in exI) (simp add: from_be_snoc)
    ultimately show ?thesis
      using Suc.IH [OF l, of "0 # rest"] u by (simp add: sq from_be_snoc del: incSeq_from.simps split: option.splits)
  next
    case False
    then have "unat (b + 1) = unat b + 1"
      using unatSuc [of b] by (simp add: add.commute)
    moreover have "incSeq_from (Suc i) (sq @ rest) = Some ((xs @ [b + 1]) @ rest)"
      using False by (simp add: sq l [symmetric] list_update_append nth_append)
    ultimately show ?thesis
      using l by (simp del: incSeq_from.simps add: sq from_be_snoc)
  qed
qed (simp add: from_be_def)


section \<open>Padding\<close>

text \<open>
  The mask is all ones where the difference is not negative. The folds of \<open>good\<close> keep all eight
  bits exactly when every byte that counts is right, and the shifts copy their conjunction to
  every bit.
\<close>

lemma msb_clear_mask_bit: "msb_clear_mask t = (if bit t 31 then 0 else - 1)"
proof (rule bit_word_eqI)
  fix n assume n: "n < LENGTH(8)"
  show "bit (msb_clear_mask t) n \<longleftrightarrow> bit (if bit t 31 then 0 else - 1 :: u8) n"
    using n by (cases n) (auto simp: msb_clear_mask_def bit_simps)
qed

lemma small_no_bit: "m < 2147483648 \<Longrightarrow> \<not> bit (of_nat m :: u64) 31"
  by transfer (simp add: bit_take_bit_iff bit_iff_odd)

lemma msb_clear_mask_diff:
  assumes "a < 2147483648" "b < 2147483648"
  shows "msb_clear_mask (of_nat a - of_nat b) = (if b \<le> a then - 1 else 0)"
proof (cases "b \<le> a")
  case True
  then have "of_nat a - of_nat b = (of_nat (a - b) :: u64)"
    by simp
  then show ?thesis
    using True assms(1) small_no_bit [of "a - b"] by (simp add: msb_clear_mask_bit)
next
  case False
  then have "of_nat a - of_nat b = (NOT (of_nat (b - a - 1)) :: u64)"
    by (simp add: not_eq_complement of_nat_diff)
  then show ?thesis
    using False assms(2) small_no_bit [of "b - a - 1"] by (simp add: msb_clear_mask_bit bit_simps)
qed

lemma u8_all_bits: "(g :: u8) = - 1 \<longleftrightarrow> (\<forall>j<8. bit g j)"
  by (auto simp: bit_eq_iff)

definition replicate_bits :: "u8 \<Rightarrow> u8" where
  "replicate_bits g = (let g = g AND push_bit 4 g; g = g AND push_bit 2 g; g = g AND push_bit 1 g in signed_drop_bit 7 g)"

lemma replicate_bits_eq: "replicate_bits g = (if g = - 1 then - 1 else 0)"
proof -
  let ?h = "let g = g AND push_bit 4 g; g = g AND push_bit 2 g in g AND push_bit 1 g"
  have "(\<forall>j<8. bit g j) \<longleftrightarrow> bit g 0 \<and> bit g 1 \<and> bit g 2 \<and> bit g 3 \<and> bit g 4 \<and> bit g 5 \<and> bit g 6 \<and> bit g 7"
    by (simp add: All_less_Suc eval_nat_numeral conj_ac)
  moreover have "bit ?h 7 \<longleftrightarrow> bit g 0 \<and> bit g 1 \<and> bit g 2 \<and> bit g 3 \<and> bit g 4 \<and> bit g 5 \<and> bit g 6 \<and> bit g 7"
    unfolding Let_def bit_and_iff bit_push_bit_iff possible_bit_word by (simp add: conj_ac)
  moreover have "signed_drop_bit 7 h = (if bit h 7 then - 1 else 0)" for h :: u8
  proof (rule bit_word_eqI)
    fix n assume n: "n < LENGTH(8)"
    show "bit (signed_drop_bit 7 h) n \<longleftrightarrow> bit (if bit h 7 then - 1 else 0 :: u8) n"
      using n by (cases n) (auto simp: bit_simps)
  qed
  ultimately show ?thesis
    unfolding u8_all_bits replicate_bits_def by (simp only: Let_def)
qed

lemma and_not_all: "x AND NOT y = - 1 \<longleftrightarrow> x = - 1 \<and> y = (0 :: u8)"
  by (auto simp: bit_eq_iff bit_simps)

lemma xor_eq_0: "x XOR y = 0 \<longleftrightarrow> x = (y :: u8)"
  by (auto simp: bit_eq_iff bit_simps)

lemma fold_and_not:
  "fold (\<lambda>i g. g AND NOT (f i)) is g = - 1 \<longleftrightarrow> g = - 1 \<and> (\<forall>i\<in>set is. f i = (0 :: u8))"
  by (induction "is" arbitrary: g) (auto simp: and_not_all)

lemma tail_replicate:
  "n < length P \<Longrightarrow> drop (length P - (n + 1)) P = replicate (n + 1) x \<longleftrightarrow> (\<forall>i\<le>n. P ! (length P - 1 - i) = x)"
proof -
  assume n: "n < length P"
  have "drop (length P - (n + 1)) P = replicate (n + 1) x \<longleftrightarrow> (\<forall>j\<le>n. P ! (length P - (n + 1) + j) = x)"
    using n by (auto simp: list_eq_iff_nth_eq nth_append less_Suc_eq_le simp del: replicate_Suc)
  also have "\<dots> \<longleftrightarrow> (\<forall>i\<le>n. P ! (length P - 1 - i) = x)"
  proof (intro iffI allI impI)
    fix i assume h: "\<forall>j\<le>n. P ! (length P - (n + 1) + j) = x" and "i \<le> n"
    have "P ! (length P - (n + 1) + (n - i)) = x" using h diff_le_self by blast
    moreover have "length P - (n + 1) + (n - i) = length P - 1 - i" using n \<open>i \<le> n\<close> by linarith
    ultimately show "P ! (length P - 1 - i) = x" by metis
  next
    fix j assume h: "\<forall>i\<le>n. P ! (length P - 1 - i) = x" and "j \<le> n"
    have "P ! (length P - 1 - (n - j)) = x" using h diff_le_self by blast
    moreover have "length P - 1 - (n - j) = length P - (n + 1) + j" using n \<open>j \<le> n\<close> by linarith
    ultimately show "P ! (length P - (n + 1) + j) = x" by metis
  qed
  finally show ?thesis .
qed

text \<open>The check that \<open>extractPadding\<close> does in constant time, as RFC 5246, section 6.2.3.2 states it.\<close>

definition padding_valid :: "bytes \<Rightarrow> bool" where
  "padding_valid payload \<longleftrightarrow> (let n = unat (last payload) + 1 in
     payload \<noteq> [] \<and> n \<le> length payload \<and> drop (length payload - n) payload = replicate n (last payload))"

lemma extractPadding_good:
  assumes "payload \<noteq> []" "length payload < 2147483648"
  shows "fold (\<lambda>i good. let t = ucast (last payload) - of_nat i;
                  msk = msb_clear_mask t;
                  b = payload ! (length payload - 1 - i)
              in good AND NOT ((msk AND last payload) XOR (msk AND b))) [0..<min 256 (length payload)]
           (msb_clear_mask (of_nat (length payload - 1) - ucast (last payload))) = - 1 \<longleftrightarrow> padding_valid payload"
proof -
  let ?L = "length payload" and ?x = "last payload"
  let ?n = "unat ?x"
  have x: "?n < 256"
    by (rule unat_u8_less)
  have u: "ucast ?x = (of_nat ?n :: u64)"
    by simp
  have m: "msb_clear_mask (ucast ?x - of_nat i) = (if i \<le> ?n then - 1 else 0)" if "i < 256" for i
    unfolding u using that x by (intro msb_clear_mask_diff) simp_all
  have m0: "msb_clear_mask (of_nat (?L - 1) - ucast ?x) = (if ?n \<le> ?L - 1 then - 1 else 0)"
    unfolding u using assms x by (intro msb_clear_mask_diff) simp_all
  have s: "(msb_clear_mask (ucast ?x - of_nat i) AND ?x) XOR (msb_clear_mask (ucast ?x - of_nat i) AND b) = 0
      \<longleftrightarrow> (i \<le> ?n \<longrightarrow> b = ?x)" if "i < 256" for i b
    using that by (auto simp: m xor_eq_0)
  have le: "?n \<le> ?L - 1 \<longleftrightarrow> ?n < ?L"
    using assms(1) by (cases payload) auto
  have "(\<forall>i\<in>set [0..<min 256 ?L]. i \<le> ?n \<longrightarrow> payload ! (?L - 1 - i) = ?x) \<longleftrightarrow> (\<forall>i\<le>?n. payload ! (?L - 1 - i) = ?x)" if "?n < ?L"
    using that x by auto
  then show ?thesis
    unfolding Let_def fold_and_not m0 le padding_valid_def
    using assms(1) x tail_replicate [of ?n payload ?x] by (simp add: s Suc_le_eq del: replicate_Suc)
qed

lemma extractPadding_eq:
  assumes "length payload < 2147483648"
  shows "extractPadding payload =
    (if payload = [] then (0, 0) else if padding_valid payload then (unat (last payload) + 1, 255) else (1, 0))"
proof (cases "payload = []")
  case False
  let ?g = "fold (\<lambda>i good. let t = ucast (last payload) - of_nat i;
                  msk = msb_clear_mask t;
                  b = payload ! (length payload - 1 - i)
              in good AND NOT ((msk AND last payload) XOR (msk AND b))) [0..<min 256 (length payload)]
           (msb_clear_mask (of_nat (length payload - 1) - ucast (last payload)))"
  have "(if 256 > length payload then length payload else 256) = min 256 (length payload)"
    by simp
  then have "extractPadding payload = (unat (last payload AND replicate_bits ?g) + 1, replicate_bits ?g)"
    using False unfolding extractPadding_def replicate_bits_def
    by (simp add: Let_def last_conv_nth)
  then show ?thesis
    using False extractPadding_good [OF False assms] by (simp add: replicate_bits_eq)
qed (simp add: extractPadding_def)


section \<open>A record goes through\<close>

definition wire_record :: "bytes \<Rightarrow> bytes \<Rightarrow> bytes" where
  "wire_record start body = start @ two_bytes (int (length body)) @ body"

text \<open>The other side of a cipher: CBC in the opposite direction.\<close>

definition mirror :: "cipher \<Rightarrow> cipher" where
  "mirror c = (case c of CBCMode isRead b iv \<Rightarrow> CBCMode (\<not> isRead) b iv | c \<Rightarrow> c)"

text \<open>What the constructors of ciphers and the negotiated version guarantee of the write side.\<close>

definition cipher_ok :: "halfConn \<Rightarrow> cipher \<Rightarrow> bool" where
  "cipher_ok hc c \<longleftrightarrow> (case c of
     StreamCipher _ _ \<Rightarrow> hc_mac hc \<noteq> None \<and> hc_version hc \<noteq> VersionTLS13
   | CBCMode isRead b iv \<Rightarrow> hc_mac hc \<noteq> None \<and> hc_version hc \<noteq> VersionTLS13 \<and> \<not> isRead \<and> length iv = BlockSize b
   | PrefixNonceAEAD nonce _ \<Rightarrow> hc_mac hc = None \<and> hc_version hc \<noteq> VersionTLS13 \<and> length nonce = 12
   | XorNonceAEAD nonceMask _ \<Rightarrow> hc_mac hc = None \<and> length nonceMask = 12)"

definition in_sync :: "halfConn \<Rightarrow> halfConn \<Rightarrow> bool" where
  "in_sync hw hr \<longleftrightarrow> hc_version hr = hc_version hw \<and> hc_seq hr = hc_seq hw \<and> length (hc_seq hw) = 8 \<and> hc_mac hr = hc_mac hw
     \<and> (case hc_cipher hw of None \<Rightarrow> False | Some c \<Rightarrow> hc_cipher hr = Some (mirror c) \<and> cipher_ok hw c)"

lemma length_two_bytes [simp]: "length (two_bytes n) = 2"
  by (simp add: two_bytes_def)

lemma set_length_header: "length start = 3 \<Longrightarrow> length l = 2 \<Longrightarrow> set_length n (start @ l @ body) = start @ two_bytes n @ body"
  by (cases l; cases "tl l") (auto simp: set_length_def two_bytes_def list_update_append)

lemma length_tls10MAC: "record_laws rc \<Longrightarrow> length (tls10MAC rc h sq header dat) = Size h"
  by (simp add: tls10MAC_def record_laws_def)

lemma check_mac_ok:
  assumes "record_laws rc" "length start = 3" "length payload < 2147483648" "length pad = paddingLen"
  shows "check_mac rc h sq (start @ l) (payload @ tls10MAC rc h sq (start @ two_bytes (int (length payload))) payload @ pad)
     paddingLen 255 = Some payload"
proof -
  have "drop_bit 31 (word_of_int (int (length payload)) :: u32) = 0"
  proof -
    have "unat (of_nat (length payload) :: u32) = length payload"
      using assms(3) by (simp add: unsigned_of_nat take_bit_nat_eq_self)
    then have "unat (drop_bit 31 (of_nat (length payload) :: u32)) = 0"
      using assms(3) by (simp add: unat_drop_bit_eq drop_bit_eq_div [where 'a = nat])
    then show ?thesis
      by (simp add: unat_eq_0)
  qed
  moreover have "(Suc 0) AND unat (255 :: u8) = 1"
    by simp
  ultimately show ?thesis
    using assms by (simp add: check_mac_def Let_def length_tls10MAC)
qed

lemma decrypt_switch_stream:
  assumes "explicitNonceLen hc = 0" "length header = 5"
  shows "decrypt_switch rc hc (StreamCipher key pos) (header @ XORKeyStream rc key pos p) =
     (Inr (p, [], 0, 255), StreamCipher key (pos + length p))"
  using assms by (simp add: decrypt_switch_def Let_def)

lemma padding_valid_padded:
  assumes "0 < n" "n \<le> 256"
  shows "padding_valid (p @ replicate n (of_nat (n - 1))) \<and> unat (last (p @ replicate n (of_nat (n - 1) :: u8))) + 1 = n"
proof -
  have "unat (of_nat (n - 1) :: u8) = n - 1"
    using assms by (intro unat_of_nat8) simp
  then show ?thesis
    using assms by (simp add: padding_valid_def last_append)
qed


lemma encrypt_switch_stream:
  assumes "hc_mac hc = Some h" "length header = 5"
  shows "encrypt_switch rc hc (StreamCipher key pos) (header @ nonce) nonce payload =
    (let mac = tls10MAC rc h (hc_seq hc) header payload
     in (Inr (header @ nonce @ XORKeyStream rc key pos (payload @ mac)), StreamCipher key (pos + length payload + length mac)))"
  using assms by (simp add: encrypt_switch_def Let_def XORKeyStream_append)

lemma encrypt_switch_cbc:
  assumes "hc_mac hc = Some h" "length header = 5"
  shows "encrypt_switch rc hc (CBCMode False b iv) (header @ nonce) nonce payload =
    (let mac = tls10MAC rc h (hc_seq hc) header payload;
         n = BlockSize b - (length payload + length mac) mod BlockSize b;
         r = cbc_encrypt rc b (if nonce = [] then iv else nonce) (payload @ mac @ replicate n (of_nat (n - 1)))
     in (Inr (header @ nonce @ fst r), CBCMode False b (snd r)))"
  using assms by (simp add: encrypt_switch_def Let_def CryptBlocks_def case_prod_unfold)

text \<open>The nonce that an AEAD wrapper uses, and its key.\<close>

definition aead_nonce :: "cipher \<Rightarrow> bytes \<Rightarrow> bytes" where
  "aead_nonce c nonce = (case c of PrefixNonceAEAD f _ \<Rightarrow> prefix_nonce f nonce | XorNonceAEAD m _ \<Rightarrow> xor_nonce m nonce | _ \<Rightarrow> [])"

definition aead_of :: "cipher \<Rightarrow> aead_alg option" where
  "aead_of c = (case c of PrefixNonceAEAD _ a \<Rightarrow> Some a | XorNonceAEAD _ a \<Rightarrow> Some a | _ \<Rightarrow> None)"

definition after_nonce :: "cipher \<Rightarrow> bytes \<Rightarrow> cipher" where
  "after_nonce c nonce = (case c of PrefixNonceAEAD f a \<Rightarrow> PrefixNonceAEAD (prefix_nonce f nonce) a | c \<Rightarrow> c)"

definition mask_ok :: "cipher \<Rightarrow> bool" where
  "mask_ok c \<longleftrightarrow> (case c of XorNonceAEAD m _ \<Rightarrow> length m = 12 | _ \<Rightarrow> True)"

lemma cipher_Seal_Open:
  assumes "aead_of c = Some a" "length nonce = 8" "mask_ok c"
  shows "cipher_Seal rc c nonce p ad = (rc_Seal rc a (aead_nonce c nonce) p ad, after_nonce c nonce)"
    and "cipher_Open rc c nonce ct ad = (rc_Open rc a (aead_nonce c nonce) ct ad, after_nonce c nonce)"
  using assms by (cases c; simp add: cipher_Seal_def cipher_Open_def aead_of_def aead_nonce_def after_nonce_def Let_def
      mask_ok_def xor_nonce_restores)+

lemma encrypt_switch_aead:
  assumes "aead_of c = Some a" "length header = 5" "nonce = [] \<or> length nonce = 8" "length (hc_seq hc) = 8"
    and "mask_ok c" "hc_version hc \<noteq> VersionTLS13"
  shows "encrypt_switch rc hc c (header @ nonce) nonce payload =
    (let n = (if nonce = [] then hc_seq hc else nonce)
     in (Inr (header @ nonce @ rc_Seal rc a (aead_nonce c n) payload (hc_seq hc @ header)), after_nonce c n))"
proof -
  have "length (if nonce = [] then hc_seq hc else nonce) = 8"
    using assms(3,4) by auto
  note so = cipher_Seal_Open [OF assms(1) this assms(5)]
  show ?thesis
    using assms(1,2,6) so(1)
    by (cases c) (simp_all add: encrypt_switch_def Let_def aead_of_def)
qed

lemma encrypt_switch_tls13:
  assumes "aead_of c = Some a" "length start = 3" "length l = 2" "length (hc_seq hc) = 8"
    and "mask_ok c" "hc_version hc = VersionTLS13"
  shows "encrypt_switch rc hc c (start @ l) [] payload =
    (let header = (recordTypeApplicationData # tl start) @ two_bytes (int (length payload + 1 + aeadOverhead))
     in (Inr (header @ rc_Seal rc a (aead_nonce c (hc_seq hc)) (payload @ [start ! 0]) header), after_nonce c (hc_seq hc)))"
proof -
  note so = cipher_Seal_Open [OF assms(1,4,5)]
  have h: "set_length n ((start @ l)[0 := t]) = (t # tl start) @ two_bytes n" for n t
    using set_length_header [of "t # tl start" l n "[]"] assms(2,3) by (cases start) simp_all
  have "(start @ l) ! 0 = start ! 0"
    using assms(2) by (simp add: nth_append)
  then show ?thesis
    using assms so(1) h
    by (cases c) (simp_all add: encrypt_switch_def Let_def aead_of_def)
qed

lemma roundUp_least:
  assumes "a \<le> m" "m mod b = 0" "0 < b"
  shows "roundUp a b \<le> m"
proof (cases "a mod b = 0")
  case False
  have "a mod b < b" and "a = a div b * b + a mod b"
    using assms(3) by simp_all
  then have "a + (b - a mod b) = a div b * b + b"
    by linarith
  then have e: "roundUp a b = (a div b + 1) * b"
    using False \<open>a mod b < b\<close> by (simp add: roundUp_def)
  have "m = m div b * b"
    using div_mult_mod_eq [of m b] assms(2) by simp
  have "a div b \<noteq> m div b"
  proof
    assume "a div b = m div b"
    then have "a = m + a mod b"
      using \<open>m = m div b * b\<close> \<open>a = a div b * b + a mod b\<close> by metis
    then show False
      using assms(1) False by linarith
  qed
  then have "a div b + 1 \<le> m div b"
    using div_le_mono [OF assms(1), of b] by simp
  then have "(a div b + 1) * b \<le> m div b * b"
    by (rule mult_le_mono1)
  then show ?thesis
    using e \<open>m = m div b * b\<close> by metis
qed (use assms in \<open>simp add: roundUp_def\<close>)

lemma decrypt_switch_cbc:
  assumes "record_laws rc" "hc_mac hc = Some h" "length header = 5" "explicitNonceLen hc = length nonce" "length iv = BlockSize b"
    and "nonce = [] \<or> length nonce = BlockSize b" "length mac = Size h" "length payload \<le> maxPlaintext"
    and "n = BlockSize b - (length payload + Size h) mod BlockSize b"
    and "r = cbc_encrypt rc b (if nonce = [] then iv else nonce) (payload @ mac @ replicate n (of_nat (n - 1)))"
  shows "decrypt_switch rc hc (CBCMode True b iv) (header @ nonce @ fst r) =
    (Inr (payload @ mac @ replicate n (of_nat (n - 1)), [], n, 255), CBCMode True b (snd r))
    \<and> length (snd r) = BlockSize b \<and> length (fst r) \<le> length payload + 48"
proof -
  let ?p = "payload @ mac @ replicate n (of_nat (n - 1))" and ?B = "BlockSize b"
  have B: "0 < ?B" "?B \<le> 16" "Size h \<le> 32"
    by (simp_all add: BlockSize_def Size_def split: block_cipher.split hmac.split)
  have n: "0 < n" "n \<le> 16"
    using B mod_less_divisor [OF B(1), of "length payload + Size h"] assms(9) by linarith+
  have lp: "length ?p = length payload + Size h + n"
    using assms(7) by simp
  have m: "length ?p mod ?B = 0"
  proof -
    have "length payload + Size h + n = (length payload + Size h) div ?B * ?B + ?B"
      using div_mult_mod_eq [of "length payload + Size h" ?B] mod_less_divisor [OF B(1), of "length payload + Size h"] assms(9)
      by linarith
    then show ?thesis
      unfolding lp by simp
  qed
  have d: "cbc_decrypt rc b (if nonce = [] then iv else nonce) (fst r) = (?p, snd r)" "length (fst r) = length ?p"
      "length (snd r) = ?B"
    using cbc_decrypt_encrypt [OF assms(1) _ m, of "if nonce = [] then iv else nonce"] assms(5,6,10) by auto
  have e: "extractPadding ?p = (n, 255)"
    using padding_valid_padded [of n "payload @ mac"] n extractPadding_eq [of ?p] lp assms(8) B(3) by simp
  have "roundUp (Size h + 1) ?B \<le> length ?p"
    using n lp by (intro roundUp_least m) simp_all
  then show ?thesis
    using d e m assms n B
    by (auto simp: decrypt_switch_def Let_def CryptBlocks_def)
qed

lemma decrypt_switch_aead:
  assumes "record_laws rc" "aead_of c = Some a" "length start = 3" "explicitNonceLen hc = length nonce" "length (hc_seq hc) = 8"
    and "nonce = [] \<or> length nonce = 8" "mask_ok c"
    and "n = (if nonce = [] then hc_seq hc else nonce)"
    and "ad = (if hc_version hc = VersionTLS13 then start @ l else hc_seq hc @ start @ two_bytes (int (length p)))" "length l = 2"
  shows "decrypt_switch rc hc c (start @ l @ nonce @ rc_Seal rc a (aead_nonce c n) p ad) =
    (Inr (rc_Seal rc a (aead_nonce c n) p ad, p, 0, 255), after_nonce c n)"
proof -
  have "length n = 8"
    using assms(5,6,8) by auto
  note so = cipher_Seal_Open [OF assms(2) this assms(7)]
  have "rc_Open rc a (aead_nonce c n) (rc_Seal rc a (aead_nonce c n) p ad) ad = Some p"
    "length (rc_Seal rc a (aead_nonce c n) p ad) = length p + 16"
    using assms(1) by (simp_all add: record_laws_def)
  then show ?thesis
    using assms(2-6,8-10) so(2)
    by (cases "nonce = []"; cases "hc_version hc = VersionTLS13"; cases c) (simp_all add: decrypt_switch_def Let_def aead_of_def)
qed

lemma incSeq_value:
  assumes "length (hc_seq hc) = 8"
  shows "case incSeq hc of
      Inl e \<Rightarrow> e = ConnPanic ''TLS: sequence number wraparound'' \<and> from_be (hc_seq hc) = 2 ^ 64 - 1
    | Inr hc' \<Rightarrow> hc' = hc\<lparr>hc_seq := hc_seq hc'\<rparr> \<and> length (hc_seq hc') = 8 \<and> from_be (hc_seq hc') = from_be (hc_seq hc) + 1"
  using incSeq_from_value [OF assms, of "[]"] by (simp add: incSeq_def split: option.splits)

lemma incSeq_ok:
  assumes "length (hc_seq hc) = 8" "from_be (hc_seq hc) < 2 ^ 64 - 1"
  obtains sq where "incSeq hc = Inr (hc\<lparr>hc_seq := sq\<rparr>)" "length sq = 8" "from_be sq = from_be (hc_seq hc) + 1"
    "\<And>hc'. hc_seq hc' = hc_seq hc \<Longrightarrow> incSeq hc' = Inr (hc'\<lparr>hc_seq := sq\<rparr>)"
proof -
  obtain sq where "incSeq_from 8 (hc_seq hc) = Some sq" "length sq = 8" "from_be sq = from_be (hc_seq hc) + 1"
    using incSeq_from_value [OF assms(1), of "[]"] assms(2) by (auto split: option.splits)
  then show thesis
    by (intro that [of sq]) (simp_all add: incSeq_def)
qed

text \<open>What one call of each side does, where the MAC or the AEAD accepts.\<close>

lemma encrypt_step:
  assumes "hc_cipher hc = Some c" "explicit_nonce hc c rand = (Inr nonce, rand')"
    and "encrypt_switch rc hc c (start @ l @ nonce) nonce payload = (Inr (start' @ l' @ body), c')"
    and "length start' = 3" "length l' = 2" "incSeq (hc\<lparr>hc_cipher := Some c'\<rparr>) = Inr hc'"
  shows "encrypt rc hc (start @ l) payload rand = (Inr (wire_record start' body), hc', rand')"
  using assms by (simp add: encrypt_def Let_def set_length_header wire_record_def)

lemma decrypt_step_mac:
  assumes "hc_cipher hc = Some c" "hc_version hc \<noteq> VersionTLS13" "length start = 3" "hc_mac hc = Some h"
    and "decrypt_switch rc hc c (wire_record start body) = (Inr (p, x, paddingLen, 255), c')"
    and "check_mac rc h (hc_seq hc) (start @ two_bytes (int (length body))) p paddingLen 255 = Some payload"
    and "incSeq (hc\<lparr>hc_cipher := Some c'\<rparr>) = Inr hc'"
  shows "decrypt rc hc (wire_record start body) = (Inr (payload, start ! 0), hc')"
  using assms by (simp add: decrypt_def open_record_def Let_def wire_record_def nth_append)

lemma decrypt_step_aead:
  assumes "hc_cipher hc = Some c" "length start = 3" "hc_mac hc = None"
    and "\<not> (hc_version hc = VersionTLS13 \<and> start ! 0 = recordTypeChangeCipherSpec)"
    and "decrypt_switch rc hc c (wire_record start body) = (Inr (p, plaintext, n, g), c')"
    and "if hc_version hc = VersionTLS13 then inner_plaintext (start ! 0) plaintext = Inr (t, payload)
         else t = start ! 0 \<and> payload = plaintext"
    and "incSeq (hc\<lparr>hc_cipher := Some c'\<rparr>) = Inr hc'"
  shows "decrypt rc hc (wire_record start body) = (Inr (payload, t), hc')"
  using assms by (auto simp: decrypt_def open_record_def Let_def wire_record_def nth_append split: if_splits)

lemma inner_plaintext_snoc:
  "t \<noteq> 0 \<Longrightarrow> length p \<le> maxPlaintext \<Longrightarrow> inner_plaintext recordTypeApplicationData (p @ [t]) = Inr (t, p)"
  by (simp add: inner_plaintext_def)


text \<open>A record goes through: the reader gets the payload and its type, and both sides stay in step.\<close>

definition goes_through :: "record_crypto \<Rightarrow> halfConn \<Rightarrow> halfConn \<Rightarrow> bytes \<Rightarrow> bytes \<Rightarrow> bytes \<Rightarrow> bool" where
  "goes_through rc hw hr start payload rand \<longleftrightarrow> (\<exists>start' body hw' hr' rand'.
     encrypt rc hw (start @ two_bytes (int (length payload))) payload rand = (Inr (wire_record start' body), hw', rand')
     \<and> decrypt rc hr (wire_record start' body) = (Inr (payload, start ! 0), hr')
     \<and> in_sync hw' hr' \<and> hw' = hw\<lparr>hc_cipher := hc_cipher hw', hc_seq := hc_seq hw'\<rparr>
     \<and> hr' = hr\<lparr>hc_cipher := hc_cipher hr', hc_seq := hc_seq hr'\<rparr>
     \<and> from_be (hc_seq hw') = from_be (hc_seq hw) + 1 \<and> explicitNonceLen hw' = explicitNonceLen hw
     \<and> length rand \<le> length rand' + explicitNonceLen hw
     \<and> start' = (if hc_version hw = VersionTLS13 then recordTypeApplicationData else start ! 0) # tl start
     \<and> length body \<le> length payload + (if hc_version hw = VersionTLS13 then 17 else 64))"


lemma in_sync_next:
  assumes "in_sync hw hr" "cipher_ok hw c" "length sq = 8"
  shows "in_sync (hw\<lparr>hc_cipher := Some c, hc_seq := sq\<rparr>) (hr\<lparr>hc_cipher := Some (mirror c), hc_seq := sq\<rparr>)"
  using assms by (auto simp: in_sync_def cipher_ok_def split: cipher.splits)

lemma goes_throughI:
  assumes "in_sync hw hr" "cipher_ok hw c" "length sq = 8" "from_be sq = from_be (hc_seq hw) + 1"
    and "encrypt rc hw (start @ two_bytes (int (length payload))) payload rand =
      (Inr (wire_record start' body), hw\<lparr>hc_cipher := Some c, hc_seq := sq\<rparr>, rand')"
    and "decrypt rc hr (wire_record start' body) =
      (Inr (payload, start ! 0), hr\<lparr>hc_cipher := Some (mirror c), hc_seq := sq\<rparr>)"
    and "explicitNonceLen (hw\<lparr>hc_cipher := Some c, hc_seq := sq\<rparr>) = explicitNonceLen hw"
    and "length rand \<le> length rand' + explicitNonceLen hw"
    and "start' = (if hc_version hw = VersionTLS13 then recordTypeApplicationData else start ! 0) # tl start"
    and "length body \<le> length payload + (if hc_version hw = VersionTLS13 then 17 else 64)"
  shows "goes_through rc hw hr start payload rand"
  unfolding goes_through_def
  using assms in_sync_next [OF assms(1-3)]
  by (intro exI [of _ start'] exI [of _ body] exI [of _ "hw\<lparr>hc_cipher := Some c, hc_seq := sq\<rparr>"]
      exI [of _ "hr\<lparr>hc_cipher := Some (mirror c), hc_seq := sq\<rparr>"] exI [of _ rand']) (auto simp del: One_nat_def)

lemma start_eq: "length start = 3 \<Longrightarrow> start ! 0 # tl start = start"
  by (cases start) simp_all

lemma goes_through_stream:
  assumes "record_laws rc" "in_sync hw hr" "from_be (hc_seq hw) < 2 ^ 64 - 1" "length start = 3" "length payload \<le> maxPlaintext"
    and c: "hc_cipher hw = Some (StreamCipher key pos)"
  shows "goes_through rc hw hr start payload rand"
proof -
  obtain h where s: "hc_mac hw = Some h" "hc_mac hr = Some h" "hc_version hw \<noteq> VersionTLS13" "hc_version hr \<noteq> VersionTLS13"
    "hc_seq hr = hc_seq hw" "hc_cipher hr = Some (StreamCipher key pos)" "length (hc_seq hw) = 8" "hc_version hr = hc_version hw"
    using assms(2) c by (auto simp: in_sync_def cipher_ok_def mirror_def)
  define mac where "mac = tls10MAC rc h (hc_seq hw) (start @ two_bytes (int (length payload))) payload"
  define body where "body = XORKeyStream rc key pos (payload @ mac)"
  have lm: "length mac = Size h" "Size h \<le> 32"
    using length_tls10MAC [OF assms(1)] by (simp_all add: mac_def Size_def split: hmac.split)
  obtain sq where sq: "length sq = 8" "from_be sq = from_be (hc_seq hw) + 1"
      "\<And>hc'. hc_seq hc' = hc_seq hw \<Longrightarrow> incSeq hc' = Inr (hc'\<lparr>hc_seq := sq\<rparr>)"
    using incSeq_ok [OF s(7) assms(3)] by blast
  let ?c = "StreamCipher key (pos + length payload + length mac)"
  have "encrypt rc hw (start @ two_bytes (int (length payload))) payload rand =
      (Inr (wire_record start body), hw\<lparr>hc_cipher := Some ?c, hc_seq := sq\<rparr>, rand)"
    using c s assms(4) sq(3) encrypt_switch_stream [OF s(1), of "start @ two_bytes (int (length payload))" rc key pos "[]" payload]
    by (intro encrypt_step [where nonce = "[]" and l' = "two_bytes (int (length payload))" and c' = ?c])
      (simp_all add: explicit_nonce_def explicitNonceLen_def Let_def body_def mac_def)
  moreover have "decrypt rc hr (wire_record start body) = (Inr (payload, start ! 0), hr\<lparr>hc_cipher := Some ?c, hc_seq := sq\<rparr>)"
  proof (rule decrypt_step_mac [where c' = ?c])
    show "decrypt_switch rc hr (StreamCipher key pos) (wire_record start body) = (Inr (payload @ mac, [], 0, 255), ?c)"
      using s assms(4) decrypt_switch_stream [of hr "start @ two_bytes (int (length body))" rc key pos "payload @ mac"]
      by (simp add: explicitNonceLen_def wire_record_def body_def add.assoc)
    show "check_mac rc h (hc_seq hr) (start @ two_bytes (int (length body))) (payload @ mac) 0 255 = Some payload"
      using check_mac_ok [OF assms(1,4), of payload "[]" 0] assms(5) s by (simp add: mac_def)
  qed (use s assms(4) sq(3) in simp_all)
  ultimately show ?thesis
    using goes_throughI [OF assms(2), of ?c sq rc start payload rand start body rand] s c sq lm start_eq [OF assms(4)]
    by (simp add: mirror_def cipher_ok_def explicitNonceLen_def body_def)
qed

lemma goes_through_cbc:
  assumes "record_laws rc" "in_sync hw hr" "from_be (hc_seq hw) < 2 ^ 64 - 1" "length start = 3" "length payload \<le> maxPlaintext"
    and c: "hc_cipher hw = Some (CBCMode isRead b iv)" and rand: "explicitNonceLen hw \<le> length rand"
  shows "goes_through rc hw hr start payload rand"
proof -
  obtain h where s: "hc_mac hw = Some h" "hc_mac hr = Some h" "hc_version hw \<noteq> VersionTLS13" "hc_version hr \<noteq> VersionTLS13"
    "hc_seq hr = hc_seq hw" "hc_cipher hr = Some (CBCMode True b iv)" "length (hc_seq hw) = 8" "hc_version hr = hc_version hw"
    "\<not> isRead" "length iv = BlockSize b"
    using assms(2) c by (auto simp: in_sync_def cipher_ok_def mirror_def)
  define nonce where "nonce = take (explicitNonceLen hw) rand"
  have en: "explicit_nonce hw (CBCMode False b iv) rand = (Inr nonce, drop (explicitNonceLen hw) rand)"
    using rand by (auto simp: explicit_nonce_def is_CBC_def ReadFull_def nonce_def Let_def)
  have l: "length nonce = explicitNonceLen hw"
    using rand by (simp add: nonce_def)
  have nl: "explicitNonceLen hw = length nonce" "explicitNonceLen hr = length nonce" "nonce = [] \<or> length nonce = BlockSize b"
      "length nonce \<le> 16"
    unfolding length_0_conv [symmetric] l using s c
    by (auto simp: explicitNonceLen_def BlockSize_def split: block_cipher.split if_splits)
  define mac where "mac = tls10MAC rc h (hc_seq hw) (start @ two_bytes (int (length payload))) payload"
  define n where "n = BlockSize b - (length payload + Size h) mod BlockSize b"
  define r where "r = cbc_encrypt rc b (if nonce = [] then iv else nonce) (payload @ mac @ replicate n (of_nat (n - 1)))"
  have lm: "length mac = Size h"
    using length_tls10MAC [OF assms(1)] by (simp add: mac_def)
  obtain sq where sq: "length sq = 8" "from_be sq = from_be (hc_seq hw) + 1"
      "\<And>hc'. hc_seq hc' = hc_seq hw \<Longrightarrow> incSeq hc' = Inr (hc'\<lparr>hc_seq := sq\<rparr>)"
    using incSeq_ok [OF s(7) assms(3)] by blast
  note d = decrypt_switch_cbc [OF assms(1) s(2) _ nl(2) s(10) nl(3) lm assms(5) n_def r_def]
  let ?body = "nonce @ fst r"
  have "encrypt rc hw (start @ two_bytes (int (length payload))) payload rand =
      (Inr (wire_record start ?body), hw\<lparr>hc_cipher := Some (CBCMode False b (snd r)), hc_seq := sq\<rparr>, drop (length nonce) rand)"
    using c s assms(4) sq(3) en [unfolded nl(1)] lm
      encrypt_switch_cbc [OF s(1), of "start @ two_bytes (int (length payload))" rc b iv nonce payload]
    by (intro encrypt_step [where nonce = nonce and l' = "two_bytes (int (length payload))" and c' = "CBCMode False b (snd r)"])
      (simp_all add: Let_def r_def n_def mac_def)
  moreover have "decrypt rc hr (wire_record start ?body) =
      (Inr (payload, start ! 0), hr\<lparr>hc_cipher := Some (CBCMode True b (snd r)), hc_seq := sq\<rparr>)"
  proof (rule decrypt_step_mac [where c' = "CBCMode True b (snd r)"])
    show "decrypt_switch rc hr (CBCMode True b iv) (wire_record start ?body) =
        (Inr (payload @ mac @ replicate n (of_nat (n - 1)), [], n, 255), CBCMode True b (snd r))"
      using d [of "start @ two_bytes (int (length ?body))"] assms(4) by (simp add: wire_record_def)
    show "check_mac rc h (hc_seq hr) (start @ two_bytes (int (length ?body)))
        (payload @ mac @ replicate n (of_nat (n - 1))) n 255 = Some payload"
      using check_mac_ok [OF assms(1,4), of payload "replicate n (of_nat (n - 1))" n] assms(5) s by (simp add: mac_def)
  qed (use s assms(4) sq(3) in simp_all)
  ultimately show ?thesis
    using goes_throughI [OF assms(2), of "CBCMode False b (snd r)" sq rc start payload rand start ?body "drop (length nonce) rand"]
      s c sq nl start_eq [OF assms(4)] d [of "start @ [0, 0]"] rand assms(4)
    by (simp add: mirror_def cipher_ok_def explicitNonceLen_def)
qed


lemma aead_of_facts:
  assumes "in_sync hw hr" "hc_cipher hw = Some c" "aead_of c = Some a"
  shows "mirror (after_nonce c n) = after_nonce c n" "cipher_ok hw (after_nonce c n)" "hc_cipher hr = Some c" "hc_mac hw = None"
    "hc_mac hr = None" "mask_ok c"
    "explicit_nonce hw c rand = (Inr (take (explicitNonceLen hw) (hc_seq hw)), rand)"
    "take (explicitNonceLen hw) (hc_seq hw) = [] \<or> take (explicitNonceLen hw) (hc_seq hw) = hc_seq hw"
    "explicitNonceLen (hw\<lparr>hc_cipher := Some (after_nonce c n), hc_seq := sq\<rparr>) = explicitNonceLen hw"
    "explicitNonceLen hr = explicitNonceLen hw" "explicitNonceLen hw \<le> 8"
    "hc_version hw = VersionTLS13 \<Longrightarrow> explicitNonceLen hw = 0"
  using assms
  by (cases c; simp add: in_sync_def cipher_ok_def mirror_def after_nonce_def aead_of_def prefix_nonce_def explicit_nonce_def
      explicitNonceLen_def is_CBC_def mask_ok_def)+

lemma goes_through_aead:
  assumes "record_laws rc" "in_sync hw hr" "from_be (hc_seq hw) < 2 ^ 64 - 1" "length start = 3"
    and c: "hc_cipher hw = Some c" "aead_of c = Some a" and v: "hc_version hw \<noteq> VersionTLS13"
  shows "goes_through rc hw hr start payload rand"
proof -
  note f = aead_of_facts [OF assms(2) c]
  have s: "hc_version hr = hc_version hw" "hc_seq hr = hc_seq hw" "length (hc_seq hw) = 8"
    using assms(2) by (simp_all add: in_sync_def)
  define nonce where "nonce = take (explicitNonceLen hw) (hc_seq hw)"
  have nl: "explicitNonceLen hr = length nonce" "nonce = [] \<or> length nonce = 8"
      "hc_seq hw = (if nonce = [] then hc_seq hw else nonce)"
    using f(8,10,11) s by (auto simp: nonce_def)
  define ad where "ad = hc_seq hw @ start @ two_bytes (int (length payload))"
  let ?c = "after_nonce c (hc_seq hw)" and ?body = "nonce @ rc_Seal rc a (aead_nonce c (hc_seq hw)) payload ad"
  obtain sq where sq: "length sq = 8" "from_be sq = from_be (hc_seq hw) + 1"
      "\<And>hc'. hc_seq hc' = hc_seq hw \<Longrightarrow> incSeq hc' = Inr (hc'\<lparr>hc_seq := sq\<rparr>)"
    using incSeq_ok [OF s(3) assms(3)] by blast
  have es: "encrypt_switch rc hw c (start @ two_bytes (int (length payload)) @ nonce) nonce payload =
      (Inr (start @ two_bytes (int (length payload)) @ ?body), ?c)"
    using encrypt_switch_aead [OF c(2) _ nl(2) s(3) f(6) v, of "start @ two_bytes (int (length payload))" rc payload] assms(4)
    by (simp add: Let_def nl(3) [symmetric] ad_def)
  have "encrypt rc hw (start @ two_bytes (int (length payload))) payload rand =
      (Inr (wire_record start ?body), hw\<lparr>hc_cipher := Some ?c, hc_seq := sq\<rparr>, rand)"
    using sq(3) assms(4) by (intro encrypt_step [OF c(1) f(7) [folded nonce_def] es]) simp_all
  moreover have "decrypt rc hr (wire_record start ?body) = (Inr (payload, start ! 0), hr\<lparr>hc_cipher := Some ?c, hc_seq := sq\<rparr>)"
  proof (rule decrypt_step_aead [OF f(3) assms(4) f(5)])
    show "decrypt_switch rc hr c (wire_record start ?body) = (Inr (rc_Seal rc a (aead_nonce c (hc_seq hw)) payload ad, payload, 0, 255), ?c)"
      unfolding wire_record_def append_assoc
      using s v nl(3) by (intro decrypt_switch_aead [OF assms(1) c(2) assms(4) nl(1) _ nl(2) f(6)]) (auto simp: ad_def split: if_splits)
  qed (use s v sq(3) in simp_all)
  moreover have "length ?body \<le> length payload + 64"
    using assms(1) nl(2) by (auto simp: record_laws_def)
  ultimately show ?thesis
    using goes_throughI [OF assms(2) f(2) [of "hc_seq hw"] sq(1,2), of rc start payload rand start ?body rand] f(1,9) v start_eq [OF assms(4)]
    by simp
qed

lemma goes_through_tls13:
  assumes "record_laws rc" "in_sync hw hr" "from_be (hc_seq hw) < 2 ^ 64 - 1" "length start = 3" "length payload \<le> maxPlaintext"
    and c: "hc_cipher hw = Some c" "aead_of c = Some a" and v: "hc_version hw = VersionTLS13" and t: "start ! 0 \<noteq> 0"
  shows "goes_through rc hw hr start payload rand"
proof -
  note f = aead_of_facts [OF assms(2) c]
  have s: "hc_version hr = VersionTLS13" "hc_seq hr = hc_seq hw" "length (hc_seq hw) = 8" "explicitNonceLen hw = 0"
    using assms(2) v f(12) by (simp_all add: in_sync_def)
  let ?start = "recordTypeApplicationData # tl start"
  define ad where "ad = ?start @ two_bytes (int (length payload + 17))"
  let ?c = "after_nonce c (hc_seq hw)"
  define body where "body = rc_Seal rc a (aead_nonce c (hc_seq hw)) (payload @ [start ! 0]) ad"
  have lb: "length body = length payload + 17"
    using assms(1) by (simp add: body_def record_laws_def)
  obtain sq where sq: "length sq = 8" "from_be sq = from_be (hc_seq hw) + 1"
      "\<And>hc'. hc_seq hc' = hc_seq hw \<Longrightarrow> incSeq hc' = Inr (hc'\<lparr>hc_seq := sq\<rparr>)"
    using incSeq_ok [OF s(3) assms(3)] by blast
  have es: "encrypt_switch rc hw c (start @ two_bytes (int (length payload)) @ []) [] payload =
      (Inr (?start @ two_bytes (int (length payload + 17)) @ body), ?c)"
    using encrypt_switch_tls13 [OF c(2) assms(4) _ s(3) f(6) v, of "two_bytes (int (length payload))" rc payload]
    by (simp add: Let_def ad_def body_def add.commute)
  have enc: "encrypt rc hw (start @ two_bytes (int (length payload))) payload rand =
      (Inr (wire_record ?start body), hw\<lparr>hc_cipher := Some ?c, hc_seq := sq\<rparr>, rand)"
    using sq(3) assms(4) f(7) s(4) by (intro encrypt_step [OF c(1) _ es]) simp_all
  have dec: "decrypt rc hr (wire_record ?start body) = (Inr (payload, start ! 0), hr\<lparr>hc_cipher := Some ?c, hc_seq := sq\<rparr>)"
  proof (rule decrypt_step_aead [OF f(3) _ f(5)])
    have ab: "ad = ?start @ two_bytes (int (length body))"
      by (simp add: ad_def lb)
    have "decrypt_switch rc hr c (?start @ two_bytes (int (length body)) @
          rc_Seal rc a (aead_nonce c (hc_seq hw)) (payload @ [start ! 0]) ad) =
        (Inr (rc_Seal rc a (aead_nonce c (hc_seq hw)) (payload @ [start ! 0]) ad, payload @ [start ! 0], 0, 255), ?c)"
      using s f(10) assms(4) ab
      by (intro decrypt_switch_aead [OF assms(1) c(2) _ _ _ _ f(6), where nonce = "[]", simplified append_Nil]) simp_all
    then show "decrypt_switch rc hr c (wire_record ?start body) = (Inr (body, payload @ [start ! 0], 0, 255), ?c)"
      by (simp only: wire_record_def body_def [symmetric])
  qed (use s sq(3) inner_plaintext_snoc [OF t assms(5)] assms(4) in simp_all)
  then have "decrypt rc hr (wire_record ?start body) = (Inr (payload, start ! 0), hr\<lparr>hc_cipher := Some (mirror ?c), hc_seq := sq\<rparr>)"
    by (simp only: f(1))
  then show ?thesis
    by (rule goes_throughI [OF assms(2) f(2) sq(1,2) enc _ f(9)]) (simp_all add: v lb)
qed

lemma record_goes_through:
  assumes "record_laws rc" "in_sync hw hr" "from_be (hc_seq hw) < 2 ^ 64 - 1" "length start = 3" "length payload \<le> maxPlaintext"
    and "start ! 0 \<noteq> 0" "explicitNonceLen hw \<le> length rand"
  shows "goes_through rc hw hr start payload rand"
proof -
  obtain c where c: "hc_cipher hw = Some c"
    using assms(2) by (auto simp: in_sync_def split: option.splits)
  show ?thesis
  proof (cases "hc_version hw = VersionTLS13")
    case True
    then obtain a where "aead_of c = Some a"
      using assms(2) c by (cases c) (auto simp: in_sync_def cipher_ok_def aead_of_def)
    then show ?thesis
      using goes_through_tls13 [OF assms(1-5) c] assms(6) True by blast
  next
    case False
    then show ?thesis
      using goes_through_stream [OF assms(1-5)] goes_through_cbc [OF assms(1-5)] goes_through_aead [OF assms(1-4)] c assms(7)
      by (cases c) (auto simp: aead_of_def)
  qed
qed


section \<open>Properties\<close>

lemma from_be_zero: "from_be (replicate n 0) = 0"
  by (induction n) (simp_all add: from_be_def)

text \<open>Primitives that satisfy the laws: a byte sum as tag and digest, and a fixed mask as cipher.\<close>

definition rc_plain :: record_crypto where
  "rc_plain = \<lparr>
     rc_keystream = (\<lambda>key pos. of_nat pos),
     rc_Seal = (\<lambda>a nonce p ad. p @ replicate 16 (sum_list (nonce @ p @ ad))),
     rc_Open = (\<lambda>a nonce ct ad. let p = take (length ct - 16) ct in
       if ct = p @ replicate 16 (sum_list (nonce @ p @ ad)) then Some p else None),
     rc_Encrypt = (\<lambda>b x. map (\<lambda>v. v + 1) x),
     rc_Decrypt = (\<lambda>b x. map (\<lambda>v. v - 1) x),
     rc_Sum = (\<lambda>h d. replicate (Size h) (sum_list d))\<rparr>"

lemma rc_plain_laws: "record_laws rc_plain"
  by (simp add: record_laws_def rc_plain_def o_def)

text \<open>
  C7. Whatever record a side encrypts, the other side decrypts: where both directions hold the same
  version, keys and sequence number, the sequence number is not at its end and the source of
  randomness has the bytes of an explicit vector, \<open>encrypt\<close> succeeds on a header and a payload of at
  most \<open>maxPlaintext\<close> bytes, \<open>decrypt\<close> of the record returns the payload and its type, and both
  directions are again in step. The record has the stated type (application data in TLS 1.3) and
  its own length in the header, within the limits that the reader enforces. This covers RC4, CBC
  with and without an explicit vector, and the AEADs of TLS 1.2 and TLS 1.3.
\<close>

theorem record_round_trip:
  assumes "record_laws rc" "in_sync hw hr" "from_be (hc_seq hw) < 2 ^ 64 - 1"
    and "length payload \<le> maxPlaintext" "typ \<noteq> 0" "explicitNonceLen hw \<le> length rand"
  shows "\<exists>body hw' hr' rand'.
    let vers = be16 v;
        record = [if hc_version hw = VersionTLS13 then recordTypeApplicationData else typ] @ vers
          @ two_bytes (int (length body)) @ body
    in encrypt rc hw ([typ] @ vers @ two_bytes (int (length payload))) payload rand = (Inr record, hw', rand')
       \<and> decrypt rc hr record = (Inr (payload, typ), hr')
       \<and> in_sync hw' hr' \<and> from_be (hc_seq hw') = from_be (hc_seq hw) + 1
       \<and> length body \<le> (if hc_version hw = VersionTLS13 then maxCiphertextTLS13 else maxCiphertext)"
proof -
  have "goes_through rc hw hr ([typ] @ be16 v) payload rand"
    using assms by (intro record_goes_through) (simp_all add: be16_def)
  then obtain start' body hw' hr' rand' where
      e: "encrypt rc hw (([typ] @ be16 v) @ two_bytes (int (length payload))) payload rand = (Inr (wire_record start' body), hw', rand')"
    and d: "decrypt rc hr (wire_record start' body) = (Inr (payload, ([typ] @ be16 v) ! 0), hr')"
    and s: "in_sync hw' hr'" "from_be (hc_seq hw') = from_be (hc_seq hw) + 1"
    and st: "start' = (if hc_version hw = VersionTLS13 then recordTypeApplicationData else ([typ] @ be16 v) ! 0) # tl ([typ] @ be16 v)"
    and l: "length body \<le> length payload + (if hc_version hw = VersionTLS13 then 17 else 64)"
    unfolding goes_through_def by blast
  show ?thesis
    using e d s st l assms(4)
    by (intro exI [of _ body] exI [of _ hw'] exI [of _ hr'] exI [of _ rand']) (auto simp: Let_def wire_record_def)
qed

definition ex_halfConn :: "u16 \<Rightarrow> cipher \<Rightarrow> hmac option \<Rightarrow> halfConn" where
  "ex_halfConn v c mac = \<lparr>hc_err = None, hc_version = v, hc_cipher = Some c, hc_mac = mac, hc_seq = replicate 8 0,
     hc_nextCipher = None, hc_nextMac = None, hc_level = 0, hc_trafficSecret = []\<rparr>"

theorem record_round_trip_witness:
  "\<exists>body hw' hr' rand'.
    let vers = be16 VersionTLS12; record = [22] @ vers @ two_bytes (int (length body)) @ body
    in encrypt rc_plain (ex_halfConn VersionTLS12 (CBCMode False (AES (replicate 16 1)) (replicate 16 2)) (Some (HMAC_SHA1 [3])))
         ([22] @ vers @ two_bytes 3) [7, 8, 9] (replicate 16 4) = (Inr record, hw', rand')
       \<and> decrypt rc_plain (ex_halfConn VersionTLS12 (CBCMode True (AES (replicate 16 1)) (replicate 16 2)) (Some (HMAC_SHA1 [3])))
         record = (Inr ([7, 8, 9], 22), hr')
       \<and> in_sync hw' hr'"
proof -
  let ?w = "ex_halfConn VersionTLS12 (CBCMode False (AES (replicate 16 1)) (replicate 16 2)) (Some (HMAC_SHA1 [3]))"
  let ?r = "ex_halfConn VersionTLS12 (CBCMode True (AES (replicate 16 1)) (replicate 16 2)) (Some (HMAC_SHA1 [3]))"
  have "in_sync ?w ?r"
    by (simp add: in_sync_def ex_halfConn_def mirror_def cipher_ok_def BlockSize_def)
  moreover have "from_be (hc_seq ?w) < 2 ^ 64 - 1"
    by (simp add: ex_halfConn_def from_be_zero)
  moreover have "explicitNonceLen ?w \<le> 16"
    by (simp add: ex_halfConn_def explicitNonceLen_def BlockSize_def)
  moreover have "hc_version ?w \<noteq> VersionTLS13"
    by (simp add: ex_halfConn_def)
  ultimately show ?thesis
    using record_round_trip [OF rc_plain_laws, of ?w ?r "[7, 8, 9]" 22 "replicate 16 4" VersionTLS12]
    unfolding Let_def by simp blast
qed

text \<open>
  C18. \<open>extractPadding\<close>, which looks at the last 256 bytes whatever they are and never branches on
  them, computes the check of the standard: the padding is good exactly when the last byte says
  \<open>n\<close>, there are \<open>n + 1\<close> bytes, and all of these are \<open>n\<close>. Then it removes those and returns 255;
  otherwise it removes one byte and returns 0.
\<close>

theorem extractPadding_checks_padding:
  assumes "length payload < 2147483648"
  shows "extractPadding payload =
    (if payload = [] then (0, 0)
     else let n = unat (last payload) + 1 in
       if n \<le> length payload \<and> drop (length payload - n) payload = replicate n (last payload) then (n, 255) else (1, 0))"
  using extractPadding_eq [OF assms] by (simp add: padding_valid_def Let_def del: replicate_Suc)

theorem extractPadding_checks_padding_witness:
  "extractPadding [9, 2, 2, 2] = (3, 255) \<and> extractPadding [9, 2, 1, 2] = (1, 0)"
  using extractPadding_checks_padding [of "[9, 2, 2, 2]"] extractPadding_checks_padding [of "[9, 2, 1, 2]"]
  by (simp add: Let_def numeral_3_eq_3)

text \<open>
  C19. The sequence number of a direction is a counter of 64 bits: \<open>incSeq\<close> adds one to its value and
  changes nothing else, and it panics exactly at the last value, so a number is never used again.
\<close>

theorem incSeq_counts:
  assumes "length (hc_seq hc) = 8"
  shows "case incSeq hc of
      Inl e \<Rightarrow> e = ConnPanic ''TLS: sequence number wraparound'' \<and> from_be (hc_seq hc) = 2 ^ 64 - 1
    | Inr hc' \<Rightarrow> hc' = hc\<lparr>hc_seq := hc_seq hc'\<rparr> \<and> length (hc_seq hc') = 8 \<and> from_be (hc_seq hc') = from_be (hc_seq hc) + 1"
  using assms by (rule incSeq_value)

theorem incSeq_counts_witness:
  "\<exists>hc'. incSeq (ex_halfConn VersionTLS12 (StreamCipher [1] 0) None) = Inr hc' \<and> from_be (hc_seq hc') = 1"
proof -
  let ?hc = "ex_halfConn VersionTLS12 (StreamCipher [1] 0) None"
  have "from_be (hc_seq ?hc) = 0" "length (hc_seq ?hc) = 8"
    by (simp_all add: ex_halfConn_def from_be_zero)
  then show ?thesis
    using incSeq_counts [of ?hc] by (auto split: sum.splits)
qed

text \<open>
  A sequence of records encrypted under one key. A record of an AEAD is what precedes the sealed
  part, with the length set, and the sealed part.
\<close>

fun encrypt_all :: "record_crypto \<Rightarrow> halfConn \<Rightarrow> (bytes \<times> bytes) list \<Rightarrow> bytes \<Rightarrow> (bytes list \<times> halfConn) option" where
  "encrypt_all rc hc [] rand = Some ([], hc)"
| "encrypt_all rc hc ((header, payload) # ms) rand = (case encrypt rc hc header payload rand of
     (Inl e, hc, rand) \<Rightarrow> None
   | (Inr record, hc, rand) \<Rightarrow> map_option (apfst ((#) record)) (encrypt_all rc hc ms rand))"

definition sealed_record :: "bytes \<Rightarrow> bytes \<Rightarrow> bytes" where
  "sealed_record pre body = set_length (int (length (pre @ body)) - int recordHeaderLen) (pre @ body)"

lemma encrypt_switch_seals:
  assumes "aead_of c = Some a" "mask_ok c" "length (hc_seq hc) = 8" "(if nonce = [] then hc_seq hc else nonce) = hc_seq hc"
  shows "\<exists>pre p ad. \<forall>rc. encrypt_switch rc hc c record nonce payload =
    (Inr (pre @ rc_Seal rc a (aead_nonce c (hc_seq hc)) p ad), after_nonce c (hc_seq hc))"
proof (cases "hc_version hc = VersionTLS13")
  case True
  let ?h = "set_length (int (length payload + 1 + aeadOverhead)) ((take recordHeaderLen record)[0 := recordTypeApplicationData])"
  show ?thesis
    using assms(1,4) True cipher_Seal_Open(1) [OF assms(1,3,2)]
    by (intro exI [of _ ?h] exI [of _ "drop recordHeaderLen (record @ payload) @ [record ! 0]"])
      (cases c; simp add: encrypt_switch_def Let_def aead_of_def)
next
  case False
  show ?thesis
    using assms(1,4) False cipher_Seal_Open(1) [OF assms(1,3,2)]
    by (intro exI [of _ "record"] exI [of _ payload] exI [of _ "hc_seq hc @ take recordHeaderLen record"])
      (cases c; simp add: encrypt_switch_def Let_def aead_of_def)
qed

lemma encrypt_aead_seals:
  assumes "hc_cipher hc = Some c" "aead_of c = Some a" "mask_ok c" "length (hc_seq hc) = 8"
    and "encrypt rc hc header payload rand = (Inr record, hc', rand')"
  shows "hc_cipher hc' = Some (after_nonce c (hc_seq hc)) \<and> length (hc_seq hc') = 8
      \<and> from_be (hc_seq hc') = from_be (hc_seq hc) + 1"
    "\<exists>pre p ad. \<forall>rc'. encrypt rc' hc header payload rand
      = (Inr (sealed_record pre (rc_Seal rc' a (aead_nonce c (hc_seq hc)) p ad)), hc', rand')"
proof -
  let ?hc = "hc\<lparr>hc_cipher := Some (after_nonce c (hc_seq hc))\<rparr>"
  obtain nonce where n: "explicit_nonce hc c rand = (Inr nonce, rand')"
    using assms(5) by (auto simp: encrypt_def Let_def assms(1) split: sum.splits prod.splits)
  then have "(if nonce = [] then hc_seq hc else nonce) = hc_seq hc"
    using assms(1,2,4) by (cases c) (auto simp: aead_of_def explicit_nonce_def explicitNonceLen_def is_CBC_def)
  from encrypt_switch_seals [OF assms(2-4) this, of "header @ nonce" payload] obtain pre p ad where
    e: "\<And>rc. encrypt_switch rc hc c (header @ nonce) nonce payload =
      (Inr (pre @ rc_Seal rc a (aead_nonce c (hc_seq hc)) p ad), after_nonce c (hc_seq hc))"
    by blast
  have i: "incSeq ?hc = Inr hc'"
    using assms(5) n e by (auto simp: encrypt_def Let_def assms(1) split: sum.splits)
  then show "hc_cipher hc' = Some (after_nonce c (hc_seq hc)) \<and> length (hc_seq hc') = 8
      \<and> from_be (hc_seq hc') = from_be (hc_seq hc) + 1"
    using incSeq_value [of ?hc] assms(4) by (auto dest: arg_cong [of hc' _ hc_cipher])
  show "\<exists>pre p ad. \<forall>rc'. encrypt rc' hc header payload rand
      = (Inr (sealed_record pre (rc_Seal rc' a (aead_nonce c (hc_seq hc)) p ad)), hc', rand')"
    using n e i by (intro exI [of _ pre] exI [of _ p] exI [of _ ad]) (simp add: encrypt_def assms(1) Let_def sealed_record_def)
qed

lemma prefix_nonce_eq: "length f = 12 \<Longrightarrow> length n = 8 \<Longrightarrow> prefix_nonce f n = take 4 f @ n"
  by (simp add: prefix_nonce_def)

definition nonce_ok :: "cipher \<Rightarrow> bool" where
  "nonce_ok c \<longleftrightarrow> (case c of PrefixNonceAEAD f _ \<Rightarrow> length f = 12 | XorNonceAEAD m _ \<Rightarrow> length m = 12 | _ \<Rightarrow> False)"

lemma nonce_ok_facts:
  assumes "nonce_ok c" "length s = 8"
  shows "nonce_ok (after_nonce c s)" "aead_of (after_nonce c s) = aead_of c" "mask_ok c"
    "length t = 8 \<Longrightarrow> aead_nonce (after_nonce c s) t = aead_nonce c t"
    "length t = 8 \<Longrightarrow> aead_nonce c s = aead_nonce c t \<Longrightarrow> s = t"
  using assms xor_nonce_inj [OF _ assms(2)]
  by (cases c; simp add: nonce_ok_def after_nonce_def aead_of_def mask_ok_def aead_nonce_def prefix_nonce_eq)+

lemma encrypt_all_nonces:
  assumes "encrypt_all rc hc ms rand = Some (records, hc')" "hc_cipher hc = Some c" "nonce_ok c" "aead_of c = Some a"
    and "length (hc_seq hc) = 8"
  shows "\<exists>seqs parts. distinct (map from_be seqs) \<and> length seqs = length ms \<and> length parts = length ms
    \<and> (\<forall>s \<in> set seqs. length s = 8 \<and> from_be (hc_seq hc) \<le> from_be s)
    \<and> (\<forall>rc'. encrypt_all rc' hc ms rand =
        Some (map2 (\<lambda>s (pre, p, ad). sealed_record pre (rc_Seal rc' a (aead_nonce c s) p ad)) seqs parts, hc'))"
  using assms
proof (induction ms arbitrary: hc c rand records)
  case Nil
  then show ?case
    by (intro exI [of _ "[]"]) simp
next
  case (Cons m ms)
  obtain header payload where m: "m = (header, payload)"
    by (cases m)
  obtain out hc1 rand1 outs where e: "encrypt rc hc header payload rand = (Inr out, hc1, rand1)"
    and rest: "encrypt_all rc hc1 ms rand1 = Some (outs, hc')"
    using Cons.prems(1) by (auto simp: m split: sum.splits prod.splits)
  let ?c = "after_nonce c (hc_seq hc)"
  note f = nonce_ok_facts [OF Cons.prems(3,5)]
  note st = encrypt_aead_seals [OF Cons.prems(2,4) f(3) Cons.prems(5) e]
  from st(2) obtain pre p ad where first: "\<And>rc'. encrypt rc' hc header payload rand
      = (Inr (sealed_record pre (rc_Seal rc' a (aead_nonce c (hc_seq hc)) p ad)), hc1, rand1)"
    by blast
  from st(1) have n: "hc_cipher hc1 = Some ?c" "length (hc_seq hc1) = 8" "from_be (hc_seq hc1) = from_be (hc_seq hc) + 1"
    by simp_all
  from Cons.IH [OF rest n(1) f(1) f(2) [unfolded Cons.prems(4)] n(2)] obtain seqs parts where
      d: "distinct (map from_be seqs)" and l: "length seqs = length ms" "length parts = length ms"
    and s: "\<forall>s \<in> set seqs. length s = 8 \<and> from_be (hc_seq hc) + 1 \<le> from_be s"
    and run: "\<And>rc'. encrypt_all rc' hc1 ms rand1 =
        Some (map2 (\<lambda>s (pre, p, ad). sealed_record pre (rc_Seal rc' a (aead_nonce ?c s) p ad)) seqs parts, hc')"
    unfolding n(3) by blast
  have "map2 (\<lambda>s (pre, p, ad). sealed_record pre (rc_Seal rc' a (aead_nonce ?c s) p ad)) seqs parts =
      map2 (\<lambda>s (pre, p, ad). sealed_record pre (rc_Seal rc' a (aead_nonce c s) p ad)) seqs parts" for rc'
    using s f(4) by (intro map_cong refl) (auto dest!: set_zip_leftD)
  then show ?case
    using d l s run first Cons.prems(5)
    by (intro exI [of _ "hc_seq hc # seqs"] exI [of _ "(pre, p, ad) # parts"]) (fastforce simp: m)
qed

text \<open>
  C17. An AEAD never gets the same nonce twice under one key. For every sequence of records that
  \<open>encrypt\<close> protects with one AEAD there is one list of pairwise different nonces, one for each
  record, under which the records are sealed. That these are the nonces that \<open>Seal\<close> of the AEAD
  receives is said by \<open>\<forall>rc'\<close>: the records are the ones sealed under these nonces for all
  primitives, also for an AEAD whose output is its nonce.
\<close>

theorem record_nonces_never_repeat:
  assumes "hc_cipher hc = Some c" "nonce_ok c" "aead_of c = Some a" "length (hc_seq hc) = 8"
    and "encrypt_all rc hc ms rand = Some (records, hc')"
  shows "\<exists>ns parts. distinct ns \<and> length ns = length ms \<and> length parts = length ms \<and>
    (\<forall>rc'. encrypt_all rc' hc ms rand =
      Some (map2 (\<lambda>n (pre, p, ad). sealed_record pre (rc_Seal rc' a n p ad)) ns parts, hc'))"
proof -
  from encrypt_all_nonces [OF assms(5,1-4)] obtain seqs parts where
      d: "distinct (map from_be seqs)" and l: "length seqs = length ms" "length parts = length ms"
    and s: "\<forall>s \<in> set seqs. length s = 8"
    and run: "\<And>rc'. encrypt_all rc' hc ms rand =
        Some (map2 (\<lambda>s (pre, p, ad). sealed_record pre (rc_Seal rc' a (aead_nonce c s) p ad)) seqs parts, hc')"
    by blast
  have "inj_on (aead_nonce c) (set seqs)"
    using s nonce_ok_facts(5) [OF assms(2)] by (intro inj_onI) blast
  then have "distinct (map (aead_nonce c) seqs)"
    using d by (simp add: distinct_map)
  then show ?thesis
    using l run by (intro exI [of _ "map (aead_nonce c) seqs"] exI [of _ parts]) (simp add: zip_map1 comp_def split_def)
qed

theorem record_nonces_never_repeat_witness:
  "\<exists>n1 n2 pre1 pre2 hc'. n1 \<noteq> n2 \<and>
    encrypt_all (rc_plain\<lparr>rc_Seal := \<lambda>a n p ad. n\<rparr>) (ex_halfConn VersionTLS13 (XorNonceAEAD (replicate 12 5) (AESGCM (replicate 16 1))) None)
       [([22, 3, 3, 0, 1], [9]), ([22, 3, 3, 0, 1], [8])] [] = Some ([sealed_record pre1 n1, sealed_record pre2 n2], hc')"
proof -
  let ?c = "XorNonceAEAD (replicate 12 5) (AESGCM (replicate 16 1))"
  let ?hc = "ex_halfConn VersionTLS13 ?c None" and ?ms = "[([22, 3, 3, 0, 1], [9]), ([22, 3, 3, 0, 1], [8])] :: (bytes \<times> bytes) list"
    and ?rc = "rc_plain\<lparr>rc_Seal := \<lambda>a n p ad. n\<rparr>"
  obtain records hc' where "encrypt_all rc_plain ?hc ?ms [] = Some (records, hc')"
    by (simp add: ex_halfConn_def encrypt_def explicit_nonce_def explicitNonceLen_def encrypt_switch_def cipher_Seal_def Let_def
        incSeq_def eval_nat_numeral)
  from record_nonces_never_repeat [OF _ _ _ _ this, of ?c "AESGCM (replicate 16 1)"] obtain ns parts where
      "distinct ns" "length ns = length ?ms" "length parts = length ?ms"
    and run: "encrypt_all ?rc ?hc ?ms [] =
      Some (map2 (\<lambda>n (pre, p, ad). sealed_record pre (rc_Seal ?rc (AESGCM (replicate 16 1)) n p ad)) ns parts, hc')"
    by (fastforce simp: ex_halfConn_def nonce_ok_def aead_of_def)
  then obtain n1 n2 q1 q2 where "ns = [n1, n2]" "n1 \<noteq> n2" "parts = [q1, q2]"
    by (auto simp: length_Suc_conv)
  then show ?thesis
    using run by (intro exI [of _ n1] exI [of _ n2] exI [of _ "fst q1"] exI [of _ "fst q2"] exI [of _ hc']) (simp add: split_def)
qed

end
