(* ===== verification/Connection_Transfer.thy ===== *)
theory Connection_Transfer
  imports Connection_Reading Record_Protection
begin

text \<open>
  Two connections: what one writes, the other reads, across the limits on the size of records, the
  protection of records and a transport that cuts the stream anywhere.
\<close>

section \<open>From one connection to the other\<close>

lemma two_bytes_be16: "two_bytes (int n) = be16 (of_nat n)"
proof -
  have "int n div 256 = int (drop_bit 8 n)"
    by (simp add: drop_bit_eq_div [where 'a = nat] zdiv_int)
  then show ?thesis
    by (simp add: two_bytes_def be16_of_nat hi16_def)
qed

lemma header_length: "n < 65536 \<Longrightarrow> unat (u16_of (two_bytes (int n) ! 0) (two_bytes (int n) ! 1)) = n"
  unfolding two_bytes_be16 by (simp add: be16_def unat_of_nat16)

text \<open>The checks of the header of a record.\<close>

definition header_ok :: "conn \<Rightarrow> bytes \<Rightarrow> nat \<Rightarrow> bool" where
  "header_ok c start n \<longleftrightarrow> length start = 3 \<and> start ! 0 \<noteq> 0x80
     \<and> (if c_haveVers c then u16_of (start ! 1) (start ! 2) = (if c_vers c = VersionTLS13 then VersionTLS12 else c_vers c)
        else start ! 0 \<in> {recordTypeAlert, recordTypeHandshake} \<and> u16_of (start ! 1) (start ! 2) < 0x1000)
     \<and> n \<le> (if c_vers c = VersionTLS13 then maxCiphertextTLS13 else maxCiphertext)"

lemma read_one_record:
  assumes "incoming c = wire_record start body @ rest" "header_ok c start (length body)"
    and "hc_err (c_in c) = None" "c_input c = []"
    and "decrypt rc (c_in c) (wire_record start body) = (Inr (dat, t), hc)"
  obtains raw net where "raw @ concat net = rest"
    "read_one rc e c = process_record rc e t dat (c\<lparr>c_rawInput := raw, c_net := net, c_in := hc\<rparr>)"
proof -
  let ?n = "length body"
  have n: "?n < 65536" "length start = 3"
    using assms(2) by (auto simp: header_ok_def split: if_splits)
  have l: "length (wire_record start body) = 5 + ?n"
    using n by (simp add: wire_record_def)
  obtain c1 where r1: "readFromUntil 5 c = (None, c1)"
    using readFromUntil_incoming(2) [of 5 c] assms(1) l by (cases "readFromUntil 5 c") auto
  note k1 = readFromUntil_incoming [OF r1]
  obtain c2 where r2: "readFromUntil (5 + ?n) c1 = (None, c2)"
    using readFromUntil_incoming(2) [of "5 + ?n" c1] assms(1) l k1(1) by (cases "readFromUntil (5 + ?n) c1") auto
  note k2 = readFromUntil_incoming [OF r2]
  have "c2 = c\<lparr>c_rawInput := c_rawInput c2, c_net := c_net c2\<rparr>"
    using readFromUntil_state [OF r1] readFromUntil_state [OF r2] by (cases c; cases c1; cases c2) simp
  have i1: "c_rawInput c1 @ concat (c_net c1) = start @ two_bytes (int ?n) @ body @ rest"
    using k1(1) assms(1) by (simp add: incoming_def wire_record_def)
  have "take 5 (c_rawInput c1) = start @ two_bytes (int ?n)"
    using arg_cong [OF i1, of "take 5"] k1(3) n by simp
  moreover have "(start @ two_bytes (int ?n)) ! 0 = start ! 0" "(start @ two_bytes (int ?n)) ! 1 = start ! 1"
      "(start @ two_bytes (int ?n)) ! 2 = start ! 2"
      "unat (u16_of ((start @ two_bytes (int ?n)) ! 3) ((start @ two_bytes (int ?n)) ! 4)) = ?n"
    using header_length [OF n(1)] n(2) by (simp_all add: nth_append)
  ultimately have h: "read_header rc c = (Inr ?n, c1)"
    using assms(2) unfolding read_header_def r1 prod.case option.case Let_def header_ok_def k1(9-11) [symmetric]
    by (simp split: if_splits) (auto simp: not_le [symmetric])
  have i2: "c_rawInput c2 @ concat (c_net c2) = wire_record start body @ rest"
    using k1(1) k2(1) assms(1) by (simp add: incoming_def)
  have t: "take (5 + ?n) (c_rawInput c2) = wire_record start body"
    using arg_cong [OF i2, of "take (5 + ?n)"] k2(3) l by simp
  have d: "drop (5 + ?n) (c_rawInput c2) @ concat (c_net c2) = rest"
    using arg_cong [OF i2, of "drop (5 + ?n)"] k2(3) l by simp
  have "read_one rc e c = process_record rc e t dat (c2\<lparr>c_rawInput := drop (5 + ?n) (c_rawInput c2), c_in := hc\<rparr>)"
    using assms(3-5) h r2 t k1(7) k2(7) by (simp add: read_one_def Let_def)
  also have "c2\<lparr>c_rawInput := drop (5 + ?n) (c_rawInput c2), c_in := hc\<rparr> =
      c\<lparr>c_rawInput := drop (5 + ?n) (c_rawInput c2), c_net := c_net c2, c_in := hc\<rparr>"
    by (subst (1) \<open>c2 = _\<close>) simp
  finally show thesis
    using that [OF d] by blast
qed

lemma read_handshake_record:
  assumes "incoming c = wire_record start body @ rest" "header_ok c start (length body)"
    and "hc_err (c_in c) = None" "c_input c = []"
    and "decrypt rc (c_in c) (wire_record start body) = (Inr (dat, recordTypeHandshake), hc)"
    and "dat \<noteq> []" "length dat \<le> maxPlaintext"
  obtains raw net where "raw @ concat net = rest"
    "readRecordOrCCS rc False c =
      (None, c\<lparr>c_rawInput := raw, c_net := net, c_in := hc, c_retryCount := 0, c_hand := c_hand c @ dat\<rparr>)"
proof -
  obtain raw net where r: "raw @ concat net = rest"
      "read_one rc False c = process_record rc False recordTypeHandshake dat (c\<lparr>c_rawInput := raw, c_net := net, c_in := hc\<rparr>)"
    using read_one_record [OF assms(1-5)] by blast
  have "read_one rc False c =
      (Return None, c\<lparr>c_rawInput := raw, c_net := net, c_in := hc, c_retryCount := 0, c_hand := c_hand c @ dat\<rparr>)"
    using assms(6,7) r(2) by (simp add: process_record_def process_handshake_def Let_def)
  then show thesis
    using that [OF r(1)] by (simp add: readRecordOrCCS_step)
qed

text \<open>
  What a connection has given to the transport or holds in its send buffer, and the version that
  it puts into the header of a record.
\<close>

definition outgoing :: "conn \<Rightarrow> bytes" where
  "outgoing c = c_sent c @ c_sendBuf c"

definition header_vers :: "conn \<Rightarrow> u16" where
  "header_vers c = (if c_vers c = 0 then VersionTLS10 else if c_vers c = VersionTLS13 then VersionTLS12 else c_vers c)"

text \<open>
  The writer \<open>cw\<close> and the reader \<open>cr\<close> are linked for \<open>k\<close> records: neither has failed, they agree on the
  version, and either both directions are still in the clear or they hold the same keys; the
  sequence numbers and the source of randomness last for \<open>k\<close> records.
\<close>

definition linked :: "nat \<Rightarrow> conn \<Rightarrow> conn \<Rightarrow> bool" where
  "linked k cw cr \<longleftrightarrow>
     hc_err (c_in cr) = None \<and> c_input cr = [] \<and> c_writeErr cw = None \<and> (c_buffering cw \<or> c_sendBuf cw = [])
     \<and> (if c_haveVers cr then header_vers cw = (if c_vers cr = VersionTLS13 then VersionTLS12 else c_vers cr)
        else header_vers cw < 0x1000 \<and> hc_cipher (c_out cw) = None)
     \<and> (case hc_cipher (c_out cw) of
          None \<Rightarrow> hc_cipher (c_in cr) = None \<and> hc_mac (c_in cr) = None \<and> length (hc_seq (c_in cr)) = 8
            \<and> from_be (hc_seq (c_in cr)) + k < 2 ^ 64
        | Some c \<Rightarrow> in_sync (c_out cw) (c_in cr) \<and> from_be (hc_seq (c_out cw)) + k < 2 ^ 64
            \<and> explicitNonceLen (c_out cw) * k \<le> length (c_rand cw)
            \<and> (c_vers cr = VersionTLS13 \<longrightarrow> hc_version (c_out cw) = VersionTLS13))"

lemma conn_write_outgoing:
  assumes "c_writeErr c = None" "c_buffering c \<or> c_sendBuf c = []"
  obtains c' where "conn_write dat c = (None, c')" "outgoing c' = outgoing c @ dat" "c_out c' = c_out c" "c_rand c' = c_rand c"
    "reading c' = reading c" "c_buffering c' \<or> c_sendBuf c' = []" "c_writeErr c' = None"
proof (cases "c_buffering c")
  case True
  then show thesis
    using assms(1) by (intro that [of "c\<lparr>c_sendBuf := c_sendBuf c @ dat\<rparr>"]) (simp_all add: conn_write_def outgoing_def)
next
  case False
  then show thesis
    using assms
    by (intro that [of "c\<lparr>c_sent := c_sent c @ dat, c_bytesSent := c_bytesSent c + length dat\<rparr>"])
      (simp_all add: conn_write_def net_Write_def outgoing_def)
qed

lemma maxPayload_exists:
  assumes "case hc_cipher (c_out c) of None \<Rightarrow> True | Some ci \<Rightarrow> cipher_ok (c_out c) ci"
  obtains n c' where "maxPayloadSizeForWrite t c = Some (n, c')" "0 < n" "n \<le> int maxPlaintext" "c' = c\<lparr>c_packetsSent := c_packetsSent c'\<rparr>"
proof -
  have "segment_payload c \<noteq> None"
    using assms by (auto simp: segment_payload_def Let_def cipher_ok_def macSize_def split: option.splits cipher.splits)
  then have "maxPayloadSizeForWrite t c \<noteq> None"
    by (auto simp: maxPayloadSizeForWrite_def Let_def)
  then obtain n c' where m: "maxPayloadSizeForWrite t c = Some (n, c')"
    by auto
  then show thesis
    using that maxPayload_pos [OF m] maxPayload_state [OF m] by blast
qed

text \<open>The encryption of one record, in the clear or not, as the reader decrypts it.\<close>

lemma linked_record:
  assumes "record_laws rc" "linked (Suc k) cw cr" "0 < length payload" "length payload \<le> maxPlaintext" "t \<noteq> 0" "t \<noteq> 0x80"
    and "t \<noteq> recordTypeChangeCipherSpec" "c_haveVers cr \<or> t = recordTypeHandshake \<or> t = recordTypeAlert"
  obtains start body out hr rand where
    "encrypt rc (c_out cw) (record_header t (c_vers cw) (length payload)) payload (c_rand cw) = (Inr (wire_record start body), out, rand)"
    "decrypt rc (c_in cr) (wire_record start body) = (Inr (payload, t), hr)"
    "header_ok cr start (length body)"
    "\<And>cw' cr'. c_out cw' = out \<Longrightarrow> c_in cr' = hr \<Longrightarrow> c_rand cw' = rand \<Longrightarrow> c_input cr' = [] \<Longrightarrow>
       c_writeErr cw' = c_writeErr cw \<Longrightarrow> c_buffering cw' \<or> c_sendBuf cw' = [] \<Longrightarrow> c_vers cw' = c_vers cw \<Longrightarrow>
       c_vers cr' = c_vers cr \<Longrightarrow> c_haveVers cr' = c_haveVers cr \<Longrightarrow> linked k cw' cr'"
proof -
  let ?start = "[t] @ be16 (header_vers cw)"
  have hd: "record_header t (c_vers cw) (length payload) = ?start @ two_bytes (int (length payload))"
    by (simp add: record_header_def header_vers_def Let_def)
  have st: "length ?start = 3" "?start ! 0 = t" "u16_of (?start ! 1) (?start ! 2) = header_vers cw"
    by (simp_all add: be16_def)
  show thesis
  proof (cases "hc_cipher (c_out cw)")
    case None
    then have s: "hc_cipher (c_in cr) = None" "hc_mac (c_in cr) = None" "length (hc_seq (c_in cr)) = 8"
        "from_be (hc_seq (c_in cr)) + Suc k < 2 ^ 64" "hc_err (c_in cr) = None" "c_writeErr cw = None"
        "if c_haveVers cr then header_vers cw = (if c_vers cr = VersionTLS13 then VersionTLS12 else c_vers cr)
         else header_vers cw < 0x1000"
      using assms(2) by (auto simp: linked_def split: if_splits)
    obtain sq where sq: "length sq = 8" "from_be sq = from_be (hc_seq (c_in cr)) + 1"
        "incSeq (c_in cr) = Inr ((c_in cr)\<lparr>hc_seq := sq\<rparr>)"
      using incSeq_ok [OF s(3)] s(4) by (metis Suc_eq_plus1 add_Suc_right add_lessD1 less_diff_conv)
    have e: "encrypt rc (c_out cw) (record_header t (c_vers cw) (length payload)) payload (c_rand cw) =
        (Inr (wire_record ?start payload), c_out cw, c_rand cw)"
      using None by (simp add: encrypt_def hd wire_record_def)
    have d: "decrypt rc (c_in cr) (wire_record ?start payload) = (Inr (payload, t), (c_in cr)\<lparr>hc_seq := sq\<rparr>)"
      using s(1,2) sq(3) assms(7) st by (simp add: decrypt_def open_record_def wire_record_def Let_def)
    have h: "header_ok cr ?start (length payload)"
      using s(7) st assms(4,6,8) by (auto simp: header_ok_def split: if_splits)
    show thesis
      using that [OF e d h] None s sq by (auto simp: linked_def header_vers_def split: if_splits)
  next
    case (Some c)
    then have s: "in_sync (c_out cw) (c_in cr)" "from_be (hc_seq (c_out cw)) + Suc k < 2 ^ 64"
        "explicitNonceLen (c_out cw) * Suc k \<le> length (c_rand cw)" "hc_err (c_in cr) = None" "c_writeErr cw = None" "c_haveVers cr"
        "c_vers cr = VersionTLS13 \<longrightarrow> hc_version (c_out cw) = VersionTLS13"
        "header_vers cw = (if c_vers cr = VersionTLS13 then VersionTLS12 else c_vers cr)"
      using assms(2) by (auto simp: linked_def split: if_splits)
    have "goes_through rc (c_out cw) (c_in cr) ?start payload (c_rand cw)"
      using assms(1,4,5) s(1-3) st by (intro record_goes_through) simp_all
    then obtain start' body out hr rand where
        e: "encrypt rc (c_out cw) (record_header t (c_vers cw) (length payload)) payload (c_rand cw) = (Inr (wire_record start' body), out, rand)"
      and d: "decrypt rc (c_in cr) (wire_record start' body) = (Inr (payload, t), hr)"
      and y: "in_sync out hr" "out = (c_out cw)\<lparr>hc_cipher := hc_cipher out, hc_seq := hc_seq out\<rparr>"
        "hr = (c_in cr)\<lparr>hc_cipher := hc_cipher hr, hc_seq := hc_seq hr\<rparr>"
        "from_be (hc_seq out) = from_be (hc_seq (c_out cw)) + 1" "explicitNonceLen out = explicitNonceLen (c_out cw)"
        "length (c_rand cw) \<le> length rand + explicitNonceLen (c_out cw)"
      and x: "start' = (if hc_version (c_out cw) = VersionTLS13 then recordTypeApplicationData else ?start ! 0) # tl ?start"
      and l: "length body \<le> length payload + (if hc_version (c_out cw) = VersionTLS13 then 17 else 64)"
      unfolding goes_through_def hd st(2) by blast
    have h: "header_ok cr start' (length body)"
      using x l s assms(4,6) st by (auto simp: header_ok_def split: if_splits)
    have v: "hc_version out = hc_version (c_out cw)" "hc_err hr = None"
      using arg_cong [OF y(2), of hc_version] arg_cong [OF y(3), of hc_err] s(4) by simp_all
    obtain c' where c': "hc_cipher out = Some c'"
      using y(1) by (auto simp: in_sync_def split: option.splits)
    show thesis
      using that [OF e d h] y(1,4-6) s v c' by (auto simp: linked_def header_vers_def split: if_splits)
  qed
qed


lemma linked_write_one:
  assumes "record_laws rc" "linked (Suc k) cw cr" "dat \<noteq> []" "t \<noteq> 0" "t \<noteq> 0x80"
    and "t \<noteq> recordTypeChangeCipherSpec" "c_haveVers cr \<or> t = recordTypeHandshake \<or> t = recordTypeAlert"
  obtains m cw' start body hr where "write_one rc t dat cw = (Inr m, cw')" "0 < m" "m \<le> length dat" "m \<le> maxPlaintext"
    "outgoing cw' = outgoing cw @ wire_record start body" "c_vers cw' = c_vers cw"
    "decrypt rc (c_in cr) (wire_record start body) = (Inr (take m dat, t), hr)" "header_ok cr start (length body)"
    "\<And>cr'. c_in cr' = hr \<Longrightarrow> c_input cr' = [] \<Longrightarrow> c_vers cr' = c_vers cr \<Longrightarrow> c_haveVers cr' = c_haveVers cr \<Longrightarrow> linked k cw' cr'"
proof -
  have "case hc_cipher (c_out cw) of None \<Rightarrow> True | Some ci \<Rightarrow> cipher_ok (c_out cw) ci"
    using assms(2) by (auto simp: linked_def in_sync_def split: option.splits)
  then obtain n c1 where m: "maxPayloadSizeForWrite t cw = Some (n, c1)" "0 < n" "n \<le> int maxPlaintext"
      "c1 = cw\<lparr>c_packetsSent := c_packetsSent c1\<rparr>"
    by (rule maxPayload_exists)
  define m where "m = (if int (length dat) > n then nat n else length dat)"
  have mm: "0 < m" "m \<le> length dat" "m \<le> maxPlaintext"
    using m(2,3) assms(3) by (auto simp: m_def split: if_splits)
  have c1: "c_out c1 = c_out cw" "c_rand c1 = c_rand cw" "c_vers c1 = c_vers cw" "c_writeErr c1 = c_writeErr cw"
      "c_buffering c1 = c_buffering cw" "c_sendBuf c1 = c_sendBuf cw" "outgoing c1 = outgoing cw"
    using m(4) by (cases c1; cases cw; simp add: outgoing_def)+
  have lt: "length (take m dat) = m"
    using mm by simp
  obtain start body out hr rand where
      e: "encrypt rc (c_out cw) (record_header t (c_vers cw) m) (take m dat) (c_rand cw) = (Inr (wire_record start body), out, rand)"
    and d: "decrypt rc (c_in cr) (wire_record start body) = (Inr (take m dat, t), hr)" "header_ok cr start (length body)"
    and y: "\<And>cw' cr'. c_out cw' = out \<Longrightarrow> c_in cr' = hr \<Longrightarrow> c_rand cw' = rand \<Longrightarrow> c_input cr' = [] \<Longrightarrow>
       c_writeErr cw' = c_writeErr cw \<Longrightarrow> c_buffering cw' \<or> c_sendBuf cw' = [] \<Longrightarrow> c_vers cw' = c_vers cw \<Longrightarrow>
       c_vers cr' = c_vers cr \<Longrightarrow> c_haveVers cr' = c_haveVers cr \<Longrightarrow> linked k cw' cr'"
    by (rule linked_record [OF assms(1,2) _ _ assms(4-7), of "take m dat", unfolded lt], rule mm, rule mm) (rule that; assumption)
  let ?c2 = "c1\<lparr>c_out := out, c_rand := rand\<rparr>"
  have "c_writeErr ?c2 = None" "c_buffering ?c2 \<or> c_sendBuf ?c2 = []"
    using assms(2) c1 by (auto simp: linked_def)
  then obtain c3 where w: "conn_write (wire_record start body) ?c2 = (None, c3)" "outgoing c3 = outgoing ?c2 @ wire_record start body"
      "c_out c3 = c_out ?c2" "c_rand c3 = c_rand ?c2" "reading c3 = reading ?c2" "c_buffering c3 \<or> c_sendBuf c3 = []"
      "c_writeErr c3 = None"
    by (rule conn_write_outgoing)
  note rd = readingD(6) [OF w(5)]
  have "write_one rc t dat cw = (Inr m, c3)"
    using m(1) e w(1) c1 by (simp add: write_one_def Let_def m_def [symmetric])
  moreover have "outgoing c3 = outgoing cw @ wire_record start body"
    using w(2) c1(7) by (simp add: outgoing_def)
  ultimately show thesis
    using that [OF _ mm, of c3 start body hr] d y w(3,4,6,7) rd c1 \<open>c_writeErr ?c2 = None\<close> by simp
qed

lemma linked_mono:
  assumes "linked k cw cr" "j \<le> k"
  shows "linked j cw cr"
proof -
  have "explicitNonceLen (c_out cw) * j \<le> explicitNonceLen (c_out cw) * k"
    using assms(2) by (rule mult_le_mono2)
  then have "explicitNonceLen (c_out cw) * k \<le> n \<Longrightarrow> explicitNonceLen (c_out cw) * j \<le> n" for n
    by (rule order_trans)
  then show ?thesis
    using assms by (cases "hc_cipher (c_out cw)"; cases "c_haveVers cr") (simp_all add: linked_def)
qed

lemma linked_buffers [simp]: "linked k cw (cr\<lparr>c_rawInput := raw, c_net := net\<rparr>) = linked k cw cr"
  by (cases "hc_cipher (c_out cw)") (simp_all add: linked_def)

lemma header_ok_buffers [simp]: "header_ok (c\<lparr>c_rawInput := raw, c_net := net\<rparr>) start n = header_ok c start n"
  unfolding header_ok_def by (simp split del: if_split cong: if_cong)

text \<open>What the reader decides by, apart from its keys and its buffers.\<close>

definition same_role :: "conn \<Rightarrow> conn \<Rightarrow> bool" where
  "same_role c c' \<longleftrightarrow> c_vers c' = c_vers c \<and> c_haveVers c' = c_haveVers c \<and> c_isClient c' = c_isClient c
     \<and> c_isHandshakeComplete c' = c_isHandshakeComplete c"

text \<open>
  All bytes of a handshake message arrive, however many records they take and however the
  transport cuts the stream.
\<close>

lemma handshake_transfer:
  assumes "record_laws rc"
  shows "linked (length dat + j) cw cr \<Longrightarrow>
    \<exists>wire cw'. write_records rc recordTypeHandshake dat cw = (length dat, None, cw') \<and> outgoing cw' = outgoing cw @ wire
      \<and> c_vers cw' = c_vers cw
      \<and> (\<forall>raw net rest n. raw @ concat net = wire @ rest \<longrightarrow> n = length (c_hand cr) + length dat \<longrightarrow>
          (\<exists>cr'. readHandshakeBytes rc n (cr\<lparr>c_rawInput := raw, c_net := net\<rparr>) = (None, cr')
            \<and> c_hand cr' = c_hand cr @ dat \<and> incoming cr' = rest \<and> linked j cw' cr'
            \<and> same_role cr cr'))"
proof (induction "length dat" arbitrary: dat cw cr rule: less_induct)
  case less
  show ?case
  proof (cases "dat = []")
    case True
    then show ?thesis
      using less.prems by (auto simp: write_records.simps readHandshakeBytes.simps incoming_def same_role_def intro!: exI [of _ "[]"] exI [of _ cw])
  next
    case False
    then obtain k where k: "length dat = Suc k"
      by (cases "length dat") auto
    obtain m cw1 start body hr where w: "write_one rc recordTypeHandshake dat cw = (Inr m, cw1)" "0 < m" "m \<le> length dat" "m \<le> maxPlaintext"
        "outgoing cw1 = outgoing cw @ wire_record start body" "c_vers cw1 = c_vers cw"
        "decrypt rc (c_in cr) (wire_record start body) = (Inr (take m dat, recordTypeHandshake), hr)" "header_ok cr start (length body)"
        "\<And>cr'. c_in cr' = hr \<Longrightarrow> c_input cr' = [] \<Longrightarrow> c_vers cr' = c_vers cr \<Longrightarrow> c_haveVers cr' = c_haveVers cr \<Longrightarrow> linked (k + j) cw1 cr'"
      by (rule linked_write_one [OF assms less.prems [unfolded k add_Suc] False, of recordTypeHandshake], simp, simp, simp, simp)
        (rule that; assumption)
    define cr1 where "cr1 = cr\<lparr>c_in := hr, c_retryCount := 0, c_hand := c_hand cr @ take m dat\<rparr>"
    have inp: "c_input cr = []" "hc_err (c_in cr) = None"
      using less.prems by (simp_all add: linked_def)
    have "linked (k + j) cw1 cr1"
      using w(9) [of cr1] inp by (simp add: cr1_def)
    moreover have "length (drop m dat) + j \<le> k + j"
      unfolding length_drop k using w(2) by linarith
    ultimately have lk: "linked (length (drop m dat) + j) cw1 cr1"
      by (rule linked_mono)
    have "length (drop m dat) < length dat"
      unfolding length_drop k using w(2) by linarith
    from less.hyps [OF this lk] obtain wire cw' where ih: "write_records rc recordTypeHandshake (drop m dat) cw1 = (length (drop m dat), None, cw')"
        "outgoing cw' = outgoing cw1 @ wire" "c_vers cw' = c_vers cw1"
        "\<forall>raw net rest n. raw @ concat net = wire @ rest \<longrightarrow> n = length (c_hand cr1) + length (drop m dat) \<longrightarrow>
          (\<exists>cr'. readHandshakeBytes rc n (cr1\<lparr>c_rawInput := raw, c_net := net\<rparr>) = (None, cr')
            \<and> c_hand cr' = c_hand cr1 @ drop m dat \<and> incoming cr' = rest \<and> linked j cw' cr'
            \<and> same_role cr1 cr')"
      by (elim exE conjE) (rule that; assumption)
    have "write_records rc recordTypeHandshake dat cw = (length dat, None, cw')"
      using write_records_step [OF False w(1) ih(1)] w(3) by simp
    moreover have "outgoing cw' = outgoing cw @ wire_record start body @ wire" "c_vers cw' = c_vers cw"
      using ih(2,3) w(5,6) by simp_all
    moreover have "\<exists>cr'. readHandshakeBytes rc n (cr\<lparr>c_rawInput := raw, c_net := net\<rparr>) = (None, cr')
            \<and> c_hand cr' = c_hand cr @ dat \<and> incoming cr' = rest \<and> linked j cw' cr'
            \<and> same_role cr cr'"
      if "raw @ concat net = (wire_record start body @ wire) @ rest" "n = length (c_hand cr) + length dat" for raw net rest n
    proof -
      let ?c = "cr\<lparr>c_rawInput := raw, c_net := net\<rparr>"
      have "incoming ?c = wire_record start body @ wire @ rest" "header_ok ?c start (length body)"
        using that(1) w(8) by (simp_all add: incoming_def)
      then obtain raw1 net1 where r0: "raw1 @ concat net1 = wire @ rest"
          "readRecordOrCCS rc False ?c = (None, ?c\<lparr>c_rawInput := raw1, c_net := net1, c_in := hr, c_retryCount := 0,
            c_hand := c_hand ?c @ take m dat\<rparr>)"
        by (rule read_handshake_record [where dat = "take m dat" and rc = rc and hc = hr]) (use w(2-4,7) inp False in simp_all)
      then have r1: "raw1 @ concat net1 = wire @ rest"
          "readRecordOrCCS rc False ?c = (None, cr1\<lparr>c_rawInput := raw1, c_net := net1\<rparr>)"
        by (simp_all add: cr1_def)
      have "readHandshakeBytes rc n ?c = readHandshakeBytes rc n (cr1\<lparr>c_rawInput := raw1, c_net := net1\<rparr>)"
        using r1(2) that(2) False by (subst readHandshakeBytes.simps) simp
      moreover have "n = length (c_hand cr1) + length (drop m dat)"
        using that(2) w(3) by (simp add: cr1_def)
      ultimately show ?thesis
        using ih(4) r1(1) by (simp add: cr1_def same_role_def)
    qed
    ultimately show ?thesis
      by blast
  qed
qed


section \<open>Properties\<close>

text \<open>Two ends of a connection at the start, in the clear, and with an AEAD of TLS 1.3.\<close>

definition ex_conn :: "u16 \<Rightarrow> bool \<Rightarrow> halfConn \<Rightarrow> bytes list \<Rightarrow> conn" where
  "ex_conn vers have hc net = \<lparr>c_isClient = True, c_vers = vers, c_haveVers = have, c_isHandshakeComplete = False,
     c_in = hc, c_out = hc, c_rawInput = [], c_input = [], c_hand = [], c_buffering = False, c_sendBuf = [],
     c_bytesSent = 0, c_packetsSent = 0, c_retryCount = 0, c_DynamicRecordSizingDisabled = False, c_rand = [],
     c_net = net, c_netErr = IoEOF, c_sent = [], c_writeErr = None\<rparr>"

lemmas ex_conn_simps = ex_conn_def ex_halfConn_def



text \<open>
  C9. Every handshake message arrives. Where the writer and the reader are linked for as many
  records as the message has bytes, \<open>writeRecordLocked\<close> writes all of the message; and whatever the
  way in which the transport cuts the bytes written, and whatever follows them, \<open>readHandshakeBytes\<close>
  on the other side returns nil, has appended exactly the message to \<open>hand\<close>, has left the bytes that
  follow, and the connections are still linked.
\<close>

theorem handshake_bytes_arrive:
  assumes "record_laws rc" "linked (length dat) cw cr"
  shows "\<exists>wire cw'. writeRecordLocked rc recordTypeHandshake dat cw = (length dat, None, cw') \<and> outgoing cw' = outgoing cw @ wire
    \<and> (\<forall>raw net rest. raw @ concat net = wire @ rest \<longrightarrow>
        (\<exists>cr'. readHandshakeBytes rc (length (c_hand cr) + length dat) (cr\<lparr>c_rawInput := raw, c_net := net\<rparr>) = (None, cr')
          \<and> c_hand cr' = c_hand cr @ dat \<and> c_rawInput cr' @ concat (c_net cr') = rest \<and> linked 0 cw' cr'))"
proof -
  obtain wire cw' where t: "write_records rc recordTypeHandshake dat cw = (length dat, None, cw')" "outgoing cw' = outgoing cw @ wire"
    "\<forall>raw net rest n. raw @ concat net = wire @ rest \<longrightarrow> n = length (c_hand cr) + length dat \<longrightarrow>
          (\<exists>cr'. readHandshakeBytes rc n (cr\<lparr>c_rawInput := raw, c_net := net\<rparr>) = (None, cr')
            \<and> c_hand cr' = c_hand cr @ dat \<and> incoming cr' = rest \<and> linked 0 cw' cr'
            \<and> same_role cr cr')"
    using handshake_transfer [OF assms(1), of dat 0, unfolded add_0_right, OF assms(2)] by (elim exE conjE) (rule that; assumption)
  have "writeRecordLocked rc recordTypeHandshake dat cw = (length dat, None, cw')"
    using t(1) by (simp add: writeRecordLocked_def)
  then show ?thesis
    using t(2,3) by (intro exI [of _ wire] exI [of _ cw']) (fastforce simp: incoming_def)
qed

definition ex_aead :: halfConn where
  "ex_aead = ex_halfConn VersionTLS13 (XorNonceAEAD (replicate 12 5) (AESGCM (replicate 16 1))) None"

lemma ex_linked: "k < 2 ^ 64 \<Longrightarrow> linked k (ex_conn VersionTLS13 True ex_aead []) (ex_conn VersionTLS13 True ex_aead [])"
  by (simp add: linked_def ex_conn_def ex_aead_def ex_halfConn_def header_vers_def in_sync_def mirror_def cipher_ok_def
      from_be_zero explicitNonceLen_def)

theorem handshake_bytes_arrive_witness:
  "\<exists>cw'. writeRecordLocked rc_plain recordTypeHandshake [7, 8, 9] (ex_conn VersionTLS13 True ex_aead []) = (3, None, cw')
    \<and> (\<exists>cr'. readHandshakeBytes rc_plain 3 ((ex_conn VersionTLS13 True ex_aead [])\<lparr>c_net := map (\<lambda>b. [b]) (outgoing cw')\<rparr>) = (None, cr')
          \<and> c_hand cr' = [7, 8, 9])"
proof -
  let ?c = "ex_conn VersionTLS13 True ex_aead []"
  have l: "length [7, 8, 9 :: u8] = 3" "c_hand ?c = []" "outgoing ?c = []" "\<And>x. ?c\<lparr>c_rawInput := [], c_net := x\<rparr> = ?c\<lparr>c_net := x\<rparr>"
    by (simp_all add: ex_conn_simps outgoing_def)
  have sing: "concat (map (\<lambda>b. [b]) xs) = xs" for xs :: bytes
    by (induction xs) simp_all
  have "linked (length [7, 8, 9 :: u8]) ?c ?c"
    unfolding l by (rule ex_linked) simp
  from handshake_bytes_arrive [OF rc_plain_laws this] obtain wire cw' where
      w: "writeRecordLocked rc_plain recordTypeHandshake [7, 8, 9] ?c = (3, None, cw')" "outgoing cw' = wire"
    and r: "\<forall>raw net rest. raw @ concat net = wire @ rest \<longrightarrow>
        (\<exists>cr'. readHandshakeBytes rc_plain 3 (?c\<lparr>c_rawInput := raw, c_net := net\<rparr>) = (None, cr')
          \<and> c_hand cr' = [7, 8, 9] \<and> c_rawInput cr' @ concat (c_net cr') = rest \<and> linked 0 cw' cr')"
    unfolding l append_Nil list.size(3) add_0 by (elim exE conjE) (rule that; assumption)
  then have "\<exists>cr'. readHandshakeBytes rc_plain 3 (?c\<lparr>c_rawInput := [], c_net := map (\<lambda>b. [b]) wire\<rparr>) = (None, cr')
          \<and> c_hand cr' = [7, 8, 9]"
    using sing by (metis append_Nil append_Nil2)
  then show ?thesis
    using w unfolding l by blast
qed

end
