(* ===== verification/Handshake_Dispatch.thy ===== *)
theory Handshake_Dispatch
  imports Connection_Transfer Session_Messages Certificate_Messages ServerHello ClientHello
begin

text \<open>
  Handshake messages on a connection (conn.go, u_conn.go): serialising, writing, reading and the
  choice of the parser by type, version and role. The transcript hash is the list of bytes written
  to it.
\<close>

section \<open>Messages\<close>

datatype handshakeMessage =
    M_helloRequest helloRequestMsg
  | M_clientHello clientHelloMsg
  | M_serverHello serverHelloMsg
  | M_newSessionTicket newSessionTicketMsg
  | M_newSessionTicketTLS13 newSessionTicketMsgTLS13
  | M_certificate certificateMsg
  | M_certificateTLS13 certificateMsgTLS13
  | M_certificateRequest certificateRequestMsg
  | M_certificateRequestTLS13 certificateRequestMsgTLS13
  | M_certificateStatus certificateStatusMsg
  | M_serverKeyExchange serverKeyExchangeMsg
  | M_serverHelloDone serverHelloDoneMsg
  | M_clientKeyExchange clientKeyExchangeMsg
  | M_certificateVerify certificateVerifyMsg
  | M_finished finishedMsg
  | M_endOfEarlyData endOfEarlyDataMsg
  | M_keyUpdate keyUpdateMsg
  | M_encryptedExtensions encryptedExtensionsMsg
  | M_compressedCertificate utlsCompressedCertificateMsg
  | M_clientEncryptedExtensions utlsClientEncryptedExtensionsMsg

text \<open>
  The bytes of a message. The two messages of uTLS also store them, which a later call does not show
  (\<open>marshal_again\<close>).
\<close>

fun handshakeMessage_marshal :: "cryptobyte \<Rightarrow> handshakeMessage \<Rightarrow> gerror + bytes" where
  "handshakeMessage_marshal cb (M_helloRequest m) = helloRequestMsg_marshal m"
| "handshakeMessage_marshal cb (M_clientHello m) = clientHelloMsg_marshal cb m"
| "handshakeMessage_marshal cb (M_serverHello m) = serverHelloMsg_marshal cb m"
| "handshakeMessage_marshal cb (M_newSessionTicket m) = newSessionTicketMsg_marshal m"
| "handshakeMessage_marshal cb (M_newSessionTicketTLS13 m) = newSessionTicketMsgTLS13_marshal cb m"
| "handshakeMessage_marshal cb (M_certificate m) = certificateMsg_marshal m"
| "handshakeMessage_marshal cb (M_certificateTLS13 m) = certificateMsgTLS13_marshal cb m"
| "handshakeMessage_marshal cb (M_certificateRequest m) = certificateRequestMsg_marshal m"
| "handshakeMessage_marshal cb (M_certificateRequestTLS13 m) = certificateRequestMsgTLS13_marshal cb m"
| "handshakeMessage_marshal cb (M_certificateStatus m) = certificateStatusMsg_marshal cb m"
| "handshakeMessage_marshal cb (M_serverKeyExchange m) = serverKeyExchangeMsg_marshal m"
| "handshakeMessage_marshal cb (M_serverHelloDone m) = serverHelloDoneMsg_marshal m"
| "handshakeMessage_marshal cb (M_clientKeyExchange m) = clientKeyExchangeMsg_marshal m"
| "handshakeMessage_marshal cb (M_certificateVerify m) = certificateVerifyMsg_marshal cb m"
| "handshakeMessage_marshal cb (M_finished m) = finishedMsg_marshal cb m"
| "handshakeMessage_marshal cb (M_endOfEarlyData m) = endOfEarlyDataMsg_marshal m"
| "handshakeMessage_marshal cb (M_keyUpdate m) = keyUpdateMsg_marshal cb m"
| "handshakeMessage_marshal cb (M_encryptedExtensions m) = encryptedExtensionsMsg_marshal cb m"
| "handshakeMessage_marshal cb (M_compressedCertificate m) = fst (utlsCompressedCertificateMsg_marshal cb m)"
| "handshakeMessage_marshal cb (M_clientEncryptedExtensions m) = fst (utlsClientEncryptedExtensionsMsg_marshal cb m)"

text \<open>The messages that keep the bytes they were parsed from.\<close>

definition originalBytes :: "handshakeMessage \<Rightarrow> bytes option" where
  "originalBytes m = (case m of
     M_clientHello h \<Rightarrow> ch_original h
   | M_serverHello h \<Rightarrow> sh_original h
   | M_certificateRequestTLS13 h \<Rightarrow> cr13_original h
   | _ \<Rightarrow> None)"

definition transcriptMsg :: "cryptobyte \<Rightarrow> handshakeMessage \<Rightarrow> bytes \<Rightarrow> gerror + bytes" where
  "transcriptMsg cb m h = (case originalBytes m of
     Some orig \<Rightarrow> Inr (h @ orig)
   | None \<Rightarrow> (case handshakeMessage_marshal cb m of Inl e \<Rightarrow> Inl e | Inr dat \<Rightarrow> Inr (h @ dat)))"


section \<open>Reading and writing\<close>

text \<open>\<open>utlsHandshakeMessageType\<close>: the parser of the messages that it knows.\<close>

definition utls_message :: "cryptobyte \<Rightarrow> bool \<Rightarrow> u8 \<Rightarrow> (bytes \<Rightarrow> handshakeMessage option) option" where
  "utls_message cb isClient msgType =
     (if msgType = utlsTypeCompressedCertificate then
        Some (\<lambda>d. map_option M_compressedCertificate (utlsCompressedCertificateMsg_unmarshal cb d))
      else if msgType = typeEncryptedExtensions then
        if isClient then Some (\<lambda>d. map_option M_encryptedExtensions (encryptedExtensionsMsg_unmarshal cb d))
        else Some (\<lambda>d. map_option M_clientEncryptedExtensions (utlsClientEncryptedExtensionsMsg_unmarshal cb d))
      else None)"

text \<open>The \<open>switch\<close> of \<open>unmarshalHandshakeMessage\<close>: the parser for a type.\<close>

definition message_parser :: "cryptobyte \<Rightarrow> bool \<Rightarrow> u16 \<Rightarrow> u8 \<Rightarrow> (bytes \<Rightarrow> handshakeMessage option) option" where
  "message_parser cb isClient vers t =
     (if t = typeHelloRequest then Some (\<lambda>d. map_option M_helloRequest (helloRequestMsg_unmarshal d))
      else if t = typeClientHello then Some (\<lambda>d. map_option M_clientHello (clientHelloMsg_unmarshal cb d))
      else if t = typeServerHello then Some (\<lambda>d. map_option M_serverHello (serverHelloMsg_unmarshal cb d))
      else if t = typeNewSessionTicket then
        if vers = VersionTLS13 then Some (\<lambda>d. map_option M_newSessionTicketTLS13 (newSessionTicketMsgTLS13_unmarshal cb d))
        else Some (\<lambda>d. map_option M_newSessionTicket (newSessionTicketMsg_unmarshal d))
      else if t = typeCertificate then
        if vers = VersionTLS13 then Some (\<lambda>d. map_option M_certificateTLS13 (certificateMsgTLS13_unmarshal cb d))
        else Some (\<lambda>d. map_option M_certificate (certificateMsg_unmarshal d))
      else if t = typeCertificateRequest then
        if vers = VersionTLS13 then Some (\<lambda>d. map_option M_certificateRequestTLS13 (certificateRequestMsgTLS13_unmarshal cb d))
        else Some (\<lambda>d. map_option M_certificateRequest (certificateRequestMsg_unmarshal (vers \<ge> VersionTLS12) d))
      else if t = typeCertificateStatus then Some (\<lambda>d. map_option M_certificateStatus (certificateStatusMsg_unmarshal cb d))
      else if t = typeServerKeyExchange then Some (\<lambda>d. map_option M_serverKeyExchange (serverKeyExchangeMsg_unmarshal d))
      else if t = typeServerHelloDone then Some (\<lambda>d. map_option M_serverHelloDone (serverHelloDoneMsg_unmarshal d))
      else if t = typeClientKeyExchange then Some (\<lambda>d. map_option M_clientKeyExchange (clientKeyExchangeMsg_unmarshal d))
      else if t = typeCertificateVerify then
        Some (\<lambda>d. map_option M_certificateVerify (certificateVerifyMsg_unmarshal cb (vers \<ge> VersionTLS12) d))
      else if t = typeFinished then Some (\<lambda>d. map_option M_finished (finishedMsg_unmarshal cb d))
      else if t = typeEndOfEarlyData then Some (\<lambda>d. map_option M_endOfEarlyData (endOfEarlyDataMsg_unmarshal d))
      else if t = typeKeyUpdate then Some (\<lambda>d. map_option M_keyUpdate (keyUpdateMsg_unmarshal cb d))
      else utls_message cb isClient t)"

text \<open>
  For an unknown type, \<open>utlsHandshakeMessageType\<close> sends an alert and records the error, and then
  \<open>unmarshalHandshakeMessage\<close> does both again.
\<close>

definition unmarshalHandshakeMessage :: "cryptobyte \<Rightarrow> record_crypto \<Rightarrow> bytes \<Rightarrow> bytes option \<Rightarrow> conn \<Rightarrow>
    (conn_error option + handshakeMessage) \<times> bytes option \<times> conn" where
  "unmarshalHandshakeMessage cb rc dat transcript c = (case message_parser cb (c_isClient c) (c_vers c) (dat ! 0) of
     None \<Rightarrow> (case fail_alert rc alertUnexpectedMessage c of
         (e, c) \<Rightarrow> if is_panic e then (Inl e, transcript, c)
           else (case fail_alert rc alertUnexpectedMessage c of (e, c) \<Rightarrow> (Inl e, transcript, c)))
   | Some parse \<Rightarrow> (case parse dat of
         None \<Rightarrow> (case fail_alert rc alertUnexpectedMessage c of (e, c) \<Rightarrow> (Inl e, transcript, c))
       | Some m \<Rightarrow> (Inr m, map_option (\<lambda>h. h @ dat) transcript, c)))"

abbreviation (input) maxHandshake :: nat where "maxHandshake \<equiv> 65536"
abbreviation (input) maxHandshakeCertificateMsg :: nat where "maxHandshakeCertificateMsg \<equiv> 262144"

definition readHandshake :: "cryptobyte \<Rightarrow> record_crypto \<Rightarrow> bytes option \<Rightarrow> conn \<Rightarrow>
    (conn_error option + handshakeMessage) \<times> bytes option \<times> conn" where
  "readHandshake cb rc transcript c = (case readHandshakeBytes rc 4 c of
     (Some err, c) \<Rightarrow> (Inl (Some err), transcript, c)
   | (None, c) \<Rightarrow>
       let dat = c_hand c;
           maxHandshakeSize = (if c_haveVers c \<and> dat ! 0 = typeCertificate then maxHandshakeCertificateMsg else maxHandshake);
           n = unat (u24_of (dat ! 1) (dat ! 2) (dat ! 3))
       in if n > maxHandshakeSize then
            (case alert_and_fail rc alertInternalError (ConnErr ''tls: handshake message exceeds maximum'') c of
              (e, c) \<Rightarrow> (Inl e, transcript, c))
          else (case readHandshakeBytes rc (4 + n) c of
              (Some err, c) \<Rightarrow> (Inl (Some err), transcript, c)
            | (None, c) \<Rightarrow>
                unmarshalHandshakeMessage cb rc (take (4 + n) (c_hand c)) transcript (c\<lparr>c_hand := drop (4 + n) (c_hand c)\<rparr>)))"

definition writeHandshakeRecord :: "cryptobyte \<Rightarrow> record_crypto \<Rightarrow> handshakeMessage \<Rightarrow> bytes option \<Rightarrow> conn \<Rightarrow>
    nat \<times> conn_error option \<times> bytes option \<times> conn" where
  "writeHandshakeRecord cb rc m transcript c = (case handshakeMessage_marshal cb m of
     Inl e \<Rightarrow> (0, Some (MarshalErr e), transcript, c)
   | Inr dat \<Rightarrow> (case writeRecordLocked rc recordTypeHandshake dat c of
       (n, err, c) \<Rightarrow> (n, err, map_option (\<lambda>h. h @ dat) transcript, c)))"


section \<open>Every message is parsed back\<close>

text \<open>
  The conditions under which the message that arrives is the message sent, by version and role of
  the receiver, and that message: some keep the bytes that they were parsed from.
\<close>

definition message_ok :: "bool \<Rightarrow> u16 \<Rightarrow> handshakeMessage \<Rightarrow> bool" where
  "message_ok isClient vers m \<longleftrightarrow> (case m of
     M_clientHello h \<Rightarrow> clientHello_ok h
   | M_serverHello h \<Rightarrow> serverHello_ok h
   | M_newSessionTicket h \<Rightarrow> vers \<noteq> VersionTLS13 \<and> length (ticket h) < 65536
   | M_newSessionTicketTLS13 h \<Rightarrow> vers = VersionTLS13
   | M_certificate h \<Rightarrow> vers \<noteq> VersionTLS13 \<and> length (concat (map vec24 (certificates h))) < 16777213
       \<and> (certificates h \<noteq> [] \<longrightarrow> last (certificates h) \<noteq> [])
   | M_certificateTLS13 h \<Rightarrow> vers = VersionTLS13 \<and> certificate_ok (certificate13 h)
       \<and> cert13_ocspStapling h = (OCSPStaple (certificate13 h) \<noteq> None)
       \<and> cert13_scts h = (SignedCertificateTimestamps (certificate13 h) \<noteq> None)
   | M_certificateRequest h \<Rightarrow> vers \<noteq> VersionTLS13 \<and> cr_hasSignatureAlgorithm h = (vers \<ge> VersionTLS12) \<and> certificateRequest_ok h
   | M_certificateRequestTLS13 h \<Rightarrow> vers = VersionTLS13 \<and> [] \<notin> set (cr13_certificateAuthorities h)
   | M_certificateStatus h \<Rightarrow> response h \<noteq> []
   | M_serverKeyExchange h \<Rightarrow> length (key h) < 16777216
   | M_clientKeyExchange h \<Rightarrow> length (ciphertext h) < 16777216
   | M_certificateVerify h \<Rightarrow> cv_hasSignatureAlgorithm h = (vers \<ge> VersionTLS12)
       \<and> (cv_hasSignatureAlgorithm h \<or> signatureAlgorithm h = 0)
   | M_encryptedExtensions h \<Rightarrow> isClient
   | M_compressedCertificate h \<Rightarrow> cc_raw h = None \<and> unat (uncompressedLength h) < 2 ^ 24
   | M_clientEncryptedExtensions h \<Rightarrow> \<not> isClient \<and> uee_raw h = None \<and> uee_customExtension h = []
       \<and> uee_applicationSettingsCodepoint h \<in> {0, utlsExtensionApplicationSettings, utlsExtensionApplicationSettingsNew}
       \<and> (uee_applicationSettingsCodepoint h = 0 \<longrightarrow> uee_applicationSettings h = [])
   | _ \<Rightarrow> True)"

definition received :: "bytes \<Rightarrow> handshakeMessage \<Rightarrow> handshakeMessage" where
  "received bs m = (case m of
     M_clientHello h \<Rightarrow> M_clientHello (h\<lparr>ch_original := Some bs, ch_extensions := map fst (clientHello_wire h)\<rparr>)
   | M_serverHello h \<Rightarrow> M_serverHello (h\<lparr>sh_original := Some bs\<rparr>)
   | M_certificateRequestTLS13 h \<Rightarrow> M_certificateRequestTLS13 (h\<lparr>cr13_original := Some bs\<rparr>)
   | M_encryptedExtensions h \<Rightarrow> M_encryptedExtensions (h\<lparr>ee_applicationSettings := None,
       ee_applicationSettingsCodepoint := 0, ee_customExtension := None\<rparr>)
   | M_compressedCertificate h \<Rightarrow> M_compressedCertificate (h\<lparr>cc_raw := Some bs\<rparr>)
   | M_clientEncryptedExtensions h \<Rightarrow> M_clientEncryptedExtensions (h\<lparr>uee_raw := Some bs\<rparr>)
   | m \<Rightarrow> m)"

definition parses_back :: "cryptobyte \<Rightarrow> bool \<Rightarrow> u16 \<Rightarrow> bytes \<Rightarrow> handshakeMessage \<Rightarrow> bool" where
  "parses_back cb isClient vers bs m \<longleftrightarrow> (\<exists>t. framed t bs
     \<and> Option.bind (message_parser cb isClient vers t) (\<lambda>parse. parse bs) = Some (received bs m))"

lemma parses_backI:
  "framed t bs \<Longrightarrow> Option.bind (message_parser cb isClient vers t) (\<lambda>parse. parse bs) = Some (received bs m)
     \<Longrightarrow> parses_back cb isClient vers bs m"
  unfolding parses_back_def by blast

lemmas codec_facts = cryptobyte_laws.clientHello_roundtrip cryptobyte_laws.serverHello_roundtrip
  cryptobyte_laws.newSessionTicketTLS13_roundtrip cryptobyte_laws.certificateTLS13_roundtrip
  cryptobyte_laws.certificateRequestTLS13_roundtrip cryptobyte_laws.certificateStatus_roundtrip
  cryptobyte_laws.certificateVerify_roundtrip cryptobyte_laws.finished_roundtrip cryptobyte_laws.keyUpdate_roundtrip
  cryptobyte_laws.encryptedExtensions_roundtrip cryptobyte_laws.compressedCertificate_roundtrip
  cryptobyte_laws.clientEncryptedExtensions_unmarshal

lemma message_round_trip:
  assumes cb: "cryptobyte_laws cb" and m: "handshakeMessage_marshal cb m = Inr bs" and ok: "message_ok isClient vers m"
  shows "parses_back cb isClient vers bs m"
proof (cases m)
  case (M_helloRequest h)
  then show ?thesis
    using m ok helloRequest.roundtrip [of h bs] helloRequest.header [of h bs]
    by (intro parses_backI [of typeHelloRequest]) (auto simp: message_parser_def received_def)
next
  case (M_clientHello h)
  then show ?thesis
    using m ok codec_facts(1) [OF cb, of h bs]
    by (intro parses_backI [of typeClientHello]) (auto simp: message_parser_def received_def message_ok_def)
next
  case (M_serverHello h)
  then show ?thesis
    using m ok codec_facts(2) [OF cb, of h bs]
    by (intro parses_backI [of typeServerHello]) (auto simp: message_parser_def received_def message_ok_def)
next
  case (M_newSessionTicket h)
  then show ?thesis
    using m ok newSessionTicket.roundtrip [of h bs] newSessionTicket.header [of h bs]
    by (intro parses_backI [of typeNewSessionTicket]) (auto simp: message_parser_def received_def message_ok_def)
next
  case (M_newSessionTicketTLS13 h)
  then show ?thesis
    using m ok codec_facts(3) [OF cb, of h bs]
    by (intro parses_backI [of typeNewSessionTicket]) (auto simp: message_parser_def received_def message_ok_def)
next
  case (M_certificate h)
  then show ?thesis
    using m ok certificate.roundtrip [of h bs] certificate.header [of h bs]
    by (intro parses_backI [of typeCertificate]) (auto simp: message_parser_def received_def message_ok_def)
next
  case (M_certificateTLS13 h)
  then show ?thesis
    using m ok codec_facts(4) [OF cb, of h bs]
    by (intro parses_backI [of typeCertificate]) (auto simp: message_parser_def received_def message_ok_def)
next
  case (M_certificateRequest h)
  then show ?thesis
    using m ok certificateRequest.roundtrip [of h "vers \<ge> VersionTLS12" bs] certificateRequest.header [of h "vers \<ge> VersionTLS12" bs]
    by (intro parses_backI [of typeCertificateRequest]) (auto simp: message_parser_def received_def message_ok_def)
next
  case (M_certificateRequestTLS13 h)
  then show ?thesis
    using m ok codec_facts(5) [OF cb, of h bs]
    by (intro parses_backI [of typeCertificateRequest]) (auto simp: message_parser_def received_def message_ok_def)
next
  case (M_certificateStatus h)
  then show ?thesis
    using m ok codec_facts(6) [OF cb, of h bs]
    by (intro parses_backI [of typeCertificateStatus]) (auto simp: message_parser_def received_def message_ok_def)
next
  case (M_serverKeyExchange h)
  then show ?thesis
    using m ok serverKeyExchange.roundtrip [of h bs] serverKeyExchange.header [of h bs]
    by (intro parses_backI [of typeServerKeyExchange]) (auto simp: message_parser_def received_def message_ok_def)
next
  case (M_serverHelloDone h)
  then show ?thesis
    using m ok serverHelloDone.roundtrip [of h bs] serverHelloDone.header [of h bs]
    by (intro parses_backI [of typeServerHelloDone]) (auto simp: message_parser_def received_def)
next
  case (M_clientKeyExchange h)
  then show ?thesis
    using m ok clientKeyExchange.roundtrip [of h bs] clientKeyExchange.header [of h bs]
    by (intro parses_backI [of typeClientKeyExchange]) (auto simp: message_parser_def received_def message_ok_def)
next
  case (M_certificateVerify h)
  then show ?thesis
    using m ok codec_facts(7) [OF cb, of h bs]
    by (intro parses_backI [of typeCertificateVerify]) (auto simp: message_parser_def received_def message_ok_def)
next
  case (M_finished h)
  then show ?thesis
    using m ok codec_facts(8) [OF cb, of h bs]
    by (intro parses_backI [of typeFinished]) (auto simp: message_parser_def received_def)
next
  case (M_endOfEarlyData h)
  then show ?thesis
    using m ok endOfEarlyData.roundtrip [of h bs] endOfEarlyData.header [of h bs]
    by (intro parses_backI [of typeEndOfEarlyData]) (auto simp: message_parser_def received_def)
next
  case (M_keyUpdate h)
  then show ?thesis
    using m ok codec_facts(9) [OF cb, of h bs]
    by (intro parses_backI [of typeKeyUpdate]) (auto simp: message_parser_def received_def)
next
  case (M_encryptedExtensions h)
  then show ?thesis
    using m ok codec_facts(10) [OF cb, of h bs]
    by (intro parses_backI [of typeEncryptedExtensions]) (auto simp: message_parser_def utls_message_def received_def message_ok_def)
next
  case (M_compressedCertificate h)
  then show ?thesis
    using m ok codec_facts(11) [OF cb, of h bs]
    by (intro parses_backI [of utlsTypeCompressedCertificate]) (auto simp: message_parser_def utls_message_def received_def message_ok_def)
next
  case (M_clientEncryptedExtensions h)
  then show ?thesis
    using m ok codec_facts(12) [OF cb, of h bs]
    by (intro parses_backI [of typeEncryptedExtensions]) (auto simp: message_parser_def utls_message_def received_def message_ok_def)
qed

section \<open>What reading keeps\<close>

text \<open>The version and the role of a connection, which the record layer does not change.\<close>

definition role :: "conn \<Rightarrow> u16 \<times> bool \<times> bool \<times> bool" where
  "role c = (c_vers c, c_haveVers c, c_isClient c, c_isHandshakeComplete c)"

lemma same_role_role: "same_role c c' \<longleftrightarrow> role c' = role c"
  by (auto simp: same_role_def role_def)

lemma role_updates [simp]:
  "role (c\<lparr>c_in := hc\<rparr>) = role c" "role (c\<lparr>c_hand := x\<rparr>) = role c" "role (c\<lparr>c_input := x\<rparr>) = role c"
  "role (c\<lparr>c_rawInput := x\<rparr>) = role c" "role (c\<lparr>c_net := net\<rparr>) = role c" "role (c\<lparr>c_retryCount := n\<rparr>) = role c"
  by (simp_all add: role_def)

lemma sendAlertLocked_role: "role (snd (sendAlertLocked rc a c)) = role c"
proof -
  obtain e c' where s: "sendAlertLocked rc a c = (e, c')"
    by (cases "sendAlertLocked rc a c")
  show ?thesis
    unfolding s role_def snd_conv using readingD(6,7,8,11) [OF sendAlertLocked_reading [OF s]] by simp
qed

lemma error_role [simp]:
  "role (snd (in_setError err c)) = role c" "role (snd (fail_alert rc a c)) = role c" "role (snd (alert_and_fail rc a err c)) = role c"
proof -
  show s: "role (snd (in_setError err c)) = role c" for err c
    by (simp add: in_setError_def setErrorLocked_def Let_def)
  show "role (snd (fail_alert rc a c)) = role c" "role (snd (alert_and_fail rc a err c)) = role c"
    using sendAlertLocked_role [of rc a c]
    by (auto simp: fail_alert_def alert_and_fail_def s split: prod.split option.split)
qed

lemma process_record_role: "role (snd (process_record rc e t dat c)) = role c"
  by (simp add: process_record_def process_alert_def process_ccs_def process_appdata_def process_handshake_def Let_def split: sum.split)

lemma readFromUntil_role: "readFromUntil n c = (e, c') \<Longrightarrow> role c' = role c"
  using readFromUntil_state [of n c e c'] by (metis role_updates(4,5))

lemma read_header_role: "role (snd (read_header rc c)) = role c"
proof -
  obtain e c1 where r: "readFromUntil recordHeaderLen c = (e, c1)"
    by (cases "readFromUntil recordHeaderLen c")
  show ?thesis
    unfolding read_header_def r Let_def prod.case using readFromUntil_role [OF r]
    by (simp add: apfst_def map_prod_def split_beta split: option.split)
qed

lemma read_one_role: "role (snd (read_one rc e c)) = role c"
proof -
  obtain h c1 where h: "read_header rc c = (h, c1)"
    by (cases "read_header rc c")
  have r1: "role c1 = role c"
    using read_header_role [of rc c] by (simp add: h)
  have r2: "role (snd (readFromUntil n c1)) = role c" for n
    using readFromUntil_role [of n c1] r1 by (cases "readFromUntil n c1") simp
  have p: "role (snd (process_record rc e t dat (c2\<lparr>c_rawInput := x, c_in := hc\<rparr>))) = role c2" for t dat c2 x hc
    by (simp add: process_record_role)
  show ?thesis
    unfolding read_one_def h using r1 r2
    by (auto simp: Let_def p split: sum.split prod.split option.split conn_error.split) (metis snd_conv)+
qed

lemma readRecordOrCCS_role: "role (snd (readRecordOrCCS rc e c)) = role c"
proof (induction rc e c rule: readRecordOrCCS.induct)
  case (1 rc e c)
  then show ?case
    using read_one_role [of rc e c]
    by (subst readRecordOrCCS.simps) (auto simp: Let_def split: prod.split outcome.split)
qed

text \<open>
  Gathering \<open>n\<close> bytes passes through the state that gathering fewer bytes ends in; what has been
  gathered before stays, and what was gathered last goes on.
\<close>

lemma readRecord_grows:
  assumes "readRecordOrCCS rc False c = (None, c')"
  shows "\<exists>d. c_hand c' = c_hand c @ d"
proof -
  have "hc_err (c_in c) = None" "c_input c = []"
    using assms by (auto simp: readRecordOrCCS_step read_one_def in_setError_def setErrorLocked_def Let_def split: if_splits)
  from readRecordOrCCS_effect [OF assms this] show ?thesis
    by (auto simp: reads_record_def delivers_def)
qed

lemma readHandshakeBytes_grows:
  "readHandshakeBytes rc n c = (None, c') \<Longrightarrow> (\<exists>d. c_hand c' = c_hand c @ d) \<and> role c' = role c \<and> n \<le> length (c_hand c')"
proof (induction rc n c rule: readHandshakeBytes.induct)
  case (1 rc n c)
  obtain e c1 where r: "readRecordOrCCS rc False c = (e, c1)"
    by (cases "readRecordOrCCS rc False c")
  show ?case
    using 1 r readRecord_grows [of rc c c1] readRecordOrCCS_role [of rc False c]
    by (cases "length (c_hand c) < n"; cases e) (auto simp: readHandshakeBytes.simps [of rc n c])
qed

lemma readHandshakeBytes_split:
  assumes "k \<le> n"
  shows "readHandshakeBytes rc n c = (None, c') \<Longrightarrow>
    \<exists>c1. readHandshakeBytes rc k c = (None, c1) \<and> readHandshakeBytes rc n c1 = (None, c')"
  using assms
proof (induction rc n c rule: readHandshakeBytes.induct)
  case (1 rc n c)
  obtain e c1 where r: "readRecordOrCCS rc False c = (e, c1)"
    by (cases "readRecordOrCCS rc False c")
  show ?case
  proof (cases "length (c_hand c) < k")
    case True
    then show ?thesis
      using 1 r by (cases e) (auto simp: readHandshakeBytes.simps [of rc n c] readHandshakeBytes.simps [of rc k c])
  next
    case False
    then show ?thesis
      using 1 by (auto simp: readHandshakeBytes.simps [of rc k c])
  qed
qed


section \<open>From message to message\<close>

text \<open>How the two halves of a transfer are put together.\<close>

lemma transferI:
  assumes "A cw'" "outgoing cw' = outgoing cw @ wire" "\<And>raw net rest. raw @ concat net = wire @ rest \<Longrightarrow> C cw' raw net rest"
  shows "\<exists>wire cw'. A cw' \<and> outgoing cw' = outgoing cw @ wire \<and> (\<forall>raw net rest. raw @ concat net = wire @ rest \<longrightarrow> C cw' raw net rest)"
  using assms by blast

lemma framed_header:
  assumes "framed t bs"
  shows "4 \<le> length bs" "bs ! 0 = t" "unat (u24_of (bs ! 1) (bs ! 2) (bs ! 3)) = length bs - 4"
  using assms by (auto simp: framed_def vec24_def be24_def u24_of_len)

text \<open>The longest message of each type that \<open>readHandshake\<close> accepts.\<close>

definition message_limit :: "conn \<Rightarrow> bytes \<Rightarrow> nat" where
  "message_limit c dat = 4 + (if c_haveVers c \<and> dat ! 0 = typeCertificate then maxHandshakeCertificateMsg else maxHandshake)"

lemma readHandshake_message:
  assumes "readHandshakeBytes rc (length dat) c = (None, c')" "c_hand c' = dat" "length dat \<le> message_limit c dat"
    and "parses_back cb (c_isClient c) (c_vers c) dat m"
  shows "readHandshake cb rc tr c = (Inr (received dat m), map_option (\<lambda>h. h @ dat) tr, c'\<lparr>c_hand := []\<rparr>)"
proof -
  obtain t parse where f: "framed t dat" "message_parser cb (c_isClient c) (c_vers c) t = Some parse" "parse dat = Some (received dat m)"
    using assms(4) by (auto simp: parses_back_def split: Option.bind_splits)
  note h = framed_header [OF f(1)]
  obtain c1 where c1: "readHandshakeBytes rc 4 c = (None, c1)" "readHandshakeBytes rc (length dat) c1 = (None, c')"
    using readHandshakeBytes_split [OF h(1) assms(1)] by blast
  note g1 = readHandshakeBytes_grows [OF c1(1)] and g2 = readHandshakeBytes_grows [OF c1(2)]
  have "c_hand c1 ! i = dat ! i" if "i < 4" for i
    using g1 g2 that assms(2) by (metis nth_append order_less_le_trans)
  then have nth: "c_hand c1 ! 0 = dat ! 0" "c_hand c1 ! 1 = dat ! 1" "c_hand c1 ! 2 = dat ! 2" "c_hand c1 ! 3 = dat ! 3"
    by simp_all
  have n: "4 + (length dat - 4) = length dat"
    using h(1) by simp
  have r: "c_haveVers c1 = c_haveVers c" "c_isClient c' = c_isClient c" "c_vers c' = c_vers c"
    using g1 g2 by (simp_all add: role_def)
  have le: "\<not> length dat - 4 > (if c_haveVers c \<and> dat ! 0 = typeCertificate then maxHandshakeCertificateMsg else maxHandshake)"
    using assms(3) by (auto simp: message_limit_def split: if_splits)
  show ?thesis
    unfolding readHandshake_def c1(1) prod.case option.case Let_def nth h(3) r(1) n c1(2)
    using le f h(2) r by (simp add: unmarshalHandshakeMessage_def assms(2) role_def)
qed

definition sendable :: "cryptobyte \<Rightarrow> conn \<Rightarrow> handshakeMessage \<Rightarrow> bytes \<Rightarrow> bool" where
  "sendable cb c m dat \<longleftrightarrow> handshakeMessage_marshal cb m = Inr dat \<and> message_ok (c_isClient c) (c_vers c) m
     \<and> length dat \<le> message_limit c dat"

lemma linked_hand: "linked k cw (cr\<lparr>c_hand := x\<rparr>) = linked k cw cr"
  by (cases "hc_cipher (c_out cw)") (simp_all add: linked_def)

lemma message_arrives:
  assumes "record_laws rc" "cryptobyte_laws cb" "sendable cb cr m dat"
    and "linked (length dat + j) cw cr" "c_hand cr = []"
  shows "\<exists>wire cw'. writeHandshakeRecord cb rc m tw cw = (length dat, None, map_option (\<lambda>h. h @ dat) tw, cw')
    \<and> outgoing cw' = outgoing cw @ wire
    \<and> (\<forall>raw net rest. raw @ concat net = wire @ rest \<longrightarrow>
        (\<exists>cr'. readHandshake cb rc tr (cr\<lparr>c_rawInput := raw, c_net := net\<rparr>) = (Inr (received dat m), map_option (\<lambda>h. h @ dat) tr, cr')
          \<and> c_hand cr' = [] \<and> incoming cr' = rest \<and> linked j cw' cr' \<and> same_role cr cr'))"
proof -
  have s: "handshakeMessage_marshal cb m = Inr dat" "message_ok (c_isClient cr) (c_vers cr) m" "length dat \<le> message_limit cr dat"
    using assms(3) by (simp_all add: sendable_def)
  obtain wire cw' where t: "write_records rc recordTypeHandshake dat cw = (length dat, None, cw')" "outgoing cw' = outgoing cw @ wire"
    "\<forall>raw net rest n. raw @ concat net = wire @ rest \<longrightarrow> n = length (c_hand cr) + length dat \<longrightarrow>
          (\<exists>cr'. readHandshakeBytes rc n (cr\<lparr>c_rawInput := raw, c_net := net\<rparr>) = (None, cr')
            \<and> c_hand cr' = c_hand cr @ dat \<and> incoming cr' = rest \<and> linked j cw' cr' \<and> same_role cr cr')"
    using handshake_transfer [OF assms(1,4)] by (elim exE conjE) (rule that; assumption)
  have w: "writeHandshakeRecord cb rc m tw cw = (length dat, None, map_option (\<lambda>h. h @ dat) tw, cw')"
    using t(1) by (simp add: writeHandshakeRecord_def s(1) writeRecordLocked_def)
  have "\<exists>cr'. readHandshake cb rc tr (cr\<lparr>c_rawInput := raw, c_net := net\<rparr>) = (Inr (received dat m), map_option (\<lambda>h. h @ dat) tr, cr')
          \<and> c_hand cr' = [] \<and> incoming cr' = rest \<and> linked j cw' cr' \<and> same_role cr cr'"
    if io: "raw @ concat net = wire @ rest" for raw net rest
  proof -
    have "length dat = length (c_hand cr) + length dat"
      using assms(5) by simp
    from t(3) [rule_format, OF io this, unfolded assms(5) append_Nil]
    obtain cr' where r: "readHandshakeBytes rc (length dat) (cr\<lparr>c_rawInput := raw, c_net := net\<rparr>) = (None, cr')"
        "c_hand cr' = dat" "incoming cr' = rest" "linked j cw' cr'" "same_role cr cr'"
      by (elim exE conjE) (rule that; assumption)
    have "readHandshake cb rc tr (cr\<lparr>c_rawInput := raw, c_net := net\<rparr>) = (Inr (received dat m), map_option (\<lambda>h. h @ dat) tr, cr'\<lparr>c_hand := []\<rparr>)"
      using r(1,2) s(3) message_round_trip [OF assms(2) s(1,2)]
      by (intro readHandshake_message) (simp_all add: message_limit_def)
    moreover have "linked j cw' (cr'\<lparr>c_hand := []\<rparr>)" "same_role cr (cr'\<lparr>c_hand := []\<rparr>)" "incoming (cr'\<lparr>c_hand := []\<rparr>) = rest"
      using r(3-5) by (simp_all add: linked_hand same_role_def incoming_def)
    ultimately show ?thesis
      by (intro exI [of _ "cr'\<lparr>c_hand := []\<rparr>"] conjI) simp_all
  qed
  with w t(2) show ?thesis
    by (rule transferI)
qed


section \<open>Flights of messages\<close>

text \<open>A flight: messages that one side writes one after the other, and the other side reads so.\<close>

fun write_flight :: "cryptobyte \<Rightarrow> record_crypto \<Rightarrow> handshakeMessage list \<Rightarrow> bytes option \<Rightarrow> conn \<Rightarrow> conn_error option \<times> bytes option \<times> conn" where
  "write_flight cb rc [] tr c = (None, tr, c)"
| "write_flight cb rc (m # ms) tr c = (case writeHandshakeRecord cb rc m tr c of
     (n, Some e, tr, c) \<Rightarrow> (Some e, tr, c)
   | (n, None, tr, c) \<Rightarrow> write_flight cb rc ms tr c)"

fun read_flight :: "cryptobyte \<Rightarrow> record_crypto \<Rightarrow> nat \<Rightarrow> bytes option \<Rightarrow> conn \<Rightarrow>
    (conn_error option + handshakeMessage list) \<times> bytes option \<times> conn" where
  "read_flight cb rc 0 tr c = (Inr [], tr, c)"
| "read_flight cb rc (Suc n) tr c = (case readHandshake cb rc tr c of
     (Inl e, tr, c) \<Rightarrow> (Inl e, tr, c)
   | (Inr m, tr, c) \<Rightarrow> (case read_flight cb rc n tr c of
       (Inl e, tr, c) \<Rightarrow> (Inl e, tr, c)
     | (Inr ms, tr, c) \<Rightarrow> (Inr (m # ms), tr, c)))"

lemma sendable_role: "same_role c c' \<Longrightarrow> sendable cb c' = sendable cb c"
  by (auto simp: same_role_def sendable_def message_limit_def fun_eq_iff)

lemma flight_transfer:
  assumes "record_laws rc" "cryptobyte_laws cb"
  shows "list_all2 (sendable cb cr) ms dats \<Longrightarrow> linked (length (concat dats)) cw cr \<Longrightarrow> c_hand cr = [] \<Longrightarrow>
    \<exists>wire cw'. write_flight cb rc ms tw cw = (None, map_option (\<lambda>h. h @ concat dats) tw, cw') \<and> outgoing cw' = outgoing cw @ wire
      \<and> (\<forall>raw net rest. raw @ concat net = wire @ rest \<longrightarrow>
          (\<exists>cr'. read_flight cb rc (length ms) tr (cr\<lparr>c_rawInput := raw, c_net := net\<rparr>) =
              (Inr (map2 received dats ms), map_option (\<lambda>h. h @ concat dats) tr, cr')
            \<and> c_hand cr' = [] \<and> incoming cr' = rest))"
proof (induction ms arbitrary: dats cw cr tw tr)
  case Nil
  then show ?case
    by (intro exI [of _ "[]"] exI [of _ cw]) (simp add: incoming_def option.map_ident)
next
  case (Cons m ms)
  then obtain dat dats' where d: "dats = dat # dats'" "sendable cb cr m dat" "list_all2 (sendable cb cr) ms dats'"
    by (auto simp: list_all2_Cons1)
  have l: "linked (length dat + length (concat dats')) cw cr"
    using Cons.prems(2) by (simp add: d(1))
  obtain wire1 cw1 where w1: "writeHandshakeRecord cb rc m tw cw = (length dat, None, map_option (\<lambda>h. h @ dat) tw, cw1)"
      "outgoing cw1 = outgoing cw @ wire1"
    and r1: "\<forall>raw net rest. raw @ concat net = wire1 @ rest \<longrightarrow>
        (\<exists>cr'. readHandshake cb rc tr (cr\<lparr>c_rawInput := raw, c_net := net\<rparr>) = (Inr (received dat m), map_option (\<lambda>h. h @ dat) tr, cr')
          \<and> c_hand cr' = [] \<and> incoming cr' = rest \<and> linked (length (concat dats')) cw1 cr' \<and> same_role cr cr')"
    using message_arrives [OF assms d(2) l Cons.prems(3), of tw tr] by (elim exE conjE) (rule that; assumption)
  let ?tw = "map_option (\<lambda>h. h @ dat) tw" and ?tr = "map_option (\<lambda>h. h @ dat) tr"
  have goes_on: "\<exists>wire cw'. write_flight cb rc ms ?tw cw1 = (None, map_option (\<lambda>h. h @ concat dats') ?tw, cw')
        \<and> outgoing cw' = outgoing cw1 @ wire
        \<and> (\<forall>rest. incoming cr1 = wire @ rest \<longrightarrow> (\<exists>cr'. read_flight cb rc (length ms) ?tr cr1 =
              (Inr (map2 received dats' ms), map_option (\<lambda>h. h @ concat dats') ?tr, cr') \<and> c_hand cr' = [] \<and> incoming cr' = rest))"
    if c1: "linked (length (concat dats')) cw1 cr1" "same_role cr cr1" "c_hand cr1 = []" for cr1
  proof -
    have "list_all2 (sendable cb cr1) ms dats'"
      using d(3) sendable_role [OF c1(2)] by simp
    from Cons.IH [OF this c1(1,3), of ?tw ?tr] obtain wire cw' where
        w: "write_flight cb rc ms ?tw cw1 = (None, map_option (\<lambda>h. h @ concat dats') ?tw, cw')" "outgoing cw' = outgoing cw1 @ wire"
      and "\<forall>raw net rest. raw @ concat net = wire @ rest \<longrightarrow>
          (\<exists>cr'. read_flight cb rc (length ms) ?tr (cr1\<lparr>c_rawInput := raw, c_net := net\<rparr>) =
              (Inr (map2 received dats' ms), map_option (\<lambda>h. h @ concat dats') ?tr, cr')
            \<and> c_hand cr' = [] \<and> incoming cr' = rest)"
      by (elim exE conjE) (rule that; assumption)
    from this(3) [THEN spec, of "c_rawInput cr1", THEN spec, of "c_net cr1"] show ?thesis
      using w by (intro exI [of _ wire] exI [of _ cw']) (simp add: incoming_def)
  qed
  have "wire1 @ concat [] = wire1 @ []"
    by simp
  from r1 [rule_format, OF this] obtain cr0 where c0: "c_hand cr0 = []" "linked (length (concat dats')) cw1 cr0" "same_role cr cr0"
    by (elim exE conjE) (rule that; assumption)
  obtain wire2 cw' where w2: "write_flight cb rc ms ?tw cw1 = (None, map_option (\<lambda>h. h @ concat dats') ?tw, cw')"
      "outgoing cw' = outgoing cw1 @ wire2"
    using goes_on [OF c0(2,3,1)] by (elim exE conjE) (rule that; assumption)
  have reads: "\<exists>cr'. read_flight cb rc (length (m # ms)) tr (cr\<lparr>c_rawInput := raw, c_net := net\<rparr>) =
              (Inr (map2 received dats (m # ms)), map_option (\<lambda>h. h @ concat dats) tr, cr')
            \<and> c_hand cr' = [] \<and> incoming cr' = rest"
    if io: "raw @ concat net = (wire1 @ wire2) @ rest" for raw net rest
  proof -
    obtain cr1 where c1: "readHandshake cb rc tr (cr\<lparr>c_rawInput := raw, c_net := net\<rparr>) = (Inr (received dat m), ?tr, cr1)"
        "c_hand cr1 = []" "incoming cr1 = wire2 @ rest" "linked (length (concat dats')) cw1 cr1" "same_role cr cr1"
      using r1 [rule_format, OF io [unfolded append_assoc]] by (elim exE conjE) (rule that; assumption)
    obtain wire3 cw3 where w3: "write_flight cb rc ms ?tw cw1 = (None, map_option (\<lambda>h. h @ concat dats') ?tw, cw3)"
        "outgoing cw3 = outgoing cw1 @ wire3"
      and r3: "\<forall>rest. incoming cr1 = wire3 @ rest \<longrightarrow> (\<exists>cr'. read_flight cb rc (length ms) ?tr cr1 =
              (Inr (map2 received dats' ms), map_option (\<lambda>h. h @ concat dats') ?tr, cr') \<and> c_hand cr' = [] \<and> incoming cr' = rest)"
      using goes_on [OF c1(4,5,2)] by (elim exE conjE) (rule that; assumption)
    have "wire3 = wire2"
      using w2 w3 by simp
    then have "incoming cr1 = wire3 @ rest"
      using c1(3) by simp
    from r3 [rule_format, OF this] obtain cr' where "read_flight cb rc (length ms) ?tr cr1 =
              (Inr (map2 received dats' ms), map_option (\<lambda>h. h @ concat dats') ?tr, cr')" "c_hand cr' = []" "incoming cr' = rest"
      by (elim exE conjE) (rule that; assumption)
    then show ?thesis
      using c1(1) by (simp add: d(1) option.map_comp comp_def)
  qed
  have "write_flight cb rc (m # ms) tw cw = (None, map_option (\<lambda>h. h @ concat dats) tw, cw')"
    using w1(1) w2(1) by (simp add: d(1) option.map_comp comp_def)
  moreover have "outgoing cw' = outgoing cw @ (wire1 @ wire2)"
    using w1(2) w2(2) by simp
  ultimately show ?case
    using reads by (rule transferI)
qed


section \<open>Properties\<close>

text \<open>
  C8. Every flight of handshake messages arrives. Where the two ends are linked and the messages
  are acceptable to the reader's role and version, the writer's calls of \<open>writeHandshakeRecord\<close>
  succeed; and whatever the way in which the transport cuts the stream, as many calls of
  \<open>readHandshake\<close> return the same messages in the same order, the transcript of the reader grows by
  the bytes that the transcript of the writer grows by, and no byte that follows is taken.
\<close>

theorem flight_arrives:
  assumes "record_laws rc" "cryptobyte_laws cb" "list_all2 (sendable cb cr) ms dats"
    and "linked (length (concat dats)) cw cr" "c_hand cr = []"
  shows "\<exists>wire cw'. write_flight cb rc ms tw cw = (None, map_option (\<lambda>h. h @ concat dats) tw, cw') \<and> outgoing cw' = outgoing cw @ wire
      \<and> (\<forall>raw net rest. raw @ concat net = wire @ rest \<longrightarrow>
          (\<exists>cr'. read_flight cb rc (length ms) tr (cr\<lparr>c_rawInput := raw, c_net := net\<rparr>) =
              (Inr (map2 received dats ms), map_option (\<lambda>h. h @ concat dats) tr, cr')
            \<and> c_hand cr' = [] \<and> c_rawInput cr' @ concat (c_net cr') = rest))"
  using flight_transfer [OF assms] unfolding incoming_def by this

theorem flight_arrives_witness:
  "\<exists>cw' cr'. write_flight cb_ref rc_plain [M_finished \<lparr>verifyData = [1, 2]\<rparr>, M_keyUpdate \<lparr>updateRequested = True\<rparr>] (Some [])
        (ex_conn VersionTLS13 True ex_aead []) = (None, Some [20, 0, 0, 2, 1, 2, 24, 0, 0, 1, 1], cw')
    \<and> read_flight cb_ref rc_plain 2 (Some []) ((ex_conn VersionTLS13 True ex_aead [])\<lparr>c_rawInput := [], c_net := [outgoing cw']\<rparr>) =
        (Inr [M_finished \<lparr>verifyData = [1, 2]\<rparr>, M_keyUpdate \<lparr>updateRequested = True\<rparr>], Some [20, 0, 0, 2, 1, 2, 24, 0, 0, 1, 1], cr')"
proof -
  let ?c = "ex_conn VersionTLS13 True ex_aead []"
  let ?ms = "[M_finished \<lparr>verifyData = [1, 2]\<rparr>, M_keyUpdate \<lparr>updateRequested = True\<rparr>]"
  let ?dats = "[[20, 0, 0, 2, 1, 2], [24, 0, 0, 1, 1]] :: bytes list"
  have s: "list_all2 (sendable cb_ref ?c) ?ms ?dats"
    by (simp add: sendable_def message_ok_def message_limit_def finishedMsg_marshal_def keyUpdateMsg_marshal_def cb_eval)
  have l: "linked (length (concat ?dats)) ?c ?c" "c_hand ?c = []" "outgoing ?c = []"
    by (simp add: ex_linked) (simp_all add: ex_conn_simps outgoing_def)
  have m: "map2 received ?dats ?ms = ?ms" "length ?ms = 2"
      "concat ?dats = [20, 0, 0, 2, 1, 2, 24, 0, 0, 1, 1]"
    by (simp_all add: received_def)
  from flight_arrives [OF rc_plain_laws ref.cryptobyte_laws_axioms s l(1,2), of "Some []" "Some []", unfolded m l(3) append_Nil option.map]
  obtain wire cw' where w: "write_flight cb_ref rc_plain ?ms (Some []) ?c = (None, Some [20, 0, 0, 2, 1, 2, 24, 0, 0, 1, 1], cw')"
      "outgoing cw' = wire"
    and r: "\<forall>raw net rest. raw @ concat net = wire @ rest \<longrightarrow>
          (\<exists>cr'. read_flight cb_ref rc_plain 2 (Some []) (?c\<lparr>c_rawInput := raw, c_net := net\<rparr>) =
              (Inr ?ms, Some [20, 0, 0, 2, 1, 2, 24, 0, 0, 1, 1], cr')
            \<and> c_hand cr' = [] \<and> c_rawInput cr' @ concat (c_net cr') = rest)"
    by (elim exE conjE) (rule that; assumption)
  have "[] @ concat [wire] = wire @ []"
    by simp
  from r [rule_format, OF this] show ?thesis
    using w(1) unfolding w(2) [symmetric] by (elim exE conjE) (intro exI conjI; assumption)
qed

lemma sendAlertLocked_clear:
  assumes "hc_cipher (c_out c) = None" "c_writeErr c = None" "\<not> c_buffering c" "a \<noteq> alertCloseNotify" "a \<noteq> alertNoRenegotiation"
  shows "sendAlertLocked rc a c = (Some (PermanentError (LocalError a)), c\<lparr>c_out := (c_out c)\<lparr>hc_err := Some (PermanentError (LocalError a))\<rparr>,
     c_sent := c_sent c @ record_header recordTypeAlert (c_vers c) 2 @ [alertLevelError, a], c_bytesSent := c_bytesSent c + 7\<rparr>)"
  using assms
  by (simp add: sendAlertLocked_def write_records.simps write_one_def maxPayloadSizeForWrite_def encrypt_def conn_write_def net_Write_def
      Let_def setErrorLocked_def is_net_Error_def record_header_def two_bytes_def is_panic_def be16_def)

text \<open>
  C34. A message of an unknown type is answered with the same alert twice: before keys are in use,
  two records with a fatal \<open>unexpected_message\<close> go out, and the connection keeps the error.
\<close>

theorem unknown_message_two_alerts:
  assumes "message_parser cb (c_isClient c) (c_vers c) (dat ! 0) = None"
    and "hc_cipher (c_out c) = None" "c_writeErr c = None" "\<not> c_buffering c"
  shows "\<exists>err c'. unmarshalHandshakeMessage cb rc dat tr c = (Inl (Some err), tr, c') \<and> hc_err (c_in c') = Some err
    \<and> c_sent c' = c_sent c @ record_header recordTypeAlert (c_vers c) 2 @ [alertLevelError, alertUnexpectedMessage]
        @ record_header recordTypeAlert (c_vers c) 2 @ [alertLevelError, alertUnexpectedMessage]"
  using assms
  by (simp add: unmarshalHandshakeMessage_def fail_alert_def sendAlertLocked_clear in_setError_def setErrorLocked_def Let_def
      is_panic_def is_net_Error_def)

theorem unknown_message_two_alerts_witness:
  "\<exists>err c'. unmarshalHandshakeMessage cb_ref rc_plain [99, 0, 0, 0] None ((ex_conn VersionTLS12 True ex_aead [])\<lparr>c_out := ex_aead\<lparr>hc_cipher := None\<rparr>\<rparr>) =
      (Inl (Some err), None, c') \<and> c_sent c' = [21, 3, 3, 0, 2, 2, 10, 21, 3, 3, 0, 2, 2, 10]"
proof -
  let ?c = "(ex_conn VersionTLS12 True ex_aead [])\<lparr>c_out := ex_aead\<lparr>hc_cipher := None\<rparr>\<rparr>"
  have "message_parser cb_ref (c_isClient ?c) (c_vers ?c) ([99, 0, 0, 0] ! 0) = None" "hc_cipher (c_out ?c) = None" "c_writeErr ?c = None"
      "\<not> c_buffering ?c"
    by (simp_all add: message_parser_def utls_message_def ex_conn_def)
  from unknown_message_two_alerts [OF this, of rc_plain None] show ?thesis
    by (elim exE conjE) (intro exI conjI, assumption, simp add: ex_conn_def record_header_def be16_def two_bytes_def)
qed

end
