(* ===== verification/Session_Cache.thy ===== *)
theory Session_Cache
  imports Prelude "HOL-Library.AList"
begin

text \<open>
  The cache of client sessions (common.go, \<open>lruSessionCache\<close>): a doubly linked list of entries and
  a map from keys to the elements of the list. The elements are addresses, their entries are in a
  store, so that the two structures share them as in the code. Calls are serialised by the mutex.
\<close>

section \<open>The cache\<close>

record 's lruSessionCacheEntry =
  sessionKey :: string
  cs_state :: "'s option"

record 's lruSessionCache =
  lc_m :: "string \<rightharpoonup> nat"
  lc_q :: "nat list"
  lc_capacity :: int
  lc_value :: "nat \<Rightarrow> 's lruSessionCacheEntry"
  lc_new :: nat

text \<open>\<open>container/list\<close>: the list of elements from front to back, and the next free address.\<close>

definition PushFront :: "'s lruSessionCacheEntry \<Rightarrow> 's lruSessionCache \<Rightarrow> nat \<times> 's lruSessionCache" where
  "PushFront entry c = (lc_new c, c\<lparr>lc_q := lc_new c # lc_q c, lc_value := (lc_value c)(lc_new c := entry), lc_new := lc_new c + 1\<rparr>)"

definition MoveToFront :: "nat \<Rightarrow> 's lruSessionCache \<Rightarrow> 's lruSessionCache" where
  "MoveToFront elem c = c\<lparr>lc_q := elem # remove1 elem (lc_q c)\<rparr>"

definition NewLRUClientSessionCache :: "int \<Rightarrow> 's lruSessionCache" where
  "NewLRUClientSessionCache capacity =
     \<lparr>lc_m = Map.empty, lc_q = [], lc_capacity = (if capacity < 1 then 64 else capacity),
      lc_value = (\<lambda>e. \<lparr>sessionKey = [], cs_state = None\<rparr>), lc_new = 0\<rparr>"

text \<open>\<open>None\<close>: \<open>Back\<close> of an empty list is nil, and the access to its value panics.\<close>

definition Put :: "string \<Rightarrow> 's option \<Rightarrow> 's lruSessionCache \<Rightarrow> 's lruSessionCache option" where
  "Put key cs c = (case lc_m c key of
     Some elem \<Rightarrow>
       if cs = None then Some (c\<lparr>lc_q := remove1 elem (lc_q c), lc_m := (lc_m c)(key := None)\<rparr>)
       else Some (MoveToFront elem (c\<lparr>lc_value := (lc_value c)(elem := (lc_value c elem)\<lparr>cs_state := cs\<rparr>)\<rparr>))
   | None \<Rightarrow>
       if int (length (lc_q c)) < lc_capacity c then
         (let (elem, c) = PushFront \<lparr>sessionKey = key, cs_state = cs\<rparr> c in Some (c\<lparr>lc_m := (lc_m c)(key := Some elem)\<rparr>))
       else if lc_q c = [] then None
       else
         let elem = last (lc_q c);
             c = c\<lparr>lc_m := (lc_m c)(sessionKey (lc_value c elem) := None)\<rparr>;
             c = c\<lparr>lc_value := (lc_value c)(elem := \<lparr>sessionKey = key, cs_state = cs\<rparr>)\<rparr>;
             c = MoveToFront elem c
         in Some (c\<lparr>lc_m := (lc_m c)(key := Some elem)\<rparr>))"

definition Get :: "string \<Rightarrow> 's lruSessionCache \<Rightarrow> ('s option \<times> bool) \<times> 's lruSessionCache" where
  "Get key c = (case lc_m c key of
     Some elem \<Rightarrow> let c = MoveToFront elem c in ((cs_state (lc_value c elem), True), c)
   | None \<Rightarrow> ((None, False), c))"


section \<open>The cache as a list of entries\<close>

text \<open>
  The specification: a list of keys with their states, the most recently used first. Putting nil
  under an unknown key adds an entry too.
\<close>

definition lru_put :: "nat \<Rightarrow> string \<Rightarrow> 's option \<Rightarrow> (string \<times> 's option) list \<Rightarrow> (string \<times> 's option) list" where
  "lru_put cap key cs xs = (case map_of xs key of
     Some old \<Rightarrow> if cs = None then AList.delete key xs else (key, cs) # AList.delete key xs
   | None \<Rightarrow> (key, cs) # take (cap - 1) xs)"

definition lru_get :: "string \<Rightarrow> (string \<times> 's option) list \<Rightarrow> ('s option \<times> bool) \<times> (string \<times> 's option) list" where
  "lru_get key xs = (case map_of xs key of
     Some cs \<Rightarrow> ((cs, True), (key, cs) # AList.delete key xs)
   | None \<Rightarrow> ((None, False), xs))"

definition elem_pair :: "'s lruSessionCache \<Rightarrow> nat \<Rightarrow> string \<times> 's option" where
  "elem_pair c e = (sessionKey (lc_value c e), cs_state (lc_value c e))"

lemma elem_pair_updates [simp]:
  "elem_pair (c\<lparr>lc_q := q\<rparr>) = elem_pair c" "elem_pair (c\<lparr>lc_m := m\<rparr>) = elem_pair c" "elem_pair (c\<lparr>lc_new := n\<rparr>) = elem_pair c"
  by (simp_all add: elem_pair_def fun_eq_iff)

definition entries :: "'s lruSessionCache \<Rightarrow> (string \<times> 's option) list" where
  "entries c = map (elem_pair c) (lc_q c)"

definition cache_inv :: "'s lruSessionCache \<Rightarrow> bool" where
  "cache_inv c \<longleftrightarrow> distinct (lc_q c) \<and> (\<forall>e \<in> set (lc_q c). e < lc_new c)
     \<and> int (length (lc_q c)) \<le> lc_capacity c \<and> 1 \<le> lc_capacity c
     \<and> (\<forall>key e. lc_m c key = Some e \<longleftrightarrow> e \<in> set (lc_q c) \<and> sessionKey (lc_value c e) = key)"

lemma cache_invD:
  assumes "cache_inv c"
  shows "distinct (lc_q c)" "\<And>e. e \<in> set (lc_q c) \<Longrightarrow> e < lc_new c" "length (lc_q c) \<le> nat (lc_capacity c)" "1 \<le> lc_capacity c"
    "\<And>key e. lc_m c key = Some e \<longleftrightarrow> e \<in> set (lc_q c) \<and> sessionKey (lc_value c e) = key"
  using assms by (auto simp: cache_inv_def)

lemma cache_invI:
  assumes "distinct (lc_q c)" "\<And>e. e \<in> set (lc_q c) \<Longrightarrow> e < lc_new c" "int (length (lc_q c)) \<le> lc_capacity c" "1 \<le> lc_capacity c"
    "\<And>key e. lc_m c key = Some e \<longleftrightarrow> e \<in> set (lc_q c) \<and> sessionKey (lc_value c e) = key"
  shows "cache_inv c"
  using assms unfolding cache_inv_def by blast

lemma same_key:
  assumes "cache_inv c" "e \<in> set (lc_q c)" "e' \<in> set (lc_q c)"
  shows "sessionKey (lc_value c e) = sessionKey (lc_value c e') \<longleftrightarrow> e = e'"
  using assms(2,3) cache_invD(5) [OF assms(1), of "sessionKey (lc_value c e)" e] cache_invD(5) [OF assms(1), of "sessionKey (lc_value c e)" e']
  by auto

lemma entries_lookup:
  assumes "cache_inv c"
  shows "map_of (entries c) key = map_option (\<lambda>e. cs_state (lc_value c e)) (lc_m c key)"
proof (cases "lc_m c key")
  case None
  then have "key \<notin> fst ` set (entries c)"
    using cache_invD(5) [OF assms, of key] by (fastforce simp: entries_def elem_pair_def)
  then show ?thesis
    using None by (simp add: map_of_eq_None_iff)
next
  case (Some e)
  then have e: "e \<in> set (lc_q c)" "sessionKey (lc_value c e) = key"
    using cache_invD(5) [OF assms, of key e] by auto
  have "inj_on (\<lambda>e. sessionKey (lc_value c e)) (set (lc_q c))"
    using same_key [OF assms] by (auto intro: inj_onI)
  then have "distinct (map fst (entries c))"
    using cache_invD(1) [OF assms] by (simp add: entries_def elem_pair_def comp_def distinct_map)
  moreover have "(key, cs_state (lc_value c e)) \<in> set (entries c)"
    using e by (force simp: entries_def elem_pair_def)
  ultimately show ?thesis
    using Some by simp
qed

lemma entries_delete:
  assumes "cache_inv c" "lc_m c key = Some e"
  shows "map (elem_pair c) (remove1 e (lc_q c)) = AList.delete key (entries c)"
proof -
  have "sessionKey (lc_value c x) = key \<longleftrightarrow> x = e" if "x \<in> set (lc_q c)" for x
    using cache_invD(5) [OF assms(1), of key e] same_key [OF assms(1) that, of e] assms(2) by auto
  then have "filter (\<lambda>x. x \<noteq> e) (lc_q c) = filter (\<lambda>x. sessionKey (lc_value c x) \<noteq> key) (lc_q c)"
    by (intro filter_cong) auto
  then show ?thesis
    using distinct_remove1_removeAll [OF cache_invD(1) [OF assms(1)], of e]
    by (simp add: entries_def AList.delete_eq filter_map comp_def elem_pair_def removeAll_filter_not_eq neq_commute)
qed

lemma Get_refines:
  assumes "cache_inv c" "Get key c = (r, c')"
  shows "cache_inv c' \<and> lru_get key (entries c) = (r, entries c') \<and> lc_capacity c' = lc_capacity c"
proof (cases "lc_m c key")
  case None
  then show ?thesis
    using assms entries_lookup [OF assms(1), of key] by (auto simp: Get_def lru_get_def)
next
  case (Some e)
  have e: "e \<in> set (lc_q c)" "sessionKey (lc_value c e) = key"
    using Some cache_invD(5) [OF assms(1), of key e] by auto
  have "cache_inv (MoveToFront e c)"
    using assms(1) e(1) by (auto simp: cache_inv_def MoveToFront_def length_remove1 Suc_le_eq dest: length_pos_if_in_set)
  moreover have "entries (MoveToFront e c) = (key, cs_state (lc_value c e)) # AList.delete key (entries c)"
    using entries_delete [OF assms(1) Some] e(2) by (simp add: entries_def MoveToFront_def elem_pair_def)
  ultimately show ?thesis
    using assms(2) Some entries_lookup [OF assms(1), of key] by (auto simp: Get_def lru_get_def Let_def MoveToFront_def)
qed


lemma Put_present:
  assumes "cache_inv c" "lc_m c key = Some e" "Put key cs c = Some c'"
  shows "cache_inv c' \<and> entries c' = (if cs = None then [] else [(key, cs)]) @ AList.delete key (entries c) \<and> lc_capacity c' = lc_capacity c"
proof -
  note i = cache_invD [OF assms(1)]
  have e: "e \<in> set (lc_q c)" "sessionKey (lc_value c e) = key"
    using i(5) [of key e] assms(2) by auto
  have l: "int (length (remove1 e (lc_q c))) + 1 \<le> lc_capacity c"
    using i(3,4) e(1) length_pos_if_in_set [OF e(1)] by (simp add: length_remove1)
  show ?thesis
  proof (cases "cs = None")
    case True
    then have c': "c' = c\<lparr>lc_q := remove1 e (lc_q c), lc_m := (lc_m c)(key := None)\<rparr>"
      using assms by (simp add: Put_def)
    have "cache_inv c'"
    proof (rule cache_invI)
      show "lc_m c' k = Some x \<longleftrightarrow> x \<in> set (lc_q c') \<and> sessionKey (lc_value c' x) = k" for k x
        using i(1) i(5) [of k x] same_key [OF assms(1) e(1), of x] e(2) by (auto simp: c')
    qed (use i(1,2,4) l in \<open>auto simp: c' dest: notin_set_remove1\<close>)
    then show ?thesis
      using True entries_delete [OF assms(1,2)] by (simp add: c' entries_def)
  next
    case False
    let ?v = "(lc_value c)(e := (lc_value c e)\<lparr>cs_state := cs\<rparr>)"
    have c': "c' = c\<lparr>lc_value := ?v, lc_q := e # remove1 e (lc_q c)\<rparr>"
      using assms False by (auto simp: Put_def MoveToFront_def)
    have "cache_inv c'"
    proof (rule cache_invI)
      show "lc_m c' k = Some x \<longleftrightarrow> x \<in> set (lc_q c') \<and> sessionKey (lc_value c' x) = k" for k x
        using i(1) i(5) [of k x] e by (auto simp: c')
    qed (use i(1,2,4) l e(1) in \<open>auto simp: c' dest: notin_set_remove1\<close>)
    moreover have "map (elem_pair (c\<lparr>lc_value := ?v\<rparr>)) (remove1 e (lc_q c)) = map (elem_pair c) (remove1 e (lc_q c))"
      using i(1) by (intro map_cong) (auto simp: elem_pair_def)
    ultimately show ?thesis
      using False entries_delete [OF assms(1,2)] e(2) by (simp add: c' entries_def) (simp add: elem_pair_def)
  qed
qed

lemma Put_new:
  assumes "cache_inv c" "lc_m c key = None" "int (length (lc_q c)) < lc_capacity c" "Put key cs c = Some c'"
  shows "cache_inv c' \<and> entries c' = (key, cs) # entries c \<and> lc_capacity c' = lc_capacity c"
proof -
  note i = cache_invD [OF assms(1)]
  let ?n = "lc_new c" let ?v = "(lc_value c)(?n := \<lparr>sessionKey = key, cs_state = cs\<rparr>)"
  have c': "c' = c\<lparr>lc_q := ?n # lc_q c, lc_value := ?v, lc_new := ?n + 1, lc_m := (lc_m c)(key := Some ?n)\<rparr>"
    using assms(2-4) by (simp add: Put_def PushFront_def)
  have n: "?n \<notin> set (lc_q c)"
    using i(2) by blast
  have "cache_inv c'"
  proof (rule cache_invI)
    show "lc_m c' k = Some x \<longleftrightarrow> x \<in> set (lc_q c') \<and> sessionKey (lc_value c' x) = k" for k x
      using i(5) [of k x] assms(2) n by (auto simp: c')
  qed (use i(1,2,4) n assms(3) in \<open>auto simp: c' less_Suc_eq\<close>)
  moreover have "map (elem_pair (c\<lparr>lc_value := ?v\<rparr>)) (lc_q c) = map (elem_pair c) (lc_q c)"
    using n by (intro map_cong) (auto simp: elem_pair_def)
  ultimately show ?thesis
    by (simp add: c' entries_def) (simp add: elem_pair_def)
qed

lemma Put_evicts:
  assumes "cache_inv c" "lc_m c key = None" "\<not> int (length (lc_q c)) < lc_capacity c"
  shows "\<exists>c'. Put key cs c = Some c' \<and> cache_inv c' \<and> entries c' = (key, cs) # butlast (entries c) \<and> lc_capacity c' = lc_capacity c"
proof -
  note i = cache_invD [OF assms(1)]
  have ne: "lc_q c \<noteq> []"
    using assms(3) i(4) by auto
  then obtain xs e where q: "lc_q c = xs @ [e]"
    by (metis append_butlast_last_id)
  let ?v = "(lc_value c)(e := \<lparr>sessionKey = key, cs_state = cs\<rparr>)"
  define c' where "c' = c\<lparr>lc_m := ((lc_m c)(sessionKey (lc_value c e) := None))(key := Some e), lc_value := ?v, lc_q := e # xs\<rparr>"
  have xs: "distinct xs" "e \<notin> set xs"
    using i(1) by (simp_all add: q)
  have p: "Put key cs c = Some c'"
    using assms(2,3) xs(2) by (simp add: Put_def MoveToFront_def Let_def q c'_def remove1_append)
  have "cache_inv c'"
  proof (rule cache_invI)
    show "lc_m c' k = Some x \<longleftrightarrow> x \<in> set (lc_q c') \<and> sessionKey (lc_value c' x) = k" for k x
      using i(5) [of k x] i(5) [of key x] same_key [OF assms(1), of x e] assms(2) xs(2) by (auto simp: c'_def q)
    show "int (length (lc_q c')) \<le> lc_capacity c'"
      using i(3,4) by (simp add: c'_def q)
  qed (use i(2,4) xs in \<open>auto simp: c'_def q\<close>)
  moreover have "map (elem_pair (c\<lparr>lc_value := ?v\<rparr>)) xs = map (elem_pair c) xs"
    using xs(2) by (intro map_cong) (auto simp: elem_pair_def)
  then have "entries c' = (key, cs) # butlast (entries c)"
    by (simp add: c'_def entries_def q) (simp add: elem_pair_def)
  ultimately show ?thesis
    using p by (simp add: c'_def)
qed


lemma Put_refines:
  assumes "cache_inv c"
  obtains c' where "Put key cs c = Some c'" "cache_inv c'" "lc_capacity c' = lc_capacity c"
    "entries c' = lru_put (nat (lc_capacity c)) key cs (entries c)"
proof (cases "lc_m c key")
  case (Some e)
  then obtain c' where p: "Put key cs c = Some c'"
    by (cases "cs = None") (simp_all add: Put_def)
  have "map_of (entries c) key = Some (cs_state (lc_value c e))"
    using entries_lookup [OF assms, of key] Some by simp
  then show thesis
    using that [OF p] Put_present [OF assms Some p] by (auto simp: lru_put_def)
next
  case None
  then have m: "map_of (entries c) key = None"
    using entries_lookup [OF assms, of key] by simp
  show thesis
  proof (cases "int (length (lc_q c)) < lc_capacity c")
    case True
    then obtain c' where p: "Put key cs c = Some c'"
      using None by (auto simp: Put_def PushFront_def)
    have "length (entries c) \<le> nat (lc_capacity c) - 1"
      using True by (simp add: entries_def)
    then show thesis
      using that [OF p] Put_new [OF assms None True p] m by (simp add: lru_put_def)
  next
    case False
    then have "length (entries c) = nat (lc_capacity c)"
      using cache_invD(3,4) [OF assms] by (simp add: entries_def)
    then show thesis
      using that Put_evicts [OF assms None False, of cs] m by (auto simp: lru_put_def butlast_conv_take)
  qed
qed


section \<open>The interface of a cache\<close>

text \<open>
  What the handshake relies on (\<open>ClientSessionCache\<close>): a session found under a key is the one that
  was last put there. A cache may drop sessions.
\<close>

locale session_cache =
  fixes put :: "string \<Rightarrow> 's option \<Rightarrow> 'c \<Rightarrow> 'c option" and find :: "'c \<Rightarrow> string \<Rightarrow> 's option" and inv :: "'c \<Rightarrow> bool"
  assumes put_ok: "inv c \<Longrightarrow> \<exists>c'. put k s c = Some c' \<and> inv c'"
    and put_same: "inv c \<Longrightarrow> put k s c = Some c' \<Longrightarrow> find c' k = s"
    and put_other: "inv c \<Longrightarrow> put k s c = Some c' \<Longrightarrow> k' \<noteq> k \<Longrightarrow> find c' k' = find c k' \<or> find c' k' = None"
begin

fun put_all :: "(string \<times> 's option) list \<Rightarrow> 'c \<Rightarrow> 'c option" where
  "put_all [] c = Some c"
| "put_all ((k, s) # ps) c = Option.bind (put k s c) (put_all ps)"

lemma put_all_ok: "inv c \<Longrightarrow> \<exists>c'. put_all ps c = Some c' \<and> inv c'"
proof (induction ps arbitrary: c)
  case (Cons p ps)
  then show ?case
    using put_ok [of c "fst p" "snd p"] by (cases p) fastforce
qed simp

lemma found_was_last_put:
  "inv c \<Longrightarrow> put_all ps c = Some c' \<Longrightarrow> find c' k = Some s \<Longrightarrow>
    (case map_of (rev ps) k of Some s' \<Rightarrow> s' = Some s | None \<Rightarrow> find c k = Some s)"
proof (induction ps arbitrary: c)
  case (Cons p ps)
  obtain k1 s1 where p: "p = (k1, s1)"
    by (cases p)
  obtain c1 where c1: "put k1 s1 c = Some c1" "inv c1"
    using put_ok [OF Cons.prems(1)] by blast
  then have "case map_of (rev ps) k of Some s' \<Rightarrow> s' = Some s | None \<Rightarrow> find c1 k = Some s"
    using Cons.IH [of c1] Cons.prems by (simp add: p)
  then show ?case
    using put_same [OF Cons.prems(1) c1(1)] put_other [OF Cons.prems(1) c1(1), of k]
    by (auto simp: p map_add_def split: option.splits if_splits)
qed simp

end

text \<open>What \<open>Get\<close> finds: the state, where it says that there is an entry.\<close>

definition cached :: "'s lruSessionCache \<Rightarrow> string \<Rightarrow> 's option" where
  "cached c key = fst (fst (Get key c))"

lemma cached_entries: "cache_inv c \<Longrightarrow> cached c key = Option.bind (map_of (entries c) key) id"
  by (cases "lc_m c key") (simp_all add: cached_def Get_def Let_def MoveToFront_def entries_lookup)

lemma lru_put_lookup:
  "Option.bind (map_of (lru_put cap key cs xs) key') id =
     (if key' = key then cs
      else if map_of xs key = None then Option.bind (map_of (take (cap - 1) xs) key') id
      else Option.bind (map_of xs key') id)"
  by (auto simp: lru_put_def delete_conv split: option.split)

lemma map_of_take: "map_of (take n xs) k = map_of xs k \<or> map_of (take n xs) k = None"
  using fun_cong [OF map_of_append [of "take n xs" "drop n xs"], of k] by (auto simp: map_add_def split: option.splits)

interpretation lru: session_cache Put cached cache_inv
proof
  fix c :: "'a lruSessionCache" and k k' s c'
  assume c: "cache_inv c"
  obtain c1 where c1: "Put k s c = Some c1" "cache_inv c1" "entries c1 = lru_put (nat (lc_capacity c)) k s (entries c)"
    using Put_refines [OF c] by metis
  then show "\<exists>c'. Put k s c = Some c' \<and> cache_inv c'"
    by blast
  assume "Put k s c = Some c'"
  then have f: "cached c' x = Option.bind (map_of (lru_put (nat (lc_capacity c)) k s (entries c)) x) id" for x
    using c1 by (simp add: cached_entries)
  show "cached c' k = s"
    by (simp add: f lru_put_lookup)
  show "cached c' k' = cached c k' \<or> cached c' k' = None" if "k' \<noteq> k"
    using that map_of_take [of "nat (lc_capacity c) - 1" "entries c" k'] c
    by (auto simp: f lru_put_lookup cached_entries)
qed


section \<open>Sequences of calls\<close>

datatype 's cache_op = PutOp string "'s option" | GetOp string

fun op_key :: "'s cache_op \<Rightarrow> string" where
  "op_key (PutOp key cs) = key"
| "op_key (GetOp key) = key"

fun cache_step :: "'s cache_op \<Rightarrow> 's lruSessionCache \<Rightarrow> (('s option \<times> bool) option \<times> 's lruSessionCache) option" where
  "cache_step (PutOp key cs) c = map_option (Pair None) (Put key cs c)"
| "cache_step (GetOp key) c = (case Get key c of (r, c) \<Rightarrow> Some (Some r, c))"

fun cache_run :: "'s cache_op list \<Rightarrow> 's lruSessionCache \<Rightarrow> (('s option \<times> bool) option list \<times> 's lruSessionCache) option" where
  "cache_run [] c = Some ([], c)"
| "cache_run (oper # ops) c = (case cache_step oper c of
     None \<Rightarrow> None
   | Some (r, c) \<Rightarrow> map_option (apfst (Cons r)) (cache_run ops c))"

fun lru_step :: "nat \<Rightarrow> 's cache_op \<Rightarrow> (string \<times> 's option) list \<Rightarrow> ('s option \<times> bool) option \<times> (string \<times> 's option) list" where
  "lru_step cap (PutOp key cs) xs = (None, lru_put cap key cs xs)"
| "lru_step cap (GetOp key) xs = (case lru_get key xs of (r, xs) \<Rightarrow> (Some r, xs))"

fun lru_run :: "nat \<Rightarrow> 's cache_op list \<Rightarrow> (string \<times> 's option) list \<Rightarrow> ('s option \<times> bool) option list \<times> (string \<times> 's option) list" where
  "lru_run cap [] xs = ([], xs)"
| "lru_run cap (oper # ops) xs = (case lru_step cap oper xs of (r, xs) \<Rightarrow> apfst (Cons r) (lru_run cap ops xs))"

lemma step_refines:
  assumes "cache_inv c"
  obtains r c' where "cache_step oper c = Some (r, c')" "cache_inv c'" "lc_capacity c' = lc_capacity c"
    "lru_step (nat (lc_capacity c)) oper (entries c) = (r, entries c')"
proof (cases oper)
  case (PutOp key cs)
  obtain c' where "Put key cs c = Some c'" "cache_inv c'" "lc_capacity c' = lc_capacity c"
      "entries c' = lru_put (nat (lc_capacity c)) key cs (entries c)"
    using assms by (rule Put_refines)
  then show thesis
    by (intro that [of None c']) (simp_all add: PutOp)
next
  case (GetOp key)
  obtain r c' where g: "Get key c = (r, c')"
    by (cases "Get key c")
  show thesis
    using Get_refines [OF assms g] by (intro that [of "Some r" c']) (simp_all add: GetOp g)
qed

lemma run_refines:
  "cache_inv c \<Longrightarrow> \<exists>rs c'. cache_run ops c = Some (rs, c') \<and> cache_inv c' \<and> lc_capacity c' = lc_capacity c
     \<and> lru_run (nat (lc_capacity c)) ops (entries c) = (rs, entries c')"
proof (induction ops arbitrary: c)
  case (Cons oper ops)
  obtain r c1 where s: "cache_step oper c = Some (r, c1)" "cache_inv c1" "lc_capacity c1 = lc_capacity c"
      "lru_step (nat (lc_capacity c)) oper (entries c) = (r, entries c1)"
    using Cons.prems by (rule step_refines)
  then show ?case
    using Cons.IH [OF s(2)] by auto
qed simp

lemma put_all_run: "lru.put_all ps c = map_option snd (cache_run (map (\<lambda>(k, s). PutOp k s) ps) c)"
proof (induction ps arbitrary: c)
  case (Cons p ps)
  then show ?case
    by (cases p; cases "Put (fst p) (snd p) c") (simp_all add: option.map_comp comp_def)
qed simp

lemma new_cache: "cache_inv (NewLRUClientSessionCache n)" "entries (NewLRUClientSessionCache n) = []"
    "lc_capacity (NewLRUClientSessionCache n) = (if n < 1 then 64 else n)"
  by (auto simp: cache_inv_def NewLRUClientSessionCache_def entries_def)

text \<open>An entry moves back by at most one place with each call for another key.\<close>

lemma lru_step_keeps:
  assumes "xs = us @ (k, v) # vs" "k \<notin> fst ` set us" "length us + 1 < cap" "op_key oper \<noteq> k"
  obtains us' vs' where "snd (lru_step cap oper xs) = us' @ (k, v) # vs'" "k \<notin> fst ` set us'" "length us' \<le> length us + 1"
proof -
  have d: "AList.delete key xs = AList.delete key us @ (k, v) # AList.delete key vs" if "key \<noteq> k" for key
    using that by (simp add: assms(1) AList.delete_eq)
  have le: "length (AList.delete key us) \<le> length us" "k \<notin> fst ` set (AList.delete key us)" for key
    using assms(2) by (auto simp: AList.delete_eq)
  have t: "take (cap - 1) xs = us @ (k, v) # take (cap - 2 - length us) vs"
  proof -
    have "cap - 1 = length us + Suc (cap - 2 - length us)"
      using assms(3) by arith
    from this [THEN arg_cong, of "\<lambda>n. take n xs"] show ?thesis
      by (simp add: assms(1))
  qed
  show thesis
  proof (cases oper)
    case (PutOp key cs)
    then have "key \<noteq> k"
      using assms(4) by simp
    then show thesis
      using that [of "us" vs] d [of key] t le [of key] that [of "(key, cs) # AList.delete key us"] that [of "AList.delete key us"]
        that [of "(key, cs) # us"] assms(2) unfolding PutOp lru_step.simps snd_conv lru_put_def
      by (cases "map_of xs key"; cases cs) simp_all
  next
    case (GetOp key)
    then have "key \<noteq> k"
      using assms(4) by simp
    then show thesis
      using d [of key] le [of key] that [of us vs] that [of "(key, the (map_of xs key)) # AList.delete key us" "AList.delete key vs"]
        assms(2) assms(1) [symmetric]
      unfolding GetOp lru_step.simps lru_get_def by (cases "map_of xs key") simp_all
  qed
qed

lemma lru_run_keeps:
  "xs = us @ (k, v) # vs \<Longrightarrow> k \<notin> fst ` set us \<Longrightarrow> length us + length ops < cap \<Longrightarrow> k \<notin> op_key ` set ops \<Longrightarrow>
    map_of (snd (lru_run cap ops xs)) k = Some v"
proof (induction ops arbitrary: us vs xs)
  case Nil
  then have "map_of us k = None"
    by (simp add: map_of_eq_None_iff)
  then show ?case
    by (simp add: Nil.prems(1) map_add_def)
next
  case (Cons oper ops)
  have "length us + 1 < cap" "op_key oper \<noteq> k"
    using Cons.prems(3,4) by auto
  then obtain us' vs' where "snd (lru_step cap oper xs) = us' @ (k, v) # vs'" "k \<notin> fst ` set us'" "length us' \<le> length us + 1"
    using lru_step_keeps [OF Cons.prems(1,2)] by blast
  then show ?case
    using Cons.IH [of _ us' vs'] Cons.prems(3,4) by (cases "lru_step cap oper xs") simp
qed


section \<open>Properties\<close>

text \<open>
  C35. The linked list and the map of \<open>lruSessionCache\<close> implement a list of entries in the order of
  their use: for every sequence of calls of \<open>Put\<close> and \<open>Get\<close> on a new cache, no call panics, the
  results are those of the specification, at most \<open>capacity\<close> entries are held, and the map leads
  exactly to the elements of the list.
\<close>

theorem lru_cache_refines_list:
  "\<exists>rs c. cache_run ops (NewLRUClientSessionCache n) = Some (rs, c)
     \<and> lru_run (nat (if n < 1 then 64 else n)) ops [] = (rs, entries c)
     \<and> int (length (entries c)) \<le> (if n < 1 then 64 else n)
     \<and> (\<forall>key. lc_m c key = None \<longleftrightarrow> map_of (entries c) key = None)"
proof -
  obtain rs c where c: "cache_run ops (NewLRUClientSessionCache n) = Some (rs, c)" "cache_inv c"
      "lc_capacity c = (if n < 1 then 64 else n)" "lru_run (nat (if n < 1 then 64 else n)) ops [] = (rs, entries c)"
    using run_refines [OF new_cache(1), of ops n] unfolding new_cache by metis
  then show ?thesis
    using cache_invD(3,4) [OF c(2)] entries_lookup [OF c(2)] by (simp add: entries_def)
qed

text \<open>
  C36. A session that was put into the cache stays there for at least \<open>capacity - 1\<close> calls for other
  keys, whatever was in the cache before: \<open>Get\<close> returns it after them.
\<close>

theorem lru_cache_keeps_recent:
  assumes "cache_inv c" "int (length ops) < lc_capacity c" "key \<notin> op_key ` set ops"
  shows "\<exists>rs c'. cache_run (PutOp key (Some s) # ops) c = Some (rs, c') \<and> fst (Get key c') = (Some s, True)"
proof -
  obtain c1 where p: "Put key (Some s) c = Some c1" "cache_inv c1" "lc_capacity c1 = lc_capacity c"
      "entries c1 = lru_put (nat (lc_capacity c)) key (Some s) (entries c)"
    using assms(1) by (rule Put_refines)
  obtain rs c' where r: "cache_run ops c1 = Some (rs, c')" "cache_inv c'"
      "lru_run (nat (lc_capacity c)) ops (entries c1) = (rs, entries c')"
    using run_refines [OF p(2), of ops] p(3) by auto
  obtain vs where "entries c1 = [] @ (key, Some s) # vs"
    unfolding p(4) lru_put_def by (cases "map_of (entries c) key") simp_all
  then have "map_of (entries c') key = Some (Some s)"
    using lru_run_keeps [of "entries c1" "[]" key "Some s" vs ops "nat (lc_capacity c)"] assms(2,3) r(3) by simp
  then have "fst (Get key c') = (Some s, True)"
    using Get_refines [OF r(2), of key "fst (Get key c')" "snd (Get key c')"] by (auto simp: lru_get_def)
  then show ?thesis
    using p(1) r(1) by simp
qed

theorem lru_cache_keeps_recent_witness:
  "\<exists>rs c'. cache_run [PutOp ''a'' (Some True), PutOp ''b'' (Some False), GetOp ''c''] (NewLRUClientSessionCache 3) = Some (rs, c')
     \<and> fst (Get ''a'' c') = (Some True, True)"
  using lru_cache_keeps_recent [OF new_cache(1) [of 3], of "[PutOp ''b'' (Some False), GetOp ''c'']" "''a''" True]
  by (simp add: new_cache(3))

text \<open>
  A session that \<open>Get\<close> returns is the one that was last put under its key: for every sequence of
  calls of \<open>Put\<close> on a new cache.
\<close>

theorem lru_cache_returns_last_put:
  fixes s :: 's
  assumes "cache_run (map (\<lambda>(k, s). PutOp k s) ps) (NewLRUClientSessionCache n) = Some (rs, c)" "fst (Get key c) = (Some s, ok)"
  shows "map_of (rev ps) key = Some (Some s)"
proof -
  have "lru.put_all ps (NewLRUClientSessionCache n) = Some c"
    using put_all_run [of ps "NewLRUClientSessionCache n"] assms(1) by simp
  moreover have "cached (NewLRUClientSessionCache n :: 's lruSessionCache) key = None"
    by (simp add: cached_entries new_cache)
  ultimately show ?thesis
    using lru.found_was_last_put [OF new_cache(1), of ps n c key s] assms(2) by (auto simp: cached_def [of c] split: option.splits)
qed

theorem lru_cache_returns_last_put_witness:
  "\<exists>rs c. cache_run (map (\<lambda>(k, s). PutOp k s) [(''a'', Some True), (''a'', Some False)]) (NewLRUClientSessionCache 3) = Some (rs, c)
     \<and> fst (Get ''a'' c) = (Some False, True) \<and> map_of (rev [(''a'', Some True), (''a'', Some False)]) ''a'' = Some (Some False)"
proof -
  obtain rs c where c: "cache_run (map (\<lambda>(k, s). PutOp k s) [(''a'', Some True), (''a'', Some False)]) (NewLRUClientSessionCache 3) = Some (rs, c)"
      "fst (Get ''a'' c) = (Some False, True)"
    by (simp add: NewLRUClientSessionCache_def Put_def PushFront_def MoveToFront_def Get_def Let_def)
  then show ?thesis
    using lru_cache_returns_last_put [OF c] by blast
qed

text \<open>
  C37. Removing an entry that is not there does not leave the cache as it is: where the cache is
  full, \<open>Put\<close> of nil under an unknown key drops the least recently used session, and \<open>Get\<close> then
  reports an entry, with a nil session.
\<close>

theorem removing_unknown_key_evicts:
  assumes "cache_inv c" "map_of (entries c) key = None" "int (length (entries c)) = lc_capacity c"
  shows "\<exists>c'. Put key None c = Some c' \<and> entries c' = (key, None) # butlast (entries c) \<and> fst (Get key c') = (None, True)"
proof -
  obtain c' where p: "Put key None c = Some c'" "cache_inv c'" "entries c' = lru_put (nat (lc_capacity c)) key None (entries c)"
    using Put_refines [OF assms(1)] by metis
  moreover have e: "entries c' = (key, None) # butlast (entries c)"
    using p(3) assms(2,3) by (simp add: lru_put_def butlast_conv_take) (metis nat_int)
  moreover have "fst (Get key c') = (None, True)"
    using Get_refines [OF p(2), of key "fst (Get key c')" "snd (Get key c')"] e by (auto simp: lru_get_def)
  ultimately show ?thesis
    by blast
qed

theorem removing_unknown_key_evicts_witness:
  "\<exists>c c'. Put ''a'' (Some True) (NewLRUClientSessionCache 1) = Some c \<and> Put ''b'' None c = Some c' \<and> entries c' = [(''b'', None)]"
proof -
  obtain c where c: "Put ''a'' (Some True) (NewLRUClientSessionCache 1) = Some c" "cache_inv c" "lc_capacity c = 1"
      "entries c = [(''a'', Some True)]"
    by (rule Put_refines [OF new_cache(1) [of 1], of "''a''" "Some True"]) (simp add: new_cache lru_put_def)
  then show ?thesis
    using removing_unknown_key_evicts [OF c(2), of "''b''"] by auto
qed

end
