(* ===== verification/Quic_Parameters.thy ===== *)
theory Quic_Parameters
  imports Prelude "HOL-Library.Monad_Syntax"
begin

unbundle bit_operations_syntax

text \<open>
  Variable-length integers of QUIC (internal/quicvarint/varint.go) and the transport parameters
  (u_quic_transport_parameters.go).
\<close>

section \<open>Variable-length integers\<close>

abbreviation (input) maxVarInt1 :: u64 where "maxVarInt1 \<equiv> 63"
abbreviation (input) maxVarInt2 :: u64 where "maxVarInt2 \<equiv> 16383"
abbreviation (input) maxVarInt4 :: u64 where "maxVarInt4 \<equiv> 1073741823"
abbreviation (input) maxVarInt8 :: u64 where "maxVarInt8 \<equiv> 4611686018427387903"

text \<open>Reading from a byte reader: the value and the bytes that remain, or \<open>None\<close> at the end of the input.\<close>

fun ReadByte :: "bytes \<Rightarrow> (u8 \<times> bytes) option" where
  "ReadByte [] = None"
| "ReadByte (b # r) = Some (b, r)"

definition varint_Read :: "bytes \<Rightarrow> (u64 \<times> bytes) option" where
  "varint_Read r = do {
     (firstByte, r) \<leftarrow> ReadByte r;
     let len = push_bit (unat (drop_bit 6 (firstByte AND 0xc0))) (1 :: int);
     let b1 = (ucast (firstByte AND (0xff - 0xc0)) :: u64);
     if len = 1 then Some (b1, r)
     else do {
       (b2, r) \<leftarrow> ReadByte r;
       if len = 2 then Some (ucast b2 + push_bit 8 b1, r)
       else do {
         (b3, r) \<leftarrow> ReadByte r;
         (b4, r) \<leftarrow> ReadByte r;
         if len = 4 then Some (ucast b4 + push_bit 8 (ucast b3) + push_bit 16 (ucast b2) + push_bit 24 b1, r)
         else do {
           (b5, r) \<leftarrow> ReadByte r;
           (b6, r) \<leftarrow> ReadByte r;
           (b7, r) \<leftarrow> ReadByte r;
           (b8, r) \<leftarrow> ReadByte r;
           Some (ucast b8 + push_bit 8 (ucast b7) + push_bit 16 (ucast b6) + push_bit 24 (ucast b5) + push_bit 32 (ucast b4)
             + push_bit 40 (ucast b3) + push_bit 48 (ucast b2) + push_bit 56 b1, r) } } } }"

text \<open>\<open>None\<close> is a panic.\<close>

definition varint_Append :: "bytes \<Rightarrow> u64 \<Rightarrow> bytes option" where
  "varint_Append b i =
     (if i \<le> maxVarInt1 then Some (b @ [ucast i])
      else if i \<le> maxVarInt2 then Some (b @ [ucast (drop_bit 8 i) OR 0x40, ucast i])
      else if i \<le> maxVarInt4 then
        Some (b @ [ucast (drop_bit 24 i) OR 0x80, ucast (drop_bit 16 i), ucast (drop_bit 8 i), ucast i])
      else if i \<le> maxVarInt8 then
        Some (b @ [ucast (drop_bit 56 i) OR 0xc0, ucast (drop_bit 48 i), ucast (drop_bit 40 i), ucast (drop_bit 32 i),
          ucast (drop_bit 24 i), ucast (drop_bit 16 i), ucast (drop_bit 8 i), ucast i])
      else None)"

definition varint_Len :: "u64 \<Rightarrow> int option" where
  "varint_Len i =
     (if i \<le> maxVarInt1 then Some 1 else if i \<le> maxVarInt2 then Some 2 else if i \<le> maxVarInt4 then Some 4
      else if i \<le> maxVarInt8 then Some 8 else None)"

definition varint_AppendWithLen :: "bytes \<Rightarrow> u64 \<Rightarrow> int \<Rightarrow> bytes option" where
  "varint_AppendWithLen b i n =
     (if n \<noteq> 1 \<and> n \<noteq> 2 \<and> n \<noteq> 4 \<and> n \<noteq> 8 then None
      else (case varint_Len i of
        None \<Rightarrow> None
      | Some l \<Rightarrow>
          if l = n then varint_Append b i
          else if l > n then None
          else
            let b = (if n = 2 then b @ [0x40] else if n = 4 then b @ [0x80] else if n = 8 then b @ [0xc0] else b);
                b = b @ replicate (nat (n - l - 1)) 0
            in Some (b @ map (\<lambda>j. ucast (drop_bit (nat (8 * (l - 1 - int j))) i)) [0..<nat l])))"


section \<open>Reading what was written\<close>

lemma ReadByte_bind: "Option.bind (ReadByte r) f = (case r of [] \<Rightarrow> None | b # r \<Rightarrow> f (b, r))"
  by (cases r) simp_all

lemma of_nat_from_be: "(of_nat (from_be (xs @ [b])) :: u64) = of_nat (from_be xs) * 256 + ucast b"
  by (simp add: from_be_append) (simp add: from_be_def)

lemma of_nat_from_be1: "(of_nat (from_be [b]) :: u64) = ucast b"
  by (simp add: from_be_def)

lemma small_byte: "unat b < 2 ^ n \<Longrightarrow> take_bit n (b :: u8) = b"
  by (simp add: word_unat_eq_iff unsigned_take_bit_eq take_bit_nat_eq_self)

lemma first_byte:
  assumes "b < 64" "t < 4"
  shows "drop_bit 6 ((push_bit 6 t OR b) AND 0xc0) = (t :: u8)" "(push_bit 6 t OR b) AND (0xff - 0xc0) = b"
proof -
  have b: "take_bit 6 b = b" and t: "take_bit 2 t = t"
    using small_byte [of b 6] small_byte [of t 2] assms by (simp_all add: word_less_nat_alt)
  have m: "(0xc0 :: u8) = push_bit 6 3" "(0xff - 0xc0 :: u8) = 63" "bit (63 :: int) k \<longleftrightarrow> k < 6" "bit (3 :: int) k \<longleftrightarrow> k < 2" for k
    using bit_mask_iff [of 6 k, where 'a = int] bit_mask_iff [of 2 k, where 'a = int]
    by (auto simp: mask_eq_exp_minus_1)
  have "bit b k \<Longrightarrow> k < 6" "bit t k \<Longrightarrow> k < 2" for k
    using b t by (metis bit_take_bit_iff)+
  note bits = this
  show "drop_bit 6 ((push_bit 6 t OR b) AND 0xc0) = t" "(push_bit 6 t OR b) AND (0xff - 0xc0) = b"
    unfolding m(1,2) by (auto intro!: bit_word_eqI simp: bit_simps m(3,4) dest: bits)
qed

text \<open>The value is the number whose digits are the bytes, without the length in the first byte.\<close>

lemma varint_Read_value:
  assumes "firstByte = tag OR b" "length rest = 2 ^ unat t - 1" "b < 64" "tag = push_bit 6 t" "t < 4"
  shows "varint_Read (firstByte # rest @ r) = Some (of_nat (from_be (b # rest)), r)"
proof -
  have "unat t < 4"
    using assms(5) by (simp add: word_less_nat_alt)
  then have "unat t = 0 \<or> unat t = 1 \<or> unat t = 2 \<or> unat t = 3"
    by arith
  then have t: "t = 0 \<or> t = 1 \<or> t = 2 \<or> t = 3"
    by (simp add: word_unat_eq_iff)
  have f: "drop_bit 6 (firstByte AND 0xc0) = t" "firstByte AND (0xff - 0xc0) = b"
    unfolding assms(1,4) using assms(3,5) by (rule first_byte)+
  have digits: "(of_nat (from_be (b # xs @ [x])) :: u64) = of_nat (from_be (b # xs)) * 256 + ucast x" for xs x
    using of_nat_from_be [of "b # xs"] by simp
  show ?thesis
    using t
  proof (elim disjE)
    assume "t = 0"
    then show ?thesis
      using assms(2) f by (simp add: varint_Read_def of_nat_from_be1)
  next
    assume "t = 1"
    moreover from this obtain b2 where "rest = [b2]"
      using assms(2) by (auto simp: length_Suc_conv)
    ultimately show ?thesis
      using f digits [of "[]" b2] by (simp add: varint_Read_def of_nat_from_be1 push_bit_eq_mult)
  next
    assume t: "t = 2"
    then obtain b2 b3 b4 where "rest = [b2, b3, b4]"
      using assms(2) by (auto simp: length_Suc_conv numeral_3_eq_3)
    then show ?thesis
      using f t digits [of "[b2, b3]" b4] digits [of "[b2]" b3] digits [of "[]" b2]
      by (simp add: varint_Read_def of_nat_from_be1 push_bit_eq_mult algebra_simps)
  next
    assume t: "t = 3"
    then have "length rest = 7"
      using assms(2) by simp
    then obtain b2 b3 b4 b5 b6 b7 b8 where r: "rest = [b2, b3, b4, b5, b6, b7, b8]"
      by (auto simp: length_Suc_conv eval_nat_numeral)
    have "varint_Read (firstByte # rest @ r) = Some (ucast b8 + push_bit 8 (ucast b7) + push_bit 16 (ucast b6) + push_bit 24 (ucast b5)
        + push_bit 32 (ucast b4) + push_bit 40 (ucast b3) + push_bit 48 (ucast b2) + push_bit 56 (ucast b), r)"
      unfolding varint_Read_def r append_Cons ReadByte.simps Option.bind.simps prod.case Let_def f t by simp
    then show ?thesis
      using r digits [of "[b2, b3, b4, b5, b6, b7]" b8] digits [of "[b2, b3, b4, b5, b6]" b7] digits [of "[b2, b3, b4, b5]" b6]
        digits [of "[b2, b3, b4]" b5] digits [of "[b2, b3]" b4] digits [of "[b2]" b3] digits [of "[]" b2]
      by (simp add: of_nat_from_be1 push_bit_eq_mult algebra_simps)
  qed
qed


text \<open>What is read back from an encoding.\<close>

definition encodes :: "u64 \<Rightarrow> bytes \<Rightarrow> bool" where
  "encodes i e \<longleftrightarrow> (\<forall>r. varint_Read (e @ r) = Some (i, r))"

lemma encodesI:
  assumes "e = (push_bit 6 t OR b) # rest" "length rest = 2 ^ unat t - 1" "b < 64" "t < 4" "from_be (b # rest) = unat i"
  shows "encodes i e"
  using varint_Read_value [OF refl assms(2,3) refl assms(4)] assms(1,5) by (simp add: encodes_def)

abbreviation low_bytes :: "nat \<Rightarrow> u64 \<Rightarrow> bytes" where
  "low_bytes m v \<equiv> map (\<lambda>k. ucast (drop_bit (8 * k) v)) (rev [0..<m])"

lemma upto_bytes: "[0..<2] = [0, 1 :: nat]" "[0..<4] = [0, 1, 2, 3 :: nat]" "[0..<8] = [0, 1, 2, 3, 4, 5, 6, 7 :: nat]"
  by (simp_all add: upt_conv_Cons)

lemma from_be_low_bytes_small: "unat v < 256 ^ m \<Longrightarrow> from_be (low_bytes m v) = unat v"
  by (simp only: from_be_low_bytes) (rule mod_less)

lemma high_byte:
  assumes "unat (v :: u64) < 64 * 256 ^ m"
  shows "(ucast (drop_bit (8 * m) v) :: u8) < 64"
proof -
  have "unat (drop_bit (8 * m) v) = unat v div 256 ^ m"
    by (simp add: unat_drop_bit_eq drop_bit_eq_div [where 'a = nat] power_mult)
  also have "\<dots> < 64"
    using assms by (simp add: less_mult_imp_div_less)
  finally show ?thesis
    by (simp add: word_less_nat_alt unsigned_ucast_eq take_bit_eq_mod)
qed

lemma varint_bounds:
  "i \<le> maxVarInt1 \<longleftrightarrow> unat i < 64" "i \<le> maxVarInt2 \<longleftrightarrow> unat i < 64 * 256" "i \<le> maxVarInt4 \<longleftrightarrow> unat i < 64 * 256 ^ 3"
  "i \<le> maxVarInt8 \<longleftrightarrow> unat i < 64 * 256 ^ 7"
  by (auto simp: word_le_nat_alt)

lemma varint_Append_encodes:
  assumes "varint_Append b i = Some bs"
  obtains e where "bs = b @ e" "encodes i e" "varint_Len i = Some (int (length e))"
proof -
  consider "unat i < 64" | "64 \<le> unat i" "unat i < 64 * 256" | "64 * 256 \<le> unat i" "unat i < 64 * 256 ^ 3"
    | "64 * 256 ^ 3 \<le> unat i" "unat i < 64 * 256 ^ 7"
    using assms by (auto simp: varint_Append_def varint_bounds split: if_splits)
  then show thesis
  proof cases
    case 1
    have "encodes i [ucast i]"
      using 1 high_byte [of i 0] from_be_low_bytes_small [of i 1] by (intro encodesI [of _ 0 "ucast i"]) simp_all
    then show thesis
      using assms 1 by (intro that [of "[ucast i]"]) (simp_all add: varint_Append_def varint_Len_def varint_bounds)
  next
    case 2
    have "encodes i [ucast (drop_bit 8 i) OR 0x40, ucast i]"
      using 2 high_byte [of i 1] from_be_low_bytes_small [of i 2]
      by (intro encodesI [of _ 1 "ucast (drop_bit 8 i)" "[ucast i]"]) (simp_all add: or.commute upto_bytes)
    then show thesis
      using assms 2 by (intro that [of "[ucast (drop_bit 8 i) OR 0x40, ucast i]"]) (simp_all add: varint_Append_def varint_Len_def varint_bounds)
  next
    case 3
    have "encodes i [ucast (drop_bit 24 i) OR 0x80, ucast (drop_bit 16 i), ucast (drop_bit 8 i), ucast i]"
      using 3 high_byte [of i 3] from_be_low_bytes_small [of i 4]
      by (intro encodesI [of _ 2 "ucast (drop_bit 24 i)" "[ucast (drop_bit 16 i), ucast (drop_bit 8 i), ucast i]"])
        (simp_all add: or.commute upto_bytes)
    then show thesis
      using assms 3 by (intro that [of "[ucast (drop_bit 24 i) OR 0x80, ucast (drop_bit 16 i), ucast (drop_bit 8 i), ucast i]"]) (simp_all add: varint_Append_def varint_Len_def varint_bounds)
  next
    case 4
    have "encodes i [ucast (drop_bit 56 i) OR 0xc0, ucast (drop_bit 48 i), ucast (drop_bit 40 i), ucast (drop_bit 32 i),
          ucast (drop_bit 24 i), ucast (drop_bit 16 i), ucast (drop_bit 8 i), ucast i]"
      using 4 high_byte [of i 7] from_be_low_bytes_small [of i 8]
      by (intro encodesI [of _ 3 "ucast (drop_bit 56 i)" "[ucast (drop_bit 48 i), ucast (drop_bit 40 i), ucast (drop_bit 32 i),
          ucast (drop_bit 24 i), ucast (drop_bit 16 i), ucast (drop_bit 8 i), ucast i]"])
        (simp_all add: or.commute upto_bytes)
    then show thesis
      using assms 4 by (intro that [of "[ucast (drop_bit 56 i) OR 0xc0, ucast (drop_bit 48 i), ucast (drop_bit 40 i), ucast (drop_bit 32 i),
          ucast (drop_bit 24 i), ucast (drop_bit 16 i), ucast (drop_bit 8 i), ucast i]"]) (simp_all add: varint_Append_def varint_Len_def varint_bounds)
  qed
qed

lemma from_be_zeros: "from_be (replicate n 0 @ xs) = from_be xs"
proof -
  have "from_be (replicate n 0) = 0"
    by (induction n) (simp_all add: from_be_def)
  then show ?thesis
    by (simp add: from_be_append)
qed

lemma varint_Len_cases:
  assumes "varint_Len i = Some l"
  shows "l \<in> {1, 2, 4, 8}" "unat i < 256 ^ nat l"
  using assms by (auto simp: varint_Len_def varint_bounds split: if_splits)

lemma varint_AppendWithLen_encodes:
  assumes "varint_AppendWithLen b i n = Some bs"
  obtains e where "bs = b @ e" "encodes i e" "int (length e) = n"
proof -
  obtain l where l: "varint_Len i = Some l" "n \<in> {1, 2, 4, 8}"
    using assms by (auto simp: varint_AppendWithLen_def split: if_splits option.splits)
  note c = varint_Len_cases [OF l(1)]
  show thesis
  proof (cases "l = n")
    case True
    then show thesis
      using assms l that by (auto simp: varint_AppendWithLen_def elim: varint_Append_encodes split: if_splits)
  next
    case False
    define t :: u8 where "t = (if n = 2 then 1 else if n = 4 then 2 else 3)"
    define rest where "rest = replicate (nat (n - l - 1)) 0 @ low_bytes (nat l) i"
    have ln: "l < n" "n \<noteq> 1"
      using assms l False c(1) by (auto simp: varint_AppendWithLen_def split: if_splits)
    have "map (\<lambda>j. ucast (drop_bit (nat (8 * (l - 1 - int j))) i)) [0..<nat l] = low_bytes (nat l) i"
      using c(1) by (auto simp: upto_bytes)
    then have "bs = b @ push_bit 6 t # rest"
      using assms l ln c(1) by (auto simp: varint_AppendWithLen_def rest_def t_def Let_def)
    moreover have len: "length rest = 2 ^ unat t - 1" "int (length (push_bit 6 t # rest)) = n"
      using ln l(2) c(1) by (auto simp: rest_def t_def)
    moreover have "from_be (0 # rest) = unat i"
      using from_be_zeros [of "Suc (nat (n - l - 1))" "low_bytes (nat l) i"] from_be_low_bytes_small [OF c(2)] by (simp add: rest_def)
    then have "encodes i (push_bit 6 t # rest)"
      using len by (intro encodesI [of _ t 0 rest]) (simp_all add: t_def)
    ultimately show thesis
      using that by blast
  qed
qed


section \<open>Transport parameters\<close>

text \<open>
  The source of randomness: what the next calls of \<open>rand.Int\<close> return (\<open>None\<close> is an error) and what
  the next calls of \<open>rand.Read\<close> deliver. \<open>rand.Int\<close> returns a number below its bound. A short read
  leaves zeros.
\<close>

record rand_source =
  r_ints :: "nat option list"
  r_bytes :: "bytes list"

definition rand_Int :: "nat \<Rightarrow> rand_source \<Rightarrow> nat option \<times> rand_source" where
  "rand_Int limit rnd = (case r_ints rnd of
     [] \<Rightarrow> (None, rnd)
   | x # xs \<Rightarrow> (map_option (\<lambda>n. n mod limit) x, rnd\<lparr>r_ints := xs\<rparr>))"

definition rand_Read :: "nat \<Rightarrow> rand_source \<Rightarrow> bytes \<times> rand_source" where
  "rand_Read n rnd = (case r_bytes rnd of
     [] \<Rightarrow> (replicate n 0, rnd)
   | b # bs \<Rightarrow> (take n (b @ replicate n 0), rnd\<lparr>r_bytes := bs\<rparr>))"

datatype TransportParameter =
    GREASETransportParameter (IdOverride: u64) (tp_Length: u16) (ValueOverride: bytes)
  | MaxIdleTimeout u64 | MaxUDPPayloadSize u64 | InitialMaxData u64
  | InitialMaxStreamDataBidiLocal u64 | InitialMaxStreamDataBidiRemote u64 | InitialMaxStreamDataUni u64
  | InitialMaxStreamsBidi u64 | InitialMaxStreamsUni u64 | MaxAckDelay u64
  | DisableActiveMigration | ActiveConnectionIDLimit u64 | InitialSourceConnectionID bytes
  | VersionInformation (ChoosenVersion: u32) (AvailableVersions: "u32 list") (LegacyID: bool)
  | PaddingTransportParameter bytes | MaxDatagramFrameSize u64 | GREASEQUICBit
  | FakeQUICTransportParameter u64 bytes

abbreviation (input) GREASE_MAX_MULTIPLIER :: nat where "GREASE_MAX_MULTIPLIER \<equiv> (0x3FFFFFFFFFFFFFFF - 27) div 31"
abbreviation (input) VERSION_GREASE :: u32 where "VERSION_GREASE \<equiv> 0x0a0a0a0a"

definition IsGREASEID :: "u64 \<Rightarrow> bool" where
  "IsGREASEID i \<longleftrightarrow> i \<ge> 27 \<and> (i - 27) mod 31 = 0"

definition GetGREASEID :: "rand_source \<Rightarrow> u64 \<times> rand_source" where
  "GetGREASEID rnd = (case rand_Int GREASE_MAX_MULTIPLIER rnd of
     (None, rnd) \<Rightarrow> (27, rnd)
   | (Some randMultiply, rnd) \<Rightarrow> (27 + of_nat randMultiply * 31, rnd))"

definition GetGREASEVersion :: "rand_source \<Rightarrow> u32 \<times> rand_source" where
  "GetGREASEVersion rnd = (case rand_Int 0xffffffff rnd of
     (None, rnd) \<Rightarrow> (VERSION_GREASE, rnd)
   | (Some randVal, rnd) \<Rightarrow> (of_nat randVal OR 0x0a0a0a0a, rnd))"

text \<open>
  \<open>ID\<close> and \<open>Value\<close> of a parameter: the result, the parameter after the call (the GREASE parameter
  keeps what it has drawn) and the source of randomness; \<open>None\<close> is a panic.
\<close>

fun tp_ID :: "TransportParameter \<Rightarrow> rand_source \<Rightarrow> (u64 \<times> TransportParameter \<times> rand_source) option" where
  "tp_ID (GREASETransportParameter i n v) rnd =
     (if IsGREASEID i then Some (i, GREASETransportParameter i n v, rnd)
      else (case GetGREASEID rnd of (i, rnd) \<Rightarrow> Some (i, GREASETransportParameter i n v, rnd)))"
| "tp_ID (MaxIdleTimeout m) rnd = Some (0x1, MaxIdleTimeout m, rnd)"
| "tp_ID (MaxUDPPayloadSize m) rnd = Some (0x3, MaxUDPPayloadSize m, rnd)"
| "tp_ID (InitialMaxData m) rnd = Some (0x4, InitialMaxData m, rnd)"
| "tp_ID (InitialMaxStreamDataBidiLocal m) rnd = Some (0x5, InitialMaxStreamDataBidiLocal m, rnd)"
| "tp_ID (InitialMaxStreamDataBidiRemote m) rnd = Some (0x6, InitialMaxStreamDataBidiRemote m, rnd)"
| "tp_ID (InitialMaxStreamDataUni m) rnd = Some (0x7, InitialMaxStreamDataUni m, rnd)"
| "tp_ID (InitialMaxStreamsBidi m) rnd = Some (0x8, InitialMaxStreamsBidi m, rnd)"
| "tp_ID (InitialMaxStreamsUni m) rnd = Some (0x9, InitialMaxStreamsUni m, rnd)"
| "tp_ID (MaxAckDelay m) rnd = Some (0xb, MaxAckDelay m, rnd)"
| "tp_ID DisableActiveMigration rnd = Some (0xc, DisableActiveMigration, rnd)"
| "tp_ID (ActiveConnectionIDLimit m) rnd = Some (0xe, ActiveConnectionIDLimit m, rnd)"
| "tp_ID (InitialSourceConnectionID v) rnd = Some (0xf, InitialSourceConnectionID v, rnd)"
| "tp_ID (VersionInformation c a l) rnd = Some (if l then 0xff73db else 0x11, VersionInformation c a l, rnd)"
| "tp_ID (PaddingTransportParameter v) rnd = Some (0x15, PaddingTransportParameter v, rnd)"
| "tp_ID (MaxDatagramFrameSize m) rnd = Some (0x20, MaxDatagramFrameSize m, rnd)"
| "tp_ID GREASEQUICBit rnd = Some (0x2ab2, GREASEQUICBit, rnd)"
| "tp_ID (FakeQUICTransportParameter i v) rnd = (if i = 0 then None else Some (i, FakeQUICTransportParameter i v, rnd))"

fun append_versions :: "u32 list \<Rightarrow> bytes \<Rightarrow> rand_source \<Rightarrow> bytes \<times> rand_source" where
  "append_versions [] b rnd = (b, rnd)"
| "append_versions (v # vs) b rnd =
     (if v \<noteq> VERSION_GREASE then append_versions vs (b @ be32 v) rnd
      else (case GetGREASEVersion rnd of (g, rnd) \<Rightarrow> append_versions vs (b @ be32 g) rnd))"

definition varint_value :: "u64 \<Rightarrow> TransportParameter \<Rightarrow> rand_source \<Rightarrow> (bytes \<times> TransportParameter \<times> rand_source) option" where
  "varint_value m tp rnd = map_option (\<lambda>b. (b, tp, rnd)) (varint_Append [] m)"

fun tp_Value :: "TransportParameter \<Rightarrow> rand_source \<Rightarrow> (bytes \<times> TransportParameter \<times> rand_source) option" where
  "tp_Value (GREASETransportParameter i n v) rnd =
     (if length v = 0 then
        (case rand_Read (unat n) rnd of (v, rnd) \<Rightarrow> Some (v, GREASETransportParameter i n v, rnd))
      else Some (v, GREASETransportParameter i n v, rnd))"
| "tp_Value (MaxIdleTimeout m) rnd = varint_value m (MaxIdleTimeout m) rnd"
| "tp_Value (MaxUDPPayloadSize m) rnd = varint_value m (MaxUDPPayloadSize m) rnd"
| "tp_Value (InitialMaxData m) rnd = varint_value m (InitialMaxData m) rnd"
| "tp_Value (InitialMaxStreamDataBidiLocal m) rnd = varint_value m (InitialMaxStreamDataBidiLocal m) rnd"
| "tp_Value (InitialMaxStreamDataBidiRemote m) rnd = varint_value m (InitialMaxStreamDataBidiRemote m) rnd"
| "tp_Value (InitialMaxStreamDataUni m) rnd = varint_value m (InitialMaxStreamDataUni m) rnd"
| "tp_Value (InitialMaxStreamsBidi m) rnd = varint_value m (InitialMaxStreamsBidi m) rnd"
| "tp_Value (InitialMaxStreamsUni m) rnd = varint_value m (InitialMaxStreamsUni m) rnd"
| "tp_Value (MaxAckDelay m) rnd = varint_value m (MaxAckDelay m) rnd"
| "tp_Value DisableActiveMigration rnd = Some ([], DisableActiveMigration, rnd)"
| "tp_Value (ActiveConnectionIDLimit m) rnd = varint_value m (ActiveConnectionIDLimit m) rnd"
| "tp_Value (InitialSourceConnectionID v) rnd = Some (v, InitialSourceConnectionID v, rnd)"
| "tp_Value (VersionInformation c a l) rnd =
     (case append_versions a (be32 c) rnd of (b, rnd) \<Rightarrow> Some (b, VersionInformation c a l, rnd))"
| "tp_Value (PaddingTransportParameter v) rnd = Some (v, PaddingTransportParameter v, rnd)"
| "tp_Value (MaxDatagramFrameSize m) rnd = varint_value m (MaxDatagramFrameSize m) rnd"
| "tp_Value GREASEQUICBit rnd = Some ([], GREASEQUICBit, rnd)"
| "tp_Value (FakeQUICTransportParameter i v) rnd = Some (v, FakeQUICTransportParameter i v, rnd)"

text \<open>\<open>Value\<close> is called twice, for the length and for the bytes.\<close>

fun tps_Marshal :: "TransportParameter list \<Rightarrow> bytes \<Rightarrow> rand_source \<Rightarrow> (bytes \<times> TransportParameter list \<times> rand_source) option" where
  "tps_Marshal [] b rnd = Some (b, [], rnd)"
| "tps_Marshal (tp # tps) b rnd = do {
     (i, tp, rnd) \<leftarrow> tp_ID tp rnd;
     b \<leftarrow> varint_Append b i;
     (v, tp, rnd) \<leftarrow> tp_Value tp rnd;
     b \<leftarrow> varint_Append b (of_nat (length v));
     (v, tp, rnd) \<leftarrow> tp_Value tp rnd;
     (b, tps, rnd) \<leftarrow> tps_Marshal tps (b @ v) rnd;
     Some (b, tp # tps, rnd) }"


section \<open>Reading the parameters\<close>

text \<open>The format: a sequence of identifiers, lengths and values.\<close>

lemma varint_Read_shorter: "varint_Read b = Some (i, r) \<Longrightarrow> length r < length b"
  by (auto simp: varint_Read_def ReadByte_bind Let_def split: list.splits if_splits)

function read_parameters :: "bytes \<Rightarrow> (u64 \<times> bytes) list option" where
  "read_parameters b =
     (if b = [] then Some []
      else (case varint_Read b of
        None \<Rightarrow> None
      | Some (i, r) \<Rightarrow> (case varint_Read r of
          None \<Rightarrow> None
        | Some (n, r) \<Rightarrow>
            if unat n > length r then None
            else map_option (Cons (i, take (unat n) r)) (read_parameters (drop (unat n) r)))))"
  by pat_completeness auto

termination
  by (relation "measure length") (auto dest!: varint_Read_shorter)

declare read_parameters.simps [simp del]

text \<open>What a parameter carries: its identifier and its value.\<close>

fun carries :: "TransportParameter \<Rightarrow> u64 \<times> bytes \<Rightarrow> bool" where
  "carries (GREASETransportParameter i n v) (i', v') \<longleftrightarrow> IsGREASEID i' \<and> (IsGREASEID i \<longrightarrow> i' = i)
     \<and> (if v = [] then length v' = unat n else v' = v)"
| "carries (MaxIdleTimeout m) (i', v') \<longleftrightarrow> i' = 0x1 \<and> encodes m v'"
| "carries (MaxUDPPayloadSize m) (i', v') \<longleftrightarrow> i' = 0x3 \<and> encodes m v'"
| "carries (InitialMaxData m) (i', v') \<longleftrightarrow> i' = 0x4 \<and> encodes m v'"
| "carries (InitialMaxStreamDataBidiLocal m) (i', v') \<longleftrightarrow> i' = 0x5 \<and> encodes m v'"
| "carries (InitialMaxStreamDataBidiRemote m) (i', v') \<longleftrightarrow> i' = 0x6 \<and> encodes m v'"
| "carries (InitialMaxStreamDataUni m) (i', v') \<longleftrightarrow> i' = 0x7 \<and> encodes m v'"
| "carries (InitialMaxStreamsBidi m) (i', v') \<longleftrightarrow> i' = 0x8 \<and> encodes m v'"
| "carries (InitialMaxStreamsUni m) (i', v') \<longleftrightarrow> i' = 0x9 \<and> encodes m v'"
| "carries (MaxAckDelay m) (i', v') \<longleftrightarrow> i' = 0xb \<and> encodes m v'"
| "carries DisableActiveMigration (i', v') \<longleftrightarrow> i' = 0xc \<and> v' = []"
| "carries (ActiveConnectionIDLimit m) (i', v') \<longleftrightarrow> i' = 0xe \<and> encodes m v'"
| "carries (InitialSourceConnectionID v) (i', v') \<longleftrightarrow> i' = 0xf \<and> v' = v"
| "carries (VersionInformation c a l) (i', v') \<longleftrightarrow> i' = (if l then 0xff73db else 0x11)
     \<and> (\<exists>ws. v' = be32 c @ concat (map be32 ws) \<and> list_all2 (\<lambda>v w. v \<noteq> VERSION_GREASE \<longrightarrow> w = v) a ws)"
| "carries (PaddingTransportParameter v) (i', v') \<longleftrightarrow> i' = 0x15 \<and> v' = v"
| "carries (MaxDatagramFrameSize m) (i', v') \<longleftrightarrow> i' = 0x20 \<and> encodes m v'"
| "carries GREASEQUICBit (i', v') \<longleftrightarrow> i' = 0x2ab2 \<and> v' = []"
| "carries (FakeQUICTransportParameter i v) (i', v') \<longleftrightarrow> i' = i \<and> i \<noteq> 0 \<and> v' = v"

lemma grease_multiple:
  assumes "k < GREASE_MAX_MULTIPLIER"
  shows "IsGREASEID (27 + of_nat k * 31) \<and> 27 + of_nat k * 31 \<le> maxVarInt8"
proof -
  have k: "k * 31 + 27 < 2 ^ 62"
    using assms by simp
  then have "unat (of_nat (k * 31) :: u64) = k * 31" "unat (of_nat (k * 31 + 27) :: u64) = k * 31 + 27"
    by (simp_all only: unat_of_nat take_bit_nat_eq_self_iff [THEN iffD2] len_of_numeral_defs) simp_all
  then have u: "unat (of_nat k * 31 :: u64) = k * 31" "unat (27 + of_nat k * 31 :: u64) = k * 31 + 27"
    by (simp_all add: add.commute)
  have "(of_nat k * 31 :: u64) mod 31 = 0"
    unfolding word_unat_eq_iff unat_mod u by simp
  then show ?thesis
    using u(2) k by (simp add: IsGREASEID_def word_le_nat_alt)
qed

lemma GetGREASEID_valid:
  assumes "GetGREASEID rnd = (i, rnd')"
  shows "IsGREASEID i \<and> i \<le> maxVarInt8"
  using assms grease_multiple [of 0] grease_multiple
  by (auto simp: GetGREASEID_def rand_Int_def split: list.splits option.splits)

lemma append_versions_spec:
  "append_versions vs b rnd = (b', rnd') \<Longrightarrow> \<exists>ws. b' = b @ concat (map be32 ws) \<and> list_all2 (\<lambda>v w. v \<noteq> VERSION_GREASE \<longrightarrow> w = v) vs ws"
proof (induction vs arbitrary: b rnd)
  case (Cons v vs)
  then show ?case
    by (fastforce split: if_splits prod.splits intro: exI [of _ "x # xs" for x xs])
qed simp

lemma rand_Read_length: "rand_Read n rnd = (v, rnd') \<Longrightarrow> length v = n"
  by (auto simp: rand_Read_def min_def split: list.splits)

lemma tp_carries:
  assumes "tp_ID tp rnd = Some (i, tp1, rnd1)" "tp_Value tp1 rnd1 = Some (v, tp2, rnd2)" "tp_Value tp2 rnd2 = Some (v', tp3, rnd3)"
  shows "carries tp (i, v') \<and> length v' = length v"
proof (cases tp)
  case (GREASETransportParameter i0 n v0)
  then show ?thesis
    using assms by (auto dest!: GetGREASEID_valid rand_Read_length split: if_splits prod.splits)
next
  case (VersionInformation c a l)
  obtain b rnd' where "append_versions a (be32 c) rnd1 = (b, rnd')"
    by (cases "append_versions a (be32 c) rnd1")
  then show ?thesis
    using assms append_versions_spec [of a "be32 c" rnd1 v rnd2] append_versions_spec [of a "be32 c" rnd2 v' rnd3]
    by (auto simp: VersionInformation length_concat comp_def sum_list_triv dest!: list_all2_lengthD split: prod.splits)
qed (use assms in \<open>auto simp: varint_value_def elim!: varint_Append_encodes split: if_splits\<close>)

lemma encodes_nonempty: "encodes i e \<Longrightarrow> e \<noteq> []"
  by (auto simp: encodes_def varint_Read_def dest: spec [of _ "[]"])

lemma tps_Marshal_read:
  "tps_Marshal tps b rnd = Some (b', tps', rnd') \<Longrightarrow> length b' < 2 ^ 62 \<Longrightarrow>
    \<exists>e ps. b' = b @ e \<and> read_parameters e = Some ps \<and> list_all2 carries tps ps"
proof (induction tps arbitrary: b rnd tps')
  case Nil
  then show ?case
    by (auto simp: read_parameters.simps)
next
  case (Cons tp tps)
  then obtain i tp1 rnd1 b1 v tp2 rnd2 b2 v' tp3 rnd3 tps2 where s: "tp_ID tp rnd = Some (i, tp1, rnd1)" "varint_Append b i = Some b1"
      "tp_Value tp1 rnd1 = Some (v, tp2, rnd2)" "varint_Append b1 (of_nat (length v)) = Some b2" "tp_Value tp2 rnd2 = Some (v', tp3, rnd3)"
      "tps_Marshal tps (b2 @ v') rnd3 = Some (b', tps2, rnd')"
    by (auto split: Option.bind_splits)
  obtain e3 ps where e3: "b' = (b2 @ v') @ e3" "read_parameters e3 = Some ps" "list_all2 carries tps ps"
    using Cons.IH [OF s(6) Cons.prems(2)] by blast
  obtain e1 where e1: "b1 = b @ e1" "encodes i e1"
    using s(2) by (rule varint_Append_encodes)
  obtain e2 where e2: "b2 = b1 @ e2" "encodes (of_nat (length v)) e2"
    using s(4) by (rule varint_Append_encodes)
  note c = tp_carries [OF s(1,3,5)]
  have n: "unat (of_nat (length v) :: u64) = length v'"
    using c Cons.prems(2) e3(1) by (simp add: unat_of_nat take_bit_nat_eq_self)
  have "read_parameters (e1 @ e2 @ v' @ e3) = Some ((i, v') # ps)"
    using e1(2) e2(2) n e3(2) encodes_nonempty [OF e1(2)]
    by (subst read_parameters.simps) (simp add: encodes_def)
  then show ?case
    using e1(1) e2(1) e3(1,3) c by (intro exI [of _ "e1 @ e2 @ v' @ e3"]) auto
qed


text \<open>Setting bits and then selecting them and others gives the former only if the latter were not set.\<close>

lemma set_bits_iff:
  assumes "a AND c = (0 :: u32)"
  shows "(x OR a) AND (a OR c) = a \<longleftrightarrow> x AND c = 0"
proof -
  have e: "(x OR a) AND (a OR c) = a OR (x AND c)"
    by (subst or.commute [of x a]) (rule bit.disj_conj_distrib [symmetric])
  have f: "(a OR (x AND c)) AND c = x AND c"
    unfolding bit.conj_disj_distrib2 assms by (simp add: and.assoc)
  show ?thesis
    unfolding e using f assms by auto
qed


section \<open>Properties\<close>

text \<open>
  C38. Variable-length integers are read back: what \<open>Append\<close> adds for a number, or \<open>AppendWithLen\<close> for
  a number and a length, has the length that \<open>Len\<close> announces, or the length asked for, and \<open>Read\<close>
  returns the number and leaves what follows. \<open>Append\<close> panics only for numbers of more than 62 bits.
\<close>

theorem varint_read_back:
  assumes "(varint_Append b i = Some bs \<and> varint_Len i = Some n) \<or> varint_AppendWithLen b i n = Some bs"
  shows "\<exists>e. bs = b @ e \<and> int (length e) = n \<and> (\<forall>r. varint_Read (e @ r) = Some (i, r))"
  using assms
proof (elim disjE conjE)
  assume "varint_Append b i = Some bs" "varint_Len i = Some n"
  then show ?thesis
    by (elim varint_Append_encodes) (auto simp: encodes_def)
next
  assume "varint_AppendWithLen b i n = Some bs"
  then show ?thesis
    by (elim varint_AppendWithLen_encodes) (auto simp: encodes_def)
qed

theorem varint_read_back_witness:
  "varint_AppendWithLen [] 37 4 = Some [0x80, 0, 0, 37] \<and> varint_Read [0x80, 0, 0, 37, 9] = Some (37, [9])"
proof -
  have two: "replicate 2 (0 :: u8) = [0, 0]"
    by (simp add: numeral_2_eq_2)
  have a: "varint_AppendWithLen [] 37 4 = Some [0x80, 0, 0, 37]"
    using two by (simp add: varint_AppendWithLen_def varint_Len_def Let_def)
  obtain e where "[0x80, 0, 0, 37] = [] @ e" "\<forall>r. varint_Read (e @ r) = Some (37, r)"
    using varint_read_back [OF disjI2, OF a] by blast
  from this(2) [rule_format, of "[9]"] this(1) [symmetric] show ?thesis
    using a by simp
qed

text \<open>
  C39. What \<open>Marshal\<close> writes for a list of transport parameters is read back as a list with, for each
  parameter in order, its identifier and its value: numbers in their encoding, GREASE parameters
  with a reserved identifier and random bytes of the given length, versions in order.
\<close>

theorem transport_parameters_read_back:
  assumes "tps_Marshal tps [] rnd = Some (bs, tps', rnd')" "length bs < 2 ^ 62"
  shows "\<exists>ps. read_parameters bs = Some ps \<and> list_all2 carries tps ps"
  using tps_Marshal_read [OF assms] by auto

theorem transport_parameters_read_back_witness:
  "\<exists>bs tps' rnd'. tps_Marshal [MaxIdleTimeout 30, VersionInformation 1 [VERSION_GREASE, 1] False] []
        \<lparr>r_ints = [], r_bytes = []\<rparr> = Some (bs, tps', rnd')
     \<and> (\<exists>ps. read_parameters bs = Some ps \<and> list_all2 carries [MaxIdleTimeout 30, VersionInformation 1 [VERSION_GREASE, 1] False] ps)"
proof -
  obtain bs tps' rnd' where m: "tps_Marshal [MaxIdleTimeout 30, VersionInformation 1 [VERSION_GREASE, 1] False] []
        \<lparr>r_ints = [], r_bytes = []\<rparr> = Some (bs, tps', rnd')" "length bs < 2 ^ 62"
    by (simp add: varint_value_def varint_Append_def GetGREASEVersion_def rand_Int_def be32_def)
  then show ?thesis
    using transport_parameters_read_back [OF m] by blast
qed

text \<open>
  C40. \<open>GetGREASEVersion\<close> returns a version of the reserved form 0x?a?a?a?a only for some random
  numbers: exactly for those without the bits 0x05050505, as the code sets bits but clears none.
\<close>

theorem grease_version_reserved_iff:
  "fst (GetGREASEVersion \<lparr>r_ints = Some n # ints, r_bytes = bs\<rparr>) AND 0x0f0f0f0f = 0x0a0a0a0a
     \<longleftrightarrow> (of_nat (n mod 0xffffffff) :: u32) AND 0x05050505 = 0"
proof -
  have "fst (GetGREASEVersion \<lparr>r_ints = Some n # ints, r_bytes = bs\<rparr>) = of_nat (n mod 0xffffffff) OR 0x0a0a0a0a"
    by (simp only: GetGREASEVersion_def rand_Int_def rand_source.simps list.case option.map prod.case option.case fst_conv)
  moreover have "(0x0a0a0a0a :: u32) OR 0x05050505 = 0x0f0f0f0f" "(0x0a0a0a0a :: u32) AND 0x05050505 = 0"
    by simp_all
  ultimately show ?thesis
    using set_bits_iff [of "0x0a0a0a0a" "0x05050505" "of_nat (n mod 0xffffffff)"] by (simp only:)
qed

end
