(* ===== verification/Hostname.thy ===== *)
theory Hostname
  imports Prelude
begin

text \<open>
  \<open>hostnameInSNI\<close> (handshake_client.go) and the part of \<open>net.ParseIP\<close> that it uses: whether a
  string is the text form of an IP address.
\<close>

section \<open>Text forms of IP addresses\<close>

definition is_digit :: "u8 \<Rightarrow> bool" where
  "is_digit c \<longleftrightarrow> 0x30 \<le> c \<and> c \<le> 0x39"

definition is_hex_digit :: "u8 \<Rightarrow> bool" where
  "is_hex_digit c \<longleftrightarrow> is_digit c \<or> (0x61 \<le> c \<and> c \<le> 0x66) \<or> (0x41 \<le> c \<and> c \<le> 0x46)"

text \<open>The loop of the dotted form: whether this is the first character, whether the one before was a
  dot, and the value, digit count and position of the current field.\<close>

fun ipv4_fields :: "bool \<Rightarrow> bool \<Rightarrow> nat \<Rightarrow> nat \<Rightarrow> nat \<Rightarrow> bytes \<Rightarrow> bool" where
  "ipv4_fields isFirst afterDot val digLen pos [] \<longleftrightarrow> pos \<ge> 3"
| "ipv4_fields isFirst afterDot val digLen pos (c # cs) \<longleftrightarrow>
     (if is_digit c then
        \<not> (digLen = 1 \<and> val = 0) \<and> val * 10 + unat (c - 0x30) \<le> 255 \<and>
        ipv4_fields False False (val * 10 + unat (c - 0x30)) (digLen + 1) pos cs
      else c = 0x2e \<and> \<not> isFirst \<and> cs \<noteq> [] \<and> \<not> afterDot \<and> pos \<noteq> 3 \<and> ipv4_fields False True 0 0 (pos + 1) cs)"

definition valid_ipv4 :: "bytes \<Rightarrow> bool" where
  "valid_ipv4 s = ipv4_fields True False 0 0 0 s"

text \<open>The loop over the groups of the colon form; \<open>k\<close> groups of 16 bits are still free. At the end of
  the string the groups that are free must be those that a \<open>::\<close> stands for.\<close>

definition ellipsis_ok :: "nat \<Rightarrow> bool \<Rightarrow> bool" where
  "ellipsis_ok k ellipsis \<longleftrightarrow> (k > 0 \<longleftrightarrow> ellipsis)"

fun ipv6_groups :: "nat \<Rightarrow> bytes \<Rightarrow> bool \<Rightarrow> bool" where
  "ipv6_groups 0 s ellipsis \<longleftrightarrow> s = [] \<and> ellipsis_ok 0 ellipsis"
| "ipv6_groups (Suc k) s ellipsis \<longleftrightarrow>
     (let off = length (takeWhile is_hex_digit s); rest = dropWhile is_hex_digit s
      in 0 < off \<and> off \<le> 4 \<and>
         (case rest of
            [] \<Rightarrow> ellipsis_ok k ellipsis
          | c # s' \<Rightarrow>
              if c = 0x2e then (ellipsis \<or> k = 1) \<and> k \<ge> 1 \<and> valid_ipv4 s \<and> ellipsis_ok (k - 1) ellipsis
              else c = 0x3a \<and> s' \<noteq> [] \<and>
                (if hd s' = 0x3a then \<not> ellipsis \<and>
                   (if tl s' = [] then ellipsis_ok k True else ipv6_groups k (tl s') True)
                 else ipv6_groups k s' ellipsis)))"

definition valid_ipv6 :: "bytes \<Rightarrow> bool" where
  "valid_ipv6 s =
     (if length s \<ge> 2 \<and> s ! 0 = 0x3a \<and> s ! 1 = 0x3a
      then drop 2 s = [] \<or> ipv6_groups 8 (drop 2 s) True else ipv6_groups 8 s False)"

text \<open>\<open>net.ParseIP(s) != nil\<close>; an address with a zone is not accepted.\<close>

definition ParseIP_ok :: "bytes \<Rightarrow> bool" where
  "ParseIP_ok s = (case dropWhile (\<lambda>c. c \<notin> {0x2e, 0x3a, 0x25}) s of
       [] \<Rightarrow> False
     | c # _ \<Rightarrow> if c = 0x2e then valid_ipv4 s
         else c = 0x3a \<and> 0x25 \<notin> set s \<and> valid_ipv6 s)"


section \<open>The name sent in server_name\<close>

definition hostnameInSNI :: "bytes \<Rightarrow> bytes" where
  "hostnameInSNI name =
     (let host = (if length name > 0 \<and> hd name = 0x5b \<and> last name = 0x5d then butlast (tl name) else name);
          zone = dropWhile (\<lambda>c. c \<noteq> 0x25) (rev host);
          host = (if length zone > 1 then rev (tl zone) else host)
      in if ParseIP_ok host then []
         else rev (dropWhile (\<lambda>c. c = 0x2e) (rev name)))"

lemma hostnameInSNI_no_dot: "hostnameInSNI name \<noteq> [] \<Longrightarrow> last (hostnameInSNI name) \<noteq> 0x2e"
  using hd_dropWhile [of "\<lambda>c. c = 0x2e" "rev name"]
  by (auto simp: hostnameInSNI_def Let_def last_rev split: if_splits)

end
