(* ===== verification/Tls_Extensions.thy ===== *)
theory Tls_Extensions
  imports ClientHello Quic_Parameters Hostname
begin

unbundle bit_operations_syntax

text \<open>
  The extensions that a fingerprint is made of (u_tls_extensions.go, u_session_ticket.go,
  u_pre_shared_key.go, u_ech.go, trust_anchors.go): their data, the length they announce and what
  their \<open>Read\<close> puts into the buffer of the caller.

  \<open>Read\<close> assigns single bytes of the caller's buffer and leaves the others as they are: several
  methods rely on zeros that they do not write. The model therefore runs each method on an explicit
  buffer. The contract is that on a buffer of zeros, \<open>Read\<close> produces the type, the length and the
  body of the extension, \<open>Len()\<close> bytes in total.
\<close>

section \<open>The data\<close>

abbreviation (input) extensionNextProtoNeg :: u16 where "extensionNextProtoNeg \<equiv> 13172"
abbreviation (input) utlsExtensionPadding :: u16 where "utlsExtensionPadding \<equiv> 21"
abbreviation (input) utlsExtensionTrustAnchors :: u16 where "utlsExtensionTrustAnchors \<equiv> 0xca34"
abbreviation (input) utlsExtensionECH :: u16 where "utlsExtensionECH \<equiv> 0xfe0d"
abbreviation (input) fakeExtensionTokenBinding :: u16 where "fakeExtensionTokenBinding \<equiv> 24"
abbreviation (input) fakeExtensionDelegatedCredentials :: u16 where "fakeExtensionDelegatedCredentials \<equiv> 34"
abbreviation (input) fakeOldExtensionChannelID :: u16 where "fakeOldExtensionChannelID \<equiv> 30031"
abbreviation (input) fakeExtensionChannelID :: u16 where "fakeExtensionChannelID \<equiv> 30032"
abbreviation (input) fakeRecordSizeLimit :: u16 where "fakeRecordSizeLimit \<equiv> 0x001c"
abbreviation (input) GREASE_PLACEHOLDER :: u16 where "GREASE_PLACEHOLDER \<equiv> 0x0a0a"

datatype RenegotiationSupport = RenegotiateNever | RenegotiateOnceAsClient | RenegotiateFreelyAsClient

text \<open>What the extensions read of a \<open>SessionState\<close>, and of the TLS 1.3 suite that belongs to it.\<close>

record session_ref =
  ss_version :: u16
  ss_cipherSuite :: u16

record UtlsPSK =
  psk_Session :: "session_ref option"
  psk_Identities :: "pskIdentity list"
  psk_Binders :: "bytes list"
  psk_BinderKey :: bytes
  psk_EarlySecret :: bytes
  psk_hashSize :: "nat option"
  psk_cachedLength :: "int option"
  psk_OmitEmptyPsk :: bool
  psk_SkipBinderPatching :: bool

record GreaseECH =
  g_CandidateCipherSuites :: "(u16 \<times> u16) list"
  g_cipherSuite :: "u16 \<times> u16"
  g_CandidateConfigIds :: bytes
  g_configId :: u8
  g_EncapsulatedKey :: bytes
  g_CandidatePayloadLens :: "u16 list"
  g_payload :: bytes
  g_initDone :: bool

datatype TLSExtension =
    SNIExtension bytes
  | StatusRequestExtension
  | SupportedCurvesExtension "u16 list"
  | SupportedPointsExtension bytes
  | SignatureAlgorithmsExtension "u16 list"
  | StatusRequestV2Extension
  | SignatureAlgorithmsCertExtension "u16 list"
  | ALPNExtension "bytes list"
  | ApplicationSettingsExtension "bytes list"
  | ApplicationSettingsExtensionNew "bytes list"
  | SCTExtension
  | GenericExtension u16 bytes
  | ExtendedMasterSecretExtension
  | UtlsGREASEExtension u16 bytes
  | UtlsPaddingExtension int bool "(int \<Rightarrow> int \<times> bool) option"
  | UtlsCompressCertExtension "u16 list"
  | KeyShareExtension "keyShare list"
  | QUICTransportParametersExtension "TransportParameter list" "bytes option" "bytes option"
  | PSKKeyExchangeModesExtension bytes
  | SupportedVersionsExtension "u16 list"
  | CookieExtension bytes
  | NPNExtension "bytes list"
  | RenegotiationInfoExtension RenegotiationSupport bytes
  | FakeChannelIDExtension bool
  | FakeRecordSizeLimitExtension u16
  | FakeTokenBindingExtension u8 u8 bytes
  | FakeDelegatedCredentialsExtension "u16 list"
  | FakeEarlyDataExtension
  | SessionTicketExtension "session_ref option" bytes bool
  | UtlsPreSharedKeyExtension UtlsPSK
  | FakePreSharedKeyExtension "pskIdentity list option" "bytes list option" bool
  | GREASEEncryptedClientHelloExtension GreaseECH
  | TrustAnchorsExtension "bytes list" bool "bytes list option"


section \<open>Filling a buffer\<close>

text \<open>
  A call of \<open>Read\<close>: the count, the error that always comes with it, and the buffer afterwards; a
  panic is \<open>None\<close>. Nearly all methods have the frame of \<open>read_into\<close>, the check of the length
  first and \<open>return e.Len(), io.EOF\<close> last.
\<close>

datatype read_err = EOF | ShortBuffer | ReadError string

type_synonym read_result = "(int \<times> read_err \<times> bytes) option"

definition read_into :: "int \<Rightarrow> (bytes option \<Rightarrow> bytes option) list \<Rightarrow> bytes \<Rightarrow> read_result" where
  "read_into n fill b =
     (if int (length b) < n then Some (0, ShortBuffer, b)
      else do { b \<leftarrow> stmts fill (Some b); Some (n, EOF, b) })"

text \<open>\<open>b[i] = byte(v >> 8); b[i+1] = byte(v)\<close>, for a 16-bit value and for a length.\<close>

definition put16 :: "nat \<Rightarrow> u16 \<Rightarrow> bytes option \<Rightarrow> bytes option" where
  "put16 i v b = put (i + 1) (ucast v) (put i (ucast (drop_bit 8 v)) b)"

definition putlen :: "nat \<Rightarrow> nat \<Rightarrow> bytes option \<Rightarrow> bytes option" where
  "putlen i n b = put (i + 1) (of_nat n) (put i (hi16 n) b)"

text \<open>The loops over 16-bit values, strings with a length byte, key shares and identities.\<close>

fun put_u16s :: "nat \<Rightarrow> u16 list \<Rightarrow> bytes option \<Rightarrow> bytes option" where
  "put_u16s i [] b = b"
| "put_u16s i (v # vs) b = put_u16s (i + 2) vs (put16 i v b)"

fun put_strings :: "nat \<Rightarrow> bytes list \<Rightarrow> bytes option \<Rightarrow> bytes option" where
  "put_strings i [] b = b"
| "put_strings i (s # ss) b = put_strings (i + (1 + length s)) ss (copy_at (i + 1) s (put i (of_nat (length s)) b))"

fun put_keyShares :: "nat \<Rightarrow> keyShare list \<Rightarrow> bytes option \<Rightarrow> bytes option" where
  "put_keyShares i [] b = b"
| "put_keyShares i (ks # kss) b = put_keyShares (i + (4 + length (ks_data ks))) kss
     (copy_at (i + 4) (ks_data ks) (putlen (i + 2) (length (ks_data ks)) (put16 i (ks_group ks) b)))"

definition put32 :: "nat \<Rightarrow> u32 \<Rightarrow> bytes option \<Rightarrow> bytes option" where
  "put32 i v b = put (i + 3) (ucast v) (put (i + 2) (ucast (drop_bit 8 v))
     (put (i + 1) (ucast (drop_bit 16 v)) (put i (ucast (drop_bit 24 v)) b)))"

fun put_identities :: "nat \<Rightarrow> pskIdentity list \<Rightarrow> bytes option \<Rightarrow> bytes option" where
  "put_identities i [] b = b"
| "put_identities i (d # ds) b =
     (let label = psk_label d in
      put_identities (i + 2 + length label + 4) ds
        (put32 (i + 2 + length label) (psk_obfuscatedTicketAge d)
          (copy_at (i + 2) label (putlen i (length label) b))))"

definition strings_len :: "bytes list \<Rightarrow> nat" where
  "strings_len ss = sum_list (map (\<lambda>s. 1 + length s) ss)"


section \<open>Length and Read of each extension\<close>

subsection \<open>server_name, status_request\<close>

definition SNIExtension_Len :: "bytes \<Rightarrow> int" where
  "SNIExtension_Len serverName =
     (let hostName = hostnameInSNI serverName
      in if length hostName = 0 then 0 else int (4 + 2 + 1 + 2 + length hostName))"

definition SNIExtension_Read :: "bytes \<Rightarrow> bytes \<Rightarrow> read_result" where
  "SNIExtension_Read serverName b =
     (let hostName = hostnameInSNI serverName
      in if length hostName = 0 then Some (0, EOF, b)
         else read_into (SNIExtension_Len serverName) [
           put16 0 extensionServerName,
           putlen 2 (length hostName + 5),
           putlen 4 (length hostName + 3),
           putlen 7 (length hostName),
           copy_at 9 hostName] b)"

definition StatusRequestExtension_Len :: int where
  "StatusRequestExtension_Len = 9"

definition StatusRequestExtension_Read :: "bytes \<Rightarrow> read_result" where
  "StatusRequestExtension_Read = read_into StatusRequestExtension_Len [
     put16 0 extensionStatusRequest, put 2 0, put 3 5, put 4 1]"

definition StatusRequestV2Extension_Len :: int where
  "StatusRequestV2Extension_Len = 13"

definition StatusRequestV2Extension_Read :: "bytes \<Rightarrow> read_result" where
  "StatusRequestV2Extension_Read = read_into StatusRequestV2Extension_Len [
     put16 0 extensionStatusRequestV2, put 2 0, put 3 9, put 4 0, put 5 7, put 6 2, put 7 0, put 8 4]"


subsection \<open>Lists of 16-bit values\<close>

definition SupportedCurvesExtension_Len :: "u16 list \<Rightarrow> int" where
  "SupportedCurvesExtension_Len curves = int (6 + 2 * length curves)"

definition SupportedCurvesExtension_Read :: "u16 list \<Rightarrow> bytes \<Rightarrow> read_result" where
  "SupportedCurvesExtension_Read curves = read_into (SupportedCurvesExtension_Len curves) [
     put16 0 extensionSupportedCurves,
     putlen 2 (2 + 2 * length curves),
     putlen 4 (2 * length curves),
     put_u16s 6 curves]"

definition SignatureAlgorithmsExtension_Len :: "u16 list \<Rightarrow> int" where
  "SignatureAlgorithmsExtension_Len algs = int (6 + 2 * length algs)"

definition SignatureAlgorithmsExtension_Read :: "u16 list \<Rightarrow> bytes \<Rightarrow> read_result" where
  "SignatureAlgorithmsExtension_Read algs = read_into (SignatureAlgorithmsExtension_Len algs) [
     put16 0 extensionSignatureAlgorithms,
     putlen 2 (2 + 2 * length algs),
     putlen 4 (2 * length algs),
     put_u16s 6 algs]"

definition SignatureAlgorithmsCertExtension_Len :: "u16 list \<Rightarrow> int" where
  "SignatureAlgorithmsCertExtension_Len algs = int (6 + 2 * length algs)"

definition SignatureAlgorithmsCertExtension_Read :: "u16 list \<Rightarrow> bytes \<Rightarrow> read_result" where
  "SignatureAlgorithmsCertExtension_Read algs = read_into (SignatureAlgorithmsCertExtension_Len algs) [
     put16 0 extensionSignatureAlgorithmsCert,
     putlen 2 (2 + 2 * length algs),
     putlen 4 (2 * length algs),
     put_u16s 6 algs]"

definition FakeDelegatedCredentialsExtension_Len :: "u16 list \<Rightarrow> int" where
  "FakeDelegatedCredentialsExtension_Len algs = int (6 + 2 * length algs)"

definition FakeDelegatedCredentialsExtension_Read :: "u16 list \<Rightarrow> bytes \<Rightarrow> read_result" where
  "FakeDelegatedCredentialsExtension_Read algs = read_into (FakeDelegatedCredentialsExtension_Len algs) [
     put16 0 fakeExtensionDelegatedCredentials,
     putlen 2 (2 + 2 * length algs),
     putlen 4 (2 * length algs),
     put_u16s 6 algs]"

definition UtlsCompressCertExtension_Len :: "u16 list \<Rightarrow> int" where
  "UtlsCompressCertExtension_Len algs = int (4 + 1 + 2 * length algs)"

definition UtlsCompressCertExtension_Read :: "u16 list \<Rightarrow> bytes \<Rightarrow> read_result" where
  "UtlsCompressCertExtension_Read algs b =
     (let extLen = 2 * length algs
      in if \<not> int (length b) < UtlsCompressCertExtension_Len algs \<and> extLen > 255
         then map_option (\<lambda>b. (0, ReadError ''too many certificate compression methods'', b))
                (put16 0 utlsExtensionCompressCertificate (Some b))
         else read_into (UtlsCompressCertExtension_Len algs) [
           put16 0 utlsExtensionCompressCertificate,
           putlen 2 (extLen + 1),
           put 4 (of_nat extLen),
           put_u16s 5 algs] b)"

definition SupportedVersionsExtension_Len :: "u16 list \<Rightarrow> int" where
  "SupportedVersionsExtension_Len versions = int (4 + 1 + 2 * length versions)"

definition SupportedVersionsExtension_Read :: "u16 list \<Rightarrow> bytes \<Rightarrow> read_result" where
  "SupportedVersionsExtension_Read versions b =
     (let extLen = 2 * length versions
      in if \<not> int (length b) < SupportedVersionsExtension_Len versions \<and> extLen > 255
         then Some (0, ReadError ''too many supported versions'', b)
         else read_into (SupportedVersionsExtension_Len versions) [
           put16 0 extensionSupportedVersions,
           putlen 2 (extLen + 1),
           put 4 (of_nat extLen),
           put_u16s 5 versions] b)"


subsection \<open>Byte vectors\<close>

definition SupportedPointsExtension_Len :: "bytes \<Rightarrow> int" where
  "SupportedPointsExtension_Len points = int (5 + length points)"

definition SupportedPointsExtension_Read :: "bytes \<Rightarrow> bytes \<Rightarrow> read_result" where
  "SupportedPointsExtension_Read points = read_into (SupportedPointsExtension_Len points) [
     put16 0 extensionSupportedPoints,
     putlen 2 (1 + length points),
     put 4 (of_nat (length points)),
     copy_at 5 points]"

definition PSKKeyExchangeModesExtension_Len :: "bytes \<Rightarrow> int" where
  "PSKKeyExchangeModesExtension_Len modes = int (4 + 1 + length modes)"

definition PSKKeyExchangeModesExtension_Read :: "bytes \<Rightarrow> bytes \<Rightarrow> read_result" where
  "PSKKeyExchangeModesExtension_Read modes b =
     (if \<not> int (length b) < PSKKeyExchangeModesExtension_Len modes \<and> length modes > 255
      then Some (0, ReadError ''too many PSK Key Exchange modes'', b)
      else read_into (PSKKeyExchangeModesExtension_Len modes) [
        put16 0 extensionPSKModes,
        putlen 2 (length modes + 1),
        put 4 (of_nat (length modes)),
        if_stmts (length modes > 0) [copy_at 5 modes]] b)"

definition RenegotiationInfoExtension_Len :: "bytes \<Rightarrow> int" where
  "RenegotiationInfoExtension_Len conn = int (5 + length conn)"

definition RenegotiationInfoExtension_Read :: "bytes \<Rightarrow> bytes \<Rightarrow> read_result" where
  "RenegotiationInfoExtension_Read conn = read_into (RenegotiationInfoExtension_Len conn) [
     put16 0 extensionRenegotiationInfo,
     putlen 2 (1 + length conn),
     put 4 (of_nat (length conn)),
     copy_at 5 conn]"

definition CookieExtension_Len :: "bytes \<Rightarrow> int" where
  "CookieExtension_Len cookie = int (6 + length cookie)"

definition CookieExtension_Read :: "bytes \<Rightarrow> bytes \<Rightarrow> read_result" where
  "CookieExtension_Read cookie = read_into (CookieExtension_Len cookie) [
     put16 0 extensionCookie,
     putlen 2 (2 + length cookie),
     putlen 4 (length cookie),
     copy_at 6 cookie]"

definition GenericExtension_Len :: "bytes \<Rightarrow> int" where
  "GenericExtension_Len data = int (4 + length data)"

definition GenericExtension_Read :: "u16 \<Rightarrow> bytes \<Rightarrow> bytes \<Rightarrow> read_result" where
  "GenericExtension_Read ident data = read_into (GenericExtension_Len data) [
     put16 0 ident,
     putlen 2 (length data),
     if_stmts (length data > 0) [copy_at 4 data]]"

definition UtlsGREASEExtension_Len :: "bytes \<Rightarrow> int" where
  "UtlsGREASEExtension_Len body = int (4 + length body)"

definition UtlsGREASEExtension_Read :: "u16 \<Rightarrow> bytes \<Rightarrow> bytes \<Rightarrow> read_result" where
  "UtlsGREASEExtension_Read value body = read_into (UtlsGREASEExtension_Len body) [
     put16 0 value,
     putlen 2 (length body),
     if_stmts (length body > 0) [copy_at 4 body]]"

definition SessionTicketExtension_Len :: "bytes \<Rightarrow> int" where
  "SessionTicketExtension_Len ticket = int (4 + length ticket)"

definition SessionTicketExtension_Read :: "bytes \<Rightarrow> bytes \<Rightarrow> read_result" where
  "SessionTicketExtension_Read ticket = read_into (SessionTicketExtension_Len ticket) [
     put16 0 extensionSessionTicket,
     putlen 2 (length ticket),
     if_stmts (length ticket > 0) [copy_at 4 ticket]]"

definition FakeTokenBindingExtension_Len :: "bytes \<Rightarrow> int" where
  "FakeTokenBindingExtension_Len params = int (2 + 2 + 2 + 1 + length params)"

definition FakeTokenBindingExtension_Read :: "u8 \<Rightarrow> u8 \<Rightarrow> bytes \<Rightarrow> bytes \<Rightarrow> read_result" where
  "FakeTokenBindingExtension_Read major minor params = read_into (FakeTokenBindingExtension_Len params) [
     put16 0 fakeExtensionTokenBinding,
     putlen 2 (3 + length params),
     put 4 major,
     put 5 minor,
     put 6 (of_nat (length params)),
     if_stmts (length params > 0) [copy_at 7 params]]"

definition FakeRecordSizeLimitExtension_Len :: int where
  "FakeRecordSizeLimitExtension_Len = 6"

definition FakeRecordSizeLimitExtension_Read :: "u16 \<Rightarrow> bytes \<Rightarrow> read_result" where
  "FakeRecordSizeLimitExtension_Read limit = read_into FakeRecordSizeLimitExtension_Len [
     put16 0 fakeRecordSizeLimit, put 2 0, put 3 2, put16 4 limit]"

text \<open>\<open>Len\<close> marshals the transport parameters when it is called first (\<open>first_Len\<close> below).\<close>

definition quic_data :: "bytes option \<Rightarrow> bytes option \<Rightarrow> bytes" where
  "quic_data rawData marshalResult = (case rawData of Some d \<Rightarrow> d | None \<Rightarrow> (case marshalResult of Some d \<Rightarrow> d | None \<Rightarrow> []))"

definition QUICTransportParametersExtension_Len :: "bytes option \<Rightarrow> bytes option \<Rightarrow> int" where
  "QUICTransportParametersExtension_Len rawData marshalResult = int (4 + length (quic_data rawData marshalResult))"

definition QUICTransportParametersExtension_Read :: "bytes option \<Rightarrow> bytes option \<Rightarrow> bytes \<Rightarrow> read_result" where
  "QUICTransportParametersExtension_Read rawData marshalResult =
     (let data = quic_data rawData marshalResult
      in read_into (QUICTransportParametersExtension_Len rawData marshalResult) [
        put16 0 extensionQUICTransportParameters,
        putlen 2 (length data),
        copy_at 4 data])"


subsection \<open>Lists of strings\<close>

text \<open>The lengths are written after the strings.\<close>

definition ALPNExtension_Len :: "bytes list \<Rightarrow> int" where
  "ALPNExtension_Len protos = int (2 + 2 + 2 + strings_len protos)"

definition ALPNExtension_Read :: "bytes list \<Rightarrow> bytes \<Rightarrow> read_result" where
  "ALPNExtension_Read protos = read_into (ALPNExtension_Len protos) [
     put16 0 extensionALPN,
     put_strings 6 protos,
     putlen (2 + 2) (strings_len protos),
     putlen 2 (strings_len protos + 2)]"

definition applicationSettingsExtension_Len :: "bytes list \<Rightarrow> int" where
  "applicationSettingsExtension_Len protos = int (2 + 2 + 2 + strings_len protos)"

definition applicationSettingsExtension_Read :: "u16 \<Rightarrow> bytes list \<Rightarrow> bytes \<Rightarrow> read_result" where
  "applicationSettingsExtension_Read codePoint protos = read_into (applicationSettingsExtension_Len protos) [
     put16 0 codePoint,
     put_strings 6 protos,
     putlen (2 + 2) (strings_len protos),
     putlen 2 (strings_len protos + 2)]"

definition TrustAnchorsExtension_list :: "bytes list \<Rightarrow> bytes list option \<Rightarrow> bytes list" where
  "TrustAnchorsExtension_list anchors emitOrder = (case emitOrder of Some l \<Rightarrow> l | None \<Rightarrow> anchors)"

definition TrustAnchorsExtension_Len :: "bytes list \<Rightarrow> int" where
  "TrustAnchorsExtension_Len anchors = int (2 + 2 + 2 + strings_len anchors)"

definition TrustAnchorsExtension_Read :: "bytes list \<Rightarrow> bytes list option \<Rightarrow> bytes \<Rightarrow> read_result" where
  "TrustAnchorsExtension_Read anchors emitOrder b =
     (let l = TrustAnchorsExtension_list anchors emitOrder
      in if \<not> int (length b) < TrustAnchorsExtension_Len anchors \<and> TrustAnchorsExtension_Len anchors - 6 > 0xffff - 2
         then Some (0, ReadError ''tls: trust_anchors list does not fit a uint16 length'', b)
         else read_into (TrustAnchorsExtension_Len anchors) [
           put16 0 utlsExtensionTrustAnchors,
           put_strings 6 l,
           putlen 2 (strings_len l + 2),
           putlen 4 (strings_len l)] b)"


subsection \<open>Extensions without a body\<close>

definition SCTExtension_Len :: int where
  "SCTExtension_Len = 4"

definition SCTExtension_Read :: "bytes \<Rightarrow> read_result" where
  "SCTExtension_Read = read_into SCTExtension_Len [put16 0 extensionSCT]"

definition ExtendedMasterSecretExtension_Len :: int where
  "ExtendedMasterSecretExtension_Len = 4"

definition ExtendedMasterSecretExtension_Read :: "bytes \<Rightarrow> read_result" where
  "ExtendedMasterSecretExtension_Read = read_into ExtendedMasterSecretExtension_Len [
     put16 0 extensionExtendedMasterSecret]"

definition NPNExtension_Len :: int where
  "NPNExtension_Len = 4"

definition NPNExtension_Read :: "bytes \<Rightarrow> read_result" where
  "NPNExtension_Read = read_into NPNExtension_Len [put16 0 extensionNextProtoNeg]"

definition FakeChannelIDExtension_Len :: int where
  "FakeChannelIDExtension_Len = 4"

definition FakeChannelIDExtension_Read :: "bool \<Rightarrow> bytes \<Rightarrow> read_result" where
  "FakeChannelIDExtension_Read oldExtensionID =
     (let extensionID = (if oldExtensionID then fakeOldExtensionChannelID else fakeExtensionChannelID)
      in read_into FakeChannelIDExtension_Len [put16 0 extensionID])"

definition FakeEarlyDataExtension_Len :: int where
  "FakeEarlyDataExtension_Len = 4"

definition FakeEarlyDataExtension_Read :: "bytes \<Rightarrow> read_result" where
  "FakeEarlyDataExtension_Read = read_into FakeEarlyDataExtension_Len [
     put16 0 extensionEarlyData, put 2 0, put 3 0]"


subsection \<open>padding\<close>

definition UtlsPaddingExtension_Len :: "int \<Rightarrow> bool \<Rightarrow> int" where
  "UtlsPaddingExtension_Len paddingLen willPad = (if willPad then 4 + paddingLen else 0)"

definition UtlsPaddingExtension_Update :: "(int \<Rightarrow> int \<times> bool) option \<Rightarrow> int \<Rightarrow> int \<times> bool \<Rightarrow> int \<times> bool" where
  "UtlsPaddingExtension_Update getPaddingLen unpaddedLen old =
     (case getPaddingLen of Some f \<Rightarrow> f unpaddedLen | None \<Rightarrow> old)"

definition UtlsPaddingExtension_Read :: "int \<Rightarrow> bool \<Rightarrow> bytes \<Rightarrow> read_result" where
  "UtlsPaddingExtension_Read paddingLen willPad b =
     (if \<not> willPad then Some (0, EOF, b)
      else read_into (UtlsPaddingExtension_Len paddingLen willPad) [
        put16 0 utlsExtensionPadding,
        put 2 (of_int (drop_bit 8 paddingLen)),
        put 3 (of_int paddingLen)] b)"

definition BoringPaddingStyle :: "int \<Rightarrow> int \<times> bool" where
  "BoringPaddingStyle unpaddedLen =
     (if unpaddedLen > 0xff \<and> unpaddedLen < 0x200 then
        let paddingLen = 0x200 - unpaddedLen;
            paddingLen = (if paddingLen \<ge> 4 + 1 then paddingLen - 4 else 1)
        in (paddingLen, True)
      else (0, False))"

definition AlwaysPadToLen :: "int \<Rightarrow> int \<Rightarrow> int \<times> bool" where
  "AlwaysPadToLen padToLen unpaddedLen =
     (if unpaddedLen < padToLen then
        let paddingLen = padToLen - unpaddedLen;
            paddingLen = (if paddingLen \<ge> 4 + 1 then paddingLen - 4 else 1)
        in (paddingLen, True)
      else (0, False))"


subsection \<open>key_share\<close>

definition keySharesLen :: "keyShare list \<Rightarrow> nat" where
  "keySharesLen kss = sum_list (map (\<lambda>ks. 4 + length (ks_data ks)) kss)"

definition KeyShareExtension_Len :: "keyShare list \<Rightarrow> int" where
  "KeyShareExtension_Len kss = int (4 + 2 + keySharesLen kss)"

definition KeyShareExtension_Read :: "keyShare list \<Rightarrow> bytes \<Rightarrow> read_result" where
  "KeyShareExtension_Read kss = read_into (KeyShareExtension_Len kss) [
     put16 0 extensionKeyShare,
     putlen 2 (keySharesLen kss + 2),
     putlen 4 (keySharesLen kss),
     put_keyShares 6 kss]"


subsection \<open>pre_shared_key\<close>

definition identities_len :: "pskIdentity list \<Rightarrow> nat" where
  "identities_len ids = sum_list (map (\<lambda>d. 2 + length (psk_label d) + 4) ids)"

definition pskExtLen :: "pskIdentity list \<Rightarrow> bytes list \<Rightarrow> int" where
  "pskExtLen ids binders =
     (if length ids = 0 \<or> length binders = 0 then 0
      else int (4 + 2 + identities_len ids + 2 + strings_len binders))"

definition readPskIntoBytes :: "pskIdentity list \<Rightarrow> bytes list \<Rightarrow> bytes \<Rightarrow> read_result" where
  "readPskIntoBytes ids binders b =
     (let extLen = pskExtLen ids binders; offset = 6 + identities_len ids
      in if extLen = 0 then Some (0, EOF, b)
         else read_into extLen [
           put16 0 extensionPreSharedKey,
           putlen 2 (nat (extLen - 4)),
           putlen 4 (identities_len ids),
           put_identities 6 ids,
           putlen offset (strings_len binders),
           put_strings (offset + 2) binders] b)"

definition UtlsPSK_Len :: "UtlsPSK \<Rightarrow> int" where
  "UtlsPSK_Len e =
     (if psk_Session e = None \<and> (length (psk_Identities e) = 0 \<or> length (psk_Binders e) = 0) then 0
      else case psk_cachedLength e of Some n \<Rightarrow> n | None \<Rightarrow> pskExtLen (psk_Identities e) (psk_Binders e))"

text \<open>What a call of \<open>Len\<close> leaves in the extension.\<close>

definition UtlsPSK_cache :: "UtlsPSK \<Rightarrow> UtlsPSK" where
  "UtlsPSK_cache e =
     (if psk_Session e = None \<and> (length (psk_Identities e) = 0 \<or> length (psk_Binders e) = 0) then e
      else e\<lparr>psk_cachedLength := Some (UtlsPSK_Len e)\<rparr>)"

definition UtlsPSK_Read :: "UtlsPSK \<Rightarrow> bytes \<Rightarrow> read_result" where
  "UtlsPSK_Read e b =
     (if \<not> psk_OmitEmptyPsk e \<and> UtlsPSK_Len e = 0
      then Some (0, ReadError ''tls: empty psk detected'', b)
      else readPskIntoBytes (psk_Identities e) (psk_Binders e) b)"

definition UtlsPSK_ResetForReuse :: "UtlsPSK \<Rightarrow> UtlsPSK" where
  "UtlsPSK_ResetForReuse e = e\<lparr>psk_Session := None, psk_EarlySecret := [], psk_BinderKey := [],
     psk_Identities := [], psk_Binders := [], psk_hashSize := None, psk_cachedLength := None\<rparr>"

text \<open>\<open>cipherSuiteTLS13ByID\<close> gives the hash size of the suite; an unknown suite is a nil pointer, and
  taking its hash panics when there is an identity.\<close>

definition UtlsPSK_InitializeByUtls :: "(u16 \<Rightarrow> nat option) \<Rightarrow> session_ref \<Rightarrow> bytes \<Rightarrow> bytes \<Rightarrow> pskIdentity list \<Rightarrow>
    UtlsPSK \<Rightarrow> UtlsPSK option" where
  "UtlsPSK_InitializeByUtls hashSize session earlySecret binderKey ids e =
     (let size = hashSize (ss_cipherSuite session)
      in if size = None \<and> ids \<noteq> [] then None
         else Some (e\<lparr>psk_Session := Some session, psk_EarlySecret := earlySecret, psk_BinderKey := binderKey,
           psk_hashSize := size, psk_Identities := ids,
           psk_Binders := map (\<lambda>_. replicate (the size) 0) ids\<rparr>))"

definition FakePSK_Len :: "pskIdentity list option \<Rightarrow> bytes list option \<Rightarrow> int" where
  "FakePSK_Len ids binders = pskExtLen (case ids of Some l \<Rightarrow> l | None \<Rightarrow> []) (case binders of Some l \<Rightarrow> l | None \<Rightarrow> [])"

text \<open>The hash sizes of the TLS 1.3 suites.\<close>

definition validHashLen :: "nat list" where
  "validHashLen = [32, 32, 48]"

definition FakePSK_Read :: "pskIdentity list option \<Rightarrow> bytes list option \<Rightarrow> bool \<Rightarrow> bytes \<Rightarrow> read_result" where
  "FakePSK_Read ids binders omitEmptyPsk b =
     (if \<not> omitEmptyPsk \<and> FakePSK_Len ids binders = 0 then Some (0, ReadError ''tls: empty psk detected'', b)
      else if \<exists>binder \<in> set (case binders of Some l \<Rightarrow> l | None \<Rightarrow> []). length binder \<notin> set validHashLen
      then Some (0, ReadError ''tls: FakePreSharedKeyExtension.Read failed: invalid binder size'', b)
      else readPskIntoBytes (case ids of Some l \<Rightarrow> l | None \<Rightarrow> []) (case binders of Some l \<Rightarrow> l | None \<Rightarrow> []) b)"


subsection \<open>encrypted_client_hello\<close>

definition GreaseECH_Len :: "GreaseECH \<Rightarrow> int" where
  "GreaseECH_Len g = int (2 + 2 + 1 + 4 + 1 + 2 + length (g_EncapsulatedKey g) + 2 + length (g_payload g))"

definition GreaseECH_Read :: "GreaseECH \<Rightarrow> bytes \<Rightarrow> read_result" where
  "GreaseECH_Read g =
     (let k = length (g_EncapsulatedKey g)
      in read_into (GreaseECH_Len g) [
        put16 0 utlsExtensionECH,
        putlen 2 (nat (GreaseECH_Len g - 4)),
        put 4 0,
        put16 5 (fst (g_cipherSuite g)),
        put16 7 (snd (g_cipherSuite g)),
        put 9 (g_configId g),
        putlen 10 k,
        copy_at 12 (g_EncapsulatedKey g),
        putlen (12 + k) (length (g_payload g)),
        copy_at (12 + k + 2) (g_payload g)])"


section \<open>The interface\<close>

primrec ext_Len :: "TLSExtension \<Rightarrow> int" where
  "ext_Len (SNIExtension serverName) = SNIExtension_Len serverName"
| "ext_Len StatusRequestExtension = StatusRequestExtension_Len"
| "ext_Len (SupportedCurvesExtension curves) = SupportedCurvesExtension_Len curves"
| "ext_Len (SupportedPointsExtension points) = SupportedPointsExtension_Len points"
| "ext_Len (SignatureAlgorithmsExtension algs) = SignatureAlgorithmsExtension_Len algs"
| "ext_Len StatusRequestV2Extension = StatusRequestV2Extension_Len"
| "ext_Len (SignatureAlgorithmsCertExtension algs) = SignatureAlgorithmsCertExtension_Len algs"
| "ext_Len (ALPNExtension protos) = ALPNExtension_Len protos"
| "ext_Len (ApplicationSettingsExtension protos) = applicationSettingsExtension_Len protos"
| "ext_Len (ApplicationSettingsExtensionNew protos) = applicationSettingsExtension_Len protos"
| "ext_Len SCTExtension = SCTExtension_Len"
| "ext_Len (GenericExtension _ data) = GenericExtension_Len data"
| "ext_Len ExtendedMasterSecretExtension = ExtendedMasterSecretExtension_Len"
| "ext_Len (UtlsGREASEExtension _ body) = UtlsGREASEExtension_Len body"
| "ext_Len (UtlsPaddingExtension paddingLen willPad _) = UtlsPaddingExtension_Len paddingLen willPad"
| "ext_Len (UtlsCompressCertExtension algs) = UtlsCompressCertExtension_Len algs"
| "ext_Len (KeyShareExtension kss) = KeyShareExtension_Len kss"
| "ext_Len (QUICTransportParametersExtension _ rawData res) = QUICTransportParametersExtension_Len rawData res"
| "ext_Len (PSKKeyExchangeModesExtension modes) = PSKKeyExchangeModesExtension_Len modes"
| "ext_Len (SupportedVersionsExtension versions) = SupportedVersionsExtension_Len versions"
| "ext_Len (CookieExtension cookie) = CookieExtension_Len cookie"
| "ext_Len (NPNExtension _) = NPNExtension_Len"
| "ext_Len (RenegotiationInfoExtension _ conn) = RenegotiationInfoExtension_Len conn"
| "ext_Len (FakeChannelIDExtension _) = FakeChannelIDExtension_Len"
| "ext_Len (FakeRecordSizeLimitExtension _) = FakeRecordSizeLimitExtension_Len"
| "ext_Len (FakeTokenBindingExtension _ _ params) = FakeTokenBindingExtension_Len params"
| "ext_Len (FakeDelegatedCredentialsExtension algs) = FakeDelegatedCredentialsExtension_Len algs"
| "ext_Len FakeEarlyDataExtension = FakeEarlyDataExtension_Len"
| "ext_Len (SessionTicketExtension _ ticket _) = SessionTicketExtension_Len ticket"
| "ext_Len (UtlsPreSharedKeyExtension e) = UtlsPSK_Len e"
| "ext_Len (FakePreSharedKeyExtension ids binders _) = FakePSK_Len ids binders"
| "ext_Len (GREASEEncryptedClientHelloExtension g) = GreaseECH_Len g"
| "ext_Len (TrustAnchorsExtension anchors _ _) = TrustAnchorsExtension_Len anchors"

primrec ext_Read :: "TLSExtension \<Rightarrow> bytes \<Rightarrow> read_result" where
  "ext_Read (SNIExtension serverName) = SNIExtension_Read serverName"
| "ext_Read StatusRequestExtension = StatusRequestExtension_Read"
| "ext_Read (SupportedCurvesExtension curves) = SupportedCurvesExtension_Read curves"
| "ext_Read (SupportedPointsExtension points) = SupportedPointsExtension_Read points"
| "ext_Read (SignatureAlgorithmsExtension algs) = SignatureAlgorithmsExtension_Read algs"
| "ext_Read StatusRequestV2Extension = StatusRequestV2Extension_Read"
| "ext_Read (SignatureAlgorithmsCertExtension algs) = SignatureAlgorithmsCertExtension_Read algs"
| "ext_Read (ALPNExtension protos) = ALPNExtension_Read protos"
| "ext_Read (ApplicationSettingsExtension protos) =
     applicationSettingsExtension_Read utlsExtensionApplicationSettings protos"
| "ext_Read (ApplicationSettingsExtensionNew protos) =
     applicationSettingsExtension_Read utlsExtensionApplicationSettingsNew protos"
| "ext_Read SCTExtension = SCTExtension_Read"
| "ext_Read (GenericExtension ident data) = GenericExtension_Read ident data"
| "ext_Read ExtendedMasterSecretExtension = ExtendedMasterSecretExtension_Read"
| "ext_Read (UtlsGREASEExtension value body) = UtlsGREASEExtension_Read value body"
| "ext_Read (UtlsPaddingExtension paddingLen willPad _) = UtlsPaddingExtension_Read paddingLen willPad"
| "ext_Read (UtlsCompressCertExtension algs) = UtlsCompressCertExtension_Read algs"
| "ext_Read (KeyShareExtension kss) = KeyShareExtension_Read kss"
| "ext_Read (QUICTransportParametersExtension _ rawData res) = QUICTransportParametersExtension_Read rawData res"
| "ext_Read (PSKKeyExchangeModesExtension modes) = PSKKeyExchangeModesExtension_Read modes"
| "ext_Read (SupportedVersionsExtension versions) = SupportedVersionsExtension_Read versions"
| "ext_Read (CookieExtension cookie) = CookieExtension_Read cookie"
| "ext_Read (NPNExtension _) = NPNExtension_Read"
| "ext_Read (RenegotiationInfoExtension _ conn) = RenegotiationInfoExtension_Read conn"
| "ext_Read (FakeChannelIDExtension oldExtensionID) = FakeChannelIDExtension_Read oldExtensionID"
| "ext_Read (FakeRecordSizeLimitExtension limit) = FakeRecordSizeLimitExtension_Read limit"
| "ext_Read (FakeTokenBindingExtension major minor params) = FakeTokenBindingExtension_Read major minor params"
| "ext_Read (FakeDelegatedCredentialsExtension algs) = FakeDelegatedCredentialsExtension_Read algs"
| "ext_Read FakeEarlyDataExtension = FakeEarlyDataExtension_Read"
| "ext_Read (SessionTicketExtension _ ticket _) = SessionTicketExtension_Read ticket"
| "ext_Read (UtlsPreSharedKeyExtension e) = UtlsPSK_Read e"
| "ext_Read (FakePreSharedKeyExtension ids binders omit) = FakePSK_Read ids binders omit"
| "ext_Read (GREASEEncryptedClientHelloExtension g) = GreaseECH_Read g"
| "ext_Read (TrustAnchorsExtension anchors _ emitOrder) = TrustAnchorsExtension_Read anchors emitOrder"

end
