(* ===== verification/Extension_Bytes.thy ===== *)
theory Extension_Bytes
  imports Tls_Extensions
begin

text \<open>
  The bytes of the extensions: the type and the body that \<open>Read\<close> of each extension
  (Tls_Extensions) puts on the wire, and the proof that it does, on a buffer of zeros, with exactly
  the number of bytes that \<open>Len\<close> announces.
\<close>

section \<open>What Read produces\<close>

text \<open>The type and the body of an extension, or \<open>None\<close> when it is left out of the hello.\<close>

definition psk_content :: "pskIdentity list \<Rightarrow> bytes list \<Rightarrow> (u16 \<times> bytes) option" where
  "psk_content ids binders =
     (if ids = [] \<or> binders = [] then None
      else Some (extensionPreSharedKey, vec16 (concat (map psk_enc ids)) @ vec16 (concat (map vec8 binders))))"

primrec ext_content :: "TLSExtension \<Rightarrow> (u16 \<times> bytes) option" where
  "ext_content (SNIExtension serverName) =
     (if hostnameInSNI serverName = [] then None
      else Some (extensionServerName, vec16 (0 # vec16 (hostnameInSNI serverName))))"
| "ext_content StatusRequestExtension = Some (extensionStatusRequest, [1, 0, 0, 0, 0])"
| "ext_content (SupportedCurvesExtension curves) = Some (extensionSupportedCurves, vec16 (concat (map be16 curves)))"
| "ext_content (SupportedPointsExtension points) = Some (extensionSupportedPoints, vec8 points)"
| "ext_content (SignatureAlgorithmsExtension algs) = Some (extensionSignatureAlgorithms, vec16 (concat (map be16 algs)))"
| "ext_content StatusRequestV2Extension = Some (extensionStatusRequestV2, [0, 7, 2, 0, 4, 0, 0, 0, 0])"
| "ext_content (SignatureAlgorithmsCertExtension algs) =
     Some (extensionSignatureAlgorithmsCert, vec16 (concat (map be16 algs)))"
| "ext_content (ALPNExtension protos) = Some (extensionALPN, vec16 (concat (map vec8 protos)))"
| "ext_content (ApplicationSettingsExtension protos) =
     Some (utlsExtensionApplicationSettings, vec16 (concat (map vec8 protos)))"
| "ext_content (ApplicationSettingsExtensionNew protos) =
     Some (utlsExtensionApplicationSettingsNew, vec16 (concat (map vec8 protos)))"
| "ext_content SCTExtension = Some (extensionSCT, [])"
| "ext_content (GenericExtension ident data) = Some (ident, data)"
| "ext_content ExtendedMasterSecretExtension = Some (extensionExtendedMasterSecret, [])"
| "ext_content (UtlsGREASEExtension value body) = Some (value, body)"
| "ext_content (UtlsPaddingExtension paddingLen willPad _) =
     (if willPad then Some (utlsExtensionPadding, replicate (nat paddingLen) 0) else None)"
| "ext_content (UtlsCompressCertExtension algs) = Some (utlsExtensionCompressCertificate, vec8 (concat (map be16 algs)))"
| "ext_content (KeyShareExtension kss) = Some (extensionKeyShare, vec16 (concat (map ks_enc kss)))"
| "ext_content (QUICTransportParametersExtension _ rawData res) =
     Some (extensionQUICTransportParameters, quic_data rawData res)"
| "ext_content (PSKKeyExchangeModesExtension modes) = Some (extensionPSKModes, vec8 modes)"
| "ext_content (SupportedVersionsExtension versions) = Some (extensionSupportedVersions, vec8 (concat (map be16 versions)))"
| "ext_content (CookieExtension cookie) = Some (extensionCookie, vec16 cookie)"
| "ext_content (NPNExtension _) = Some (extensionNextProtoNeg, [])"
| "ext_content (RenegotiationInfoExtension _ conn) = Some (extensionRenegotiationInfo, vec8 conn)"
| "ext_content (FakeChannelIDExtension oldExtensionID) =
     Some (if oldExtensionID then fakeOldExtensionChannelID else fakeExtensionChannelID, [])"
| "ext_content (FakeRecordSizeLimitExtension limit) = Some (fakeRecordSizeLimit, be16 limit)"
| "ext_content (FakeTokenBindingExtension major minor params) = Some (fakeExtensionTokenBinding, major # minor # vec8 params)"
| "ext_content (FakeDelegatedCredentialsExtension algs) =
     Some (fakeExtensionDelegatedCredentials, vec16 (concat (map be16 algs)))"
| "ext_content FakeEarlyDataExtension = Some (extensionEarlyData, [])"
| "ext_content (SessionTicketExtension _ ticket _) = Some (extensionSessionTicket, ticket)"
| "ext_content (UtlsPreSharedKeyExtension e) = psk_content (psk_Identities e) (psk_Binders e)"
| "ext_content (FakePreSharedKeyExtension ids binders _) =
     psk_content (case ids of Some l \<Rightarrow> l | None \<Rightarrow> []) (case binders of Some l \<Rightarrow> l | None \<Rightarrow> [])"
| "ext_content (GREASEEncryptedClientHelloExtension g) =
     Some (utlsExtensionECH, 0 # be16 (fst (g_cipherSuite g)) @ be16 (snd (g_cipherSuite g)) @ g_configId g #
       vec16 (g_EncapsulatedKey g) @ vec16 (g_payload g))"
| "ext_content (TrustAnchorsExtension anchors _ emitOrder) =
     Some (utlsExtensionTrustAnchors, vec16 (concat (map vec8 (TrustAnchorsExtension_list anchors emitOrder))))"


abbreviation tlv :: "u16 \<Rightarrow> bytes \<Rightarrow> bytes" where
  "tlv ty body \<equiv> ext_enc (ty, body)"

definition ext_wire :: "TLSExtension \<Rightarrow> bytes" where
  "ext_wire e = (case ext_content e of None \<Rightarrow> [] | Some (ty, body) \<Rightarrow> tlv ty body)"

text \<open>
  The statements \<open>f\<close> turn zeros at offset \<open>i\<close> of a buffer into \<open>bs\<close>, and change nothing else.
  A stretch that no statement writes stays zero.
\<close>

definition fills :: "nat \<Rightarrow> (bytes option \<Rightarrow> bytes option) \<Rightarrow> bytes \<Rightarrow> bool" where
  "fills i f bs \<longleftrightarrow> (\<forall>p r. length p = i \<longrightarrow> f (Some (p @ replicate (length bs) 0 @ r)) = Some (p @ bs @ r))"

named_theorems fills_intros \<open>statements that fill a buffer\<close>

lemma fillsD: "fills i f bs \<Longrightarrow> length p = i \<Longrightarrow> f (Some (p @ replicate (length bs) 0 @ r)) = Some (p @ bs @ r)"
  by (simp add: fills_def)

lemma fills_put [fills_intros]: "fills i (put i v) [v]"
  by (auto simp: fills_def put_append)

lemma fills_copy [fills_intros]: "fills i (copy_at i s) s"
  by (auto simp: fills_def copy_at_append)

lemma fills_if_copy [fills_intros]: "fills i (if_stmts (length s > 0) [copy_at i s]) s"
  using fills_copy [of i s] by (auto simp: fills_def if_stmts_def stmts.simps)

lemma fills_then:
  assumes "fills i f a" "fills (i + length a) g c"
  shows "fills i (\<lambda>b. g (f b)) (a @ c)"
  unfolding fills_def
proof (intro allI impI)
  fix p r :: bytes
  assume "length p = i"
  then show "g (f (Some (p @ replicate (length (a @ c)) 0 @ r))) = Some (p @ (a @ c) @ r)"
    using fillsD [OF assms(1), of p "replicate (length c) 0 @ r"] fillsD [OF assms(2), of "p @ a" r]
    by (simp add: replicate_add)
qed

lemma fills_before:
  assumes "fills (i + length a) g c" "fills i f a"
  shows "fills i (\<lambda>b. f (g b)) (a @ c)"
  unfolding fills_def
proof (intro allI impI)
  fix p r :: bytes
  assume "length p = i"
  then show "f (g (Some (p @ replicate (length (a @ c)) 0 @ r))) = Some (p @ (a @ c) @ r)"
    using fillsD [OF assms(2), of p "c @ r"] fillsD [OF assms(1), of "p @ replicate (length a) 0" r]
    by (simp add: replicate_add)
qed

lemma fills_stmts:
  "fills i (stmts []) []"
  "fills i f a \<Longrightarrow> fills (i + length a) (stmts fs) c \<Longrightarrow> fills i (stmts (f # fs)) (a @ c)"
  "fills i f a \<Longrightarrow> fills i (stmts [f]) a"
  "fills i f [x] \<Longrightarrow> fills (i + 1) (stmts fs) c \<Longrightarrow> fills i (stmts (f # fs)) (x # c)"
  using fills_then [of i f a "stmts fs" c] fills_then [of i f "[x]" "stmts fs" c] by (auto simp: fills_def stmts.simps)

lemma fills_at: "fills i f bs \<Longrightarrow> j = i \<Longrightarrow> fills j f bs"
  by simp

lemma fills_gap: "fills (i + n) f c \<Longrightarrow> fills i f (replicate n 0 @ c)"
  unfolding fills_def
proof (intro allI impI)
  fix p r :: bytes
  assume f: "\<forall>p r. length p = i + n \<longrightarrow> f (Some (p @ replicate (length c) 0 @ r)) = Some (p @ c @ r)" and "length p = i"
  then show "f (Some (p @ replicate (length (replicate n 0 @ c)) 0 @ r)) = Some (p @ (replicate n 0 @ c) @ r)"
    using f [rule_format, of "p @ replicate n 0" r] by (simp add: replicate_add)
qed

lemma fills_rest: "fills i f a \<Longrightarrow> fills i f (a @ replicate n 0)"
  unfolding fills_def
proof (intro allI impI)
  fix p r :: bytes
  assume f: "\<forall>p r. length p = i \<longrightarrow> f (Some (p @ replicate (length a) 0 @ r)) = Some (p @ a @ r)" and "length p = i"
  then show "f (Some (p @ replicate (length (a @ replicate n 0)) 0 @ r)) = Some (p @ (a @ replicate n 0) @ r)"
    using f [rule_format, of p "replicate n 0 @ r"] by (simp add: replicate_add)
qed

lemma fills_put16 [fills_intros]: "fills i (put16 i v) (be16 v)"
  using fills_then [OF fills_put [of i "ucast (drop_bit 8 v)"], of "put (i + 1) (ucast v)" "[ucast v]"]
    fills_put [of "i + 1" "ucast v"] by (simp add: put16_def [abs_def] be16_def)

lemma fills_putlen [fills_intros]: "fills i (putlen i n) (be16 (of_nat n))"
  using fills_then [OF fills_put [of i "hi16 n"], of "put (i + 1) (of_nat n)" "[of_nat n]"]
    fills_put [of "i + 1" "of_nat n"] by (simp add: putlen_def [abs_def] be16_of_nat)

lemma fills_u16s [fills_intros]: "fills i (put_u16s i vs) (concat (map be16 vs))"
proof (induction vs arbitrary: i)
  case (Cons v vs)
  have "fills i (\<lambda>b. put_u16s (i + 2) vs (put16 i v b)) (be16 v @ concat (map be16 vs))"
    by (rule fills_then [OF fills_put16]) (simp add: Cons)
  then show ?case
    by (simp add: fills_def)
qed (simp add: fills_def)

lemma fills_vec8:
  "fills i (\<lambda>b. copy_at (i + 1) s (put i (of_nat (length s)) b)) (vec8 s)"
  using fills_then [OF fills_put [of i "of_nat (length s)"], of "copy_at (i + 1) s" s] fills_copy [of "i + 1" s]
  by (simp add: vec8_def)

lemma fills_strings [fills_intros]: "fills i (put_strings i ss) (concat (map vec8 ss))"
proof (induction ss arbitrary: i)
  case (Cons s ss)
  have "fills i (\<lambda>b. put_strings (i + (1 + length s)) ss (copy_at (i + 1) s (put i (of_nat (length s)) b)))
      (vec8 s @ concat (map vec8 ss))"
    by (rule fills_then [OF fills_vec8]) (use Cons [of "i + (1 + length s)"] in simp)
  then show ?case
    by (simp add: fills_def)
qed (simp add: fills_def)

lemma fills_vec16:
  "fills i (\<lambda>b. copy_at (i + 2) s (putlen i (length s) b)) (vec16 s)"
  using fills_then [OF fills_putlen [of i "length s"], of "copy_at (i + 2) s" s] fills_copy [of "i + 2" s]
  by (simp add: vec16_def)

lemma fills_keyShares [fills_intros]: "fills i (put_keyShares i kss) (concat (map ks_enc kss))"
proof (induction kss arbitrary: i)
  case (Cons ks kss)
  have "fills i (\<lambda>b. copy_at (i + 4) (ks_data ks) (putlen (i + 2) (length (ks_data ks)) (put16 i (ks_group ks) b)))
      (ks_enc ks)"
    using fills_then [OF fills_put16 [of i "ks_group ks"] fills_vec16 [of "i + length (be16 (ks_group ks))" "ks_data ks"]]
    by (simp add: ks_enc_def eval_nat_numeral)
  from fills_then [OF this] Cons [of "i + (4 + length (ks_data ks))"] show ?case
    by (simp add: fills_def ks_enc_def add.assoc)
qed (simp add: fills_def)

lemma fills_put32 [fills_intros]: "fills i (put32 i v) (be32 v)"
proof -
  have "fills i (stmts [put i (ucast (drop_bit 24 v)), put (i + 1) (ucast (drop_bit 16 v)),
      put (i + 2) (ucast (drop_bit 8 v)), put (i + 3) (ucast v)])
      ([ucast (drop_bit 24 v)] @ [ucast (drop_bit 16 v)] @ [ucast (drop_bit 8 v)] @ [ucast v])"
    by (intro fills_stmts fills_at [OF fills_put]) simp_all
  then show ?thesis
    by (simp add: fills_def stmts.simps put32_def be32_def)
qed

lemma fills_identities [fills_intros]: "fills i (put_identities i ds) (concat (map psk_enc ds))"
proof (induction ds arbitrary: i)
  case (Cons d ds)
  have "fills i (\<lambda>b. put32 (i + 2 + length (psk_label d)) (psk_obfuscatedTicketAge d)
      (copy_at (i + 2) (psk_label d) (putlen i (length (psk_label d)) b))) (psk_enc d)"
    unfolding psk_enc_def
    by (rule fills_then [OF fills_vec16]) (use fills_put32 [of "i + 2 + length (psk_label d)"] in \<open>simp add: add.commute add.left_commute\<close>)
  from fills_then [OF this, of "put_identities (i + 2 + length (psk_label d) + 4) ds"] Cons [of "i + 2 + length (psk_label d) + 4"]
  show ?case
    by (simp add: fills_def psk_enc_def Let_def add.assoc)
qed (simp add: fills_def)

lemma fills_frame:
  assumes "fills 4 (stmts fs) body" "n = length body"
  shows "fills 0 (stmts (put16 0 ty # putlen 2 n # fs)) (tlv ty body)"
proof -
  have "fills 0 (stmts (put16 0 ty # putlen 2 n # fs)) (be16 ty @ be16 (of_nat n) @ body)"
    by (rule fills_stmts(2) [OF fills_put16], rule fills_stmts(2) [OF fills_at [OF fills_putlen]])
      (simp, use assms(1) in \<open>simp add: eval_nat_numeral\<close>)
  then show ?thesis
    using assms(2) by (simp add: ext_enc_def vec16_def)
qed

lemma fills_string_list:
  assumes "m = length (concat (map vec8 ss))" "n = m + 2"
  shows "fills 0 (stmts [put16 0 ty, put_strings 6 ss, putlen 4 m, putlen 2 n]) (tlv ty (vec16 (concat (map vec8 ss))))"
    "fills 0 (stmts [put16 0 ty, put_strings 6 ss, putlen 2 n, putlen 4 m]) (tlv ty (vec16 (concat (map vec8 ss))))"
proof -
  let ?c = "concat (map vec8 ss)"
  have p: "put16 0 ty (Some (replicate 2 0 @ x)) = Some (be16 ty @ x)" for x
    using fillsD [OF fills_put16 [of 0 ty], of "[]" x] by simp
  have s: "put_strings 6 ss (Some (be16 ty @ replicate 2 0 @ replicate 2 0 @ replicate (length ?c) 0 @ x))
      = Some (be16 ty @ replicate 2 0 @ replicate 2 0 @ ?c @ x)" for x
    using fillsD [OF fills_strings [of 6 ss], of "be16 ty @ replicate 2 0 @ replicate 2 0" x] by simp
  have l: "putlen 4 m (Some (be16 ty @ y @ replicate 2 0 @ x)) = Some (be16 ty @ y @ be16 (of_nat m) @ x)"
    if "length y = 2" for x y
    using fillsD [OF fills_putlen [of 4 m], of "be16 ty @ y" x] that by simp
  have h: "putlen 2 n (Some (be16 ty @ replicate 2 0 @ x)) = Some (be16 ty @ be16 (of_nat n) @ x)" for x
    using fillsD [OF fills_putlen [of 2 n], of "be16 ty" x] by simp
  have split: "replicate (length (be16 ty @ be16 (of_nat n) @ be16 (of_nat m) @ ?c)) 0 @ r
      = replicate 2 0 @ replicate 2 0 @ replicate 2 0 @ replicate (length ?c) (0 :: u8) @ r" for r
    by (simp add: eval_nat_numeral)
  have "tlv ty (vec16 ?c) = be16 ty @ be16 (of_nat n) @ be16 (of_nat m) @ ?c"
    using assms by (simp add: ext_enc_def vec16_def)
  then show "fills 0 (stmts [put16 0 ty, put_strings 6 ss, putlen 4 m, putlen 2 n]) (tlv ty (vec16 ?c))"
      "fills 0 (stmts [put16 0 ty, put_strings 6 ss, putlen 2 n, putlen 4 m]) (tlv ty (vec16 ?c))"
    by (simp_all only: fills_def stmts.simps length_0_conv simp_thms append_Nil split p s l h
        length_replicate length_be append_assoc all_simps)
qed


text \<open>The calls of \<open>Read\<close> that return no error of their own.\<close>

definition psk_readable :: "pskIdentity list \<Rightarrow> bytes list \<Rightarrow> bool \<Rightarrow> bool" where
  "psk_readable ids binders omitEmptyPsk \<longleftrightarrow> omitEmptyPsk \<or> (ids \<noteq> [] \<and> binders \<noteq> [])"

definition ext_readable :: "TLSExtension \<Rightarrow> bool" where
  "ext_readable e = (case e of
     UtlsPaddingExtension paddingLen willPad _ \<Rightarrow> willPad \<longrightarrow> paddingLen \<ge> 0
   | UtlsCompressCertExtension algs \<Rightarrow> 2 * length algs \<le> 255
   | SupportedVersionsExtension versions \<Rightarrow> 2 * length versions \<le> 255
   | PSKKeyExchangeModesExtension modes \<Rightarrow> length modes \<le> 255
   | UtlsPreSharedKeyExtension p \<Rightarrow> psk_readable (psk_Identities p) (psk_Binders p) (psk_OmitEmptyPsk p) \<and>
       psk_cachedLength p \<in> {None, Some (pskExtLen (psk_Identities p) (psk_Binders p))}
   | FakePreSharedKeyExtension ids binders omit \<Rightarrow>
       psk_readable (case ids of Some l \<Rightarrow> l | None \<Rightarrow> []) (case binders of Some l \<Rightarrow> l | None \<Rightarrow> []) omit \<and>
       (\<forall>binder \<in> set (case binders of Some l \<Rightarrow> l | None \<Rightarrow> []). length binder \<in> set validHashLen)
   | TrustAnchorsExtension anchors _ emitOrder \<Rightarrow>
       strings_len (TrustAnchorsExtension_list anchors emitOrder) = strings_len anchors \<and> strings_len anchors \<le> 0xffff - 2
   | _ \<Rightarrow> True)"

definition produces :: "(bytes \<Rightarrow> read_result) \<Rightarrow> int \<Rightarrow> bytes \<Rightarrow> bool" where
  "produces rd n w \<longleftrightarrow> n = int (length w) \<and>
     (\<forall>N. rd (replicate N 0) =
        (if N < length w then Some (0, ShortBuffer, replicate N 0) else Some (n, EOF, w @ replicate (N - length w) 0)))"

lemma producesI:
  assumes "fills 0 (stmts fs) w" "n = int (length w)"
  shows "produces (read_into n fs) n w"
proof -
  have "stmts fs (Some (replicate N 0)) = Some (w @ replicate (N - length w) 0)" if "length w \<le> N" for N
    using fillsD [OF assms(1), of "[]" "replicate (N - length w) 0"] that by (simp flip: replicate_add)
  then show ?thesis
    using assms(2) by (simp add: produces_def read_into_def)
qed

lemma produces_nothing: "(\<And>b. rd b = Some (0, EOF, b)) \<Longrightarrow> produces rd 0 []"
  by (simp add: produces_def)

lemma produces_cong: "(\<And>b. rd b = rd' b) \<Longrightarrow> produces rd n w = produces rd' n w"
  by (simp add: produces_def)

lemma length_concat_vec8: "length (concat (map vec8 ss)) = strings_len ss"
  by (induction ss) (simp_all add: strings_len_def)

lemma length_concat_ks_enc: "length (concat (map ks_enc kss)) = keySharesLen kss"
  by (induction kss) (simp_all add: keySharesLen_def ks_enc_def)

lemma length_concat_psk_enc: "length (concat (map psk_enc ids)) = identities_len ids"
  by (induction ids) (simp_all add: identities_len_def psk_enc_def)

lemmas body_lengths = length_concat_be16 length_concat_vec8 length_concat_ks_enc length_concat_psk_enc

lemma length_tlv [simp]: "length (tlv ty body) = length body + 4"
  by (simp add: ext_enc_def)

lemma fills_leaf:
  "j = i \<Longrightarrow> v = w \<Longrightarrow> fills j (put i v) [w]"
  "j = i \<Longrightarrow> x = of_nat n \<Longrightarrow> fills j (putlen i n) (be16 x)"
  "j = i \<Longrightarrow> fills j (put16 i y) (be16 y)"
  "j = i \<Longrightarrow> fills j (copy_at i s) s"
  "j = i \<Longrightarrow> fills j (if_stmts (length s > 0) [copy_at i s]) s"
  "j = i \<Longrightarrow> fills j (put_u16s i vs) (concat (map be16 vs))"
  "j = i \<Longrightarrow> fills j (put_strings i ss) (concat (map vec8 ss))"
  "j = i \<Longrightarrow> fills j (put_keyShares i kss) (concat (map ks_enc kss))"
  "j = i \<Longrightarrow> fills j (put_identities i ds) (concat (map psk_enc ds))"
  by (simp_all add: fills_intros del: length_greater_0_conv)

text \<open>The bodies, by what is in them: values of 16 bits, bytes, strings, other vectors, nothing.\<close>

lemma produces_u16s:
  "produces (read_into (int (6 + 2 * length vs)) [put16 0 ty, putlen 2 (2 + 2 * length vs), putlen 4 (2 * length vs), put_u16s 6 vs])
     (int (6 + 2 * length vs)) (tlv ty (vec16 (concat (map be16 vs))))"
  "produces (read_into (int (4 + 1 + 2 * length vs)) [put16 0 ty, putlen 2 (2 * length vs + 1), put 4 (of_nat (2 * length vs)), put_u16s 5 vs])
     (int (4 + 1 + 2 * length vs)) (tlv ty (vec8 (concat (map be16 vs))))"
  unfolding vec16_def vec8_def by (intro producesI fills_frame fills_stmts fills_leaf; simp add: body_lengths)+

lemma produces_bytes:
  "produces (read_into (int (5 + length s)) [put16 0 ty, putlen 2 (1 + length s), put 4 (of_nat (length s)), copy_at 5 s])
     (int (5 + length s)) (tlv ty (vec8 s))"
  "produces (read_into (int (4 + 1 + length s)) [put16 0 ty, putlen 2 (length s + 1), put 4 (of_nat (length s)),
      if_stmts (length s > 0) [copy_at 5 s]]) (int (4 + 1 + length s)) (tlv ty (vec8 s))"
  "produces (read_into (int (6 + length s)) [put16 0 ty, putlen 2 (2 + length s), putlen 4 (length s), copy_at 6 s])
     (int (6 + length s)) (tlv ty (vec16 s))"
  "produces (read_into (int (4 + length s)) [put16 0 ty, putlen 2 (length s), if_stmts (length s > 0) [copy_at 4 s]])
     (int (4 + length s)) (tlv ty s)"
  "produces (read_into (int (4 + length s)) [put16 0 ty, putlen 2 (length s), copy_at 4 s]) (int (4 + length s)) (tlv ty s)"
  "produces (read_into (int (2 + 2 + 2 + 1 + length s)) [put16 0 ty, putlen 2 (3 + length s), put 4 v, put 5 w,
      put 6 (of_nat (length s)), if_stmts (length s > 0) [copy_at 7 s]]) (int (2 + 2 + 2 + 1 + length s)) (tlv ty (v # w # vec8 s))"
  unfolding vec16_def vec8_def by (intro producesI fills_frame fills_stmts fills_leaf; simp)+

lemma produces_strings:
  assumes "strings_len l = strings_len ss"
  shows "produces (read_into (int (2 + 2 + 2 + strings_len ss)) [put16 0 ty, put_strings 6 l, putlen (2 + 2) (strings_len l), putlen 2 (strings_len l + 2)])
     (int (2 + 2 + 2 + strings_len ss)) (tlv ty (vec16 (concat (map vec8 l))))"
    "produces (read_into (int (2 + 2 + 2 + strings_len ss)) [put16 0 ty, put_strings 6 l, putlen 2 (strings_len l + 2), putlen 4 (strings_len l)])
     (int (2 + 2 + 2 + strings_len ss)) (tlv ty (vec16 (concat (map vec8 l))))"
  using fills_string_list [of "strings_len l" l "strings_len l + 2" ty] assms
  by (intro producesI; simp add: body_lengths)+

lemma fills_header: "fills 0 (stmts [put16 0 ty]) (tlv ty [])"
proof -
  have "fills 0 (stmts [put16 0 ty]) (be16 ty @ replicate 2 0)"
    by (intro fills_rest fills_stmts fills_put16)
  then show ?thesis
    by (simp add: ext_enc_def vec16_def be16_def numeral_2_eq_2)
qed

lemma produces_fixed:
  "produces (read_into 4 [put16 0 ty]) 4 (tlv ty [])"
  "produces (read_into 4 [put16 0 ty, put 2 0, put 3 0]) 4 (tlv ty [])"
  "produces (read_into 6 [put16 0 ty, put 2 0, put 3 2, put16 4 v]) 6 (tlv ty (be16 v))"
  "produces (read_into 9 [put16 0 ty, put 2 0, put 3 5, put 4 1]) 9 (tlv ty [1, 0, 0, 0, 0])"
  "produces (read_into 13 [put16 0 ty, put 2 0, put 3 9, put 4 0, put 5 7, put 6 2, put 7 0, put 8 4]) 13
     (tlv ty [0, 7, 2, 0, 4, 0, 0, 0, 0])"
proof -
  have len: "be16 (of_nat n :: u16) = [0, of_nat n]" if "n \<in> {0, 2, 5, 9}" for n
    using that by (auto simp: be16_of_nat hi16_def)
  show "produces (read_into 4 [put16 0 ty]) 4 (tlv ty [])"
    by (intro producesI fills_header) simp
  have "fills 0 (stmts [put16 0 ty, put 2 0, put 3 0]) (be16 ty @ 0 # [0])"
    by (intro fills_stmts fills_leaf; simp)
  then show "produces (read_into 4 [put16 0 ty, put 2 0, put 3 0]) 4 (tlv ty [])"
    using len [of 0] by (intro producesI) (simp_all add: ext_enc_def vec16_def)
  have "fills 0 (stmts [put16 0 ty, put 2 0, put 3 2, put16 4 v]) (be16 ty @ 0 # 2 # be16 v)"
    by (intro fills_stmts fills_leaf; simp)
  then show "produces (read_into 6 [put16 0 ty, put 2 0, put 3 2, put16 4 v]) 6 (tlv ty (be16 v))"
    using len [of 2] by (intro producesI) (simp_all add: ext_enc_def vec16_def)
  have "fills 0 (stmts [put16 0 ty, put 2 0, put 3 5, put 4 1]) ((be16 ty @ 0 # 5 # [1]) @ replicate 4 0)"
    by (intro fills_rest fills_stmts fills_leaf; simp)
  then show "produces (read_into 9 [put16 0 ty, put 2 0, put 3 5, put 4 1]) 9 (tlv ty [1, 0, 0, 0, 0])"
    using len [of 5] by (intro producesI) (simp_all add: ext_enc_def vec16_def eval_nat_numeral)
  have "fills 0 (stmts [put16 0 ty, put 2 0, put 3 9, put 4 0, put 5 7, put 6 2, put 7 0, put 8 4])
      ((be16 ty @ 0 # 9 # 0 # 7 # 2 # 0 # [4]) @ replicate 4 0)"
    by (intro fills_rest fills_stmts fills_leaf; simp)
  then show "produces (read_into 13 [put16 0 ty, put 2 0, put 3 9, put 4 0, put 5 7, put 6 2, put 7 0, put 8 4]) 13
      (tlv ty [0, 7, 2, 0, 4, 0, 0, 0, 0])"
    using len [of 9] by (intro producesI) (simp_all add: ext_enc_def vec16_def eval_nat_numeral)
qed

lemma produces_keyShares:
  "produces (read_into (int (4 + 2 + keySharesLen kss)) [put16 0 ty, putlen 2 (keySharesLen kss + 2), putlen 4 (keySharesLen kss),
      put_keyShares 6 kss]) (int (4 + 2 + keySharesLen kss)) (tlv ty (vec16 (concat (map ks_enc kss))))"
  unfolding vec16_def by (intro producesI fills_frame fills_stmts fills_leaf; simp add: body_lengths)

lemma produces_sni:
  "produces (read_into (int (4 + 2 + 1 + 2 + length s)) [put16 0 ty, putlen 2 (length s + 5), putlen 4 (length s + 3),
      putlen 7 (length s), copy_at 9 s]) (int (4 + 2 + 1 + 2 + length s)) (tlv ty (vec16 (0 # vec16 s)))"
proof -
  have "fills 6 (stmts [putlen 7 (length s), copy_at 9 s]) (replicate 1 0 @ be16 (of_nat (length s)) @ s)"
    by (intro fills_gap fills_stmts fills_leaf; simp)
  then have "fills 4 (stmts [putlen 4 (length s + 3), putlen 7 (length s), copy_at 9 s])
      (be16 (of_nat (length s + 3)) @ 0 # be16 (of_nat (length s)) @ s)"
    by (intro fills_stmts(2) [OF fills_leaf(2)]) (simp_all add: eval_nat_numeral)
  then show ?thesis
    by (intro producesI fills_frame) (simp_all add: vec16_def add.commute)
qed

lemma produces_padding:
  assumes "n \<ge> 0"
  shows "produces (read_into (4 + n) [put16 0 ty, put 2 (of_int (drop_bit 8 n)), put 3 (of_int n)]) (4 + n)
      (tlv ty (replicate (nat n) 0))"
proof -
  obtain k where n: "n = int k"
    using assms nonneg_int_cases by blast
  have "drop_bit 8 (int k) = int (drop_bit 8 k)"
    by (simp add: drop_bit_of_nat)
  moreover have "fills 0 (stmts [put16 0 ty, put 2 (of_int (drop_bit 8 n)), put 3 (of_int n)])
      ((be16 ty @ hi16 k # [of_nat k]) @ replicate k 0)"
    by (intro fills_rest fills_stmts fills_leaf) (simp_all add: n calculation hi16_def)
  ultimately show ?thesis
    by (intro producesI) (simp_all add: n ext_enc_def vec16_def be16_of_nat)
qed

lemma produces_psk:
  assumes "ids \<noteq> []" "binders \<noteq> []"
  shows "produces (readPskIntoBytes ids binders) (pskExtLen ids binders)
      (tlv extensionPreSharedKey (vec16 (concat (map psk_enc ids)) @ vec16 (concat (map vec8 binders))))"
proof -
  have n: "pskExtLen ids binders = int (4 + (2 + identities_len ids + 2 + strings_len binders))"
    using assms by (simp add: pskExtLen_def)
  have "produces (read_into (pskExtLen ids binders) [put16 0 extensionPreSharedKey, putlen 2 (nat (pskExtLen ids binders - 4)),
      putlen 4 (identities_len ids), put_identities 6 ids, putlen (6 + identities_len ids) (strings_len binders),
      put_strings (6 + identities_len ids + 2) binders]) (pskExtLen ids binders)
      (tlv extensionPreSharedKey (be16 (of_nat (identities_len ids)) @ concat (map psk_enc ids) @
         be16 (of_nat (strings_len binders)) @ concat (map vec8 binders)))"
    unfolding n by (intro producesI fills_frame fills_stmts fills_leaf; simp add: body_lengths)
  moreover have "readPskIntoBytes ids binders b = read_into (pskExtLen ids binders) [put16 0 extensionPreSharedKey,
      putlen 2 (nat (pskExtLen ids binders - 4)),
      putlen 4 (identities_len ids), put_identities 6 ids, putlen (6 + identities_len ids) (strings_len binders),
      put_strings (6 + identities_len ids + 2) binders] b" for b
    using n by (simp add: readPskIntoBytes_def Let_def)
  ultimately show ?thesis
    by (simp only: produces_cong [of "readPskIntoBytes ids binders"] vec16_def body_lengths append_assoc)
qed

lemma produces_ech: "produces (GreaseECH_Read g) (GreaseECH_Len g) (ext_wire (GREASEEncryptedClientHelloExtension g))"
proof -
  let ?k = "length (g_EncapsulatedKey g)"
  have n: "GreaseECH_Len g = int (4 + (8 + ?k + 2 + length (g_payload g)))"
    by (simp add: GreaseECH_Len_def)
  have "produces (GreaseECH_Read g) (GreaseECH_Len g) (tlv utlsExtensionECH (0 # be16 (fst (g_cipherSuite g)) @
      be16 (snd (g_cipherSuite g)) @ g_configId g # be16 (of_nat ?k) @ g_EncapsulatedKey g @
      be16 (of_nat (length (g_payload g))) @ g_payload g))"
    unfolding GreaseECH_Read_def n Let_def by (intro producesI fills_frame fills_stmts fills_leaf; simp)
  then show ?thesis
    by (simp add: ext_wire_def vec16_def)
qed

lemma psk_readable_produces:
  assumes "psk_readable ids binders omit"
  shows "pskExtLen ids binders = 0 \<longrightarrow> omit"
    "produces (readPskIntoBytes ids binders) (pskExtLen ids binders)
       (case psk_content ids binders of None \<Rightarrow> [] | Some (ty, body) \<Rightarrow> tlv ty body)"
proof -
  show "pskExtLen ids binders = 0 \<longrightarrow> omit"
    using assms by (auto simp: psk_readable_def pskExtLen_def)
  show "produces (readPskIntoBytes ids binders) (pskExtLen ids binders)
       (case psk_content ids binders of None \<Rightarrow> [] | Some (ty, body) \<Rightarrow> tlv ty body)"
  proof (cases "ids = [] \<or> binders = []")
    case True
    then have "pskExtLen ids binders = 0"
      by (auto simp: pskExtLen_def)
    then have "produces (readPskIntoBytes ids binders) 0 []"
      by (intro produces_nothing) (simp add: readPskIntoBytes_def)
    then show ?thesis
      using True \<open>pskExtLen ids binders = 0\<close> by (auto simp: psk_content_def)
  next
    case False
    then show ?thesis
      using produces_psk by (simp add: psk_content_def)
  qed
qed

lemma UtlsPSK_produces:
  assumes "ext_readable (UtlsPreSharedKeyExtension p)"
  shows "produces (UtlsPSK_Read p) (UtlsPSK_Len p) (ext_wire (UtlsPreSharedKeyExtension p))"
proof -
  let ?i = "psk_Identities p" and ?b = "psk_Binders p"
  have r: "psk_readable ?i ?b (psk_OmitEmptyPsk p)"
    and len: "UtlsPSK_Len p = pskExtLen ?i ?b"
    using assms by (auto simp: ext_readable_def UtlsPSK_Len_def pskExtLen_def)
  have "produces (UtlsPSK_Read p) n w = produces (readPskIntoBytes ?i ?b) n w" for n w
    by (rule produces_cong) (use psk_readable_produces(1) [OF r] in \<open>auto simp: UtlsPSK_Read_def len\<close>)
  then show ?thesis
    using psk_readable_produces(2) [OF r] by (simp add: len ext_wire_def)
qed

lemma FakePSK_produces:
  assumes "ext_readable (FakePreSharedKeyExtension ids binders omit)"
  shows "produces (FakePSK_Read ids binders omit) (FakePSK_Len ids binders) (ext_wire (FakePreSharedKeyExtension ids binders omit))"
proof -
  let ?i = "case ids of Some l \<Rightarrow> l | None \<Rightarrow> []" and ?b = "case binders of Some l \<Rightarrow> l | None \<Rightarrow> []"
  have r: "psk_readable ?i ?b omit" and len: "FakePSK_Len ids binders = pskExtLen ?i ?b"
    and ok: "\<forall>binder \<in> set ?b. length binder \<in> set validHashLen"
    using assms by (auto simp: ext_readable_def FakePSK_Len_def)
  have "produces (FakePSK_Read ids binders omit) n w = produces (readPskIntoBytes ?i ?b) n w" for n w
    by (rule produces_cong) (use psk_readable_produces(1) [OF r] ok in \<open>auto simp: FakePSK_Read_def len\<close>)
  then show ?thesis
    using psk_readable_produces(2) [OF r] by (simp add: len ext_wire_def)
qed

lemmas ext_unfold = ext_wire_def SNIExtension_Len_def SNIExtension_Read_def StatusRequestExtension_Len_def StatusRequestExtension_Read_def
  StatusRequestV2Extension_Len_def StatusRequestV2Extension_Read_def SupportedCurvesExtension_Len_def SupportedCurvesExtension_Read_def
  SignatureAlgorithmsExtension_Len_def SignatureAlgorithmsExtension_Read_def SignatureAlgorithmsCertExtension_Len_def
  SignatureAlgorithmsCertExtension_Read_def FakeDelegatedCredentialsExtension_Len_def FakeDelegatedCredentialsExtension_Read_def
  UtlsCompressCertExtension_Len_def SupportedVersionsExtension_Len_def SupportedPointsExtension_Len_def SupportedPointsExtension_Read_def
  PSKKeyExchangeModesExtension_Len_def RenegotiationInfoExtension_Len_def RenegotiationInfoExtension_Read_def CookieExtension_Len_def
  CookieExtension_Read_def GenericExtension_Len_def GenericExtension_Read_def UtlsGREASEExtension_Len_def UtlsGREASEExtension_Read_def
  SessionTicketExtension_Len_def SessionTicketExtension_Read_def FakeTokenBindingExtension_Len_def FakeTokenBindingExtension_Read_def
  FakeRecordSizeLimitExtension_Len_def FakeRecordSizeLimitExtension_Read_def QUICTransportParametersExtension_Len_def
  QUICTransportParametersExtension_Read_def ALPNExtension_Len_def ALPNExtension_Read_def applicationSettingsExtension_Len_def
  applicationSettingsExtension_Read_def TrustAnchorsExtension_Len_def SCTExtension_Len_def SCTExtension_Read_def
  ExtendedMasterSecretExtension_Len_def ExtendedMasterSecretExtension_Read_def NPNExtension_Len_def NPNExtension_Read_def
  FakeChannelIDExtension_Len_def FakeChannelIDExtension_Read_def FakeEarlyDataExtension_Len_def FakeEarlyDataExtension_Read_def
  UtlsPaddingExtension_Len_def KeyShareExtension_Len_def KeyShareExtension_Read_def

lemma checked_produces:
  "2 * length vs \<le> 255 \<Longrightarrow>
     produces (UtlsCompressCertExtension_Read vs) (UtlsCompressCertExtension_Len vs) (ext_wire (UtlsCompressCertExtension vs))"
  "2 * length vs \<le> 255 \<Longrightarrow>
     produces (SupportedVersionsExtension_Read vs) (SupportedVersionsExtension_Len vs) (ext_wire (SupportedVersionsExtension vs))"
  "length s \<le> 255 \<Longrightarrow>
     produces (PSKKeyExchangeModesExtension_Read s) (PSKKeyExchangeModesExtension_Len s) (ext_wire (PSKKeyExchangeModesExtension s))"
  "(willPad \<longrightarrow> n \<ge> 0) \<Longrightarrow>
     produces (UtlsPaddingExtension_Read n willPad) (UtlsPaddingExtension_Len n willPad) (ext_wire (UtlsPaddingExtension n willPad f))"
  using produces_u16s(2) produces_bytes(2) produces_padding produces_nothing
  by (simp_all add: UtlsCompressCertExtension_Read_def [abs_def] SupportedVersionsExtension_Read_def [abs_def]
      PSKKeyExchangeModesExtension_Read_def [abs_def] UtlsPaddingExtension_Read_def [abs_def] ext_unfold Let_def
      del: length_greater_0_conv)

lemma trust_anchors_produces:
  assumes "strings_len (TrustAnchorsExtension_list ss order) = strings_len ss" "strings_len ss \<le> 0xffff - 2"
  shows "produces (TrustAnchorsExtension_Read ss order) (TrustAnchorsExtension_Len ss) (ext_wire (TrustAnchorsExtension ss sh order))"
  using produces_strings(2) [OF assms(1)] assms
  by (simp add: TrustAnchorsExtension_Read_def [abs_def] ext_unfold Let_def)

lemma ext_produces:
  assumes "ext_readable e"
  shows "produces (ext_Read e) (ext_Len e) (ext_wire e)"
proof (cases e)
  case (SNIExtension s)
  then show ?thesis
    using produces_sni [of "hostnameInSNI s" 0] by (simp add: SNIExtension_Read_def [abs_def] ext_unfold Let_def produces_nothing)
next
  case (ALPNExtension ss)
  then show ?thesis
    using produces_strings(1) [OF refl] by (simp add: ext_unfold)
next
  case (ApplicationSettingsExtension ss)
  then show ?thesis
    using produces_strings(1) [OF refl] by (simp add: ext_unfold)
next
  case (ApplicationSettingsExtensionNew ss)
  then show ?thesis
    using produces_strings(1) [OF refl] by (simp add: ext_unfold)
qed (use assms UtlsPSK_produces FakePSK_produces produces_ech checked_produces trust_anchors_produces
      produces_u16s(1) produces_bytes produces_keyShares in
    \<open>simp_all add: ext_readable_def ext_unfold Let_def produces_fixed
      del: length_greater_0_conv\<close>)

lemma concat_ext_wire: "concat (map ext_wire es) = concat (map ext_enc (List.map_filter ext_content es))"
  by (induction es) (auto simp: ext_wire_def List.map_filter_def split: option.splits)



end
