(* ===== verification/Fingerprinting.thy ===== *)
theory Fingerprinting
  imports Extension_Bytes
begin

unbundle bit_operations_syntax

text \<open>
  Reading a captured ClientHello into a fingerprint: the \<open>Write\<close> methods of the extensions, which
  parse a body, \<open>ExtensionFromID\<close>, and \<open>ReadCipherSuites\<close>, \<open>ReadTLSExtensions\<close> and \<open>FromRaw\<close> of
  \<open>ClientHelloSpec\<close> (u_common.go). An error return is \<open>None\<close>: the callers drop the extension then.
\<close>

section \<open>GREASE values\<close>

definition isGREASEUint16 :: "u16 \<Rightarrow> bool" where
  "isGREASEUint16 v \<longleftrightarrow> drop_bit 8 v = v AND 0xff \<and> v AND 0xf = 0xa"

definition unGREASEUint16 :: "u16 \<Rightarrow> u16" where
  "unGREASEUint16 v = (if isGREASEUint16 v then GREASE_PLACEHOLDER else v)"


section \<open>Parsing the bodies\<close>

definition SNIExtension_Write :: "cryptobyte \<Rightarrow> bytes \<Rightarrow> unit option" where
  "SNIExtension_Write cb extData = do {
     (nameList, extData) \<leftarrow> ReadUint16LengthPrefixed cb extData;
     require (nameList \<noteq> []);
     serverName \<leftarrow> read_serverNames cb nameList [];
     Some () }"

definition StatusRequestExtension_Write :: "cryptobyte \<Rightarrow> bytes \<Rightarrow> unit option" where
  "StatusRequestExtension_Write cb extData = do {
     (statusType, extData) \<leftarrow> ReadUint8 cb extData;
     (ignored, extData) \<leftarrow> ReadUint16LengthPrefixed cb extData;
     (ignored, extData) \<leftarrow> ReadUint16LengthPrefixed cb extData;
     require (statusType = statusTypeOCSP) }"

definition StatusRequestV2Extension_Write :: "cryptobyte \<Rightarrow> bytes \<Rightarrow> unit option" where
  "StatusRequestV2Extension_Write cb extData = do {
     (ignored, extData) \<leftarrow> ReadUint16LengthPrefixed cb extData;
     (statusType, ignored) \<leftarrow> ReadUint8 cb ignored;
     require (statusType = 2) }"

definition SupportedCurvesExtension_Write :: "cryptobyte \<Rightarrow> bytes \<Rightarrow> u16 list option" where
  "SupportedCurvesExtension_Write cb extData = do {
     (curvesBytes, extData) \<leftarrow> ReadUint16LengthPrefixed cb extData;
     require (curvesBytes \<noteq> []);
     curves \<leftarrow> read_uint16s cb curvesBytes [];
     Some (map unGREASEUint16 curves) }"

definition SupportedPointsExtension_Write :: "cryptobyte \<Rightarrow> bytes \<Rightarrow> bytes option" where
  "SupportedPointsExtension_Write cb extData = do {
     (supportedPoints, extData) \<leftarrow> readUint8LengthPrefixed cb extData;
     require (length supportedPoints \<noteq> 0);
     Some supportedPoints }"

definition SignatureAlgorithmsExtension_Write :: "cryptobyte \<Rightarrow> bytes \<Rightarrow> u16 list option" where
  "SignatureAlgorithmsExtension_Write cb extData = do {
     (sigAndAlgs, extData) \<leftarrow> ReadUint16LengthPrefixed cb extData;
     require (sigAndAlgs \<noteq> []);
     read_uint16s cb sigAndAlgs [] }"

definition SignatureAlgorithmsCertExtension_Write :: "cryptobyte \<Rightarrow> bytes \<Rightarrow> u16 list option" where
  "SignatureAlgorithmsCertExtension_Write cb extData = do {
     (sigAndAlgs, extData) \<leftarrow> ReadUint16LengthPrefixed cb extData;
     require (sigAndAlgs \<noteq> []);
     read_uint16s cb sigAndAlgs [] }"

definition FakeDelegatedCredentialsExtension_Write :: "cryptobyte \<Rightarrow> bytes \<Rightarrow> u16 list option" where
  "FakeDelegatedCredentialsExtension_Write cb extData = do {
     (supportedAlgs, extData) \<leftarrow> ReadUint16LengthPrefixed cb extData;
     require (supportedAlgs \<noteq> []);
     read_uint16s cb supportedAlgs [] }"

definition ALPNExtension_Write :: "cryptobyte \<Rightarrow> bytes \<Rightarrow> bytes list option" where
  "ALPNExtension_Write cb extData = do {
     (protoList, extData) \<leftarrow> ReadUint16LengthPrefixed cb extData;
     require (protoList \<noteq> []);
     read_vec8s cb protoList [] }"

definition applicationSettingsExtension_Write :: "cryptobyte \<Rightarrow> bytes \<Rightarrow> bytes list option" where
  "applicationSettingsExtension_Write cb extData = do {
     (protoList, extData) \<leftarrow> ReadUint16LengthPrefixed cb extData;
     require (protoList \<noteq> []);
     read_vec8s cb protoList [] }"

definition UtlsCompressCertExtension_Write :: "cryptobyte \<Rightarrow> bytes \<Rightarrow> u16 list option" where
  "UtlsCompressCertExtension_Write cb extData = do {
     (methodsRaw, extData) \<leftarrow> ReadUint8LengthPrefixed cb extData;
     read_uint16s cb methodsRaw [] }"

definition KeyShareExtension_Write :: "cryptobyte \<Rightarrow> bytes \<Rightarrow> keyShare list option" where
  "KeyShareExtension_Write cb extData = do {
     (clientShares, extData) \<leftarrow> ReadUint16LengthPrefixed cb extData;
     while_nonempty (\<lambda>s keyShares. do {
       (g, s) \<leftarrow> ReadUint16 cb s;
       (d, s) \<leftarrow> readUint16LengthPrefixed cb s;
       require (length d \<noteq> 0);
       let g = unGREASEUint16 g;
       let d = (if g \<noteq> GREASE_PLACEHOLDER then [] else d);
       Some (keyShares @ [\<lparr>ks_group = g, ks_data = d\<rparr>], s) }) clientShares [] }"

definition PSKKeyExchangeModesExtension_Write :: "cryptobyte \<Rightarrow> bytes \<Rightarrow> bytes option" where
  "PSKKeyExchangeModesExtension_Write cb extData = do {
     (pskModes, extData) \<leftarrow> readUint8LengthPrefixed cb extData;
     Some pskModes }"

definition SupportedVersionsExtension_Write :: "cryptobyte \<Rightarrow> bytes \<Rightarrow> u16 list option" where
  "SupportedVersionsExtension_Write cb extData = do {
     (versList, extData) \<leftarrow> ReadUint8LengthPrefixed cb extData;
     require (versList \<noteq> []);
     versions \<leftarrow> read_uint16s cb versList [];
     Some (map unGREASEUint16 versions) }"

definition FakeRecordSizeLimitExtension_Write :: "cryptobyte \<Rightarrow> bytes \<Rightarrow> u16 option" where
  "FakeRecordSizeLimitExtension_Write cb extData = do {
     (limit, extData) \<leftarrow> ReadUint16 cb extData;
     Some limit }"

definition FakeTokenBindingExtension_Write :: "cryptobyte \<Rightarrow> bytes \<Rightarrow> (u8 \<times> u8 \<times> bytes) option" where
  "FakeTokenBindingExtension_Write cb extData = do {
     (major, extData) \<leftarrow> ReadUint8 cb extData;
     (minor, extData) \<leftarrow> ReadUint8 cb extData;
     (keyParameters, extData) \<leftarrow> ReadUint8LengthPrefixed cb extData;
     Some (major, minor, keyParameters) }"

definition TrustAnchorsExtension_Write :: "cryptobyte \<Rightarrow> bytes \<Rightarrow> bytes list option" where
  "TrustAnchorsExtension_Write cb extData = do {
     (l, extData) \<leftarrow> ReadUint16LengthPrefixed cb extData;
     read_vec8s cb l [] }"

text \<open>
  The loops of \<open>FakePreSharedKeyExtension.Write\<close> count down 16-bit lengths, which wrap around. Every
  round reads at least one byte, so the length of the input is enough fuel: when it runs out the input is empty
  and the next read fails as well.
\<close>

fun psk_read_identities :: "nat \<Rightarrow> cryptobyte \<Rightarrow> u16 \<Rightarrow> bytes \<Rightarrow> pskIdentity list \<Rightarrow> (pskIdentity list \<times> bytes) option" where
  "psk_read_identities fuel cb identitiesLength s ids =
     (if identitiesLength = 0 then Some (ids, s)
      else case fuel of 0 \<Rightarrow> None | Suc fuel \<Rightarrow> do {
        (identityLength, s) \<leftarrow> ReadUint16 cb s;
        require (identityLength \<le> identitiesLength - 2);
        (identity, s) \<leftarrow> ReadBytes cb s (unat identityLength);
        (age, s) \<leftarrow> ReadUint32 cb s;
        psk_read_identities fuel cb (identitiesLength - 2 - identityLength - 4) s
          (ids @ [\<lparr>psk_label = identity, psk_obfuscatedTicketAge = age\<rparr>]) })"

declare psk_read_identities.simps [simp del]

fun psk_read_binders :: "nat \<Rightarrow> cryptobyte \<Rightarrow> u16 \<Rightarrow> bytes \<Rightarrow> bytes list \<Rightarrow> bytes list option" where
  "psk_read_binders fuel cb bindersLength s binders =
     (if bindersLength = 0 then Some binders
      else case fuel of 0 \<Rightarrow> None | Suc fuel \<Rightarrow> do {
        (binderLength, s) \<leftarrow> ReadUint8 cb s;
        require (ucast binderLength \<le> bindersLength - 1);
        (binder, s) \<leftarrow> ReadBytes cb s (unat binderLength);
        psk_read_binders fuel cb (bindersLength - 1 - ucast binderLength) s (binders @ [binder]) })"

declare psk_read_binders.simps [simp del]

definition FakePSK_Write :: "cryptobyte \<Rightarrow> bytes \<Rightarrow> (pskIdentity list \<times> bytes list) option" where
  "FakePSK_Write cb s = do {
     (identitiesLength, s) \<leftarrow> ReadUint16 cb s;
     (ids, s) \<leftarrow> psk_read_identities (length s) cb identitiesLength s [];
     (bindersLength, s) \<leftarrow> ReadUint16 cb s;
     binders \<leftarrow> psk_read_binders (length s) cb bindersLength s [];
     Some (ids, binders) }"

definition cipherLen :: "u16 \<Rightarrow> int \<Rightarrow> int option" where
  "cipherLen a mLen = (if a \<in> {1, 2, 3} then Some (mLen + 16) else None)"

definition GreaseECH_Write :: "cryptobyte \<Rightarrow> GreaseECH \<Rightarrow> bytes \<Rightarrow> rand_source \<Rightarrow> (GreaseECH \<times> rand_source) option" where
  "GreaseECH_Write cb g extData rnd = do {
     (chType, extData) \<leftarrow> ReadUint8 cb extData;
     require (chType = 0);
     (kdfId, extData) \<leftarrow> ReadUint16 cb extData;
     (aeadId, extData) \<leftarrow> ReadUint16 cb extData;
     require (kdfId \<in> {1, 2, 3});
     require (aeadId \<in> {1, 2, 3});
     (configId, extData) \<leftarrow> ReadUint8 cb extData;
     (ignored, extData) \<leftarrow> ReadUint16LengthPrefixed cb extData;
     let (encapsulatedKey, rnd) = rand_Read (length ignored) rnd;
     (ignored, extData) \<leftarrow> ReadUint16LengthPrefixed cb extData;
     overhead \<leftarrow> cipherLen aeadId 0;
     Some (g\<lparr>g_cipherSuite := (kdfId, aeadId), g_CandidateCipherSuites := [(kdfId, aeadId)], g_configId := configId,
       g_EncapsulatedKey := encapsulatedKey, g_CandidatePayloadLens := [of_int (int (length ignored) - overhead)]\<rparr>, rnd) }"


section \<open>From an extension number to an extension\<close>

definition UtlsPSK_zero :: UtlsPSK where
  "UtlsPSK_zero = \<lparr>psk_Session = None, psk_Identities = [], psk_Binders = [], psk_BinderKey = [], psk_EarlySecret = [],
     psk_hashSize = None, psk_cachedLength = None, psk_OmitEmptyPsk = False, psk_SkipBinderPatching = False\<rparr>"

definition GreaseECH_zero :: GreaseECH where
  "GreaseECH_zero = \<lparr>g_CandidateCipherSuites = [], g_cipherSuite = (0, 0), g_CandidateConfigIds = [], g_configId = 0,
     g_EncapsulatedKey = [], g_CandidatePayloadLens = [], g_payload = [], g_initDone = False\<rparr>"

definition ExtensionFromID :: "u16 \<Rightarrow> TLSExtension option" where
  "ExtensionFromID i =
     (if i = extensionServerName then Some (SNIExtension [])
      else if i = extensionStatusRequest then Some StatusRequestExtension
      else if i = extensionSupportedCurves then Some (SupportedCurvesExtension [])
      else if i = extensionSupportedPoints then Some (SupportedPointsExtension [])
      else if i = extensionSignatureAlgorithms then Some (SignatureAlgorithmsExtension [])
      else if i = extensionALPN then Some (ALPNExtension [])
      else if i = extensionStatusRequestV2 then Some StatusRequestV2Extension
      else if i = extensionSCT then Some SCTExtension
      else if i = utlsExtensionPadding then Some (UtlsPaddingExtension 0 False None)
      else if i = extensionExtendedMasterSecret then Some ExtendedMasterSecretExtension
      else if i = fakeExtensionTokenBinding then Some (FakeTokenBindingExtension 0 0 [])
      else if i = utlsExtensionCompressCertificate then Some (UtlsCompressCertExtension [])
      else if i = fakeRecordSizeLimit then Some (FakeRecordSizeLimitExtension 0)
      else if i = fakeExtensionDelegatedCredentials then Some (FakeDelegatedCredentialsExtension [])
      else if i = extensionSessionTicket then Some (SessionTicketExtension None [] False)
      else if i = extensionPreSharedKey then Some (FakePreSharedKeyExtension None None False)
      else if i = extensionSupportedVersions then Some (SupportedVersionsExtension [])
      else if i = extensionPSKModes then Some (PSKKeyExchangeModesExtension [])
      else if i = extensionSignatureAlgorithmsCert then Some (SignatureAlgorithmsCertExtension [])
      else if i = extensionKeyShare then Some (KeyShareExtension [])
      else if i = extensionQUICTransportParameters then Some (QUICTransportParametersExtension [] None None)
      else if i = extensionNextProtoNeg then Some (NPNExtension [])
      else if i = utlsExtensionApplicationSettings then Some (ApplicationSettingsExtension [])
      else if i = utlsExtensionApplicationSettingsNew then Some (ApplicationSettingsExtensionNew [])
      else if i = utlsExtensionTrustAnchors then Some (TrustAnchorsExtension [] False None)
      else if i = fakeOldExtensionChannelID then Some (FakeChannelIDExtension True)
      else if i = fakeExtensionChannelID then Some (FakeChannelIDExtension False)
      else if i = utlsExtensionECH then Some (GREASEEncryptedClientHelloExtension GreaseECH_zero)
      else if i = extensionRenegotiationInfo then Some (RenegotiationInfoExtension RenegotiateNever [])
      else if isGREASEUint16 i then Some (UtlsGREASEExtension 0 [])
      else None)"

text \<open>\<open>GenericExtension\<close> and \<open>CookieExtension\<close> have no \<open>Write\<close> method.\<close>

definition is_TLSExtensionWriter :: "TLSExtension \<Rightarrow> bool" where
  "is_TLSExtensionWriter e = (case e of GenericExtension _ _ \<Rightarrow> False | CookieExtension _ \<Rightarrow> False | _ \<Rightarrow> True)"

definition ext_Write :: "cryptobyte \<Rightarrow> TLSExtension \<Rightarrow> bytes \<Rightarrow> rand_source \<Rightarrow> (TLSExtension \<times> rand_source) option" where
  "ext_Write cb e b rnd = (case e of
     SNIExtension s \<Rightarrow> map_option (\<lambda>_. (SNIExtension s, rnd)) (SNIExtension_Write cb b)
   | StatusRequestExtension \<Rightarrow> map_option (\<lambda>_. (StatusRequestExtension, rnd)) (StatusRequestExtension_Write cb b)
   | SupportedCurvesExtension _ \<Rightarrow> map_option (\<lambda>v. (SupportedCurvesExtension v, rnd)) (SupportedCurvesExtension_Write cb b)
   | SupportedPointsExtension _ \<Rightarrow> map_option (\<lambda>v. (SupportedPointsExtension v, rnd)) (SupportedPointsExtension_Write cb b)
   | SignatureAlgorithmsExtension _ \<Rightarrow>
       map_option (\<lambda>v. (SignatureAlgorithmsExtension v, rnd)) (SignatureAlgorithmsExtension_Write cb b)
   | StatusRequestV2Extension \<Rightarrow> map_option (\<lambda>_. (StatusRequestV2Extension, rnd)) (StatusRequestV2Extension_Write cb b)
   | SignatureAlgorithmsCertExtension _ \<Rightarrow>
       map_option (\<lambda>v. (SignatureAlgorithmsCertExtension v, rnd)) (SignatureAlgorithmsCertExtension_Write cb b)
   | ALPNExtension _ \<Rightarrow> map_option (\<lambda>v. (ALPNExtension v, rnd)) (ALPNExtension_Write cb b)
   | ApplicationSettingsExtension _ \<Rightarrow>
       map_option (\<lambda>v. (ApplicationSettingsExtension v, rnd)) (applicationSettingsExtension_Write cb b)
   | ApplicationSettingsExtensionNew _ \<Rightarrow>
       map_option (\<lambda>v. (ApplicationSettingsExtensionNew v, rnd)) (applicationSettingsExtension_Write cb b)
   | SCTExtension \<Rightarrow> Some (SCTExtension, rnd)
   | ExtendedMasterSecretExtension \<Rightarrow> Some (ExtendedMasterSecretExtension, rnd)
   | UtlsGREASEExtension _ _ \<Rightarrow> Some (UtlsGREASEExtension GREASE_PLACEHOLDER b, rnd)
   | UtlsPaddingExtension n w _ \<Rightarrow> Some (UtlsPaddingExtension n w (Some BoringPaddingStyle), rnd)
   | UtlsCompressCertExtension _ \<Rightarrow> map_option (\<lambda>v. (UtlsCompressCertExtension v, rnd)) (UtlsCompressCertExtension_Write cb b)
   | KeyShareExtension _ \<Rightarrow> map_option (\<lambda>v. (KeyShareExtension v, rnd)) (KeyShareExtension_Write cb b)
   | QUICTransportParametersExtension tps _ _ \<Rightarrow> Some (QUICTransportParametersExtension tps (Some b) None, rnd)
   | PSKKeyExchangeModesExtension _ \<Rightarrow>
       map_option (\<lambda>v. (PSKKeyExchangeModesExtension v, rnd)) (PSKKeyExchangeModesExtension_Write cb b)
   | SupportedVersionsExtension _ \<Rightarrow> map_option (\<lambda>v. (SupportedVersionsExtension v, rnd)) (SupportedVersionsExtension_Write cb b)
   | NPNExtension ps \<Rightarrow> Some (NPNExtension ps, rnd)
   | RenegotiationInfoExtension _ c \<Rightarrow> Some (RenegotiationInfoExtension RenegotiateOnceAsClient c, rnd)
   | FakeChannelIDExtension i \<Rightarrow> Some (FakeChannelIDExtension i, rnd)
   | FakeRecordSizeLimitExtension _ \<Rightarrow>
       map_option (\<lambda>v. (FakeRecordSizeLimitExtension v, rnd)) (FakeRecordSizeLimitExtension_Write cb b)
   | FakeTokenBindingExtension _ _ _ \<Rightarrow>
       map_option (\<lambda>(x, y, v). (FakeTokenBindingExtension x y v, rnd)) (FakeTokenBindingExtension_Write cb b)
   | FakeDelegatedCredentialsExtension _ \<Rightarrow>
       map_option (\<lambda>v. (FakeDelegatedCredentialsExtension v, rnd)) (FakeDelegatedCredentialsExtension_Write cb b)
   | FakeEarlyDataExtension \<Rightarrow> Some (FakeEarlyDataExtension, rnd)
   | SessionTicketExtension s t i \<Rightarrow> Some (SessionTicketExtension s t i, rnd)
   | UtlsPreSharedKeyExtension p \<Rightarrow> Some (UtlsPreSharedKeyExtension p, rnd)
   | FakePreSharedKeyExtension ids binders omit \<Rightarrow>
       map_option (\<lambda>(ids', binders'). (FakePreSharedKeyExtension
           (if ids' = [] then ids else Some (case ids of None \<Rightarrow> ids' | Some l \<Rightarrow> l @ ids'))
           (if binders' = [] then binders else Some (case binders of None \<Rightarrow> binders' | Some l \<Rightarrow> l @ binders')) omit, rnd))
         (FakePSK_Write cb b)
   | GREASEEncryptedClientHelloExtension g \<Rightarrow>
       map_option (\<lambda>(g, rnd). (GREASEEncryptedClientHelloExtension g, rnd)) (GreaseECH_Write cb g b rnd)
   | TrustAnchorsExtension _ sh order \<Rightarrow> map_option (\<lambda>v. (TrustAnchorsExtension v sh order, rnd)) (TrustAnchorsExtension_Write cb b)
   | GenericExtension _ _ \<Rightarrow> None
   | CookieExtension _ \<Rightarrow> None)"


section \<open>ClientHelloSpec\<close>

datatype session_id_source = Sum256

record ClientHelloSpec =
  CipherSuites :: "u16 list"
  CompressionMethods :: bytes
  Extensions :: "TLSExtension list"
  TLSVersMin :: u16
  TLSVersMax :: u16
  GetSessionID :: "session_id_source option"
  GREASESeed :: "u16 list"

definition ClientHelloSpec_zero :: ClientHelloSpec where
  "ClientHelloSpec_zero = \<lparr>CipherSuites = [], CompressionMethods = [], Extensions = [], TLSVersMin = 0, TLSVersMax = 0,
     GetSessionID = None, GREASESeed = replicate 8 0\<rparr>"

definition ReadCipherSuites :: "cryptobyte \<Rightarrow> bytes \<Rightarrow> ClientHelloSpec \<Rightarrow> ClientHelloSpec option" where
  "ReadCipherSuites cb b chs = do {
     suites \<leftarrow> read_uint16s cb b [];
     Some (chs\<lparr>CipherSuites := map unGREASEUint16 suites\<rparr>) }"

definition ReadCompressionMethods :: "bytes \<Rightarrow> ClientHelloSpec \<Rightarrow> ClientHelloSpec" where
  "ReadCompressionMethods compressionMethods chs = chs\<lparr>CompressionMethods := compressionMethods\<rparr>"

definition read_extension :: "cryptobyte \<Rightarrow> bool \<Rightarrow> bool \<Rightarrow> u16 \<Rightarrow> bytes \<Rightarrow> ClientHelloSpec \<times> rand_source \<Rightarrow>
    (ClientHelloSpec \<times> rand_source) option" where
  "read_extension cb allowBluntMimicry realPSK extension extData st =
     (case st of (chs, rnd) \<Rightarrow>
      case ExtensionFromID extension of
        Some ext \<Rightarrow>
          if is_TLSExtensionWriter ext then
            let ext = (if extension = extensionPreSharedKey
                       then if realPSK then UtlsPreSharedKeyExtension UtlsPSK_zero
                            else FakePreSharedKeyExtension None None False
                       else ext);
                chs = (if extension = extensionSupportedVersions then chs\<lparr>TLSVersMin := 0, TLSVersMax := 0\<rparr> else chs)
            in do {
              (ext, rnd) \<leftarrow> ext_Write cb ext extData rnd;
              Some (chs\<lparr>Extensions := Extensions chs @ [ext]\<rparr>, rnd) }
          else if allowBluntMimicry
          then Some (chs\<lparr>Extensions := Extensions chs @ [GenericExtension extension extData]\<rparr>, rnd) else None
      | None \<Rightarrow>
          if allowBluntMimicry
          then Some (chs\<lparr>Extensions := Extensions chs @ [GenericExtension extension extData]\<rparr>, rnd) else None)"

definition ReadTLSExtensions :: "cryptobyte \<Rightarrow> bytes \<Rightarrow> bool \<Rightarrow> bool \<Rightarrow> ClientHelloSpec \<times> rand_source \<Rightarrow>
    (ClientHelloSpec \<times> rand_source) option" where
  "ReadTLSExtensions cb b allowBluntMimicry realPSK st =
     for_extensions cb (\<lambda>_. read_extension cb allowBluntMimicry realPSK) b st"

text \<open>The first padding extension pads to the length of the captured hello.\<close>

fun pad_first :: "int \<Rightarrow> TLSExtension list \<Rightarrow> TLSExtension list" where
  "pad_first n [] = []"
| "pad_first n (e # es) = (case e of
     UtlsPaddingExtension p w _ \<Rightarrow> UtlsPaddingExtension p w (Some (AlwaysPadToLen n)) # es
   | _ \<Rightarrow> e # pad_first n es)"

definition FromRaw :: "cryptobyte \<Rightarrow> bytes \<Rightarrow> bool \<Rightarrow> bool \<Rightarrow> rand_source \<Rightarrow> (ClientHelloSpec \<times> rand_source) option" where
  "FromRaw cb raw bluntMimicry realPSK rnd = do {
     (contentType, s) \<leftarrow> ReadUint8 cb raw;
     (recordVersion, s) \<leftarrow> ReadUint16 cb s;
     s \<leftarrow> Skip cb s 2;
     require (contentType = 22);
     (handshakeType, s) \<leftarrow> ReadUint8 cb s;
     s \<leftarrow> Skip cb s 3;
     (handshakeVersion, s) \<leftarrow> ReadUint16 cb s;
     s \<leftarrow> Skip cb s 32;
     require (handshakeType = typeClientHello);
     let chs = ClientHelloSpec_zero\<lparr>TLSVersMin := recordVersion, TLSVersMax := handshakeVersion\<rparr>;
     (ignoredSessionID, s) \<leftarrow> ReadUint8LengthPrefixed cb s;
     (cipherSuitesBytes, s) \<leftarrow> ReadUint16LengthPrefixed cb s;
     chs \<leftarrow> ReadCipherSuites cb cipherSuitesBytes chs;
     (compressionMethods, s) \<leftarrow> ReadUint8LengthPrefixed cb s;
     let chs = ReadCompressionMethods compressionMethods chs;
     if s = [] then Some (chs, rnd)
     else do {
       (extensions, s) \<leftarrow> ReadUint16LengthPrefixed cb s;
       (chs, rnd) \<leftarrow> ReadTLSExtensions cb extensions bluntMimicry realPSK (chs, rnd);
       Some (chs\<lparr>Extensions := pad_first (int (length raw) - 5) (Extensions chs)\<rparr>, rnd) } }"

text \<open>\<open>AlwaysAddPadding\<close>: padding goes to the end, but before a pre_shared_key extension.\<close>

fun AlwaysAddPadding :: "TLSExtension list \<Rightarrow> TLSExtension list" where
  "AlwaysAddPadding [] = [UtlsPaddingExtension 0 False (Some BoringPaddingStyle)]"
| "AlwaysAddPadding (e # es) = (case e of
     UtlsPaddingExtension _ _ _ \<Rightarrow> e # es
   | UtlsPreSharedKeyExtension _ \<Rightarrow> UtlsPaddingExtension 0 False (Some BoringPaddingStyle) # e # es
   | FakePreSharedKeyExtension _ _ _ \<Rightarrow> UtlsPaddingExtension 0 False (Some BoringPaddingStyle) # e # es
   | _ \<Rightarrow> e # AlwaysAddPadding es)"



section \<open>The fingerprint of an extension\<close>

text \<open>
  What a parsed extension keeps: GREASE values become the placeholder, and what belongs to one
  connection is dropped (the server name, the key shares, the tickets, the key of a GREASE ECH).
\<close>

definition fp_keyShare :: "keyShare \<Rightarrow> keyShare" where
  "fp_keyShare ks = (let g = unGREASEUint16 (ks_group ks)
     in \<lparr>ks_group = g, ks_data = (if g \<noteq> GREASE_PLACEHOLDER then [] else ks_data ks)\<rparr>)"

definition fp_psk :: "bool \<Rightarrow> pskIdentity list \<Rightarrow> bytes list \<Rightarrow> TLSExtension" where
  "fp_psk realPSK ids binders = (if realPSK then UtlsPreSharedKeyExtension UtlsPSK_zero
     else FakePreSharedKeyExtension (Some ids) (Some binders) False)"

definition fp_ext :: "bool \<Rightarrow> TLSExtension \<Rightarrow> rand_source \<Rightarrow> TLSExtension \<times> rand_source" where
  "fp_ext realPSK e rnd = (case e of
     SNIExtension _ \<Rightarrow> (SNIExtension [], rnd)
   | SupportedCurvesExtension vs \<Rightarrow> (SupportedCurvesExtension (map unGREASEUint16 vs), rnd)
   | UtlsGREASEExtension v b \<Rightarrow> (UtlsGREASEExtension GREASE_PLACEHOLDER b, rnd)
   | UtlsPaddingExtension _ _ _ \<Rightarrow> (UtlsPaddingExtension 0 False (Some BoringPaddingStyle), rnd)
   | KeyShareExtension kss \<Rightarrow> (KeyShareExtension (map fp_keyShare kss), rnd)
   | QUICTransportParametersExtension _ rawData res \<Rightarrow>
       (QUICTransportParametersExtension [] (Some (quic_data rawData res)) None, rnd)
   | SupportedVersionsExtension vs \<Rightarrow> (SupportedVersionsExtension (map unGREASEUint16 vs), rnd)
   | CookieExtension c \<Rightarrow> (GenericExtension extensionCookie (vec16 c), rnd)
   | NPNExtension _ \<Rightarrow> (NPNExtension [], rnd)
   | RenegotiationInfoExtension _ _ \<Rightarrow> (RenegotiationInfoExtension RenegotiateOnceAsClient [], rnd)
   | FakeEarlyDataExtension \<Rightarrow> (GenericExtension extensionEarlyData [], rnd)
   | SessionTicketExtension _ _ _ \<Rightarrow> (SessionTicketExtension None [] False, rnd)
   | UtlsPreSharedKeyExtension p \<Rightarrow> (fp_psk realPSK (psk_Identities p) (psk_Binders p), rnd)
   | FakePreSharedKeyExtension ids binders _ \<Rightarrow>
       (fp_psk realPSK (case ids of Some l \<Rightarrow> l | None \<Rightarrow> []) (case binders of Some l \<Rightarrow> l | None \<Rightarrow> []), rnd)
   | GREASEEncryptedClientHelloExtension g \<Rightarrow>
       (let (k, rnd) = rand_Read (length (g_EncapsulatedKey g)) rnd
        in (GREASEEncryptedClientHelloExtension (GreaseECH_zero\<lparr>g_cipherSuite := g_cipherSuite g,
          g_CandidateCipherSuites := [g_cipherSuite g], g_configId := g_configId g, g_EncapsulatedKey := k,
          g_CandidatePayloadLens := [of_int (int (length (g_payload g)) - 16)]\<rparr>), rnd))
   | TrustAnchorsExtension anchors _ order \<Rightarrow> (TrustAnchorsExtension (TrustAnchorsExtension_list anchors order) False None, rnd)
   | _ \<Rightarrow> (e, rnd))"

text \<open>The extensions whose encoding is one that the parser accepts.\<close>

definition psk_parses :: "pskIdentity list \<Rightarrow> bytes list \<Rightarrow> bool" where
  "psk_parses ids binders \<longleftrightarrow> identities_len ids < 65536 \<and> strings_len binders < 65536 \<and> (\<forall>b \<in> set binders. length b < 256)"

definition strings_parse :: "bytes list \<Rightarrow> bool" where
  "strings_parse ss \<longleftrightarrow> strings_len ss < 65536 \<and> [] \<notin> set ss \<and> (\<forall>s \<in> set ss. length s < 256)"

definition ext_parses :: "bool \<Rightarrow> TLSExtension \<Rightarrow> bool" where
  "ext_parses allowBluntMimicry e = (case e of
     SNIExtension s \<Rightarrow> length (hostnameInSNI s) < 65533
   | SupportedCurvesExtension vs \<Rightarrow> vs \<noteq> [] \<and> length vs < 32767
   | SupportedPointsExtension s \<Rightarrow> s \<noteq> [] \<and> length s < 256
   | SignatureAlgorithmsExtension vs \<Rightarrow> vs \<noteq> [] \<and> length vs < 32767
   | SignatureAlgorithmsCertExtension vs \<Rightarrow> vs \<noteq> [] \<and> length vs < 32767
   | FakeDelegatedCredentialsExtension vs \<Rightarrow> vs \<noteq> [] \<and> length vs < 32767
   | ALPNExtension ss \<Rightarrow> ss \<noteq> [] \<and> strings_parse ss
   | ApplicationSettingsExtension ss \<Rightarrow> ss \<noteq> [] \<and> strings_parse ss
   | ApplicationSettingsExtensionNew ss \<Rightarrow> ss \<noteq> [] \<and> strings_parse ss
   | TrustAnchorsExtension anchors _ order \<Rightarrow> strings_parse (TrustAnchorsExtension_list anchors order)
   | GenericExtension i _ \<Rightarrow> allowBluntMimicry \<and> ExtensionFromID i = None
   | CookieExtension _ \<Rightarrow> allowBluntMimicry
   | FakeEarlyDataExtension \<Rightarrow> allowBluntMimicry
   | UtlsGREASEExtension v _ \<Rightarrow> isGREASEUint16 v
   | UtlsCompressCertExtension vs \<Rightarrow> length vs < 128
   | KeyShareExtension kss \<Rightarrow> keySharesLen kss < 65536 \<and> (\<forall>ks \<in> set kss. ks_data ks \<noteq> [])
   | PSKKeyExchangeModesExtension s \<Rightarrow> length s < 256
   | SupportedVersionsExtension vs \<Rightarrow> vs \<noteq> [] \<and> length vs < 128
   | FakeTokenBindingExtension _ _ s \<Rightarrow> length s < 256
   | UtlsPreSharedKeyExtension p \<Rightarrow> psk_parses (psk_Identities p) (psk_Binders p)
   | FakePreSharedKeyExtension ids binders _ \<Rightarrow>
       psk_parses (case ids of Some l \<Rightarrow> l | None \<Rightarrow> []) (case binders of Some l \<Rightarrow> l | None \<Rightarrow> [])
   | GREASEEncryptedClientHelloExtension g \<Rightarrow> fst (g_cipherSuite g) \<in> {1, 2, 3} \<and> snd (g_cipherSuite g) \<in> {1, 2, 3} \<and>
       length (g_EncapsulatedKey g) < 65536 \<and> length (g_payload g) < 65536
   | _ \<Rightarrow> True)"

lemma run_items_snoc_map: "run_items (\<lambda>_ x acc. Some (acc @ [f x])) xs acc = Some (acc @ map f xs)"
  by (induction xs arbitrary: acc) auto

lemma length_le_concat: "(\<And>x. f x \<noteq> []) \<Longrightarrow> length xs \<le> length (concat (map f xs))"
proof (induction xs)
  case (Cons x xs)
  then show ?case
    using length_greater_0_conv [of "f x"] by (simp del: length_greater_0_conv)
qed simp

lemma keyShare_le: "ks \<in> set kss \<Longrightarrow> length (ks_data ks) \<le> keySharesLen kss"
  unfolding keySharesLen_def by (induction kss) auto

lemma u16_len_diff: "m \<le> n \<Longrightarrow> (of_nat n :: u16) - of_nat m = of_nat (n - m)"
  by (simp add: of_nat_diff)

lemma u16_len_le: "m \<le> n \<Longrightarrow> n < 65536 \<Longrightarrow> (of_nat m :: u16) \<le> of_nat n"
  by (simp add: word_le_nat_alt unat_of_nat16)

lemma u16_len_0: "0 < n \<Longrightarrow> n < 65536 \<Longrightarrow> (of_nat n :: u16) \<noteq> 0"
  using unat_of_nat16 [of n] by auto

lemma ExtensionFromID_known:
  "ExtensionFromID 0 = Some (SNIExtension [])" "ExtensionFromID 5 = Some StatusRequestExtension"
  "ExtensionFromID 10 = Some (SupportedCurvesExtension [])" "ExtensionFromID 11 = Some (SupportedPointsExtension [])"
  "ExtensionFromID 13 = Some (SignatureAlgorithmsExtension [])" "ExtensionFromID 16 = Some (ALPNExtension [])"
  "ExtensionFromID 17 = Some StatusRequestV2Extension" "ExtensionFromID 18 = Some SCTExtension"
  "ExtensionFromID 21 = Some (UtlsPaddingExtension 0 False None)" "ExtensionFromID 23 = Some ExtendedMasterSecretExtension"
  "ExtensionFromID 24 = Some (FakeTokenBindingExtension 0 0 [])" "ExtensionFromID 27 = Some (UtlsCompressCertExtension [])"
  "ExtensionFromID 28 = Some (FakeRecordSizeLimitExtension 0)" "ExtensionFromID 34 = Some (FakeDelegatedCredentialsExtension [])"
  "ExtensionFromID 35 = Some (SessionTicketExtension None [] False)"
  "ExtensionFromID 41 = Some (FakePreSharedKeyExtension None None False)"
  "ExtensionFromID 43 = Some (SupportedVersionsExtension [])" "ExtensionFromID 45 = Some (PSKKeyExchangeModesExtension [])"
  "ExtensionFromID 50 = Some (SignatureAlgorithmsCertExtension [])" "ExtensionFromID 51 = Some (KeyShareExtension [])"
  "ExtensionFromID 57 = Some (QUICTransportParametersExtension [] None None)" "ExtensionFromID 13172 = Some (NPNExtension [])"
  "ExtensionFromID 17513 = Some (ApplicationSettingsExtension [])" "ExtensionFromID 17613 = Some (ApplicationSettingsExtensionNew [])"
  "ExtensionFromID 0xca34 = Some (TrustAnchorsExtension [] False None)" "ExtensionFromID 30031 = Some (FakeChannelIDExtension True)"
  "ExtensionFromID 30032 = Some (FakeChannelIDExtension False)"
  "ExtensionFromID 0xfe0d = Some (GREASEEncryptedClientHelloExtension GreaseECH_zero)"
  "ExtensionFromID 0xff01 = Some (RenegotiationInfoExtension RenegotiateNever [])"
  "ExtensionFromID 42 = None" "ExtensionFromID 44 = None"
  by (simp_all add: ExtensionFromID_def isGREASEUint16_def)

lemma ExtensionFromID_GREASE:
  assumes "isGREASEUint16 v"
  shows "ExtensionFromID v = Some (UtlsGREASEExtension 0 [])" "v \<noteq> 41" "v \<noteq> 43"
proof -
  have "v \<notin> {0, 5, 10, 11, 13, 16, 17, 18, 21, 23, 24, 27, 28, 34, 35, 41, 43, 45, 50, 51, 57, 13172, 17513, 17613,
      0xca34, 30031, 30032, 0xfe0d, 0xff01}"
    using assms by (auto simp: isGREASEUint16_def)
  then show "ExtensionFromID v = Some (UtlsGREASEExtension 0 [])" "v \<noteq> 41" "v \<noteq> 43"
    using assms unfolding ExtensionFromID_def by simp_all
qed

lemmas Write_defs = SupportedCurvesExtension_Write_def SupportedPointsExtension_Write_def SignatureAlgorithmsExtension_Write_def
  SignatureAlgorithmsCertExtension_Write_def FakeDelegatedCredentialsExtension_Write_def ALPNExtension_Write_def
  applicationSettingsExtension_Write_def UtlsCompressCertExtension_Write_def PSKKeyExchangeModesExtension_Write_def
  SupportedVersionsExtension_Write_def FakeRecordSizeLimitExtension_Write_def FakeTokenBindingExtension_Write_def
  TrustAnchorsExtension_Write_def

context cryptobyte_laws
begin

lemma KeyShareExtension_Write_enc:
  assumes "\<forall>ks \<in> set kss. ks_data ks \<noteq> [] \<and> length (ks_data ks) < 65536" "length (concat (map ks_enc kss)) < 65536"
  shows "KeyShareExtension_Write cb (vec16 (concat (map ks_enc kss))) = Some (map fp_keyShare kss)"
proof -
  have "item_loop ks_enc (\<lambda>s keyShares. do {
       (g, s) \<leftarrow> ReadUint16 cb s;
       (d, s) \<leftarrow> readUint16LengthPrefixed cb s;
       require (length d \<noteq> 0);
       let g = unGREASEUint16 g;
       let d = (if g \<noteq> GREASE_PLACEHOLDER then [] else d);
       Some (keyShares @ [\<lparr>ks_group = g, ks_data = d\<rparr>], s) })
      (\<lambda>_ ks acc. Some (acc @ [fp_keyShare ks])) (\<lambda>ks. ks_data ks \<noteq> [] \<and> length (ks_data ks) < 65536)"
    by unfold_locales (auto simp: codec_simps ks_enc_def readUint16LengthPrefixed_def fp_keyShare_def Let_def)
  from item_loop.while_nonempty_items [OF this, of kss "[]"] assms show ?thesis
    unfolding KeyShareExtension_Write_def
    by (simp add: codec_simps run_items_snoc_map)
qed


lemma psk_read_identities_enc:
  "identities_len ids < 65536 \<Longrightarrow> length ids \<le> fuel \<Longrightarrow>
    psk_read_identities fuel cb (of_nat (identities_len ids)) (concat (map psk_enc ids) @ r) acc = Some (acc @ ids, r)"
proof (induction ids arbitrary: fuel acc)
  case Nil
  then show ?case
    by (simp add: identities_len_def psk_read_identities.simps)
next
  case (Cons d ds)
  let ?l = "length (psk_label d)" and ?k = "identities_len ds"
  obtain n where fuel: "fuel = Suc n" "length ds \<le> n"
    using Cons.prems(2) by (cases fuel) auto
  have k: "identities_len (d # ds) = ?l + ?k + 6" "?l + ?k + 6 < 65536"
    using Cons.prems(1) by (simp_all add: identities_len_def)
  have w: "(of_nat (?l + ?k + 6) :: u16) \<noteq> 0" "(of_nat ?l :: u16) \<le> of_nat (?l + ?k + 6) - 2"
      "of_nat (?l + ?k + 6) - 2 - of_nat ?l - 4 = (of_nat ?k :: u16)"
    using k(2) u16_len_0 [of "?l + ?k + 6"] u16_len_diff [of 2 "?l + ?k + 6"] u16_len_le [of ?l "?l + ?k + 4"]
    by (simp_all add: ac_simps)
  have d: "\<lparr>psk_label = psk_label d, psk_obfuscatedTicketAge = psk_obfuscatedTicketAge d\<rparr> = d"
    by simp
  show ?case
    using Cons.IH [of n "acc @ [d]"] k fuel w
    by (subst psk_read_identities.simps)
      (simp add: psk_enc_def [of d] vec16_def [of "psk_label d"] codec_simps unat_of_nat16 d del: of_nat_add)
qed

lemma psk_read_binders_enc:
  "strings_len bs < 65536 \<Longrightarrow> \<forall>b \<in> set bs. length b < 256 \<Longrightarrow> length bs \<le> fuel \<Longrightarrow>
    psk_read_binders fuel cb (of_nat (strings_len bs)) (concat (map vec8 bs)) acc = Some (acc @ bs)"
proof (induction bs arbitrary: fuel acc)
  case Nil
  then show ?case
    by (simp add: strings_len_def psk_read_binders.simps)
next
  case (Cons b bs)
  let ?l = "length b" and ?k = "strings_len bs"
  obtain n where fuel: "fuel = Suc n" "length bs \<le> n"
    using Cons.prems(3) by (cases fuel) auto
  have k: "strings_len (b # bs) = ?l + ?k + 1" "?l + ?k + 1 < 65536" "?l < 256"
    using Cons.prems(1,2) by (simp_all add: strings_len_def)
  have u: "ucast (of_nat ?l :: u8) = (of_nat ?l :: u16)"
    using k(3) by (simp add: word_unat_eq_iff unat_of_nat8 unat_of_nat16 unsigned_ucast_eq take_bit_nat_eq_self)
  have w: "(of_nat (?l + ?k + 1) :: u16) \<noteq> 0" "(of_nat ?l :: u16) \<le> of_nat (?l + ?k + 1) - 1"
      "of_nat (?l + ?k + 1) - 1 - of_nat ?l = (of_nat ?k :: u16)"
    using k(2) u16_len_0 [of "?l + ?k + 1"] u16_len_diff [of 1 "?l + ?k + 1"] u16_len_le [of ?l "?l + ?k"]
    by simp_all
  show ?case
    using Cons.IH [of n "acc @ [b]"] Cons.prems(2) k fuel w u
    by (subst psk_read_binders.simps)
      (simp add: vec8_def [of b] codec_simps unat_of_nat8 del: of_nat_add)
qed

lemma FakePSK_Write_enc:
  assumes "psk_parses ids binders"
  shows "FakePSK_Write cb (vec16 (concat (map psk_enc ids)) @ vec16 (concat (map vec8 binders))) = Some (ids, binders)"
proof -
  have le: "length ids \<le> length (concat (map psk_enc ids) @ vec16 (concat (map vec8 binders)))"
      "length binders \<le> length (concat (map vec8 binders))"
    using length_le_concat [of psk_enc ids] length_le_concat [of vec8 binders] by (simp_all add: psk_enc_def)
  show ?thesis
    using psk_read_identities_enc [OF _ le(1), of "vec16 (concat (map vec8 binders))" "[]"]
      psk_read_binders_enc [OF _ _ le(2), of "[]"] assms
    unfolding FakePSK_Write_def vec16_def psk_parses_def by (simp add: codec_simps body_lengths)
qed

lemma SNI_parses:
  assumes "hostnameInSNI s \<noteq> []" "length (hostnameInSNI s) < 65533"
  shows "SNIExtension_Write cb (vec16 (0 # vec16 (hostnameInSNI s))) = Some ()"
proof -
  have "\<not> hasSuffix_dot (hostnameInSNI s)"
    using hostnameInSNI_no_dot [OF assms(1)] by (simp add: hasSuffix_dot_def)
  then show ?thesis
    using assms read_serverName_enc [of "hostnameInSNI s"] by (simp add: SNIExtension_Write_def codec_simps)
qed

lemma read_extension_known:
  assumes "ExtensionFromID ty = Some ext" "is_TLSExtensionWriter ext" "ty \<noteq> extensionPreSharedKey"
    and "ext_Write cb ext body rnd = Some (e', rnd')"
  shows "read_extension cb blunt realPSK ty body (chs, rnd) =
    (let chs' = (if ty = extensionSupportedVersions then chs\<lparr>TLSVersMin := 0, TLSVersMax := 0\<rparr> else chs)
     in Some (chs'\<lparr>Extensions := Extensions chs' @ [e']\<rparr>, rnd'))"
  using assms by (simp add: read_extension_def)

lemma fixed_bodies:
  "StatusRequestExtension_Write cb [1, 0, 0, 0, 0] = Some ()"
  "StatusRequestV2Extension_Write cb [0, 7, 2, 0, 4, 0, 0, 0, 0] = Some ()"
  by (simp_all add: StatusRequestExtension_Write_def StatusRequestV2Extension_Write_def ReadUint8 ReadUint16LengthPrefixed
      take_prefix_def u16_of_def require_def)

lemma GreaseECH_Write_enc:
  assumes "ext_parses blunt (GREASEEncryptedClientHelloExtension g)"
  shows "map_option (\<lambda>(g, rnd). (GREASEEncryptedClientHelloExtension g, rnd)) (GreaseECH_Write cb GreaseECH_zero
      (0 # be16 (fst (g_cipherSuite g)) @ be16 (snd (g_cipherSuite g)) @ g_configId g # vec16 (g_EncapsulatedKey g) @ vec16 (g_payload g)) rnd)
    = Some (fp_ext realPSK (GREASEEncryptedClientHelloExtension g) rnd)"
  using assms by (simp add: ext_parses_def GreaseECH_Write_def codec_simps cipherLen_def fp_ext_def split_def Let_def)

text \<open>The extensions that a parser knows by their number.\<close>

definition known_ext :: "TLSExtension \<Rightarrow> bool" where
  "known_ext e = (case e of GenericExtension _ _ \<Rightarrow> False | CookieExtension _ \<Rightarrow> False | FakeEarlyDataExtension \<Rightarrow> False
     | UtlsPreSharedKeyExtension _ \<Rightarrow> False | FakePreSharedKeyExtension _ _ _ \<Rightarrow> False | _ \<Rightarrow> True)"

lemma ext_Write_fp:
  assumes "ext_parses blunt e" "ext_content e = Some (ty, body)" "known_ext e"
  shows "\<exists>ext. ExtensionFromID ty = Some ext \<and> is_TLSExtensionWriter ext \<and> ty \<noteq> extensionPreSharedKey \<and>
    ext_Write cb ext body rnd = Some (fp_ext realPSK e rnd)"
proof (cases e)
  case (SNIExtension s)
  then show ?thesis
    using assms SNI_parses [of s]
    by (auto simp: ExtensionFromID_known is_TLSExtensionWriter_def ext_Write_def fp_ext_def ext_parses_def split: if_splits)
next
  case (GREASEEncryptedClientHelloExtension g)
  then show ?thesis
    using assms GreaseECH_Write_enc [of blunt g rnd realPSK] by (auto simp: ExtensionFromID_known is_TLSExtensionWriter_def ext_Write_def)
next
  case (UtlsGREASEExtension v b)
  then show ?thesis
    using assms ExtensionFromID_GREASE [of v] by (auto simp: is_TLSExtensionWriter_def ext_Write_def fp_ext_def ext_parses_def)
next
  case (KeyShareExtension kss)
  have "length (ks_data ks) < 65536" if "ks \<in> set kss" for ks
    using keyShare_le [OF that] assms(1) KeyShareExtension by (simp add: ext_parses_def)
  then show ?thesis
    using assms KeyShareExtension KeyShareExtension_Write_enc [of kss]
    by (auto simp: ExtensionFromID_known is_TLSExtensionWriter_def ext_Write_def fp_ext_def ext_parses_def body_lengths)
next
  case (UtlsPaddingExtension n w f)
  then show ?thesis
    using assms by (auto simp: ExtensionFromID_known is_TLSExtensionWriter_def ext_Write_def fp_ext_def split: if_splits)
qed (use assms in \<open>auto simp: known_ext_def ExtensionFromID_known is_TLSExtensionWriter_def ext_Write_def fp_ext_def ext_parses_def
       strings_parse_def fixed_bodies Write_defs codec_simps read_helpers body_lengths concat_vec8_Nil\<close>)

lemma ext_parses_psk:
  assumes "psk_parses ids binders" "psk_content ids binders = Some (ty, body)"
  shows "read_extension cb blunt realPSK ty body (chs, rnd) =
    Some (chs\<lparr>Extensions := Extensions chs @ [fp_psk realPSK ids binders]\<rparr>, rnd)"
  using assms FakePSK_Write_enc [OF assms(1)]
  by (auto simp: psk_content_def read_extension_def ExtensionFromID_known is_TLSExtensionWriter_def ext_Write_def fp_psk_def
      split: if_splits)

lemma read_extension_fp:
  assumes "ext_parses blunt e" "ext_content e = Some (ty, body)"
  shows "read_extension cb blunt realPSK ty body (chs, rnd) =
    (let chs' = (if ty = extensionSupportedVersions then chs\<lparr>TLSVersMin := 0, TLSVersMax := 0\<rparr> else chs);
         (e', rnd') = fp_ext realPSK e rnd
     in Some (chs'\<lparr>Extensions := Extensions chs' @ [e']\<rparr>, rnd'))"
proof (cases "known_ext e")
  case True
  obtain e' rnd' where fp: "fp_ext realPSK e rnd = (e', rnd')"
    by (cases "fp_ext realPSK e rnd")
  from ext_Write_fp [OF assms True, of rnd realPSK] obtain ext where "ExtensionFromID ty = Some ext"
      "is_TLSExtensionWriter ext" "ty \<noteq> extensionPreSharedKey" "ext_Write cb ext body rnd = Some (e', rnd')"
    unfolding fp by blast
  from read_extension_known [OF this, of blunt realPSK chs] show ?thesis
    by (simp add: fp Let_def)
next
  case False
  have psk: "ty \<noteq> extensionSupportedVersions" if "psk_content ids binders = Some (ty, body)" for ids binders
    using that by (auto simp: psk_content_def split: if_splits)
  show ?thesis
  proof (cases e)
    case (GenericExtension i d)
    moreover from this have "i \<noteq> 43"
      using assms(1) ExtensionFromID_known(17) by (auto simp: ext_parses_def)
    ultimately show ?thesis
      using assms by (auto simp: ext_parses_def read_extension_def fp_ext_def)
  next
    case (UtlsPreSharedKeyExtension p)
    then show ?thesis
      using assms ext_parses_psk [of "psk_Identities p" "psk_Binders p"] psk by (simp add: ext_parses_def fp_ext_def)
  next
    case (FakePreSharedKeyExtension ids binders omit)
    then show ?thesis
      using assms ext_parses_psk [of "case ids of Some l \<Rightarrow> l | None \<Rightarrow> []" "case binders of Some l \<Rightarrow> l | None \<Rightarrow> []"] psk
      by (simp add: ext_parses_def fp_ext_def)
  qed (use False assms in \<open>auto simp: known_ext_def ext_parses_def read_extension_def fp_ext_def ExtensionFromID_known\<close>)
qed

end

text \<open>The fingerprints of the extensions that are present.\<close>

fun fp_exts :: "bool \<Rightarrow> TLSExtension list \<Rightarrow> rand_source \<Rightarrow> TLSExtension list \<times> rand_source" where
  "fp_exts realPSK [] rnd = ([], rnd)"
| "fp_exts realPSK (e # es) rnd =
     (if ext_content e = None then fp_exts realPSK es rnd
      else let (e', rnd) = fp_ext realPSK e rnd; (es', rnd) = fp_exts realPSK es rnd in (e' # es', rnd))"

definition reset_versions :: "(u16 \<times> bytes) list \<Rightarrow> ClientHelloSpec \<Rightarrow> ClientHelloSpec" where
  "reset_versions xs chs = (if extensionSupportedVersions \<in> fst ` set xs then chs\<lparr>TLSVersMin := 0, TLSVersMax := 0\<rparr> else chs)"

context cryptobyte_laws
begin

lemma ReadTLSExtensions_fp:
  assumes "\<forall>e \<in> set es. ext_parses blunt e" "\<forall>(i, d) \<in> set (List.map_filter ext_content es). length d < 65536"
  shows "ReadTLSExtensions cb (concat (map ext_wire es)) blunt realPSK (chs, rnd) =
    (let (es', rnd') = fp_exts realPSK es rnd; chs' = reset_versions (List.map_filter ext_content es) chs
     in Some (chs'\<lparr>Extensions := Extensions chs' @ es'\<rparr>, rnd'))"
proof -
  have "run_items (\<lambda>_ (i, d). read_extension cb blunt realPSK i d) (List.map_filter ext_content es) (chs, rnd) =
    (let (es', rnd') = fp_exts realPSK es rnd; chs' = reset_versions (List.map_filter ext_content es) chs
     in Some (chs'\<lparr>Extensions := Extensions chs' @ es'\<rparr>, rnd'))"
    using assms(1)
  proof (induction es arbitrary: chs rnd)
    case Nil
    then show ?case
      by (simp add: List.map_filter_def reset_versions_def)
  next
    case (Cons e es)
    show ?case
    proof (cases "ext_content e")
      case None
      then show ?thesis
        using Cons by (simp add: List.map_filter_def)
    next
      case (Some x)
      obtain ty body where x: "x = (ty, body)"
        by (cases x)
      show ?thesis
        using Cons Some read_extension_fp [of blunt e ty body realPSK chs rnd]
        by (auto simp: List.map_filter_def x Let_def reset_versions_def split: prod.splits)
    qed
  qed
  then show ?thesis
    using for_extensions_items [OF assms(2), of "\<lambda>_. read_extension cb blunt realPSK" "(chs, rnd)"]
    by (simp add: ReadTLSExtensions_def concat_ext_wire)
qed

lemma skip_bytes: "length x = n \<Longrightarrow> Skip cb (x @ r) n = Some r"
  by (simp add: Skip take_prefix_def)

lemma FromRaw_hello:
  assumes "\<forall>e \<in> set es. ext_parses blunt e" "length random = 32"
    and "hello_fits sid suites compression (List.map_filter ext_content es)" "List.map_filter ext_content es \<noteq> []"
    and "length h = 2" "raw = 22 # be16 recVers @ h @ hello_bytes vers random sid suites compression (List.map_filter ext_content es)"
  shows "FromRaw cb raw blunt realPSK rnd =
    (let (es', rnd') = fp_exts realPSK es rnd;
         chs = reset_versions (List.map_filter ext_content es)
           (ClientHelloSpec_zero\<lparr>TLSVersMin := recVers, TLSVersMax := vers, CipherSuites := map unGREASEUint16 suites,
              CompressionMethods := compression\<rparr>)
     in Some (chs\<lparr>Extensions := pad_first (int (length raw) - 5) es'\<rparr>, rnd'))"
proof -
  let ?xs = "List.map_filter ext_content es"
  note fits = assms(3) [unfolded hello_fits_def]
  have ext: "ReadTLSExtensions cb (concat (map ext_enc ?xs)) blunt realPSK (chs, rnd) =
      (let (es', rnd') = fp_exts realPSK es rnd; chs' = reset_versions ?xs chs
       in Some (chs'\<lparr>Extensions := Extensions chs' @ es'\<rparr>, rnd'))" for chs
    using ReadTLSExtensions_fp [OF assms(1)] fits by (simp add: concat_ext_wire)
  have s: "Skip cb (be24 v @ r) 3 = Some r" "Skip cb (h @ r) 2 = Some r" "Skip cb (random @ r) 32 = Some r" for v r
    using assms(2,5) by (simp_all add: skip_bytes)
  have "FromRaw cb raw blunt realPSK rnd = do {
      (chs, rnd) \<leftarrow> ReadTLSExtensions cb (concat (map ext_enc ?xs)) blunt realPSK
        (ClientHelloSpec_zero\<lparr>TLSVersMin := recVers, TLSVersMax := vers, CipherSuites := map unGREASEUint16 suites,
              CompressionMethods := compression\<rparr>, rnd);
      Some (chs\<lparr>Extensions := pad_first (int (length raw) - 5) (Extensions chs)\<rparr>, rnd) }"
    using fits assms(4) unfolding FromRaw_def hello_bytes_def Let_def vec24_def
    by (subst assms(6)) (simp add: hello_bytes_def vec24_def codec_simps s ReadCipherSuites_def ReadCompressionMethods_def body_lengths)
  then show ?thesis
    unfolding ext by (simp add: split_def Let_def reset_versions_def ClientHelloSpec_zero_def)
qed

end

end
