(* ===== verification/UConn_Hello.thy ===== *)
theory UConn_Hello
  imports Fingerprinting Hpke
begin

unbundle bit_operations_syntax

text \<open>
  How a \<open>UConn\<close> turns its list of extensions into the bytes of a ClientHello:
  \<open>MarshalClientHelloNoECH\<close> (u_conn.go), with the \<open>bufio.Writer\<close> that it fills.
\<close>

section \<open>bufio.Writer over a bytes.Buffer\<close>

text \<open>The array of the writer, the number of its bytes that are in use, and what has been flushed.\<close>

record bufw =
  bw_buf :: bytes
  bw_n :: nat
  bw_out :: bytes

definition NewWriterSize :: "nat \<Rightarrow> bufw" where
  "NewWriterSize n = \<lparr>bw_buf = replicate n 0, bw_n = 0, bw_out = []\<rparr>"

definition bw_Available :: "bufw \<Rightarrow> nat" where
  "bw_Available w = length (bw_buf w) - bw_n w"

definition bw_Flush :: "bufw \<Rightarrow> bufw" where
  "bw_Flush w = w\<lparr>bw_out := bw_out w @ take (bw_n w) (bw_buf w), bw_n := 0\<rparr>"

definition bw_store :: "bytes \<Rightarrow> bufw \<Rightarrow> bufw" where
  "bw_store p w = w\<lparr>bw_buf := take (bw_n w) (bw_buf w) @ p @ drop (bw_n w + length p) (bw_buf w), bw_n := bw_n w + length p\<rparr>"

text \<open>A write that does not fit fills the array and flushes it; what then still does not fit, or
  meets an empty array, goes to the buffer directly.\<close>

definition bw_Write :: "bytes \<Rightarrow> bufw \<Rightarrow> bufw" where
  "bw_Write p w =
     (if length p \<le> bw_Available w then bw_store p w
      else if bw_n w = 0 then w\<lparr>bw_out := bw_out w @ p\<rparr>
      else let a = bw_Available w; w = bw_Flush (bw_store (take a p) w); p = drop a p
           in if length p \<le> bw_Available w then bw_store p w else w\<lparr>bw_out := bw_out w @ p\<rparr>)"

text \<open>
  \<open>ReadFrom\<close> hands the free part of the array to the reader. When the array is empty the
  \<open>bytes.Buffer\<close> reads itself, into its spare capacity of \<open>spare\<close> zeros. The readers are
  extensions, which return an error value with every call, so there is one call of \<open>Read\<close>.
  The outcome is the error, if it is not \<open>io.EOF\<close>.
\<close>

definition bw_ReadFrom :: "nat \<Rightarrow> (bytes \<Rightarrow> read_result) \<Rightarrow> bufw \<Rightarrow> (read_err option \<times> bufw) option" where
  "bw_ReadFrom spare rd w =
     (let w = (if bw_Available w = 0 then bw_Flush w else w)
      in if bw_n w = 0 then do {
           (m, err, b) \<leftarrow> rd (replicate spare 0);
           let w = w\<lparr>bw_out := bw_out w @ take (nat m) b\<rparr>;
           Some (if err = EOF then None else Some err, w) }
         else do {
           (m, err, b) \<leftarrow> rd (drop (bw_n w) (bw_buf w));
           let w = w\<lparr>bw_buf := take (bw_n w) (bw_buf w) @ b, bw_n := nat (int (bw_n w) + m)\<rparr>;
           if err = EOF then Some (None, if bw_Available w = 0 then bw_Flush w else w)
           else Some (Some err, w) })"

fun bw_ReadFrom_all :: "nat \<Rightarrow> TLSExtension list \<Rightarrow> bufw \<Rightarrow> (read_err option \<times> bufw) option" where
  "bw_ReadFrom_all spare [] w = Some (None, w)"
| "bw_ReadFrom_all spare (e # es) w = do {
     (err, w) \<leftarrow> bw_ReadFrom spare (ext_Read e) w;
     if err = None then bw_ReadFrom_all spare es w else Some (err, w) }"


section \<open>What the first call of Len changes\<close>

definition dummyX25519PublicKey :: bytes where
  "dummyX25519PublicKey = [143, 38, 37, 36, 12, 6, 229, 30, 140, 27, 167, 73, 26, 100, 203, 107, 216,
     81, 163, 222, 52, 211, 54, 210, 46, 37, 78, 216, 157, 97, 241, 244]"

definition rand_pick :: "'a list \<Rightarrow> rand_source \<Rightarrow> 'a option \<times> rand_source" where
  "rand_pick xs rnd = (case rand_Int (length xs) rnd of
     (None, rnd) \<Rightarrow> (None, rnd) | (Some i, rnd) \<Rightarrow> (Some (xs ! i), rnd))"

definition grease_key :: "hpke_crypto \<Rightarrow> bytes \<Rightarrow> bytes option" where
  "grease_key c privEph = (case ParseHPKEPublicKey c 0x20 dummyX25519PublicKey of
     Inl _ \<Rightarrow> None
   | Inr pk \<Rightarrow> (case SetupSender c privEph 0x20 1 1 pk [] of Inl _ \<Rightarrow> None | Inr (enc, _) \<Rightarrow> Some enc))"

text \<open>
  \<open>init\<close> of a GREASE ECH, which runs once. \<open>Len\<close> ignores its error, so an error leaves the fields
  that were set before it; an unknown AEAD is a panic. \<open>privEph\<close> is the ephemeral key of the HPKE sender.
\<close>

definition GreaseECH_init :: "hpke_crypto \<Rightarrow> bytes \<Rightarrow> GreaseECH \<Rightarrow> rand_source \<Rightarrow> (GreaseECH \<times> rand_source) option" where
  "GreaseECH_init c privEph g rnd =
     (if g_initDone g then Some (g, rnd)
      else let g = g\<lparr>g_initDone := True\<rparr>
      in case (if length (g_CandidateConfigIds g) = 0
               then (case rand_Read 1 rnd of (b, rnd) \<Rightarrow> (Some (b ! 0), rnd))
               else rand_pick (g_CandidateConfigIds g) rnd) of
        (None, rnd) \<Rightarrow> Some (g, rnd)
      | (Some configId, rnd) \<Rightarrow>
          (let g = g\<lparr>g_configId := configId\<rparr>
           in case (if length (g_CandidateCipherSuites g) = 0 then (Some (1, 1), rnd)
                    else rand_pick (g_CandidateCipherSuites g) rnd) of
             (None, rnd) \<Rightarrow> Some (g, rnd)
           | (Some suite, rnd) \<Rightarrow>
               (let g = g\<lparr>g_cipherSuite := suite\<rparr>
                in case (if length (g_EncapsulatedKey g) = 0 then grease_key c privEph
                         else Some (g_EncapsulatedKey g)) of
                  None \<Rightarrow> Some (g, rnd)
                | Some enc \<Rightarrow>
                    (let g = g\<lparr>g_EncapsulatedKey := enc\<rparr>
                     in if length (g_payload g) \<noteq> 0 then Some (g, rnd)
                        else let g = (if length (g_CandidatePayloadLens g) = 0 then g\<lparr>g_CandidatePayloadLens := [128]\<rparr> else g)
                        in case rand_pick (g_CandidatePayloadLens g) rnd of
                          (None, rnd) \<Rightarrow> Some (g, rnd)
                        | (Some n, rnd) \<Rightarrow> do {
                            k \<leftarrow> cipherLen (snd suite) (uint n);
                            let (p, rnd) = rand_Read (nat k) rnd;
                            Some (g\<lparr>g_payload := p\<rparr>, rnd) }))))"

definition first_Len :: "hpke_crypto \<Rightarrow> bytes \<Rightarrow> TLSExtension \<Rightarrow> rand_source \<Rightarrow> (TLSExtension \<times> rand_source) option" where
  "first_Len c privEph e rnd = (case e of
     QUICTransportParametersExtension tps None None \<Rightarrow> do {
       (b, tps, rnd) \<leftarrow> tps_Marshal tps [] rnd;
       Some (QUICTransportParametersExtension tps None (Some b), rnd) }
   | UtlsPreSharedKeyExtension p \<Rightarrow> Some (UtlsPreSharedKeyExtension (UtlsPSK_cache p), rnd)
   | GREASEEncryptedClientHelloExtension g \<Rightarrow> do {
       (g, rnd) \<leftarrow> GreaseECH_init c privEph g rnd;
       Some (GREASEEncryptedClientHelloExtension g, rnd) }
   | _ \<Rightarrow> Some (e, rnd))"


section \<open>The connection\<close>

record uconfig =
  cfg_ServerName :: bytes
  cfg_ECHConfigList :: "bytes option"
  cfg_CurvePreferences :: "u16 list"
  cfg_NextProtos :: "bytes list"
  cfg_Renegotiation :: RenegotiationSupport
  cfg_MinVersion :: u16
  cfg_MaxVersion :: u16
  cfg_sessionCached :: bool

text \<open>\<open>uc_Hello\<close> is \<open>HandshakeState.Hello\<close>; its field \<open>Raw\<close> is \<open>ch_original\<close>.\<close>

record uconn =
  uc_config :: uconfig
  uc_Hello :: clientHelloMsg
  uc_Extensions :: "TLSExtension list"
  uc_certCompressionAlgs :: "u16 list"
  uc_handshakes :: nat
  uc_clientFinished :: bytes
  uc_ech :: "nat option"
  uc_rand :: rand_source

definition is_padding :: "TLSExtension \<Rightarrow> bool" where
  "is_padding e = (case e of UtlsPaddingExtension _ _ _ \<Rightarrow> True | _ \<Rightarrow> False)"

text \<open>The first loop of \<open>MarshalClientHelloNoECH\<close>: the sum of the lengths without the padding.\<close>

fun measure_exts :: "hpke_crypto \<Rightarrow> bytes \<Rightarrow> bool \<Rightarrow> TLSExtension list \<Rightarrow> rand_source \<Rightarrow>
    gerror + (TLSExtension list \<times> int \<times> rand_source)" where
  "measure_exts c privEph seen [] rnd = Inr ([], 0, rnd)"
| "measure_exts c privEph seen (e # es) rnd =
     (if is_padding e then
        if seen then Inl (Errorf ''multiple padding extensions'')
        else (case measure_exts c privEph True es rnd of
            Inl err \<Rightarrow> Inl err | Inr (es, n, rnd) \<Rightarrow> Inr (e # es, n, rnd))
      else (case first_Len c privEph e rnd of
          None \<Rightarrow> Inl (Panic ''Len'')
        | Some (e, rnd) \<Rightarrow>
            (case measure_exts c privEph seen es rnd of
               Inl err \<Rightarrow> Inl err | Inr (es, n, rnd) \<Rightarrow> Inr (e # es, ext_Len e + n, rnd))))"

definition update_padding :: "int \<Rightarrow> TLSExtension \<Rightarrow> TLSExtension" where
  "update_padding unpaddedLen e = (case e of
     UtlsPaddingExtension n w f \<Rightarrow>
       (let (n, w) = UtlsPaddingExtension_Update f unpaddedLen (n, w) in UtlsPaddingExtension n w f)
   | _ \<Rightarrow> e)"

definition padding_len :: "TLSExtension list \<Rightarrow> int" where
  "padding_len es = sum_list (map ext_Len (filter is_padding es))"

definition hello_headerLength :: "clientHelloMsg \<Rightarrow> nat" where
  "hello_headerLength hello = 2 + 32 + 1 + length (ch_sessionId hello) + 2 + length (ch_cipherSuites hello) * 2
     + 1 + length (ch_compressionMethods hello)"

definition hello_header :: "clientHelloMsg \<Rightarrow> int \<Rightarrow> bytes list" where
  "hello_header hello helloLen = [
     [typeClientHello],
     [of_int (drop_bit 16 helloLen), of_int (drop_bit 8 helloLen), of_int helloLen],
     be16 (ch_vers hello),
     ch_random hello,
     [of_nat (length (ch_sessionId hello))],
     ch_sessionId hello,
     be16 (of_nat (length (ch_cipherSuites hello) * 2))]
     @ map be16 (ch_cipherSuites hello) @ [
     [of_nat (length (ch_compressionMethods hello))],
     ch_compressionMethods hello]"

text \<open>The second half of the function, from the buffer to the check of the length.\<close>

definition write_hello :: "nat \<Rightarrow> clientHelloMsg \<Rightarrow> int \<Rightarrow> int \<Rightarrow> TLSExtension list \<Rightarrow> gerror + bytes" where
  "write_hello spare hello helloLen extensionsLen es =
     (let w = fold bw_Write (hello_header hello helloLen) (NewWriterSize (nat (helloLen + 4)))
      in case (if length es > 0
               then bw_ReadFrom_all spare es (bw_Write (be16 (of_int extensionsLen)) w) else Some (None, w)) of
           None \<Rightarrow> Inl (Panic ''Read'')
         | Some (Some err, w) \<Rightarrow> Inl (Errorf ''Read failed'')
         | Some (None, w) \<Rightarrow>
             if int (length (bw_out (bw_Flush w))) \<noteq> 4 + helloLen
             then Inl (Errorf ''utls: unexpected ClientHello length'') else Inr (bw_out (bw_Flush w)))"

definition MarshalClientHelloNoECH :: "hpke_crypto \<Rightarrow> bytes \<Rightarrow> nat \<Rightarrow> uconn \<Rightarrow> gerror + uconn" where
  "MarshalClientHelloNoECH c privEph spare uc =
     (let hello = uc_Hello uc; headerLength = hello_headerLength hello
      in case measure_exts c privEph False (uc_Extensions uc) (uc_rand uc) of
        Inl err \<Rightarrow> Inl err
      | Inr (es, extensionsLen, rnd) \<Rightarrow>
          let es = map (update_padding (int headerLength + 4 + extensionsLen + 2)) es;
              extensionsLen = extensionsLen + padding_len es;
              helloLen = int headerLength + (if length es > 0 then 2 + extensionsLen else 0)
          in case write_hello spare hello helloLen extensionsLen es of
               Inl err \<Rightarrow> Inl err
             | Inr raw \<Rightarrow> Inr (uc\<lparr>uc_Extensions := es, uc_rand := rnd, uc_Hello := hello\<lparr>ch_original := Some raw\<rparr>\<rparr>))"


section \<open>The writer collects what it is given\<close>

text \<open>The writer of size \<open>N\<close> has taken \<open>d\<close>, and what it has not used yet is zero.\<close>

definition holds :: "nat \<Rightarrow> bytes \<Rightarrow> bufw \<Rightarrow> bool" where
  "holds N d w \<longleftrightarrow>
     (bw_out w = [] \<and> bw_n w = length d \<and> length d \<le> N \<and> bw_buf w = d @ replicate (N - length d) 0) \<or>
     (bw_out w = d \<and> bw_n w = 0 \<and> length d = N \<and> length (bw_buf w) = N)"

lemma holds_new: "holds N [] (NewWriterSize N)"
  by (simp add: holds_def NewWriterSize_def)

lemma holds_Flush: "holds N d w \<Longrightarrow> bw_out (bw_Flush w) = d"
  by (auto simp: holds_def bw_Flush_def)

lemma holds_Write:
  assumes "holds N d w" "length d + length p \<le> N"
  shows "holds N (d @ p) (bw_Write p w)"
  using assms by (auto simp: holds_def bw_Write_def bw_Available_def bw_store_def diff_diff_eq)

lemma holds_Write_all:
  "holds N d w \<Longrightarrow> length d + length (concat ps) \<le> N \<Longrightarrow> holds N (d @ concat ps) (fold bw_Write ps w)"
proof (induction ps arbitrary: d w)
  case (Cons p ps)
  then show ?case
    using holds_Write [of N d w p] Cons.IH [of "d @ p" "bw_Write p w"] by simp
qed simp

lemma holds_ReadFrom:
  assumes "holds N d w" "d \<noteq> []" "length d + length x \<le> N" "produces rd n x"
  shows "\<exists>w'. bw_ReadFrom spare rd w = Some (None, w') \<and> holds N (d @ x) w'"
proof -
  have rd: "rd (replicate k 0) = Some (int (length x), EOF, x @ replicate (k - length x) 0)" if "length x \<le> k" for k
    using assms(4) that by (auto simp: produces_def)
  have N: "0 < N"
    using assms(2,3) by (cases d) auto
  show ?thesis
  proof (cases "bw_out w = [] \<and> bw_n w = length d \<and> length d < N \<and> bw_buf w = d @ replicate (N - length d) 0")
    case True
    moreover have "length x \<le> N - length d"
      using assms(3) by simp
    ultimately show ?thesis
      using rd [of "N - length d"] assms(2,3)
      by (auto simp: bw_ReadFrom_def holds_def bw_Available_def bw_Flush_def diff_diff_eq nat_int_add Let_def)
  next
    case False
    then have "length d = N"
      using assms(1) by (auto simp: holds_def)
    moreover from this have "x = []"
      using assms(3) by simp
    ultimately show ?thesis
      using rd [of spare] assms(1) N by (auto simp: bw_ReadFrom_def holds_def bw_Available_def bw_Flush_def)
  qed
qed

lemma holds_ReadFrom_all:
  "\<forall>e \<in> set es. ext_readable e \<Longrightarrow> holds N d w \<Longrightarrow> d \<noteq> [] \<Longrightarrow> length d + length (concat (map ext_wire es)) \<le> N \<Longrightarrow>
    \<exists>w'. bw_ReadFrom_all spare es w = Some (None, w') \<and> holds N (d @ concat (map ext_wire es)) w'"
proof (induction es arbitrary: d w)
  case (Cons e es)
  then obtain w' where "bw_ReadFrom spare (ext_Read e) w = Some (None, w')" "holds N (d @ ext_wire e) w'"
    using holds_ReadFrom [of N d w "ext_wire e" "ext_Read e" "ext_Len e" spare] ext_produces [of e] by auto
  then show ?case
    using Cons.IH [of "d @ ext_wire e" w'] Cons.prems by auto
qed simp


section \<open>The lengths add up\<close>

lemma first_Len_padding: "first_Len c privEph e rnd = Some (e', rnd') \<Longrightarrow> is_padding e' = is_padding e"
  by (auto simp: first_Len_def is_padding_def split: TLSExtension.splits option.splits bind_splits)

lemma measure_exts_sum:
  "measure_exts c privEph seen es rnd = Inr (es', n, rnd') \<Longrightarrow>
    n = sum_list (map ext_Len (filter (\<lambda>e. \<not> is_padding e) es')) \<and> map is_padding es' = map is_padding es
    \<and> length (filter is_padding es') \<le> (if seen then 0 else 1)"
proof (induction es arbitrary: seen rnd es' n rnd')
  case (Cons e es)
  show ?case
  proof (cases "is_padding e")
    case True
    then obtain es1 where "measure_exts c privEph True es rnd = Inr (es1, n, rnd')" "es' = e # es1" "\<not> seen"
      using Cons.prems by (auto split: sum.splits if_splits)
    then show ?thesis
      using Cons.IH [of True rnd es1 n rnd'] True by simp
  next
    case False
    then obtain e1 r es1 n1 where m: "first_Len c privEph e rnd = Some (e1, r)"
        "measure_exts c privEph seen es r = Inr (es1, n1, rnd')" "es' = e1 # es1" "n = ext_Len e1 + n1"
      using Cons.prems by (auto split: option.splits sum.splits)
    then show ?thesis
      using Cons.IH [OF m(2)] first_Len_padding [OF m(1)] False by simp
  qed
qed simp

lemma update_padding_other: "\<not> is_padding e \<Longrightarrow> update_padding u e = e"
  by (cases e) (simp_all add: update_padding_def is_padding_def)

lemma is_padding_update [simp]: "is_padding (update_padding u e) = is_padding e"
  by (cases e) (simp_all add: update_padding_def is_padding_def split_def Let_def)

lemma sum_update_padding:
  "sum_list (map ext_Len (map (update_padding u) es)) =
    sum_list (map ext_Len (filter (\<lambda>e. \<not> is_padding e) es)) + padding_len (map (update_padding u) es)"
  by (induction es) (auto simp: padding_len_def update_padding_other)

lemma sum_ext_Len:
  "\<forall>e \<in> set es. ext_readable e \<Longrightarrow> sum_list (map ext_Len es) = int (length (concat (map ext_wire es)))"
  using ext_produces by (induction es) (auto simp: produces_def)

lemma be24_of_int:
  "[of_int (drop_bit 16 (int n)), of_int (drop_bit 8 (int n)), of_int (int n)] = be24 (of_nat n)"
  by (simp add: be24_of_nat hi24_def hi16_def drop_bit_of_nat)

lemma hello_header_bytes:
  "concat (hello_header hello (int k)) = typeClientHello # be24 (of_nat k) @ be16 (ch_vers hello) @ ch_random hello
     @ vec8 (ch_sessionId hello) @ vec16 (concat (map be16 (ch_cipherSuites hello))) @ vec8 (ch_compressionMethods hello)"
  using be24_of_int [of k] by (simp add: hello_header_def vec8_def vec16_def body_lengths mult.commute)

lemma write_hello_bytes:
  assumes "\<forall>e \<in> set es. ext_readable e" "es \<noteq> []" and x: "x = concat (map ext_wire es)"
    and body: "body = be16 (ch_vers hello) @ ch_random hello @ vec8 (ch_sessionId hello)
      @ vec16 (concat (map be16 (ch_cipherSuites hello))) @ vec8 (ch_compressionMethods hello) @ vec16 x"
  shows "write_hello spare hello (int (length body)) (int (length x)) es = Inr (typeClientHello # vec24 body)"
proof -
  let ?h = "concat (hello_header hello (int (length body)))"
  have size: "nat (int (length body) + 4) = length body + 4"
    by (simp add: nat_add_distrib)
  define w where "w = fold bw_Write (hello_header hello (int (length body))) (NewWriterSize (nat (int (length body) + 4)))"
  have h: "?h @ be16 (of_nat (length x)) @ x = typeClientHello # vec24 body"
    by (simp only: hello_header_bytes vec24_def append_assoc append_Cons) (simp add: body vec16_def [of x])
  have len: "length ?h + 2 + length x = length body + 4"
    using arg_cong [OF h, of length] by simp
  then have "holds (length body + 4) ?h w"
    using holds_Write_all [OF holds_new, of "hello_header hello (int (length body))" "length body + 4"]
    by (simp add: w_def size)
  then have "holds (length body + 4) (?h @ be16 (of_nat (length x))) (bw_Write (be16 (of_nat (length x))) w)"
    using len by (intro holds_Write) simp_all
  from holds_ReadFrom_all [OF assms(1) this, of spare] len obtain w' where
      "bw_ReadFrom_all spare es (bw_Write (be16 (of_nat (length x))) w) = Some (None, w')"
      "holds (length body + 4) (typeClientHello # vec24 body) w'"
    using h by (auto simp: x)
  with holds_Flush [OF this(2)] show ?thesis
    using assms(2) by (simp add: write_hello_def w_def [symmetric] Let_def)
qed

lemma marshal_hello:
  assumes "measure_exts c privEph False (uc_Extensions uc) (uc_rand uc) = Inr (es1, n, rnd)"
    and es: "map (update_padding (int (hello_headerLength (uc_Hello uc)) + 4 + n + 2)) es1 = es"
    and "\<forall>e \<in> set es. ext_readable e" "List.map_filter ext_content es \<noteq> []"
    and "length (ch_random (uc_Hello uc)) = 32"
  shows "MarshalClientHelloNoECH c privEph spare uc = Inr (uc\<lparr>uc_Extensions := es, uc_rand := rnd,
    uc_Hello := (uc_Hello uc)\<lparr>ch_original := Some (hello_bytes (ch_vers (uc_Hello uc)) (ch_random (uc_Hello uc))
      (ch_sessionId (uc_Hello uc)) (ch_cipherSuites (uc_Hello uc)) (ch_compressionMethods (uc_Hello uc))
      (List.map_filter ext_content es))\<rparr>\<rparr>)"
proof -
  let ?hello = "uc_Hello uc"
  define x where "x = concat (map ext_wire es)"
  define body where "body = be16 (ch_vers ?hello) @ ch_random ?hello @ vec8 (ch_sessionId ?hello)
    @ vec16 (concat (map be16 (ch_cipherSuites ?hello))) @ vec8 (ch_compressionMethods ?hello) @ vec16 x"
  have "es \<noteq> []"
    using assms(4) by (auto simp: List.map_filter_def)
  note w = write_hello_bytes [OF assms(3) this x_def body_def]
  have sum: "n + padding_len es = int (length x)"
    using measure_exts_sum [OF assms(1)] sum_update_padding [of _ es1] sum_ext_Len [OF assms(3)]
    unfolding es [symmetric] x_def by simp
  have helloLen: "int (hello_headerLength ?hello) + (2 + int (length x)) = int (length body)"
    using assms(5) by (simp add: hello_headerLength_def body_def body_lengths)
  have "MarshalClientHelloNoECH c privEph spare uc = Inr (uc\<lparr>uc_Extensions := es, uc_rand := rnd,
      uc_Hello := ?hello\<lparr>ch_original := Some (typeClientHello # vec24 body)\<rparr>\<rparr>)"
    unfolding MarshalClientHelloNoECH_def Let_def assms(1) sum.case prod.case es sum
    using \<open>es \<noteq> []\<close> by (simp only: length_greater_0_conv simp_thms if_True helloLen w sum.case)
  then show ?thesis
    using assms(4) by (simp add: hello_bytes_def body_def x_def concat_ext_wire)
qed

lemma is_padding_padding [simp]: "is_padding (UtlsPaddingExtension p w f)"
  by (simp add: is_padding_def)

lemma measure_exts_padding:
  "measure_exts c privEph seen es rnd = Inr (es', n, rnd') \<Longrightarrow> UtlsPaddingExtension p w f \<in> set es \<Longrightarrow>
    UtlsPaddingExtension p w f \<in> set es'"
  by (induction es arbitrary: seen rnd es' n rnd') (auto split: if_splits sum.splits option.splits)

lemma padding_in_list:
  "\<lbrakk>UtlsPaddingExtension p w f \<in> set es; length (filter is_padding es) \<le> 1\<rbrakk> \<Longrightarrow>
    padding_len (map (update_padding u) es) = ext_Len (update_padding u (UtlsPaddingExtension p w f))"
proof (induction es)
  case (Cons e es)
  show ?case
  proof (cases "is_padding e")
    case True
    then have "filter is_padding es = []"
      using Cons.prems(2) by simp
    moreover from this have "e = UtlsPaddingExtension p w f"
      using Cons.prems(1) by (auto simp: filter_empty_conv)
    ultimately show ?thesis
      using True by (simp add: padding_len_def filter_map comp_def)
  next
    case False
    then show ?thesis
      using Cons by (auto simp: padding_len_def)
  qed
qed simp

lemma boring_padding_length:
  assumes "n + ext_Len (update_padding n (UtlsPaddingExtension p w (Some BoringPaddingStyle))) = k"
  shows "\<not> (0xff < k \<and> k < 0x200)"
  using assms by (auto simp: update_padding_def UtlsPaddingExtension_Update_def BoringPaddingStyle_def UtlsPaddingExtension_Len_def
      Let_def split: if_splits)

lemma hello_bytes_framed:
  assumes "hello_fits sid suites cm xs" "length r = 32"
  shows "framed typeClientHello (hello_bytes v r sid suites cm xs)"
  unfolding hello_bytes_def using assms by (intro framedI) (auto simp: hello_fits_def)

lemma marshalled_length:
  assumes "MarshalClientHelloNoECH c privEph spare uc = Inr uc'" "ch_original (uc_Hello uc') = Some raw" "uc_Extensions uc \<noteq> []"
    and "measure_exts c privEph False (uc_Extensions uc) (uc_rand uc) = Inr (es1, n, rnd)"
  shows "int (length raw) = int (hello_headerLength (uc_Hello uc)) + 4 + n + 2 +
    padding_len (map (update_padding (int (hello_headerLength (uc_Hello uc)) + 4 + n + 2)) es1)"
proof -
  have "es1 \<noteq> []"
    using measure_exts_sum [OF assms(4)] assms(3) by (auto dest: arg_cong [of _ _ length])
  then show ?thesis
    using assms(1,2) unfolding MarshalClientHelloNoECH_def assms(4)
    by (auto simp: Let_def write_hello_def split: sum.splits option.splits if_splits)
qed

text \<open>
  C12. A hello whose extensions contain a padding extension of the BoringSSL style is never between 256
  and 511 bytes long: when the other extensions give such a length, the padding takes it to at least
  512 bytes.
\<close>

theorem padded_hello_avoids_256_to_511:
  assumes "MarshalClientHelloNoECH c privEph spare uc = Inr uc'" "ch_original (uc_Hello uc') = Some raw"
    and "UtlsPaddingExtension p w (Some BoringPaddingStyle) \<in> set (uc_Extensions uc)"
  shows "\<not> (0xff < length raw \<and> length raw < 0x200)"
proof -
  obtain es1 n rnd where m: "measure_exts c privEph False (uc_Extensions uc) (uc_rand uc) = Inr (es1, n, rnd)"
    using assms(1) by (cases "measure_exts c privEph False (uc_Extensions uc) (uc_rand uc)") (auto simp: MarshalClientHelloNoECH_def Let_def)
  have ne: "uc_Extensions uc \<noteq> []"
    using assms(3) by auto
  have p: "UtlsPaddingExtension p w (Some BoringPaddingStyle) \<in> set es1" "length (filter is_padding es1) \<le> 1"
    using measure_exts_padding [OF m assms(3)] measure_exts_sum [OF m] by simp_all
  from marshalled_length [OF assms(1,2) ne m] show ?thesis
    unfolding padding_in_list [OF p] using boring_padding_length [OF sym] by fastforce
qed

text \<open>
  C3. The ClientHello that a \<open>UConn\<close> marshals from its extensions is well formed, and reading it back
  as a captured record with \<open>FromRaw\<close> gives the fingerprint it was made from: the same cipher suites,
  compression methods and extensions in the same order, with GREASE values replaced by the placeholder
  and without the data of the connection.
\<close>

theorem marshalled_hello_fingerprints_back:
  assumes "cryptobyte_laws cb"
    and "measure_exts c privEph False (uc_Extensions uc) (uc_rand uc) = Inr (es1, n, rnd)"
    and "map (update_padding (int (hello_headerLength (uc_Hello uc)) + 4 + n + 2)) es1 = es"
    and "\<forall>e \<in> set es. ext_readable e \<and> ext_parses blunt e" "List.map_filter ext_content es \<noteq> []"
    and "length (ch_random (uc_Hello uc)) = 32"
    and "hello_fits (ch_sessionId (uc_Hello uc)) (ch_cipherSuites (uc_Hello uc)) (ch_compressionMethods (uc_Hello uc))
      (List.map_filter ext_content es)"
    and "fp_exts realPSK es r = (es', r')"
  shows "\<exists>raw uc'. MarshalClientHelloNoECH c privEph spare uc = Inr uc' \<and> uc_Extensions uc' = es
    \<and> ch_original (uc_Hello uc') = Some raw \<and> framed typeClientHello raw
    \<and> FromRaw cb (22 # be16 recVers @ be16 (of_nat (length raw)) @ raw) blunt realPSK r =
        Some ((reset_versions (List.map_filter ext_content es)
           (ClientHelloSpec_zero\<lparr>TLSVersMin := recVers, TLSVersMax := ch_vers (uc_Hello uc),
              CipherSuites := map unGREASEUint16 (ch_cipherSuites (uc_Hello uc)),
              CompressionMethods := ch_compressionMethods (uc_Hello uc)\<rparr>))
           \<lparr>Extensions := pad_first (int (length raw)) es'\<rparr>, r')"
proof -
  let ?h = "uc_Hello uc" and ?xs = "List.map_filter ext_content es"
  let ?raw = "hello_bytes (ch_vers ?h) (ch_random ?h) (ch_sessionId ?h) (ch_cipherSuites ?h) (ch_compressionMethods ?h) ?xs"
  have ok: "\<forall>e \<in> set es. ext_readable e" "\<forall>e \<in> set es. ext_parses blunt e"
    using assms(4) by simp_all
  have "int (length (22 # be16 recVers @ be16 (of_nat (length ?raw)) @ ?raw)) - 5 = int (length ?raw)"
    by simp
  then have "FromRaw cb (22 # be16 recVers @ be16 (of_nat (length ?raw)) @ ?raw) blunt realPSK r =
      Some ((reset_versions ?xs (ClientHelloSpec_zero\<lparr>TLSVersMin := recVers, TLSVersMax := ch_vers ?h,
              CipherSuites := map unGREASEUint16 (ch_cipherSuites ?h), CompressionMethods := ch_compressionMethods ?h\<rparr>))
           \<lparr>Extensions := pad_first (int (length ?raw)) es'\<rparr>, r')"
    using cryptobyte_laws.FromRaw_hello [OF assms(1) ok(2) assms(6,7,5) length_be(1) refl, of recVers "of_nat (length ?raw)"
        "ch_vers ?h" realPSK r]
    unfolding assms(8) by (simp only: Let_def prod.case)
  then show ?thesis
    using marshal_hello [OF assms(2,3) ok(1) assms(5,6), of spare] hello_bytes_framed [OF assms(7,6), of "ch_vers ?h"]
    by (intro exI [of _ ?raw] exI [of _ "uc\<lparr>uc_Extensions := es, uc_rand := rnd, uc_Hello := ?h\<lparr>ch_original := Some ?raw\<rparr>\<rparr>"]) simp
qed

definition ex_uconn :: uconn where
  "ex_uconn = \<lparr>uc_config = \<lparr>cfg_ServerName = [], cfg_ECHConfigList = None, cfg_CurvePreferences = [], cfg_NextProtos = [],
       cfg_Renegotiation = RenegotiateNever, cfg_MinVersion = 0, cfg_MaxVersion = 0, cfg_sessionCached = False\<rparr>,
     uc_Hello = (clientHelloMsg_zero [])\<lparr>ch_vers := 0x0303, ch_random := replicate 32 7, ch_cipherSuites := [0x1a1a, 0x1301],
       ch_compressionMethods := [0]\<rparr>,
     uc_Extensions = [UtlsGREASEExtension 0x3a3a [], SupportedVersionsExtension [0x2a2a, 0x0304],
       UtlsPaddingExtension 0 False (Some BoringPaddingStyle), ALPNExtension [[104, 50]]],
     uc_certCompressionAlgs = [], uc_handshakes = 0, uc_clientFinished = [], uc_ech = None,
     uc_rand = \<lparr>r_ints = [], r_bytes = []\<rparr>\<rparr>"

lemma ex_uconn_facts:
  "measure_exts hpke_plain [] False (uc_Extensions ex_uconn) (uc_rand ex_uconn) = Inr (uc_Extensions ex_uconn, 22, uc_rand ex_uconn)"
  "map (update_padding (int (hello_headerLength (uc_Hello ex_uconn)) + 4 + 22 + 2)) (uc_Extensions ex_uconn) = uc_Extensions ex_uconn"
  "\<forall>e \<in> set (uc_Extensions ex_uconn). ext_readable e \<and> ext_parses False e"
  "List.map_filter ext_content (uc_Extensions ex_uconn) =
     [(0x3a3a, []), (43, vec8 (concat (map be16 [0x2a2a, 0x0304]))), (16, vec16 (vec8 [104, 50]))]"
  "fp_exts False (uc_Extensions ex_uconn) r =
     ([UtlsGREASEExtension 0x0a0a [], SupportedVersionsExtension [0x0a0a, 0x0304], ALPNExtension [[104, 50]]], r)"
  "length (ch_random (uc_Hello ex_uconn)) = 32"
  by (simp_all add: ex_uconn_def is_padding_def first_Len_def ext_unfold strings_len_def hello_headerLength_def
      clientHelloMsg_zero_def update_padding_def UtlsPaddingExtension_Update_def BoringPaddingStyle_def ext_readable_def
      ext_parses_def strings_parse_def List.map_filter_def fp_ext_def unGREASEUint16_def isGREASEUint16_def)

theorem marshalled_hello_fingerprints_back_witness:
  "\<exists>raw uc'. MarshalClientHelloNoECH hpke_plain [] 512 ex_uconn = Inr uc' \<and> ch_original (uc_Hello uc') = Some raw
    \<and> FromRaw cb_ref (22 # be16 0x0301 @ be16 (of_nat (length raw)) @ raw) False False \<lparr>r_ints = [], r_bytes = []\<rparr> =
        Some (ClientHelloSpec_zero\<lparr>CipherSuites := [0x0a0a, 0x1301], CompressionMethods := [0],
          Extensions := [UtlsGREASEExtension 0x0a0a [], SupportedVersionsExtension [0x0a0a, 0x0304], ALPNExtension [[104, 50]]]\<rparr>,
          \<lparr>r_ints = [], r_bytes = []\<rparr>)"
proof -
  let ?xs = "List.map_filter ext_content (uc_Extensions ex_uconn)"
  have fits: "hello_fits (ch_sessionId (uc_Hello ex_uconn)) (ch_cipherSuites (uc_Hello ex_uconn))
      (ch_compressionMethods (uc_Hello ex_uconn)) ?xs" and ne: "?xs \<noteq> []"
    unfolding ex_uconn_facts by (simp_all add: hello_fits_def ex_uconn_def clientHelloMsg_zero_def ext_enc_def)
  have spec: "(reset_versions ?xs
      (ClientHelloSpec_zero\<lparr>TLSVersMin := 0x0301, TLSVersMax := ch_vers (uc_Hello ex_uconn),
         CipherSuites := map unGREASEUint16 (ch_cipherSuites (uc_Hello ex_uconn)),
         CompressionMethods := ch_compressionMethods (uc_Hello ex_uconn)\<rparr>))
      \<lparr>Extensions := pad_first k [UtlsGREASEExtension 0x0a0a [], SupportedVersionsExtension [0x0a0a, 0x0304], ALPNExtension [[104, 50]]]\<rparr>
    = ClientHelloSpec_zero\<lparr>CipherSuites := [0x0a0a, 0x1301], CompressionMethods := [0],
          Extensions := [UtlsGREASEExtension 0x0a0a [], SupportedVersionsExtension [0x0a0a, 0x0304], ALPNExtension [[104, 50]]]\<rparr>" for k
    unfolding ex_uconn_facts by (simp add: reset_versions_def ClientHelloSpec_zero_def ex_uconn_def clientHelloMsg_zero_def
        unGREASEUint16_def isGREASEUint16_def)
  from marshalled_hello_fingerprints_back [OF ref.cryptobyte_laws_axioms ex_uconn_facts(1,2,3) ne ex_uconn_facts(6) fits
      ex_uconn_facts(5) [of "\<lparr>r_ints = [], r_bytes = []\<rparr>"], of 512 "0x0301"]
  show ?thesis
    unfolding spec by blast
qed

theorem padded_hello_avoids_256_to_511_witness:
  "\<exists>uc' raw. MarshalClientHelloNoECH hpke_plain [] 512 ex_uconn = Inr uc' \<and> ch_original (uc_Hello uc') = Some raw
    \<and> \<not> (0xff < length raw \<and> length raw < 0x200)"
proof -
  have "\<exists>uc' raw. MarshalClientHelloNoECH hpke_plain [] 512 ex_uconn = Inr uc' \<and> ch_original (uc_Hello uc') = Some raw"
    using marshal_hello [OF ex_uconn_facts(1,2) _ _ ex_uconn_facts(6), of 512] ex_uconn_facts(3,4) by simp
  then show ?thesis
    using padded_hello_avoids_256_to_511 [of hpke_plain "[]" 512 ex_uconn _ _ 0 False] by (fastforce simp: ex_uconn_def)
qed

end
