(* ===== verification/Extension_Shuffle.thy ===== *)
theory Extension_Shuffle
  imports UConn_Hello "HOL-Library.Multiset"
begin

unbundle bit_operations_syntax

text \<open>
  The order of the extensions in a parrot (u_parrots.go): the extensions that keep their slots, the
  shuffle of the others, and where the cookie of a HelloRetryRequest is spliced in.

  The comment on \<open>shufflePermutable\<close> explains why it permutes a compacted list: the shuffle has to
  be uniform. That is the theorem here: the sequences of draws of the Fisher-Yates loop of
  \<open>math/rand\<close> are in bijection with the orders of the movable extensions.
\<close>

section \<open>rand.Shuffle\<close>

text \<open>
  \<open>Shuffle(n, swap)\<close> runs \<open>i\<close> from \<open>n - 1\<close> down to 1, draws \<open>j\<close> from \<open>0 .. i\<close> and calls
  \<open>swap(i, j)\<close>. The draws are an argument; \<open>draws_ok n\<close> says that they are those of \<open>n\<close> elements.
\<close>

fun Shuffle :: "nat list \<Rightarrow> nat \<Rightarrow> (nat \<Rightarrow> nat \<Rightarrow> 'a \<Rightarrow> 'a) \<Rightarrow> 'a \<Rightarrow> 'a" where
  "Shuffle (j # ds) (Suc (Suc i)) fn s = Shuffle ds (Suc i) fn (fn (Suc i) j s)"
| "Shuffle _ _ fn s = s"

fun draws_ok :: "nat \<Rightarrow> nat list \<Rightarrow> bool" where
  "draws_ok (Suc (Suc i)) ds = (case ds of [] \<Rightarrow> False | j # ds \<Rightarrow> j \<le> Suc i \<and> draws_ok (Suc i) ds)"
| "draws_ok _ ds = (ds = [])"

definition swap_at :: "nat \<Rightarrow> nat \<Rightarrow> 'a list \<Rightarrow> 'a list" where
  "swap_at i j xs = xs[i := xs ! j, j := xs ! i]"


section \<open>The shuffle of the extensions\<close>

definition positionInvariantExtension :: "TLSExtension \<Rightarrow> bool" where
  "positionInvariantExtension ext = (case ext of
     UtlsGREASEExtension _ _ \<Rightarrow> True
   | UtlsPaddingExtension _ _ _ \<Rightarrow> True
   | UtlsPreSharedKeyExtension _ \<Rightarrow> True
   | FakePreSharedKeyExtension _ _ _ \<Rightarrow> True
   | _ \<Rightarrow> False)"

definition movable_slots :: "TLSExtension list \<Rightarrow> nat list" where
  "movable_slots exts = filter (\<lambda>i. \<not> positionInvariantExtension (exts ! i)) [0..<length exts]"

definition write_back :: "(nat \<times> 'a) list \<Rightarrow> 'a list \<Rightarrow> 'a list" where
  "write_back kvs xs = fold (\<lambda>(i, x) xs. xs[i := x]) kvs xs"

definition shufflePermutable :: "TLSExtension list \<Rightarrow>
    (nat \<Rightarrow> (nat \<Rightarrow> nat \<Rightarrow> TLSExtension list \<Rightarrow> TLSExtension list) \<Rightarrow> TLSExtension list \<Rightarrow> TLSExtension list) \<Rightarrow>
    TLSExtension list" where
  "shufflePermutable exts swap =
     (let idx = movable_slots exts
      in if length idx < 2 then exts
         else let movable = map (\<lambda>i. exts ! i) idx;
                  movable = swap (length movable) swap_at movable
              in write_back (zip idx movable) exts)"

text \<open>
  The generators: \<open>global n\<close> holds the draws of the package-level source for \<open>n\<close> elements,
  \<open>source seed n\<close> those of \<open>rand.New(rand.NewSource(seed))\<close>.
\<close>

definition ShuffleChromeTLSExtensionsWithSeed :: "(int \<Rightarrow> nat \<Rightarrow> nat list) \<Rightarrow> TLSExtension list \<Rightarrow> int \<Rightarrow> TLSExtension list" where
  "ShuffleChromeTLSExtensionsWithSeed source exts seed = shufflePermutable exts (\<lambda>n. Shuffle (source seed n) n)"

definition ShuffleChromeTLSExtensions :: "(nat \<Rightarrow> nat list) \<Rightarrow> (int \<Rightarrow> nat \<Rightarrow> nat list) \<Rightarrow> TLSExtension list \<Rightarrow> rand_source \<Rightarrow>
    TLSExtension list \<times> rand_source" where
  "ShuffleChromeTLSExtensions global source exts rnd = (case rand_Int (2 ^ 63 - 1) rnd of
     (None, rnd) \<Rightarrow> (shufflePermutable exts (\<lambda>n. Shuffle (global n) n), rnd)
   | (Some n, rnd) \<Rightarrow> (ShuffleChromeTLSExtensionsWithSeed source exts (int n), rnd))"

text \<open>The range of slots for the cookie: \<open>first\<close> and \<open>last\<close> are \<open>-1\<close> in the code when there is no movable extension.\<close>

definition cookieSpliceRange :: "TLSExtension list \<Rightarrow> nat \<times> nat" where
  "cookieSpliceRange exts = (case movable_slots exts of
     [] \<Rightarrow> if length exts = 0 then (0, 0) else (1, 1)
   | first # rest \<Rightarrow> (first, List.last (first # rest) + 1))"


section \<open>The second ClientHello\<close>

text \<open>
  What \<open>processHelloRetryRequest\<close> does to the extensions of a parrot before it marshals the second
  hello: the key shares are replaced, and the cookie of the server is echoed. \<open>draw\<close> is the number
  drawn from a fresh generator, which \<open>Intn\<close> brings below its bound, or the failure to seed one.
\<close>

definition prng_Intn :: "nat \<Rightarrow> nat \<Rightarrow> nat" where
  "prng_Intn draw n = (if n = 0 then 0 else draw mod n)"

definition is_keyShare :: "TLSExtension \<Rightarrow> bool" where
  "is_keyShare e = (case e of KeyShareExtension _ \<Rightarrow> True | _ \<Rightarrow> False)"

definition is_cookie :: "TLSExtension \<Rightarrow> bool" where
  "is_cookie e = (case e of CookieExtension _ \<Rightarrow> True | _ \<Rightarrow> False)"

definition retry_extensions :: "pskIdentity list \<Rightarrow> keyShare list \<Rightarrow> bytes \<Rightarrow> nat option \<Rightarrow> TLSExtension list \<Rightarrow>
    gerror + TLSExtension list" where
  "retry_extensions pskIdentities keyShares cookie draw exts =
     (if length pskIdentities > 0 then Inl (Errorf ''uTLS does not support reprocessing of PSK key triggered by HelloRetryRequest'')
      else if \<not> list_ex is_keyShare exts then Inl (Errorf ''uTLS: received HelloRetryRequest, but keyshare not found'')
      else let exts = map (\<lambda>e. if is_keyShare e then KeyShareExtension keyShares else e) exts
      in if length cookie = 0 then Inr exts
      else if list_ex is_cookie exts then Inr (map (\<lambda>e. if is_cookie e then CookieExtension cookie else e) exts)
      else let (lo, hi) = cookieSpliceRange exts
      in case draw of
           None \<Rightarrow> Inl (Errorf ''newPRNG'')
         | Some n \<Rightarrow> (let cookieIndex = lo + prng_Intn n (hi - lo + 1)
             in Inr (take cookieIndex exts @ CookieExtension cookie # drop cookieIndex exts)))"


section \<open>Fisher-Yates is a bijection\<close>

lemma length_swap_at [simp]: "length (swap_at i j xs) = length xs"
  by (simp add: swap_at_def)

lemma mset_swap_at [simp]: "i < length xs \<Longrightarrow> j < length xs \<Longrightarrow> mset (swap_at i j xs) = mset xs"
  by (simp add: swap_at_def mset_swap)

text \<open>The steps on indices up to \<open>n\<close> do not see what follows them.\<close>

lemma Shuffle_append:
  "n \<le> length xs \<Longrightarrow> draws_ok n ds \<Longrightarrow>
    Shuffle ds n swap_at (xs @ zs) = Shuffle ds n swap_at xs @ zs \<and> length (Shuffle ds n swap_at xs) = length xs
    \<and> mset (Shuffle ds n swap_at xs) = mset xs"
proof (induction n ds arbitrary: xs rule: draws_ok.induct)
  case (1 i ds)
  then obtain j ds' where d: "ds = j # ds'" "j \<le> Suc i" "draws_ok (Suc i) ds'"
    by (auto split: list.splits)
  have "swap_at (Suc i) j (xs @ zs) = swap_at (Suc i) j xs @ zs"
    using 1(2) d(2) by (simp add: swap_at_def nth_append list_update_append)
  then show ?case
    using 1(1) [of j ds' "swap_at (Suc i) j xs"] 1(2) d by simp
qed auto

lemmas Shuffle_length = Shuffle_append [where zs = "[]", THEN conjunct2, THEN conjunct1]
lemmas Shuffle_mset = Shuffle_append [where zs = "[]", THEN conjunct2, THEN conjunct2]
lemmas Shuffle_front = Shuffle_append [THEN conjunct1]

text \<open>The first step on \<open>n + 1\<close> elements settles the last one; the others stay distinct.\<close>

definition swap_rest :: "nat \<Rightarrow> nat \<Rightarrow> 'a list \<Rightarrow> 'a list" where
  "swap_rest n k xs = take n (swap_at n k xs)"

lemma swap_at_last:
  assumes "length xs = Suc n" "k \<le> n"
  shows "swap_at n k xs = swap_rest n k xs @ [xs ! k]"
proof -
  have "swap_at n k xs ! n = xs ! k"
    using assms by (cases "k = n") (auto simp: swap_at_def)
  then show ?thesis
    using assms take_Suc_conv_app_nth [of n "swap_at n k xs"] by (simp add: swap_rest_def)
qed

lemma swap_rest_mset: "length xs = Suc n \<Longrightarrow> k \<le> n \<Longrightarrow> add_mset (xs ! k) (mset (swap_rest n k xs)) = mset xs"
  using swap_at_last [of xs n k] mset_swap_at [of n xs k] by simp

lemma swap_rest_distinct: "length xs = Suc n \<Longrightarrow> k \<le> n \<Longrightarrow> distinct xs \<Longrightarrow> distinct (swap_rest n k xs)"
  using swap_rest_mset [of xs n k] by (metis distinct.simps(2) mset.simps(2) mset_eq_imp_distinct_iff)

lemma Shuffle_step:
  assumes "length xs = Suc n" "k \<le> n" "draws_ok n es" "0 < n"
  shows "Shuffle (k # es) (Suc n) swap_at xs = Shuffle es n swap_at (swap_rest n k xs) @ [xs ! k]"
proof -
  obtain i where "n = Suc i"
    using assms(4) by (cases n) auto
  moreover have "length (swap_rest n k xs) = n"
    using assms(1) by (simp add: swap_rest_def)
  ultimately show ?thesis
    using Shuffle_front [of n "swap_rest n k xs" es "[xs ! k]"] swap_at_last [OF assms(1,2)] assms(3) by simp
qed

lemma draws_ok_Suc: "0 < n \<Longrightarrow> draws_ok (Suc n) es \<longleftrightarrow> (\<exists>k es'. es = k # es' \<and> k \<le> n \<and> draws_ok n es')"
  by (cases n) (auto split: list.splits)

lemma Shuffle_unique:
  "length xs = n \<Longrightarrow> distinct xs \<Longrightarrow> mset ys = mset xs \<Longrightarrow>
    \<exists>!ds. draws_ok n ds \<and> Shuffle ds n swap_at xs = ys"
proof (induction n arbitrary: xs ys)
  case (Suc n)
  show ?case
  proof (cases "n = 0")
    case True
    then show ?thesis
      using Suc.prems by (auto simp: length_Suc_conv)
  next
    case False
    obtain ys' y where y: "ys = ys' @ [y]"
      using Suc.prems by (cases ys rule: rev_cases) auto
    have "y \<in> set xs"
      using mset_eq_setD [OF Suc.prems(3)] y by auto
    then obtain j where j: "j \<le> n" "xs ! j = y"
      using Suc.prems(1) by (auto simp: in_set_conv_nth less_Suc_eq_le)
    have "add_mset y (mset ys') = add_mset y (mset (swap_rest n j xs))"
      using swap_rest_mset [OF Suc.prems(1) j(1)] Suc.prems(3) y j(2) by simp
    then have "mset ys' = mset (swap_rest n j xs)"
      by simp
    then obtain ds where ds: "draws_ok n ds" "Shuffle ds n swap_at (swap_rest n j xs) = ys'"
        and uniq: "\<And>es. draws_ok n es \<Longrightarrow> Shuffle es n swap_at (swap_rest n j xs) = ys' \<Longrightarrow> es = ds"
      using Suc.IH [of "swap_rest n j xs" ys'] swap_rest_distinct [OF Suc.prems(1) j(1) Suc.prems(2)] Suc.prems(1)
      by (auto simp: swap_rest_def)
    note run = Shuffle_step [OF Suc.prems(1)] and Sucs = draws_ok_Suc [of n]
    show ?thesis
    proof (rule ex1I [of _ "j # ds"])
      show "draws_ok (Suc n) (j # ds) \<and> Shuffle (j # ds) (Suc n) swap_at xs = ys"
        using run [OF j(1) ds(1)] ds j y False Sucs by simp
    next
      fix es assume es: "draws_ok (Suc n) es \<and> Shuffle es (Suc n) swap_at xs = ys"
      then obtain k es' where k: "es = k # es'" "k \<le> n" "draws_ok n es'"
        using False Sucs by auto
      then have eq: "Shuffle es' n swap_at (swap_rest n k xs) = ys'" "xs ! k = y"
        using run [OF k(2,3)] es y False by auto
      then have "k = j"
        using j k(2) nth_eq_iff_index_eq [OF Suc.prems(2), of k j] Suc.prems(1) by simp
      then show "es = j # ds"
        using uniq [OF k(3)] eq(1) k(1) by simp
    qed
  qed
qed auto


section \<open>The shuffle keeps the pinned slots and is uniform\<close>

definition pinned_slots :: "TLSExtension list \<Rightarrow> nat list" where
  "pinned_slots exts = filter (\<lambda>i. positionInvariantExtension (exts ! i)) [0..<length exts]"

definition at_slots :: "nat list \<Rightarrow> 'a list \<Rightarrow> 'a list" where
  "at_slots idx xs = map (\<lambda>i. xs ! i) idx"

lemma length_at_slots [simp]: "length (at_slots idx xs) = length idx"
  by (simp add: at_slots_def)

lemma movable_slots_distinct [simp]: "distinct (movable_slots exts)"
  by (simp add: movable_slots_def)

lemma slots_cover: "set (movable_slots exts) \<union> set (pinned_slots exts) = {..<length exts}"
    "set (movable_slots exts) \<inter> set (pinned_slots exts) = {}"
  by (auto simp: movable_slots_def pinned_slots_def)

lemma mset_at_slots:
  assumes "length ys = length exts"
  shows "mset ys = mset (at_slots (pinned_slots exts) ys) + mset (at_slots (movable_slots exts) ys)"
proof -
  have "mset ys = image_mset (\<lambda>i. ys ! i) (mset [0..<length exts])"
    using assms map_nth [of ys] by (metis mset_map)
  also have "mset [0..<length exts] = mset (pinned_slots exts) + mset (movable_slots exts)"
    by (simp add: pinned_slots_def movable_slots_def multiset_partition [symmetric] flip: mset_upt)
  finally show ?thesis
    by (simp add: at_slots_def)
qed

lemma length_write_back [simp]: "length (write_back kvs xs) = length xs"
  unfolding write_back_def by (induction kvs arbitrary: xs) auto

lemma nth_write_back_other: "i \<notin> set idx \<Longrightarrow> write_back (zip idx ms) xs ! i = xs ! i"
  unfolding write_back_def
proof (induction idx arbitrary: ms xs)
  case (Cons k idx)
  then show ?case by (cases ms) auto
qed simp

lemma at_slots_write_back:
  "distinct idx \<Longrightarrow> length ms = length idx \<Longrightarrow> set idx \<subseteq> {..<length xs} \<Longrightarrow> at_slots idx (write_back (zip idx ms) xs) = ms"
proof (induction idx arbitrary: ms xs)
  case (Cons k idx)
  then obtain m ms' where m: "ms = m # ms'"
    by (cases ms) auto
  have "write_back (zip (k # idx) ms) xs = write_back (zip idx ms') (xs[k := m])"
    using m by (simp add: write_back_def)
  then show ?case
    using Cons m nth_write_back_other [of k idx ms' "xs[k := m]"] by (simp add: at_slots_def)
qed (simp add: at_slots_def)

lemma write_back_at_slots:
  assumes "length ys = length exts" "at_slots (pinned_slots exts) ys = at_slots (pinned_slots exts) exts"
  shows "write_back (zip (movable_slots exts) (at_slots (movable_slots exts) ys)) exts = ys"
proof (rule nth_equalityI)
  let ?zs = "write_back (zip (movable_slots exts) (at_slots (movable_slots exts) ys)) exts"
  fix i assume "i < length ?zs"
  then have i: "i < length exts"
    by simp
  show "?zs ! i = ys ! i"
  proof (cases "i \<in> set (movable_slots exts)")
    case True
    have "at_slots (movable_slots exts) ?zs = at_slots (movable_slots exts) ys"
      using slots_cover(1) [of exts] by (intro at_slots_write_back) auto
    then show ?thesis
      using True by (simp add: at_slots_def)
  next
    case False
    then have "i \<in> set (pinned_slots exts)"
      using i slots_cover [of exts] by auto
    then show ?thesis
      using False assms(2) nth_write_back_other by (simp add: at_slots_def)
  qed
qed (simp add: assms)

text \<open>With fewer than two movable extensions there is nothing to draw, and the return is early.\<close>

lemma shufflePermutable_Shuffle:
  assumes "draws_ok (length (movable_slots exts)) ds"
  shows "shufflePermutable exts (Shuffle ds) =
    write_back (zip (movable_slots exts)
      (Shuffle ds (length (movable_slots exts)) swap_at (at_slots (movable_slots exts) exts))) exts"
proof (cases "length (movable_slots exts) < 2")
  case True
  then have "length (movable_slots exts) = 0 \<or> length (movable_slots exts) = Suc 0"
    by linarith
  then show ?thesis
    using write_back_at_slots [of exts exts] True by (auto simp: shufflePermutable_def)
qed (simp add: shufflePermutable_def Let_def at_slots_def)

text \<open>The orders that keep the pinned extensions in their slots.\<close>

definition reorderings :: "TLSExtension list \<Rightarrow> TLSExtension list set" where
  "reorderings exts = {ys. mset ys = mset exts \<and>
     (\<forall>i < length exts. positionInvariantExtension (exts ! i) \<longrightarrow> ys ! i = exts ! i)}"

lemma reorderings_iff:
  "ys \<in> reorderings exts \<longleftrightarrow> length ys = length exts \<and>
     at_slots (pinned_slots exts) ys = at_slots (pinned_slots exts) exts \<and>
     mset (at_slots (movable_slots exts) ys) = mset (at_slots (movable_slots exts) exts)" (is "?l \<longleftrightarrow> ?r")
proof -
  have len: "mset ys = mset exts \<Longrightarrow> length ys = length exts"
    by (metis size_mset)
  have pin: "(\<forall>i < length exts. positionInvariantExtension (exts ! i) \<longrightarrow> ys ! i = exts ! i) \<longleftrightarrow>
      at_slots (pinned_slots exts) ys = at_slots (pinned_slots exts) exts"
    by (auto simp: at_slots_def pinned_slots_def)
  show ?thesis
    using len pin mset_at_slots [of ys exts] mset_at_slots [of exts exts] by (auto simp: reorderings_def)
qed

lemma shufflePermutable_reorders:
  assumes "draws_ok (length (movable_slots exts)) ds"
  shows "shufflePermutable exts (Shuffle ds) \<in> reorderings exts"
proof -
  let ?idx = "movable_slots exts"
  let ?ms = "Shuffle ds (length ?idx) swap_at (at_slots ?idx exts)"
  have ms: "length ?ms = length ?idx" "mset ?ms = mset (at_slots ?idx exts)"
    using Shuffle_length [of "length ?idx" "at_slots ?idx exts" ds] Shuffle_mset [of "length ?idx" "at_slots ?idx exts" ds]
      assms by simp_all
  have "at_slots (pinned_slots exts) (write_back (zip ?idx ?ms) exts) = at_slots (pinned_slots exts) exts"
    using slots_cover(2) [of exts] nth_write_back_other [of _ ?idx ?ms exts] by (auto simp: at_slots_def)
  moreover have "at_slots ?idx (write_back (zip ?idx ?ms) exts) = ?ms"
    using ms(1) slots_cover(1) [of exts] by (intro at_slots_write_back) auto
  ultimately show ?thesis
    using ms by (simp add: shufflePermutable_Shuffle [OF assms] reorderings_iff)
qed

lemma shufflePermutable_slots:
  assumes "draws_ok (length (movable_slots exts)) ds"
  shows "at_slots (movable_slots exts) (shufflePermutable exts (Shuffle ds)) =
    Shuffle ds (length (movable_slots exts)) swap_at (at_slots (movable_slots exts) exts)"
proof -
  let ?idx = "movable_slots exts"
  have "length (Shuffle ds (length ?idx) swap_at (at_slots ?idx exts)) = length ?idx"
    using Shuffle_length [of "length ?idx" "at_slots ?idx exts" ds] assms by simp
  moreover have "set ?idx \<subseteq> {..<length exts}"
    using slots_cover(1) [of exts] by auto
  ultimately show ?thesis
    unfolding shufflePermutable_Shuffle [OF assms] by (intro at_slots_write_back) simp_all
qed

lemma reorderings_eqI:
  assumes "ys \<in> reorderings exts" "zs \<in> reorderings exts"
    and "at_slots (movable_slots exts) ys = at_slots (movable_slots exts) zs"
  shows "ys = zs"
proof -
  let ?wb = "\<lambda>ws. write_back (zip (movable_slots exts) ws) exts"
  have "ys = ?wb (at_slots (movable_slots exts) ys)"
    using assms(1) write_back_at_slots [of ys exts] by (simp add: reorderings_iff)
  also have "\<dots> = zs"
    unfolding assms(3) using assms(2) write_back_at_slots [of zs exts] by (simp add: reorderings_iff)
  finally show ?thesis .
qed

lemma movable_at_slots: "filter (\<lambda>e. \<not> positionInvariantExtension e) exts = at_slots (movable_slots exts) exts"
proof -
  have "filter (\<lambda>e. \<not> positionInvariantExtension e) exts =
      filter (\<lambda>e. \<not> positionInvariantExtension e) (map (\<lambda>i. exts ! i) [0..<length exts])"
    by (simp add: map_nth)
  then show ?thesis
    by (simp add: filter_map comp_def at_slots_def movable_slots_def)
qed


lemma ShuffleChromeTLSExtensionsWithSeed_reorders:
  "(\<And>n. draws_ok n (source seed n)) \<Longrightarrow> ShuffleChromeTLSExtensionsWithSeed source exts seed \<in> reorderings exts"
  using shufflePermutable_reorders [of exts "source seed (length (movable_slots exts))"]
  by (simp add: ShuffleChromeTLSExtensionsWithSeed_def shufflePermutable_def Let_def split: if_splits)

lemma ShuffleChromeTLSExtensions_reorders:
  assumes "\<And>n. draws_ok n (global n)" "\<And>seed n. draws_ok n (source seed n)"
  shows "fst (ShuffleChromeTLSExtensions global source exts rnd) \<in> reorderings exts"
proof -
  have "shufflePermutable exts (\<lambda>n. Shuffle (global n) n) \<in> reorderings exts"
    using shufflePermutable_reorders [of exts "global (length (movable_slots exts))"] assms(1)
    by (simp add: shufflePermutable_def Let_def split: if_splits)
  then show ?thesis
    using ShuffleChromeTLSExtensionsWithSeed_reorders [of source, OF assms(2)]
    by (simp add: ShuffleChromeTLSExtensions_def split: prod.splits option.splits)
qed

definition ex_shuffled :: "TLSExtension list" where
  "ex_shuffled = [UtlsGREASEExtension 0 [], SNIExtension [], SCTExtension, StatusRequestExtension, UtlsGREASEExtension 0 []]"

text \<open>
  C13. The shuffle of the extensions is uniform over the orders that keep GREASE, padding and
  pre_shared_key in their slots: for distinct movable extensions, the sequences of draws of the
  Fisher-Yates loop are in bijection with those orders, so that equally likely draws give equally
  likely orders, and no draw moves a pinned extension or loses an extension.
\<close>

theorem shuffle_is_uniform:
  assumes "distinct (filter (\<lambda>e. \<not> positionInvariantExtension e) exts)"
  shows "bij_betw (\<lambda>draws. shufflePermutable exts (Shuffle draws))
    {draws. draws_ok (length (filter (\<lambda>e. \<not> positionInvariantExtension e) exts)) draws}
    {ys. mset ys = mset exts \<and> (\<forall>i < length exts. positionInvariantExtension (exts ! i) \<longrightarrow> ys ! i = exts ! i)}"
proof -
  let ?idx = "movable_slots exts"
  have mov: "filter (\<lambda>e. \<not> positionInvariantExtension e) exts = at_slots ?idx exts"
    by (rule movable_at_slots)
  have uniq: "\<exists>!ds. draws_ok (length ?idx) ds \<and> Shuffle ds (length ?idx) swap_at (at_slots ?idx exts) = at_slots ?idx ys"
    if "ys \<in> reorderings exts" for ys
    using assms mov that by (intro Shuffle_unique) (auto simp: reorderings_iff)
  have "bij_betw (\<lambda>ds. shufflePermutable exts (Shuffle ds)) {ds. draws_ok (length ?idx) ds} (reorderings exts)"
  proof (rule bij_betwI')
    fix ds es assume "ds \<in> {ds. draws_ok (length ?idx) ds}" "es \<in> {ds. draws_ok (length ?idx) ds}"
    then have ok: "draws_ok (length ?idx) ds" "draws_ok (length ?idx) es"
      by auto
    show "(shufflePermutable exts (Shuffle ds) = shufflePermutable exts (Shuffle es)) = (ds = es)"
      using uniq [OF shufflePermutable_reorders [OF ok(1)]] shufflePermutable_slots [OF ok(1)]
        shufflePermutable_slots [OF ok(2)] ok by auto
  next
    fix ys assume ys: "ys \<in> reorderings exts"
    then obtain ds where ds: "draws_ok (length ?idx) ds"
        "Shuffle ds (length ?idx) swap_at (at_slots ?idx exts) = at_slots ?idx ys"
      using uniq [OF ys] by auto
    then have "ys = shufflePermutable exts (Shuffle ds)"
      using shufflePermutable_slots [OF ds(1)] by (intro reorderings_eqI [OF ys shufflePermutable_reorders [OF ds(1)]]) simp
    then show "\<exists>ds \<in> {ds. draws_ok (length ?idx) ds}. ys = shufflePermutable exts (Shuffle ds)"
      using ds(1) by auto
  qed (simp add: shufflePermutable_reorders)
  then show ?thesis
    by (simp add: mov reorderings_def)
qed

theorem shuffle_is_uniform_witness:
  "bij_betw (\<lambda>draws. shufflePermutable ex_shuffled (Shuffle draws)) {draws. draws_ok 3 draws}
    {ys. mset ys = mset ex_shuffled \<and>
      (\<forall>i < length ex_shuffled. positionInvariantExtension (ex_shuffled ! i) \<longrightarrow> ys ! i = ex_shuffled ! i)}
   \<and> draws_ok 3 [0, 1] \<and> shufflePermutable ex_shuffled (Shuffle [0, 1])
      = [UtlsGREASEExtension 0 [], StatusRequestExtension, SCTExtension, SNIExtension [], UtlsGREASEExtension 0 []]"
proof -
  have movable: "filter (\<lambda>e. \<not> positionInvariantExtension e) ex_shuffled = [SNIExtension [], SCTExtension, StatusRequestExtension]"
    by (simp add: ex_shuffled_def positionInvariantExtension_def)
  have "shufflePermutable ex_shuffled (Shuffle [0, 1])
      = [UtlsGREASEExtension 0 [], StatusRequestExtension, SCTExtension, SNIExtension [], UtlsGREASEExtension 0 []]"
    by (simp add: ex_shuffled_def shufflePermutable_def movable_slots_def upt_conv_Cons positionInvariantExtension_def
        swap_at_def write_back_def eval_nat_numeral)
  moreover have "length (filter (\<lambda>e. \<not> positionInvariantExtension e) ex_shuffled) = 3" "draws_ok 3 [0, 1]"
    by (simp_all add: movable eval_nat_numeral)
  moreover have "distinct (filter (\<lambda>e. \<not> positionInvariantExtension e) ex_shuffled)"
    by (simp add: movable)
  ultimately show ?thesis
    using shuffle_is_uniform [of ex_shuffled] by (simp only: simp_thms)
qed


section \<open>The cookie goes to the middle\<close>

text \<open>
  The pinned extensions before the first and after the last movable one.
\<close>

definition leading_pinned :: "TLSExtension list \<Rightarrow> TLSExtension list" where
  "leading_pinned exts = takeWhile positionInvariantExtension exts"

definition trailing_pinned :: "TLSExtension list \<Rightarrow> TLSExtension list" where
  "trailing_pinned exts = rev (takeWhile positionInvariantExtension (rev exts))"

lemma cookieSpliceRange_spec:
  assumes "list_ex (\<lambda>e. \<not> positionInvariantExtension e) exts" "cookieSpliceRange exts = (l, r)"
  shows "l < r" "r \<le> length exts"
    "\<not> positionInvariantExtension (exts ! l)" "\<not> positionInvariantExtension (exts ! (r - 1))"
    "\<And>i. i < l \<Longrightarrow> positionInvariantExtension (exts ! i)"
    "\<And>i. r \<le> i \<Longrightarrow> i < length exts \<Longrightarrow> positionInvariantExtension (exts ! i)"
proof -
  let ?idx = "movable_slots exts"
  have mem: "i \<in> set ?idx \<longleftrightarrow> i < length exts \<and> \<not> positionInvariantExtension (exts ! i)" for i
    by (auto simp: movable_slots_def)
  obtain i where i: "i \<in> set ?idx"
    using assms(1) mem by (auto simp: list_ex_iff in_set_conv_nth)
  then have ne: "?idx \<noteq> []"
    by auto
  have sorted: "sorted ?idx"
    unfolding movable_slots_def by (intro sorted_wrt_filter) simp
  have lohi: "l = hd ?idx" "r = List.last ?idx + 1"
    using assms(2) ne by (auto simp: cookieSpliceRange_def split: list.splits)
  have bounds: "l \<le> k \<and> k < r" if k: "k \<in> set ?idx" for k
  proof -
    obtain m where m: "m < length ?idx" "k = ?idx ! m"
      using k by (auto simp: in_set_conv_nth)
    then have "m \<le> length ?idx - 1"
      by simp
    with m show ?thesis
      using sorted_nth_mono [OF sorted, of 0 m] sorted_nth_mono [OF sorted, of m "length ?idx - 1"] ne lohi
      by (auto simp: hd_conv_nth last_conv_nth)
  qed
  have l: "l \<in> set ?idx" and r: "r - 1 \<in> set ?idx"
    using ne lohi by auto
  show "l < r" using bounds [OF l] by simp
  show "r \<le> length exts" using r mem [of "r - 1"] lohi(2) by simp
  show "\<not> positionInvariantExtension (exts ! l)" using l mem by simp
  show "\<not> positionInvariantExtension (exts ! (r - 1))" using r mem by simp
  show "positionInvariantExtension (exts ! i)" if "i < l" for i
    using bounds [of i] that mem [of i] mem [of l] l by auto
  show "positionInvariantExtension (exts ! i)" if "r \<le> i" "i < length exts" for i
    using bounds [of i] that mem [of i] by auto
qed

text \<open>An insertion between the first and the last movable extension keeps both runs.\<close>

lemma runs_nth:
  assumes "l < length es" "\<not> positionInvariantExtension (es ! l)" "\<And>i. i < l \<Longrightarrow> positionInvariantExtension (es ! i)"
  shows "leading_pinned es = take l es"
  using assms by (simp add: leading_pinned_def takeWhile_eq_take_P_nth)

lemma trailing_nth:
  assumes "0 < r" "r \<le> length es" "\<not> positionInvariantExtension (es ! (r - 1))"
    and "\<And>i. r \<le> i \<Longrightarrow> i < length es \<Longrightarrow> positionInvariantExtension (es ! i)"
  shows "trailing_pinned es = drop r es"
proof -
  have "takeWhile positionInvariantExtension (rev es) = take (length es - r) (rev es)"
    using assms by (intro takeWhile_eq_take_P_nth) (auto simp: rev_nth)
  then show ?thesis
    using assms(2) by (simp add: trailing_pinned_def take_rev)
qed

lemma splice_keeps_runs:
  assumes "list_ex (\<lambda>e. \<not> positionInvariantExtension e) exts" "cookieSpliceRange exts = (l, r)"
    and k: "l \<le> k" "k \<le> r" and c: "\<not> positionInvariantExtension c"
  shows "leading_pinned (take k exts @ c # drop k exts) = leading_pinned exts"
    and "trailing_pinned (take k exts @ c # drop k exts) = trailing_pinned exts"
proof -
  note spec = cookieSpliceRange_spec [OF assms(1,2)]
  let ?es = "take k exts @ c # drop k exts"
  have nth: "?es ! i = (if i < k then exts ! i else if i = k then c else exts ! (i - 1))" if "i \<le> length exts" for i
    using spec(2) k that by (auto simp: nth_append nth_Cons' min_absorb2)
  have "leading_pinned ?es = take l ?es"
    using spec k c nth by (intro runs_nth) (auto simp: min_def)
  then show "leading_pinned ?es = leading_pinned exts"
    using spec k runs_nth [of l exts] by simp
  have "positionInvariantExtension (?es ! i)" if "r + 1 \<le> i" "i < length ?es" for i
    using nth [of i] spec(6) [of "i - 1"] that k by auto
  moreover have "\<not> positionInvariantExtension (?es ! r)"
    using nth [of r] spec(2,4) k c by auto
  ultimately have "trailing_pinned ?es = drop (r + 1) ?es"
    using spec(2) by (intro trailing_nth) auto
  then show "trailing_pinned ?es = trailing_pinned exts"
    using spec k trailing_nth [of r exts] by (simp add: min_absorb2 Suc_diff_le)
qed

lemma takeWhile_map_same:
  "(\<And>x. P (f x) = P x) \<Longrightarrow> (\<And>x. P x \<Longrightarrow> f x = x) \<Longrightarrow> takeWhile P (map f xs) = takeWhile P xs"
  by (induction xs) auto

lemma runs_map:
  assumes "\<And>e. positionInvariantExtension (f e) = positionInvariantExtension e"
    and "\<And>e. positionInvariantExtension e \<Longrightarrow> f e = e"
  shows "leading_pinned (map f exts) = leading_pinned exts" "trailing_pinned (map f exts) = trailing_pinned exts"
  using assms takeWhile_map_same [of positionInvariantExtension f]
  by (simp_all add: leading_pinned_def trailing_pinned_def rev_map)

lemma prng_Intn_less: "0 < n \<Longrightarrow> prng_Intn d n < n"
  by (simp add: prng_Intn_def)

text \<open>
  C16. The second ClientHello keeps the shape of the parrot: when the extensions have no cookie and the
  server sends one, the new extensions are the old ones with the key shares of the retry and one
  cookie extension more, and the run of pinned extensions (GREASE, padding, pre_shared_key) that
  leads the list and the one that ends it are unchanged, for every draw.
\<close>

theorem retry_cookie_in_the_middle:
  assumes "retry_extensions pskIdentities keyShares cookie draw exts = Inr exts'"
    and "cookie \<noteq> []" "\<not> list_ex is_cookie exts"
  shows "mset exts' = add_mset (CookieExtension cookie)
      (mset (map (\<lambda>e. if is_keyShare e then KeyShareExtension keyShares else e) exts))
    \<and> leading_pinned exts' = leading_pinned exts \<and> trailing_pinned exts' = trailing_pinned exts"
proof -
  define upd where "upd e = (if is_keyShare e then KeyShareExtension keyShares else e)" for e
  define es where "es = map upd exts"
  obtain l r where lr: "cookieSpliceRange es = (l, r)"
    by fastforce
  have pinned: "positionInvariantExtension (upd e) = positionInvariantExtension e"
      "positionInvariantExtension e \<Longrightarrow> upd e = e" "is_cookie (upd e) = is_cookie e" for e
    by (cases e; simp add: upd_def positionInvariantExtension_def is_keyShare_def is_cookie_def)+
  have nocookie: "\<not> list_ex is_cookie es"
    using assms(3) by (auto simp: es_def list_ex_iff pinned)
  have ks: "list_ex is_keyShare exts"
    using assms(1) by (auto simp: retry_extensions_def split: if_splits)
  then have "KeyShareExtension keyShares \<in> set es"
    by (force simp: es_def upd_def image_iff list_ex_iff)
  then have mov: "list_ex (\<lambda>e. \<not> positionInvariantExtension e) es"
    unfolding list_ex_iff by (rule bexI [rotated]) (simp add: positionInvariantExtension_def)
  have run: "retry_extensions pskIdentities keyShares cookie draw exts = (if length pskIdentities > 0
      then Inl (Errorf ''uTLS does not support reprocessing of PSK key triggered by HelloRetryRequest'')
      else case draw of None \<Rightarrow> Inl (Errorf ''newPRNG'')
      | Some n \<Rightarrow> Inr (take (l + prng_Intn n (r - l + 1)) es @ CookieExtension cookie # drop (l + prng_Intn n (r - l + 1)) es))"
    using assms(2) nocookie ks lr unfolding retry_extensions_def es_def upd_def
    by (cases draw) (simp_all add: Let_def)
  then obtain k where k: "k \<le> r - l" "exts' = take (l + k) es @ CookieExtension cookie # drop (l + k) es"
    using assms(1) prng_Intn_less [of "r - l + 1"] by (auto split: if_splits option.splits simp: less_Suc_eq_le)
  have "l + k \<le> r"
    using k(1) cookieSpliceRange_spec(1) [OF mov lr] by simp
  note keep = splice_keeps_runs [OF mov lr _ this, of "CookieExtension cookie"]
  have "leading_pinned es = leading_pinned exts" "trailing_pinned es = trailing_pinned exts"
    using pinned by (simp_all add: es_def runs_map)
  then have "leading_pinned exts' = leading_pinned exts" "trailing_pinned exts' = trailing_pinned exts"
    using keep k(2) by (simp_all add: positionInvariantExtension_def)
  moreover have "mset exts' = add_mset (CookieExtension cookie) (mset es)"
    unfolding k(2) using mset_append [of "take (l + k) es" "drop (l + k) es"] by simp
  ultimately show ?thesis
    by (simp add: es_def upd_def [abs_def])
qed

theorem retry_cookie_in_the_middle_witness:
  "retry_extensions [] [] [1] (Some 3) [UtlsGREASEExtension 0 [], KeyShareExtension [], SCTExtension, UtlsGREASEExtension 0 []]
     = Inr [UtlsGREASEExtension 0 [], CookieExtension [1], KeyShareExtension [], SCTExtension, UtlsGREASEExtension 0 []]
   \<and> leading_pinned [UtlsGREASEExtension 0 [], CookieExtension [1], KeyShareExtension [], SCTExtension, UtlsGREASEExtension 0 []]
     = leading_pinned [UtlsGREASEExtension 0 [], KeyShareExtension [], SCTExtension, UtlsGREASEExtension 0 []]"
proof -
  have run: "retry_extensions [] [] [1] (Some 3) [UtlsGREASEExtension 0 [], KeyShareExtension [], SCTExtension, UtlsGREASEExtension 0 []]
     = Inr [UtlsGREASEExtension 0 [], CookieExtension [1], KeyShareExtension [], SCTExtension, UtlsGREASEExtension 0 []]"
    by (simp add: retry_extensions_def is_keyShare_def is_cookie_def cookieSpliceRange_def movable_slots_def
        upt_conv_Cons positionInvariantExtension_def prng_Intn_def eval_nat_numeral)
  show ?thesis
    using run retry_cookie_in_the_middle [OF run] by (simp add: is_cookie_def)
qed

end
