(* ===== verification/UConn_Config.thy ===== *)
theory UConn_Config
  imports Extension_Shuffle
begin

unbundle bit_operations_syntax

text \<open>
  How the extensions of a \<open>UConn\<close> reach the state that the handshake reads (u_conn.go and the
  \<open>writeToUConn\<close> methods of u_tls_extensions.go, u_session_ticket.go, u_pre_shared_key.go, u_ech.go,
  trust_anchors.go): \<open>ApplyConfig\<close>, the version range of a specification, and the setters for the
  server name and the client random.
\<close>

section \<open>writeToUConn\<close>

text \<open>A method works on the connection and on the extension itself; the extension is given by its slot.\<close>

definition set_hello :: "(clientHelloMsg \<Rightarrow> clientHelloMsg) \<Rightarrow> uconn \<Rightarrow> uconn" where
  "set_hello f uc = uc\<lparr>uc_Hello := f (uc_Hello uc)\<rparr>"

definition set_config :: "(uconfig \<Rightarrow> uconfig) \<Rightarrow> uconn \<Rightarrow> uconn" where
  "set_config f uc = uc\<lparr>uc_config := f (uc_config uc)\<rparr>"

definition set_ext :: "nat \<Rightarrow> TLSExtension \<Rightarrow> uconn \<Rightarrow> uconn" where
  "set_ext i e uc = uc\<lparr>uc_Extensions := (uc_Extensions uc)[i := e]\<rparr>"

definition SNIExtension_writeToUConn :: "bytes \<Rightarrow> uconn \<Rightarrow> uconn" where
  "SNIExtension_writeToUConn serverName uc =
     (let uc = (if cfg_ECHConfigList (uc_config uc) = None
                then set_config (\<lambda>c. c\<lparr>cfg_ServerName := serverName\<rparr>) uc else uc)
      in set_hello (\<lambda>h. h\<lparr>ch_serverName := hostnameInSNI serverName\<rparr>) uc)"

definition SupportedCurvesExtension_writeToUConn :: "u16 list \<Rightarrow> uconn \<Rightarrow> uconn" where
  "SupportedCurvesExtension_writeToUConn curves uc =
     set_hello (\<lambda>h. h\<lparr>ch_supportedCurves := curves\<rparr>) (set_config (\<lambda>c. c\<lparr>cfg_CurvePreferences := curves\<rparr>) uc)"

definition SignatureAlgorithmsExtension_writeToUConn :: "u16 list \<Rightarrow> uconn \<Rightarrow> uconn" where
  "SignatureAlgorithmsExtension_writeToUConn algs uc =
     (let greased = list_ex isGREASEUint16 algs
      in if \<not> greased then set_hello (\<lambda>h. h\<lparr>ch_supportedSignatureAlgorithms := algs\<rparr>) uc
         else set_hello (\<lambda>h. h\<lparr>ch_supportedSignatureAlgorithms := filter (\<lambda>sa. \<not> isGREASEUint16 sa) algs\<rparr>) uc)"

definition SignatureAlgorithmsCertExtension_writeToUConn :: "u16 list \<Rightarrow> uconn \<Rightarrow> uconn" where
  "SignatureAlgorithmsCertExtension_writeToUConn algs = set_hello (\<lambda>h. h\<lparr>ch_supportedSignatureAlgorithms := algs\<rparr>)"

definition ALPNExtension_writeToUConn :: "bytes list \<Rightarrow> uconn \<Rightarrow> uconn" where
  "ALPNExtension_writeToUConn protos uc =
     set_hello (\<lambda>h. h\<lparr>ch_alpnProtocols := protos\<rparr>) (set_config (\<lambda>c. c\<lparr>cfg_NextProtos := protos\<rparr>) uc)"

definition NPNExtension_writeToUConn :: "bytes list \<Rightarrow> uconn \<Rightarrow> uconn" where
  "NPNExtension_writeToUConn protos uc =
     set_hello (\<lambda>h. h\<lparr>ch_nextProtoNeg := True\<rparr>) (set_config (\<lambda>c. c\<lparr>cfg_NextProtos := protos\<rparr>) uc)"

definition RenegotiationInfoExtension_writeToUConn :: "nat \<Rightarrow> RenegotiationSupport \<Rightarrow> uconn \<Rightarrow> uconn" where
  "RenegotiationInfoExtension_writeToUConn i reneg uc =
     (let uc = set_config (\<lambda>c. c\<lparr>cfg_Renegotiation := reneg\<rparr>) uc
      in if reneg = RenegotiateOnceAsClient \<or> reneg = RenegotiateFreelyAsClient
         then let uc = set_hello (\<lambda>h. h\<lparr>ch_secureRenegotiationSupported := True\<rparr>) uc
              in if uc_handshakes uc > 0 then set_ext i (RenegotiationInfoExtension reneg (uc_clientFinished uc)) uc else uc
         else uc)"

definition FakePSK_writeToUConn :: "pskIdentity list option \<Rightarrow> bytes list option \<Rightarrow> uconn \<Rightarrow> uconn" where
  "FakePSK_writeToUConn ids binders uc =
     (if \<not> cfg_sessionCached (uc_config uc) then uc
      else set_hello (\<lambda>h. h\<lparr>ch_pskIdentities := (case ids of None \<Rightarrow> [] | Some l \<Rightarrow> l),
                            ch_pskBinders := (case binders of None \<Rightarrow> [] | Some l \<Rightarrow> l)\<rparr>) uc)"

text \<open>
  The trust anchors are shuffled once per connection, with 8 random bytes per step; a chunk of
  fewer than 8 bytes stands for an error of \<open>rand.Read\<close>.
\<close>

definition rand_Read_full :: "nat \<Rightarrow> rand_source \<Rightarrow> bytes option \<times> rand_source" where
  "rand_Read_full n rnd = (case r_bytes rnd of
     [] \<Rightarrow> (None, rnd)
   | b # bs \<Rightarrow> (if length b < n then None else Some (take n b), rnd\<lparr>r_bytes := bs\<rparr>))"

fun shuffle_anchors :: "nat \<Rightarrow> bytes list \<Rightarrow> rand_source \<Rightarrow> bytes list option \<times> rand_source" where
  "shuffle_anchors (Suc i) order rnd = (case rand_Read_full 8 rnd of
     (None, rnd) \<Rightarrow> (None, rnd)
   | (Some b, rnd) \<Rightarrow> shuffle_anchors i (swap_at (Suc i) (from_be b mod (Suc i + 1)) order) rnd)"
| "shuffle_anchors 0 order rnd = (Some order, rnd)"

definition TrustAnchorsExtension_writeToUConn :: "nat \<Rightarrow> bytes list \<Rightarrow> bool \<Rightarrow> uconn \<Rightarrow> uconn" where
  "TrustAnchorsExtension_writeToUConn i anchors shuffle uc =
     (if \<not> shuffle \<or> length anchors < 2 then set_ext i (TrustAnchorsExtension anchors shuffle None) uc
      else case shuffle_anchors (length anchors - 1) anchors (uc_rand uc) of
        (emitOrder, rnd) \<Rightarrow> set_ext i (TrustAnchorsExtension anchors shuffle emitOrder) (uc\<lparr>uc_rand := rnd\<rparr>))"

definition GreaseECH_writeToUConn :: "hpke_crypto \<Rightarrow> bytes \<Rightarrow> nat \<Rightarrow> nat \<Rightarrow> uconn \<Rightarrow> gerror + uconn" where
  "GreaseECH_writeToUConn c privEph spare i uc = MarshalClientHelloNoECH c privEph spare (uc\<lparr>uc_ech := Some i\<rparr>)"

text \<open>The dispatch, with the methods that assign one field or nothing written in place.\<close>

definition writeToUConn :: "hpke_crypto \<Rightarrow> bytes \<Rightarrow> nat \<Rightarrow> nat \<Rightarrow> uconn \<Rightarrow> gerror + uconn" where
  "writeToUConn c privEph spare i uc = (case uc_Extensions uc ! i of
     SNIExtension serverName \<Rightarrow> Inr (SNIExtension_writeToUConn serverName uc)
   | StatusRequestExtension \<Rightarrow> Inr (set_hello (\<lambda>h. h\<lparr>ch_ocspStapling := True\<rparr>) uc)
   | SupportedCurvesExtension curves \<Rightarrow> Inr (SupportedCurvesExtension_writeToUConn curves uc)
   | SupportedPointsExtension points \<Rightarrow> Inr (set_hello (\<lambda>h. h\<lparr>ch_supportedPoints := points\<rparr>) uc)
   | SignatureAlgorithmsExtension algs \<Rightarrow> Inr (SignatureAlgorithmsExtension_writeToUConn algs uc)
   | StatusRequestV2Extension \<Rightarrow> Inr (set_hello (\<lambda>h. h\<lparr>ch_ocspStapling := True\<rparr>) uc)
   | SignatureAlgorithmsCertExtension algs \<Rightarrow> Inr (SignatureAlgorithmsCertExtension_writeToUConn algs uc)
   | ALPNExtension protos \<Rightarrow> Inr (ALPNExtension_writeToUConn protos uc)
   | SCTExtension \<Rightarrow> Inr (set_hello (\<lambda>h. h\<lparr>ch_scts := True\<rparr>) uc)
   | ExtendedMasterSecretExtension \<Rightarrow> Inr (set_hello (\<lambda>h. h\<lparr>ch_extendedMasterSecret := True\<rparr>) uc)
   | UtlsCompressCertExtension algs \<Rightarrow> Inr (uc\<lparr>uc_certCompressionAlgs := algs\<rparr>)
   | KeyShareExtension kss \<Rightarrow> Inr (set_hello (\<lambda>h. h\<lparr>ch_keyShares := kss\<rparr>) uc)
   | PSKKeyExchangeModesExtension modes \<Rightarrow> Inr (set_hello (\<lambda>h. h\<lparr>ch_pskModes := modes\<rparr>) uc)
   | SupportedVersionsExtension versions \<Rightarrow> Inr (set_hello (\<lambda>h. h\<lparr>ch_supportedVersions := versions\<rparr>) uc)
   | NPNExtension protos \<Rightarrow> Inr (NPNExtension_writeToUConn protos uc)
   | RenegotiationInfoExtension reneg _ \<Rightarrow> Inr (RenegotiationInfoExtension_writeToUConn i reneg uc)
   | FakeEarlyDataExtension \<Rightarrow> Inr (set_hello (\<lambda>h. h\<lparr>ch_earlyData := True\<rparr>) uc)
   | SessionTicketExtension _ _ _ \<Rightarrow> Inr (set_hello (\<lambda>h. h\<lparr>ch_ticketSupported := True\<rparr>) uc)
   | UtlsPreSharedKeyExtension _ \<Rightarrow> Inr (set_hello (\<lambda>h. h\<lparr>ch_ticketSupported := True\<rparr>) uc)
   | FakePreSharedKeyExtension ids binders _ \<Rightarrow> Inr (FakePSK_writeToUConn ids binders uc)
   | GREASEEncryptedClientHelloExtension _ \<Rightarrow> GreaseECH_writeToUConn c privEph spare i uc
   | TrustAnchorsExtension anchors shuffle _ \<Rightarrow> Inr (TrustAnchorsExtension_writeToUConn i anchors shuffle uc)
   | _ \<Rightarrow> Inr uc)"

fun apply_slots :: "hpke_crypto \<Rightarrow> bytes \<Rightarrow> nat \<Rightarrow> nat list \<Rightarrow> uconn \<Rightarrow> gerror + uconn" where
  "apply_slots c privEph spare [] uc = Inr uc"
| "apply_slots c privEph spare (i # is) uc = (case writeToUConn c privEph spare i uc of
     Inl err \<Rightarrow> Inl err | Inr uc \<Rightarrow> apply_slots c privEph spare is uc)"

definition ApplyConfig :: "hpke_crypto \<Rightarrow> bytes \<Rightarrow> nat \<Rightarrow> uconn \<Rightarrow> gerror + uconn" where
  "ApplyConfig c privEph spare uc = apply_slots c privEph spare [0..<length (uc_Extensions uc)] uc"


section \<open>The setters\<close>

definition SetClientRandom :: "bytes \<Rightarrow> uconn \<Rightarrow> gerror + uconn" where
  "SetClientRandom r uc =
     (if length r \<noteq> 32 then Inl (Errorf ''Incorrect client random length! Expected: 32'')
      else Inr (set_hello (\<lambda>h. h\<lparr>ch_random := r\<rparr>) uc))"

definition is_SNI :: "TLSExtension \<Rightarrow> bool" where
  "is_SNI e = (case e of SNIExtension _ \<Rightarrow> True | _ \<Rightarrow> False)"

definition SetSNI :: "bytes \<Rightarrow> uconn \<Rightarrow> uconn" where
  "SetSNI sni uc =
     (let hname = hostnameInSNI sni; uc = set_config (\<lambda>c. c\<lparr>cfg_ServerName := hname\<rparr>) uc
      in uc\<lparr>uc_Extensions := map (\<lambda>e. if is_SNI e then SNIExtension hname else e) (uc_Extensions uc)\<rparr>)"

definition removeSNIExtension :: "uconn \<Rightarrow> uconn" where
  "removeSNIExtension uc = uc\<lparr>uc_Extensions := filter (\<lambda>e. \<not> is_SNI e) (uc_Extensions uc)\<rparr>"

text \<open>The extension numbers for \<open>ech_outer_extensions\<close>: each extension is read into 2000 zeros; a
  panic of \<open>Read\<close> is \<open>None\<close>.\<close>

definition ext_number :: "TLSExtension \<Rightarrow> u16 option" where
  "ext_number e = do { (_, _, b) \<leftarrow> ext_Read e (replicate 2000 0); Some (word_of_nat (from_be (take 2 b))) }"

fun extensionsList :: "TLSExtension list \<Rightarrow> u16 list option" where
  "extensionsList [] = Some []"
| "extensionsList (e # es) = do {
     n \<leftarrow> ext_number e; ns \<leftarrow> extensionsList es;
     Some (if n = extensionSupportedVersions then ns else n # ns) }"


section \<open>The version range\<close>

definition makeSupportedVersions :: "u16 \<Rightarrow> u16 \<Rightarrow> u16 list" where
  "makeSupportedVersions minVers maxVers = map (\<lambda>i. maxVers - of_nat i) [0..<unat (maxVers - minVers + 1)]"

definition version_step :: "u16 \<Rightarrow> u16 \<times> u16 \<Rightarrow> u16 \<times> u16" where
  "version_step vers = (\<lambda>(minVers, maxVers).
     if isGREASEUint16 vers then (minVers, maxVers)
     else (if minVers > vers \<or> minVers = 0 then vers else minVers,
           if maxVers < vers \<or> maxVers = 0 then vers else maxVers))"

definition find_versions :: "u16 list \<Rightarrow> u16 \<times> u16" where
  "find_versions versions = fold version_step versions (0, 0)"

text \<open>The loop over the extensions: the range and the number of extensions seen.\<close>

fun versions_in :: "TLSExtension list \<Rightarrow> u16 \<times> u16 \<Rightarrow> nat \<Rightarrow> gerror + ((u16 \<times> u16) \<times> nat)" where
  "versions_in [] vr present = Inr (vr, present)"
| "versions_in (e # es) vr present = (case e of
     SupportedVersionsExtension versions \<Rightarrow>
       (let vr = find_versions versions
        in if vr = (0, 0) then Inl (Errorf ''SupportedVersions extension has invalid Versions field'')
           else versions_in es vr (present + 1))
   | _ \<Rightarrow> versions_in es vr present)"

definition spec_versions :: "u16 \<Rightarrow> u16 \<Rightarrow> TLSExtension list \<Rightarrow> gerror + (u16 \<times> u16)" where
  "spec_versions minTLSVers maxTLSVers exts =
     (case (if minTLSVers = 0 \<and> maxTLSVers = 0
            then (case versions_in exts (0, 0) 0 of
                Inl err \<Rightarrow> Inl err
              | Inr (vr, present) \<Rightarrow>
                  (if present = 0 then Inr (VersionTLS10, VersionTLS12) else if present = 1 then Inr vr
                   else Inl (Errorf ''uconn.Extensions contains separate SupportedVersions extensions'')))
            else Inr (minTLSVers, maxTLSVers)) of
        Inl err \<Rightarrow> Inl err
      | Inr (minTLSVers, maxTLSVers) \<Rightarrow>
          if minTLSVers < VersionTLS10 \<or> minTLSVers > VersionTLS13 then Inl (Errorf ''uTLS does not support min version'')
          else if maxTLSVers < VersionTLS10 \<or> maxTLSVers > VersionTLS13 then Inl (Errorf ''uTLS does not support max version'')
          else Inr (minTLSVers, maxTLSVers))"

definition SetTLSVers :: "u16 \<Rightarrow> u16 \<Rightarrow> TLSExtension list \<Rightarrow> uconn \<Rightarrow> gerror + uconn" where
  "SetTLSVers minTLSVers maxTLSVers exts uc = (case spec_versions minTLSVers maxTLSVers exts of
     Inl err \<Rightarrow> Inl err
   | Inr (minTLSVers, maxTLSVers) \<Rightarrow>
       (let uc = set_hello (\<lambda>h. h\<lparr>ch_supportedVersions := makeSupportedVersions minTLSVers maxTLSVers\<rparr>) uc
        in Inr (if cfg_ECHConfigList (uc_config uc) = None
                then set_config (\<lambda>c. c\<lparr>cfg_MinVersion := minTLSVers, cfg_MaxVersion := maxTLSVers\<rparr>) uc else uc)))"

lemma version_steps_ordered:
  "fst r \<le> snd r \<Longrightarrow> fst (fold version_step versions r) \<le> snd (fold version_step versions r)"
proof (induction versions arbitrary: r)
  case (Cons v vs)
  have "fst (version_step v r) \<le> snd (version_step v r)"
    using Cons.prems by (auto simp: version_step_def split: prod.splits)
  then show ?case
    using Cons.IH by simp
qed simp

lemma find_versions_ordered: "fst (find_versions versions) \<le> snd (find_versions versions)"
  unfolding find_versions_def by (rule version_steps_ordered) simp_all

lemma versions_in_ordered:
  "versions_in es vr n = Inr (vr', n') \<Longrightarrow> fst vr \<le> snd vr \<Longrightarrow> fst vr' \<le> snd vr'"
proof (induction es arbitrary: vr n)
  case (Cons e es)
  show ?case
  proof (cases "\<exists>versions. e = SupportedVersionsExtension versions")
    case True
    then show ?thesis
      using Cons.IH [of "find_versions _"] Cons.prems(1) find_versions_ordered by (auto simp: Let_def split: if_splits)
  next
    case False
    then show ?thesis
      using Cons by (cases e) auto
  qed
qed simp

lemma spec_versions_bounds:
  assumes "spec_versions mn mx exts = Inr (a, b)" "mn \<le> mx"
  shows "VersionTLS10 \<le> a \<and> a \<le> b \<and> b \<le> VersionTLS13"
  using assms versions_in_ordered [of exts "(0, 0)" 0]
  by (auto simp: spec_versions_def not_less split: if_splits sum.splits prod.splits)

lemma makeSupportedVersions_nth:
  assumes "a \<le> b" "b < 0xffff"
  shows "length (makeSupportedVersions a b) = unat b - unat a + 1"
    and "i \<le> unat b - unat a \<Longrightarrow> unat (makeSupportedVersions a b ! i) = unat b - i"
proof -
  have le: "unat a \<le> unat b" "unat b < 0xffff"
    using assms by (simp_all add: word_le_nat_alt word_less_nat_alt)
  have n: "unat (b - a + 1) = unat b - unat a + 1"
    using le assms by (simp add: unat_sub unat_word_ariths(1) word_le_nat_alt)
  then show "length (makeSupportedVersions a b) = unat b - unat a + 1"
    by (simp add: makeSupportedVersions_def)
  assume i: "i \<le> unat b - unat a"
  then have "unat (of_nat i :: u16) = i"
    using le by (simp add: unat_of_nat)
  moreover from this have "of_nat i \<le> b"
    using i by (simp add: word_le_nat_alt)
  ultimately show "unat (makeSupportedVersions a b ! i) = unat b - i"
    using i n by (simp add: makeSupportedVersions_def unat_sub del: upt_Suc)
qed

end
