(* ===== verification/Spec_Shape.thy ===== *)
theory Spec_Shape
  imports UConn_Config "HOL-Library.Sublist"
begin

text \<open>
  What a ClientHelloSpec must satisfy for the connection to accept it: the shape that
  \<open>ApplyPreset\<close>, \<open>syncSessionExts\<close> and \<open>MarshalClientHelloNoECH\<close> demand (at most two GREASE
  extensions, at most one extension of each other type, pre_shared_key last, a version range), and
  that a TLS 1.3 hello is complete. The shape does not depend on the order of the movable extensions.
\<close>

section \<open>The shape\<close>

text \<open>The extension type, with GREASE left out.\<close>

definition ext_types :: "TLSExtension \<Rightarrow> u16 list" where
  "ext_types e = (case e of
     SNIExtension _ \<Rightarrow> [extensionServerName]
   | StatusRequestExtension \<Rightarrow> [extensionStatusRequest]
   | SupportedCurvesExtension _ \<Rightarrow> [extensionSupportedCurves]
   | SupportedPointsExtension _ \<Rightarrow> [extensionSupportedPoints]
   | SignatureAlgorithmsExtension _ \<Rightarrow> [extensionSignatureAlgorithms]
   | StatusRequestV2Extension \<Rightarrow> [extensionStatusRequestV2]
   | SignatureAlgorithmsCertExtension _ \<Rightarrow> [extensionSignatureAlgorithmsCert]
   | ALPNExtension _ \<Rightarrow> [extensionALPN]
   | ApplicationSettingsExtension _ \<Rightarrow> [utlsExtensionApplicationSettings]
   | ApplicationSettingsExtensionNew _ \<Rightarrow> [utlsExtensionApplicationSettingsNew]
   | SCTExtension \<Rightarrow> [extensionSCT]
   | GenericExtension i _ \<Rightarrow> [i]
   | ExtendedMasterSecretExtension \<Rightarrow> [extensionExtendedMasterSecret]
   | UtlsGREASEExtension _ _ \<Rightarrow> []
   | UtlsPaddingExtension _ _ _ \<Rightarrow> [utlsExtensionPadding]
   | UtlsCompressCertExtension _ \<Rightarrow> [utlsExtensionCompressCertificate]
   | KeyShareExtension _ \<Rightarrow> [extensionKeyShare]
   | QUICTransportParametersExtension _ _ _ \<Rightarrow> [extensionQUICTransportParameters]
   | PSKKeyExchangeModesExtension _ \<Rightarrow> [extensionPSKModes]
   | SupportedVersionsExtension _ \<Rightarrow> [extensionSupportedVersions]
   | CookieExtension _ \<Rightarrow> [extensionCookie]
   | NPNExtension _ \<Rightarrow> [extensionNextProtoNeg]
   | RenegotiationInfoExtension _ _ \<Rightarrow> [extensionRenegotiationInfo]
   | FakeChannelIDExtension old \<Rightarrow> [if old then fakeOldExtensionChannelID else fakeExtensionChannelID]
   | FakeRecordSizeLimitExtension _ \<Rightarrow> [fakeRecordSizeLimit]
   | FakeTokenBindingExtension _ _ _ \<Rightarrow> [fakeExtensionTokenBinding]
   | FakeDelegatedCredentialsExtension _ \<Rightarrow> [fakeExtensionDelegatedCredentials]
   | FakeEarlyDataExtension \<Rightarrow> [extensionEarlyData]
   | SessionTicketExtension _ _ _ \<Rightarrow> [extensionSessionTicket]
   | UtlsPreSharedKeyExtension _ \<Rightarrow> [extensionPreSharedKey]
   | FakePreSharedKeyExtension _ _ _ \<Rightarrow> [extensionPreSharedKey]
   | GREASEEncryptedClientHelloExtension _ \<Rightarrow> [utlsExtensionECH]
   | TrustAnchorsExtension _ _ _ \<Rightarrow> [utlsExtensionTrustAnchors])"

definition is_greaseExt :: "TLSExtension \<Rightarrow> bool" where
  "is_greaseExt e = (case e of UtlsGREASEExtension _ _ \<Rightarrow> True | _ \<Rightarrow> False)"

definition is_psk :: "TLSExtension \<Rightarrow> bool" where
  "is_psk e = (case e of UtlsPreSharedKeyExtension _ \<Rightarrow> True | FakePreSharedKeyExtension _ _ _ \<Rightarrow> True | _ \<Rightarrow> False)"

definition is_pskModes :: "TLSExtension \<Rightarrow> bool" where
  "is_pskModes e = (case e of PSKKeyExchangeModesExtension _ \<Rightarrow> True | _ \<Rightarrow> False)"

definition exts_wf :: "TLSExtension list \<Rightarrow> bool" where
  "exts_wf es \<longleftrightarrow> distinct (concat (map ext_types es)) \<and> length (filter is_greaseExt es) \<le> 2 \<and> list_all (\<lambda>e. \<not> is_psk e) (butlast es)"

definition versions_of :: "TLSExtension list \<Rightarrow> u16 list list" where
  "versions_of es = concat (map (\<lambda>e. case e of SupportedVersionsExtension vs \<Rightarrow> [vs] | _ \<Rightarrow> []) es)"

definition suites13 :: "u16 list" where
  "suites13 = [0x1301, 0x1302, 0x1303]"

text \<open>The version range is accepted; a TLS 1.3 hello has versions, key shares, PSK modes and a TLS 1.3 suite, others have not.\<close>

definition versions_wf :: "ClientHelloSpec \<Rightarrow> bool" where
  "versions_wf p = (case spec_versions (TLSVersMin p) (TLSVersMax p) (Extensions p) of
     Inl _ \<Rightarrow> False
   | Inr (minVers, maxVers) \<Rightarrow>
       minVers \<le> maxVers \<and>
       (maxVers = VersionTLS13 \<longleftrightarrow> versions_of (Extensions p) \<noteq> []) \<and>
       (maxVers = VersionTLS13 \<longleftrightarrow> list_ex is_keyShare (Extensions p)) \<and>
       (maxVers = VersionTLS13 \<longrightarrow> list_ex is_pskModes (Extensions p)) \<and>
       (maxVers = VersionTLS13 \<longleftrightarrow> list_ex (\<lambda>c. c \<in> set suites13) (CipherSuites p)))"

definition spec_wf :: "ClientHelloSpec \<Rightarrow> bool" where
  "spec_wf p \<longleftrightarrow> exts_wf (Extensions p) \<and> CipherSuites p \<noteq> [] \<and> distinct (CipherSuites p) \<and> versions_wf p"

text \<open>The range that the connection accepts is the range that the hello offers.\<close>

definition versions_match :: "ClientHelloSpec \<Rightarrow> bool" where
  "versions_match p \<longleftrightarrow> list_all (\<lambda>vs. spec_versions (TLSVersMin p) (TLSVersMax p) (Extensions p) = Inr (find_versions vs))
     (versions_of (Extensions p))"

text \<open>Every key share is for an offered group, in the order of the groups (RFC 8446, 4.2.8).\<close>

definition groups_offered :: "TLSExtension list \<Rightarrow> bool" where
  "groups_offered es = list_all (\<lambda>e. case e of
     KeyShareExtension kss \<Rightarrow> distinct (map ks_group kss) \<and> list_ex (\<lambda>e. case e of
         SupportedCurvesExtension curves \<Rightarrow> subseq (map ks_group kss) curves | _ \<Rightarrow> False) es
   | _ \<Rightarrow> True) es"

text \<open>All of it.\<close>

definition shape_ok :: "ClientHelloSpec \<Rightarrow> bool" where
  "shape_ok p \<longleftrightarrow> spec_wf p \<and> groups_offered (Extensions p) \<and> versions_match p"

named_theorems ext_kinds
declare ext_types_def [ext_kinds] versions_of_def [ext_kinds] is_keyShare_def [ext_kinds] is_pskModes_def [ext_kinds]
  is_psk_def [ext_kinds] is_greaseExt_def [ext_kinds]

lemmas shape_simps = shape_ok_def spec_wf_def exts_wf_def versions_wf_def versions_match_def groups_offered_def ext_kinds
  spec_versions_def find_versions_def version_step_def isGREASEUint16_def suites13_def


section \<open>The shape and the order\<close>

text \<open>The type is the one on the wire.\<close>

lemma ext_types_content: "ext_content e = Some (i, d) \<Longrightarrow> \<not> is_greaseExt e \<Longrightarrow> ext_types e = [i]"
  by (cases e) (auto simp: ext_types_def is_greaseExt_def psk_content_def Let_def split: if_splits option.splits)

lemma mset_concat_map: "mset xs = mset ys \<Longrightarrow> mset (concat (map f xs)) = mset (concat (map f ys))"
proof -
  have "mset (concat (map f zs)) = sum_mset (image_mset (\<lambda>x. mset (f x)) (mset zs))" for zs
    by (induction zs) auto
  then show "mset xs = mset ys \<Longrightarrow> ?thesis"
    by simp
qed

lemma versions_in_versions_of:
  "versions_in es vr n = versions_in (map SupportedVersionsExtension (versions_of es)) vr n"
proof (induction es arbitrary: vr n)
  case (Cons e es)
  then show ?case
    by (cases e) (simp_all add: versions_of_def Let_def)
qed (simp add: versions_of_def)

lemma spec_versions_versions_of: "versions_of es = versions_of es' \<Longrightarrow> spec_versions a b es = spec_versions a b es'"
  unfolding spec_versions_def using versions_in_versions_of [of es] versions_in_versions_of [of es'] by simp

lemma versions_of_types:
  "length (versions_of es) \<le> count_list (concat (map ext_types es)) extensionSupportedVersions"
proof (induction es)
  case (Cons e es)
  then show ?case
    by (cases e) (auto simp: versions_of_def ext_types_def)
qed (simp add: versions_of_def)

lemma distinct_count_list: "distinct xs \<Longrightarrow> count_list xs x \<le> 1"
  by (induction xs) (auto simp: count_list_0_iff)

lemma versions_of_reorder:
  assumes "mset es = mset es'" "distinct (concat (map ext_types es))"
  shows "versions_of es' = versions_of es"
proof -
  have "length (versions_of es) \<le> 1"
    using versions_of_types [of es] distinct_count_list [OF assms(2), of extensionSupportedVersions] by simp
  moreover have "mset (versions_of es) = mset (versions_of es')"
    unfolding versions_of_def by (rule mset_concat_map [OF assms(1)])
  moreover from this have "length (versions_of es) = length (versions_of es')"
    by (rule mset_eq_length)
  ultimately show ?thesis
    by (cases "versions_of es"; cases "versions_of es'") auto
qed

lemma psk_pinned: "is_psk e \<Longrightarrow> positionInvariantExtension e"
  by (cases e) (simp_all add: is_psk_def positionInvariantExtension_def)

lemma psk_last_reorder:
  assumes "es' \<in> reorderings es" "list_all (\<lambda>e. \<not> is_psk e) (butlast es)"
  shows "list_all (\<lambda>e. \<not> is_psk e) (butlast es')"
proof -
  have len: "length es' = length es"
    using assms(1) by (simp add: reorderings_iff)
  have "\<not> is_psk (es' ! i)" if i: "i < length es - 1" for i
  proof (cases "i \<in> set (movable_slots es)")
    case True
    then have "es' ! i \<in> set (at_slots (movable_slots es) es')"
      by (simp add: at_slots_def)
    also have "\<dots> = set (at_slots (movable_slots es) es)"
      using assms(1) by (metis reorderings_iff mset_eq_setD)
    finally show ?thesis
      using psk_pinned by (auto simp: movable_at_slots [symmetric])
  next
    case False
    then have "es' ! i = es ! i"
      using assms(1) i by (auto simp: reorderings_def movable_slots_def)
    then show ?thesis
      using assms(2) i by (auto simp: list_all_length nth_butlast)
  qed
  then show ?thesis
    using len by (auto simp: list_all_length nth_butlast)
qed

lemma reorderings_mset: "es' \<in> reorderings es \<Longrightarrow> mset es' = mset es"
  by (simp add: reorderings_def)

lemma exts_wf_reorder:
  assumes "es' \<in> reorderings es" "exts_wf es"
  shows "exts_wf es'"
proof -
  note m = reorderings_mset [OF assms(1)]
  have "distinct (concat (map ext_types es'))"
    using mset_concat_map [OF m, of ext_types] assms(2) by (metis exts_wf_def mset_eq_imp_distinct_iff)
  moreover have "length (filter is_greaseExt es') = length (filter is_greaseExt es)"
    using m by (metis mset_filter size_mset)
  ultimately show ?thesis
    using assms psk_last_reorder [OF assms(1)] by (simp add: exts_wf_def)
qed

lemma list_ex_reorder: "mset es' = mset es \<Longrightarrow> list_ex P es' = list_ex P es"
  by (metis list_ex_iff mset_eq_setD)

lemma list_all_reorder: "mset es' = mset es \<Longrightarrow> list_all P es' = list_all P es"
  by (metis list_all_iff mset_eq_setD)

lemma groups_offered_reorder: "mset es' = mset es \<Longrightarrow> groups_offered es' = groups_offered es"
  unfolding groups_offered_def using list_ex_reorder [of es' es] list_all_reorder [of es' es]
  by (simp cong: TLSExtension.case_cong)

text \<open>So a shuffle of the movable extensions does not change any of it.\<close>

lemma shape_reorder:
  assumes m: "mset es' = mset (Extensions p)" and "distinct (concat (map ext_types (Extensions p)))"
  shows "versions_wf (p\<lparr>Extensions := es'\<rparr>) = versions_wf p" "versions_match (p\<lparr>Extensions := es'\<rparr>) = versions_match p"
proof -
  have vs: "versions_of es' = versions_of (Extensions p)"
    by (rule versions_of_reorder [OF m [symmetric] assms(2)])
  have sv: "spec_versions a b es' = spec_versions a b (Extensions p)" for a b
    by (rule spec_versions_versions_of [OF vs])
  show "versions_wf (p\<lparr>Extensions := es'\<rparr>) = versions_wf p" "versions_match (p\<lparr>Extensions := es'\<rparr>) = versions_match p"
    by (simp_all add: versions_wf_def versions_match_def vs sv list_ex_reorder [OF m] split: sum.split prod.split)
qed

lemma spec_wf_reorder:
  assumes "es' \<in> reorderings (Extensions p)" "spec_wf p"
  shows "spec_wf (p\<lparr>Extensions := es'\<rparr>)"
  using assms exts_wf_reorder [OF assms(1)] shape_reorder [OF reorderings_mset [OF assms(1)]] by (simp add: spec_wf_def exts_wf_def)

text \<open>Without pre_shared_key, every order will do.\<close>

lemma spec_wf_shuffle:
  assumes "mset es' = mset (Extensions p)" "spec_wf p" "list_all (\<lambda>e. \<not> is_psk e) (Extensions p)"
  shows "spec_wf (p\<lparr>Extensions := es'\<rparr>)"
proof -
  have "list_all (\<lambda>e. \<not> is_psk e) (butlast es')"
    using assms(3) mset_eq_setD [OF assms(1)] by (auto simp: list_all_iff dest: in_set_butlastD)
  moreover have "distinct (concat (map ext_types es'))"
    using mset_concat_map [OF assms(1), of ext_types] assms(2) by (metis spec_wf_def exts_wf_def mset_eq_imp_distinct_iff)
  moreover have "length (filter is_greaseExt es') = length (filter is_greaseExt (Extensions p))"
    using assms(1) by (metis mset_filter size_mset)
  ultimately show ?thesis
    using assms(2) shape_reorder(1) [OF assms(1)] by (simp add: spec_wf_def exts_wf_def)
qed

lemma shape_ok_reorder:
  assumes "es' \<in> reorderings (Extensions p)" "shape_ok p"
  shows "shape_ok (p\<lparr>Extensions := es'\<rparr>)"
  using assms spec_wf_reorder [OF assms(1)] shape_reorder(2) [OF reorderings_mset [OF assms(1)]]
    groups_offered_reorder [OF reorderings_mset [OF assms(1)]]
  by (simp add: shape_ok_def spec_wf_def exts_wf_def)

end
