(* ===== verification/Parrot_Random.thy ===== *)
theory Parrot_Random
  imports Spec_Shape "HOL-Library.State_Monad"
begin

unbundle bit_operations_syntax

text \<open>
  The randomized ClientHello (u_parrots.go, \<open>generateRandomizedSpec\<close> and its helpers; the table of
  cipher suites of cipher_suites.go; the weights of u_common.go). The function draws from a seeded
  generator; the model runs it in the state monad over the state of the generator.
\<close>

section \<open>Constants\<close>

abbreviation (input) CertCompressionBrotli :: u16 where "CertCompressionBrotli \<equiv> 0x0002"
abbreviation (input) CertCompressionZlib :: u16 where "CertCompressionZlib \<equiv> 0x0001"
abbreviation (input) CurveP256 :: u16 where "CurveP256 \<equiv> 23"
abbreviation (input) CurveP384 :: u16 where "CurveP384 \<equiv> 24"
abbreviation (input) CurveP521 :: u16 where "CurveP521 \<equiv> 25"
abbreviation (input) DISABLED_TLS_ECDHE_ECDSA_WITH_AES_256_CBC_SHA384 :: u16 where "DISABLED_TLS_ECDHE_ECDSA_WITH_AES_256_CBC_SHA384 \<equiv> 0xc024"
abbreviation (input) DISABLED_TLS_ECDHE_RSA_WITH_AES_256_CBC_SHA384 :: u16 where "DISABLED_TLS_ECDHE_RSA_WITH_AES_256_CBC_SHA384 \<equiv> 0xc028"
abbreviation (input) DISABLED_TLS_RSA_WITH_AES_256_CBC_SHA256 :: u16 where "DISABLED_TLS_RSA_WITH_AES_256_CBC_SHA256 \<equiv> 0x003d"
abbreviation (input) ECDSAWithP256AndSHA256 :: u16 where "ECDSAWithP256AndSHA256 \<equiv> 0x0403"
abbreviation (input) ECDSAWithP384AndSHA384 :: u16 where "ECDSAWithP384AndSHA384 \<equiv> 0x0503"
abbreviation (input) ECDSAWithP521AndSHA512 :: u16 where "ECDSAWithP521AndSHA512 \<equiv> 0x0603"
abbreviation (input) ECDSAWithSHA1 :: u16 where "ECDSAWithSHA1 \<equiv> 0x0203"
abbreviation (input) FAKE_TLS_DHE_DSS_WITH_AES_128_CBC_SHA :: u16 where "FAKE_TLS_DHE_DSS_WITH_AES_128_CBC_SHA \<equiv> 0x0032"
abbreviation (input) FAKE_TLS_DHE_RSA_WITH_AES_128_CBC_SHA :: u16 where "FAKE_TLS_DHE_RSA_WITH_AES_128_CBC_SHA \<equiv> 0x0033"
abbreviation (input) FAKE_TLS_DHE_RSA_WITH_AES_128_CBC_SHA256 :: u16 where "FAKE_TLS_DHE_RSA_WITH_AES_128_CBC_SHA256 \<equiv> 0x0067"
abbreviation (input) FAKE_TLS_DHE_RSA_WITH_AES_256_CBC_SHA :: u16 where "FAKE_TLS_DHE_RSA_WITH_AES_256_CBC_SHA \<equiv> 0x0039"
abbreviation (input) FAKE_TLS_DHE_RSA_WITH_AES_256_CBC_SHA256 :: u16 where "FAKE_TLS_DHE_RSA_WITH_AES_256_CBC_SHA256 \<equiv> 0x006b"
abbreviation (input) FAKE_TLS_ECDHE_ECDSA_WITH_3DES_EDE_CBC_SHA :: u16 where "FAKE_TLS_ECDHE_ECDSA_WITH_3DES_EDE_CBC_SHA \<equiv> 0xc008"
abbreviation (input) FAKE_TLS_RSA_WITH_RC4_128_MD5 :: u16 where "FAKE_TLS_RSA_WITH_RC4_128_MD5 \<equiv> 0x0004"
abbreviation (input) FakeFFDHE2048 :: u16 where "FakeFFDHE2048 \<equiv> 0x0100"
abbreviation (input) FakeFFDHE3072 :: u16 where "FakeFFDHE3072 \<equiv> 0x0101"
abbreviation (input) FakeSHA1WithDSA :: u16 where "FakeSHA1WithDSA \<equiv> 0x0202"
abbreviation (input) FakeSHA256WithDSA :: u16 where "FakeSHA256WithDSA \<equiv> 0x0402"
abbreviation (input) PKCS1WithSHA1 :: u16 where "PKCS1WithSHA1 \<equiv> 0x0201"
abbreviation (input) PKCS1WithSHA256 :: u16 where "PKCS1WithSHA256 \<equiv> 0x0401"
abbreviation (input) PKCS1WithSHA384 :: u16 where "PKCS1WithSHA384 \<equiv> 0x0501"
abbreviation (input) PKCS1WithSHA512 :: u16 where "PKCS1WithSHA512 \<equiv> 0x0601"
abbreviation (input) PSSWithSHA256 :: u16 where "PSSWithSHA256 \<equiv> 0x0804"
abbreviation (input) PSSWithSHA384 :: u16 where "PSSWithSHA384 \<equiv> 0x0805"
abbreviation (input) PSSWithSHA512 :: u16 where "PSSWithSHA512 \<equiv> 0x0806"
abbreviation (input) PskModeDHE :: u8 where "PskModeDHE \<equiv> 1"
abbreviation (input) TLS_AES_128_GCM_SHA256 :: u16 where "TLS_AES_128_GCM_SHA256 \<equiv> 0x1301"
abbreviation (input) TLS_AES_256_GCM_SHA384 :: u16 where "TLS_AES_256_GCM_SHA384 \<equiv> 0x1302"
abbreviation (input) TLS_CHACHA20_POLY1305_SHA256 :: u16 where "TLS_CHACHA20_POLY1305_SHA256 \<equiv> 0x1303"
abbreviation (input) TLS_ECDHE_ECDSA_WITH_AES_128_CBC_SHA :: u16 where "TLS_ECDHE_ECDSA_WITH_AES_128_CBC_SHA \<equiv> 0xc009"
abbreviation (input) TLS_ECDHE_ECDSA_WITH_AES_128_CBC_SHA256 :: u16 where "TLS_ECDHE_ECDSA_WITH_AES_128_CBC_SHA256 \<equiv> 0xc023"
abbreviation (input) TLS_ECDHE_ECDSA_WITH_AES_128_GCM_SHA256 :: u16 where "TLS_ECDHE_ECDSA_WITH_AES_128_GCM_SHA256 \<equiv> 0xc02b"
abbreviation (input) TLS_ECDHE_ECDSA_WITH_AES_256_CBC_SHA :: u16 where "TLS_ECDHE_ECDSA_WITH_AES_256_CBC_SHA \<equiv> 0xc00a"
abbreviation (input) TLS_ECDHE_ECDSA_WITH_AES_256_GCM_SHA384 :: u16 where "TLS_ECDHE_ECDSA_WITH_AES_256_GCM_SHA384 \<equiv> 0xc02c"
abbreviation (input) TLS_ECDHE_ECDSA_WITH_CHACHA20_POLY1305 :: u16 where "TLS_ECDHE_ECDSA_WITH_CHACHA20_POLY1305 \<equiv> 0xcca9"
abbreviation (input) TLS_ECDHE_ECDSA_WITH_RC4_128_SHA :: u16 where "TLS_ECDHE_ECDSA_WITH_RC4_128_SHA \<equiv> 0xc007"
abbreviation (input) TLS_ECDHE_RSA_WITH_3DES_EDE_CBC_SHA :: u16 where "TLS_ECDHE_RSA_WITH_3DES_EDE_CBC_SHA \<equiv> 0xc012"
abbreviation (input) TLS_ECDHE_RSA_WITH_AES_128_CBC_SHA :: u16 where "TLS_ECDHE_RSA_WITH_AES_128_CBC_SHA \<equiv> 0xc013"
abbreviation (input) TLS_ECDHE_RSA_WITH_AES_128_CBC_SHA256 :: u16 where "TLS_ECDHE_RSA_WITH_AES_128_CBC_SHA256 \<equiv> 0xc027"
abbreviation (input) TLS_ECDHE_RSA_WITH_AES_128_GCM_SHA256 :: u16 where "TLS_ECDHE_RSA_WITH_AES_128_GCM_SHA256 \<equiv> 0xc02f"
abbreviation (input) TLS_ECDHE_RSA_WITH_AES_256_CBC_SHA :: u16 where "TLS_ECDHE_RSA_WITH_AES_256_CBC_SHA \<equiv> 0xc014"
abbreviation (input) TLS_ECDHE_RSA_WITH_AES_256_GCM_SHA384 :: u16 where "TLS_ECDHE_RSA_WITH_AES_256_GCM_SHA384 \<equiv> 0xc030"
abbreviation (input) TLS_ECDHE_RSA_WITH_CHACHA20_POLY1305 :: u16 where "TLS_ECDHE_RSA_WITH_CHACHA20_POLY1305 \<equiv> 0xcca8"
abbreviation (input) TLS_ECDHE_RSA_WITH_RC4_128_SHA :: u16 where "TLS_ECDHE_RSA_WITH_RC4_128_SHA \<equiv> 0xc011"
abbreviation (input) TLS_RSA_WITH_3DES_EDE_CBC_SHA :: u16 where "TLS_RSA_WITH_3DES_EDE_CBC_SHA \<equiv> 0x000a"
abbreviation (input) TLS_RSA_WITH_AES_128_CBC_SHA :: u16 where "TLS_RSA_WITH_AES_128_CBC_SHA \<equiv> 0x002f"
abbreviation (input) TLS_RSA_WITH_AES_128_CBC_SHA256 :: u16 where "TLS_RSA_WITH_AES_128_CBC_SHA256 \<equiv> 0x003c"
abbreviation (input) TLS_RSA_WITH_AES_128_GCM_SHA256 :: u16 where "TLS_RSA_WITH_AES_128_GCM_SHA256 \<equiv> 0x009c"
abbreviation (input) TLS_RSA_WITH_AES_256_CBC_SHA :: u16 where "TLS_RSA_WITH_AES_256_CBC_SHA \<equiv> 0x0035"
abbreviation (input) TLS_RSA_WITH_AES_256_GCM_SHA384 :: u16 where "TLS_RSA_WITH_AES_256_GCM_SHA384 \<equiv> 0x009d"
abbreviation (input) TLS_RSA_WITH_RC4_128_SHA :: u16 where "TLS_RSA_WITH_RC4_128_SHA \<equiv> 0x0005"
abbreviation (input) X25519 :: u16 where "X25519 \<equiv> 29"
abbreviation (input) X25519Kyber768Draft00 :: u16 where "X25519Kyber768Draft00 \<equiv> 0x6399"
abbreviation (input) X25519MLKEM768 :: u16 where "X25519MLKEM768 \<equiv> 4588"
abbreviation (input) compressionNone :: u8 where "compressionNone \<equiv> 0"
abbreviation (input) AEAD_CHACHA20_POLY1305 :: u16 where "AEAD_CHACHA20_POLY1305 \<equiv> 0x0003"
abbreviation (input) HKDF_SHA256 :: u16 where "HKDF_SHA256 \<equiv> 0x0001"
abbreviation (input) pointFormatUncompressed :: u8 where "pointFormatUncompressed \<equiv> 0"
abbreviation (input) pskModeDHE :: u8 where "pskModeDHE \<equiv> 1"


section \<open>The generator\<close>

text \<open>
  What the function uses of \<open>prng\<close>: the generator is SHAKE256 behind \<open>math/rand\<close>, and a coin compares
  \<open>float64\<close> values, so these are parameters. A \<open>float64\<close> is given by its IEEE 754 bits.
  \<open>shuffleDraws n\<close> are the draws of \<open>r.rand.Shuffle(n, ...)\<close>; \<open>removalWeight w i n\<close> is the product
  \<open>w * float64(i) / float64(n)\<close>. Creating a seed or a generator may fail.
\<close>

type_synonym float64 = u64

record 'p prng_api =
  NewPRNGSeed :: "bytes option"
  newPRNGWithSeed :: "bytes \<Rightarrow> 'p option"
  newPRNGWithSaltedSeed :: "bytes \<Rightarrow> string \<Rightarrow> 'p option"
  FlipWeightedCoin :: "float64 \<Rightarrow> 'p \<Rightarrow> bool \<times> 'p"
  Intn :: "nat \<Rightarrow> 'p \<Rightarrow> nat \<times> 'p"
  Perm :: "nat \<Rightarrow> 'p \<Rightarrow> nat list \<times> 'p"
  shuffleDraws :: "nat \<Rightarrow> 'p \<Rightarrow> nat list \<times> 'p"
  removalWeight :: "float64 \<Rightarrow> nat \<Rightarrow> nat \<Rightarrow> float64"

definition flip :: "'p prng_api \<Rightarrow> float64 \<Rightarrow> ('p, bool) state" where
  "flip api w = State (FlipWeightedCoin api w)"

definition shuffle_list :: "'p prng_api \<Rightarrow> 'a list \<Rightarrow> ('p, 'a list) state" where
  "shuffle_list api xs = State (\<lambda>s. case shuffleDraws api (length xs) s of (ds, s) \<Rightarrow> (Shuffle ds (length xs) swap_at xs, s))"

text \<open>What the documentation of \<open>math/rand\<close> promises.\<close>

definition prng_laws :: "'p prng_api \<Rightarrow> bool" where
  "prng_laws api \<longleftrightarrow>
     (\<forall>n s. n > 0 \<longrightarrow> fst (Intn api n s) < n) \<and>
     (\<forall>n s. mset (fst (Perm api n s)) = mset [0..<n]) \<and>
     (\<forall>n s. draws_ok n (fst (shuffleDraws api n s)))"


section \<open>Weights and identifiers\<close>

record Weights =
  Extensions_Append_ALPN :: float64
  TLSVersMax_Set_VersionTLS13 :: float64
  CipherSuites_Remove_RandomCiphers :: float64
  SigAndHashAlgos_Append_ECDSAWithSHA1 :: float64
  SigAndHashAlgos_Append_ECDSAWithP521AndSHA512 :: float64
  SigAndHashAlgos_Append_PSSWithSHA256 :: float64
  SigAndHashAlgos_Append_PSSWithSHA384_PSSWithSHA512 :: float64
  CurveIDs_Append_X25519 :: float64
  CurveIDs_Append_CurveP521 :: float64
  Extensions_Append_Padding :: float64
  Extensions_Append_Status :: float64
  Extensions_Append_SCT :: float64
  Extensions_Append_Reneg :: float64
  Extensions_Append_EMS :: float64
  FirstKeyShare_Set_CurveP256 :: float64
  KeyShare_Append_RandomGroups :: float64
  Extensions_Append_ALPS :: float64

text \<open>0.7, 0.4, 0.4, 0.63, 0.59, 0.51, 0.9, 0.71, 0.46, 0.62, 0.74, 0.46, 0.75, 0.77, 0.00, 0.50, 0.33\<close>

definition DefaultWeights :: Weights where
  "DefaultWeights = \<lparr>
     Extensions_Append_ALPN = 0x3fe6666666666666,
     TLSVersMax_Set_VersionTLS13 = 0x3fd999999999999a,
     CipherSuites_Remove_RandomCiphers = 0x3fd999999999999a,
     SigAndHashAlgos_Append_ECDSAWithSHA1 = 0x3fe428f5c28f5c29,
     SigAndHashAlgos_Append_ECDSAWithP521AndSHA512 = 0x3fe2e147ae147ae1,
     SigAndHashAlgos_Append_PSSWithSHA256 = 0x3fe051eb851eb852,
     SigAndHashAlgos_Append_PSSWithSHA384_PSSWithSHA512 = 0x3feccccccccccccd,
     CurveIDs_Append_X25519 = 0x3fe6b851eb851eb8,
     CurveIDs_Append_CurveP521 = 0x3fdd70a3d70a3d71,
     Extensions_Append_Padding = 0x3fe3d70a3d70a3d7,
     Extensions_Append_Status = 0x3fe7ae147ae147ae,
     Extensions_Append_SCT = 0x3fdd70a3d70a3d71,
     Extensions_Append_Reneg = 0x3fe8000000000000,
     Extensions_Append_EMS = 0x3fe8a3d70a3d70a4,
     FirstKeyShare_Set_CurveP256 = 0,
     KeyShare_Append_RandomGroups = 0x3fe0000000000000,
     Extensions_Append_ALPS = 0x3fd51eb851eb851f\<rparr>"

record ClientHelloID =
  Client :: string
  Version :: string
  Seed :: "bytes option"
  idWeights :: "Weights option"

abbreviation (input) helloGolang :: string where "helloGolang \<equiv> ''Golang''"
abbreviation (input) helloRandomized :: string where "helloRandomized \<equiv> ''Randomized''"
abbreviation (input) helloRandomizedALPN :: string where "helloRandomizedALPN \<equiv> ''Randomized-ALPN''"
abbreviation (input) helloRandomizedNoALPN :: string where "helloRandomizedNoALPN \<equiv> ''Randomized-NoALPN''"
abbreviation (input) helloCustom :: string where "helloCustom \<equiv> ''Custom''"
abbreviation (input) helloFirefox :: string where "helloFirefox \<equiv> ''Firefox''"
abbreviation (input) helloChrome :: string where "helloChrome \<equiv> ''Chrome''"
abbreviation (input) helloIOS :: string where "helloIOS \<equiv> ''iOS''"
abbreviation (input) helloAndroid :: string where "helloAndroid \<equiv> ''Android''"
abbreviation (input) helloEdge :: string where "helloEdge \<equiv> ''Edge''"
abbreviation (input) helloSafari :: string where "helloSafari \<equiv> ''Safari''"
abbreviation (input) hello360 :: string where "hello360 \<equiv> ''360Browser''"
abbreviation (input) helloQQ :: string where "helloQQ \<equiv> ''QQBrowser''"


section \<open>Cipher suites\<close>

text \<open>
  The table of TLS 1.0 to 1.2 suites, with the number of a suite and its flag \<open>suiteTLS12\<close>,
  the two fields that the shuffle reads.
\<close>

definition cipherSuites :: "(u16 \<times> bool) list" where
  "cipherSuites = [
     (TLS_ECDHE_RSA_WITH_CHACHA20_POLY1305, True),
     (TLS_ECDHE_ECDSA_WITH_CHACHA20_POLY1305, True),
     (TLS_ECDHE_RSA_WITH_AES_128_GCM_SHA256, True),
     (TLS_ECDHE_ECDSA_WITH_AES_128_GCM_SHA256, True),
     (TLS_ECDHE_RSA_WITH_AES_256_GCM_SHA384, True),
     (TLS_ECDHE_ECDSA_WITH_AES_256_GCM_SHA384, True),
     (TLS_ECDHE_RSA_WITH_AES_128_CBC_SHA256, True),
     (TLS_ECDHE_RSA_WITH_AES_128_CBC_SHA, False),
     (TLS_ECDHE_ECDSA_WITH_AES_128_CBC_SHA256, True),
     (TLS_ECDHE_ECDSA_WITH_AES_128_CBC_SHA, False),
     (TLS_ECDHE_RSA_WITH_AES_256_CBC_SHA, False),
     (TLS_ECDHE_ECDSA_WITH_AES_256_CBC_SHA, False),
     (TLS_RSA_WITH_AES_128_GCM_SHA256, True),
     (TLS_RSA_WITH_AES_256_GCM_SHA384, True),
     (TLS_RSA_WITH_AES_128_CBC_SHA256, True),
     (TLS_RSA_WITH_AES_128_CBC_SHA, False),
     (TLS_RSA_WITH_AES_256_CBC_SHA, False),
     (TLS_ECDHE_RSA_WITH_3DES_EDE_CBC_SHA, False),
     (TLS_RSA_WITH_3DES_EDE_CBC_SHA, False),
     (TLS_RSA_WITH_RC4_128_SHA, False),
     (TLS_ECDHE_RSA_WITH_RC4_128_SHA, False),
     (TLS_ECDHE_ECDSA_WITH_RC4_128_SHA, False)]"

definition defaultCipherSuitesTLS13 :: "u16 list" where
  "defaultCipherSuitesTLS13 = [TLS_AES_128_GCM_SHA256, TLS_AES_256_GCM_SHA384, TLS_CHACHA20_POLY1305_SHA256]"

record sortableCipher =
  isObsolete :: bool
  randomTag :: nat
  suite :: u16

definition Less :: "sortableCipher \<Rightarrow> sortableCipher \<Rightarrow> bool" where
  "Less a b =
     (if isObsolete a \<and> \<not> isObsolete b then False
      else if isObsolete b \<and> \<not> isObsolete a then True
      else randomTag a < randomTag b)"

text \<open>\<open>sort.Sort\<close>; the order is strict and total on distinct tags, so that the result does not depend on the algorithm.\<close>

fun insert_by :: "('a \<Rightarrow> 'a \<Rightarrow> bool) \<Rightarrow> 'a \<Rightarrow> 'a list \<Rightarrow> 'a list" where
  "insert_by lt x [] = [x]"
| "insert_by lt x (y # ys) = (if lt x y then x # y # ys else y # insert_by lt x ys)"

definition sort_by :: "('a \<Rightarrow> 'a \<Rightarrow> bool) \<Rightarrow> 'a list \<Rightarrow> 'a list" where
  "sort_by lt xs = foldr (insert_by lt) xs []"

definition shuffledCiphers :: "'p prng_api \<Rightarrow> ('p, u16 list) state" where
  "shuffledCiphers api = do {
     perm \<leftarrow> State (Perm api (length cipherSuites));
     let ciphers = map (\<lambda>((ident, tls12), tag). \<lparr>isObsolete = \<not> tls12, randomTag = tag, suite = ident\<rparr>) (zip cipherSuites perm);
     State_Monad.return (map suite (sort_by Less ciphers)) }"

definition isRC4 :: "u16 \<Rightarrow> bool" where
  "isRC4 cipher \<longleftrightarrow> cipher = TLS_ECDHE_ECDSA_WITH_RC4_128_SHA \<or> cipher = TLS_ECDHE_RSA_WITH_RC4_128_SHA
     \<or> cipher = TLS_RSA_WITH_RC4_128_SHA"

fun removeRC4Ciphers :: "u16 list \<Rightarrow> u16 list" where
  "removeRC4Ciphers [] = []"
| "removeRC4Ciphers (cipher # s) = (if isRC4 cipher then removeRC4Ciphers s else cipher # removeRC4Ciphers s)"

text \<open>The loop at index \<open>i\<close>, with the suites from there on; a removal leaves the index.\<close>

fun remove_random_from :: "'p prng_api \<Rightarrow> float64 \<Rightarrow> nat \<Rightarrow> nat \<Rightarrow> u16 list \<Rightarrow> ('p, u16 list) state" where
  "remove_random_from api p n i [] = State_Monad.return []"
| "remove_random_from api p n i (c # s) = do {
     remove \<leftarrow> flip api (removalWeight api p i n);
     if remove then remove_random_from api p n i s
     else do { s \<leftarrow> remove_random_from api p n (i + 1) s; State_Monad.return (c # s) } }"

definition removeRandomCiphers :: "'p prng_api \<Rightarrow> u16 list \<Rightarrow> float64 \<Rightarrow> ('p, u16 list) state" where
  "removeRandomCiphers api s maxRemovalProbability =
     (if length s \<le> 1 then State_Monad.return s
      else do { rest \<leftarrow> remove_random_from api maxRemovalProbability (length s) 1 (tl s);
                State_Monad.return (hd s # rest) })"


section \<open>generateRandomizedSpec\<close>

definition randomized_versions :: "'p prng_api \<Rightarrow> Weights \<Rightarrow> u16 list \<Rightarrow> ('p, (u16 \<times> u16) \<times> u16 list) state" where
  "randomized_versions api w shuffledSuites = do {
     tls13 \<leftarrow> flip api (TLSVersMax_Set_VersionTLS13 w);
     if tls13 then do {
       i \<leftarrow> State (Intn api 2);
       tls13ciphers \<leftarrow> shuffle_list api defaultCipherSuitesTLS13;
       State_Monad.return (([VersionTLS10, VersionTLS12] ! i, VersionTLS13), removeRC4Ciphers (tls13ciphers @ shuffledSuites)) }
     else State_Monad.return ((VersionTLS10, VersionTLS12), shuffledSuites) }"

definition randomized_suites :: "'p prng_api \<Rightarrow> Weights \<Rightarrow> ('p, (u16 \<times> u16) \<times> u16 list) state" where
  "randomized_suites api w = do {
     shuffledSuites \<leftarrow> shuffledCiphers api;
     (vers, shuffledSuites) \<leftarrow> randomized_versions api w shuffledSuites;
     suites \<leftarrow> removeRandomCiphers api shuffledSuites (CipherSuites_Remove_RandomCiphers w);
     State_Monad.return (vers, suites) }"

definition randomized_sigalgs :: "'p prng_api \<Rightarrow> Weights \<Rightarrow> bool \<Rightarrow> ('p, u16 list) state" where
  "randomized_sigalgs api w tls13 = do {
     sha1 \<leftarrow> flip api (SigAndHashAlgos_Append_ECDSAWithSHA1 w);
     p521 \<leftarrow> flip api (SigAndHashAlgos_Append_ECDSAWithP521AndSHA512 w);
     pss \<leftarrow> flip api (SigAndHashAlgos_Append_PSSWithSHA256 w);
     psss \<leftarrow> (if pss \<or> tls13 then do {
          more' \<leftarrow> flip api (SigAndHashAlgos_Append_PSSWithSHA384_PSSWithSHA512 w);
          State_Monad.return (PSSWithSHA256 # (if more' then [PSSWithSHA384, PSSWithSHA512] else [])) }
        else State_Monad.return []);
     shuffle_list api ([ECDSAWithP256AndSHA256, PKCS1WithSHA256, ECDSAWithP384AndSHA384, PKCS1WithSHA384, PKCS1WithSHA1, PKCS1WithSHA512]
       @ (if sha1 then [ECDSAWithSHA1] else []) @ (if p521 then [ECDSAWithP521AndSHA512] else []) @ psss) }"

definition randomized_curves :: "'p prng_api \<Rightarrow> Weights \<Rightarrow> bool \<Rightarrow> ('p, u16 list) state" where
  "randomized_curves api w tls13 = do {
     mlkem \<leftarrow> flip api (CurveIDs_Append_X25519 w);
     x25519 \<leftarrow> flip api (CurveIDs_Append_X25519 w);
     p521 \<leftarrow> flip api (CurveIDs_Append_CurveP521 w);
     State_Monad.return ((if mlkem \<and> tls13 then [X25519MLKEM768] else []) @ (if x25519 \<or> tls13 then [X25519] else [])
       @ [CurveP256, CurveP384] @ (if p521 then [CurveP521] else [])) }"

definition randomized_keyShares :: "'p prng_api \<Rightarrow> Weights \<Rightarrow> ('p, keyShare list) state" where
  "randomized_keyShares api w = do {
     first \<leftarrow> flip api (FirstKeyShare_Set_CurveP256 w);
     if first then State_Monad.return [\<lparr>ks_group = CurveP256, ks_data = []\<rparr>]
     else do {
       p256 \<leftarrow> flip api (KeyShare_Append_RandomGroups w);
       mlkem \<leftarrow> flip api (KeyShare_Append_RandomGroups w);
       State_Monad.return ((if mlkem then [\<lparr>ks_group = X25519MLKEM768, ks_data = []\<rparr>] else [])
         @ \<lparr>ks_group = X25519, ks_data = []\<rparr> # (if p256 then [\<lparr>ks_group = CurveP256, ks_data = []\<rparr>] else [])) } }"

definition opt_ext :: "'p prng_api \<Rightarrow> float64 \<Rightarrow> bool \<Rightarrow> TLSExtension \<Rightarrow> ('p, TLSExtension list) state" where
  "opt_ext api w forced e = do { b \<leftarrow> flip api w; State_Monad.return (if b \<or> forced then [e] else []) }"

text \<open>The ALPS extension is drawn from a generator of its own; its failure is the error of the function.\<close>

definition randomized_alps :: "'p prng_api \<Rightarrow> Weights \<Rightarrow> bytes \<Rightarrow> bool \<Rightarrow> gerror + TLSExtension list" where
  "randomized_alps api w seed withALPN =
     (if withALPN then (case newPRNGWithSaltedSeed api seed ''ALPS'' of
          None \<Rightarrow> Inl (Errorf ''newPRNGWithSaltedSeed'')
        | Some r \<Rightarrow> Inr (if fst (FlipWeightedCoin api (Extensions_Append_ALPS w) r)
                         then [ApplicationSettingsExtension [ascii ''h2'']] else []))
      else Inr [])"

definition randomized_exts13 :: "'p prng_api \<Rightarrow> Weights \<Rightarrow> bytes \<Rightarrow> bool \<Rightarrow> u16 \<times> u16 \<Rightarrow> ('p, gerror + TLSExtension list) state" where
  "randomized_exts13 api w seed withALPN vers =
     (if snd vers = VersionTLS13 then do {
        ks \<leftarrow> randomized_keyShares api w;
        State_Monad.return (case randomized_alps api w seed withALPN of
          Inl err \<Rightarrow> Inl err
        | Inr alps \<Rightarrow> Inr ([KeyShareExtension ks, PSKKeyExchangeModesExtension [pskModeDHE],
            SupportedVersionsExtension (makeSupportedVersions (fst vers) (snd vers))] @ alps)) }
      else State_Monad.return (Inr []))"

definition randomized_spec :: "'p prng_api \<Rightarrow> Weights \<Rightarrow> bytes \<Rightarrow> bool \<Rightarrow> bytes \<Rightarrow> bytes list \<Rightarrow> ('p, gerror + ClientHelloSpec) state" where
  "randomized_spec api w seed withALPN serverName nextProtos = do {
     (vers, suites) \<leftarrow> randomized_suites api w;
     let tls13 = (snd vers = VersionTLS13);
     sigAndHashAlgos \<leftarrow> randomized_sigalgs api w tls13;
     curveIDs \<leftarrow> randomized_curves api w tls13;
     let alpn = (if withALPN then [ALPNExtension (if length nextProtos = 0 then [ascii ''h2'', ascii ''http/1.1''] else nextProtos)] else []);
     padding \<leftarrow> opt_ext api (Extensions_Append_Padding w) tls13 (UtlsPaddingExtension 0 False (Some BoringPaddingStyle));
     status \<leftarrow> opt_ext api (Extensions_Append_Status w) False StatusRequestExtension;
     sct \<leftarrow> opt_ext api (Extensions_Append_SCT w) False SCTExtension;
     reneg \<leftarrow> opt_ext api (Extensions_Append_Reneg w) False (RenegotiationInfoExtension RenegotiateOnceAsClient []);
     ems \<leftarrow> opt_ext api (Extensions_Append_EMS w) False ExtendedMasterSecretExtension;
     exts13 \<leftarrow> randomized_exts13 api w seed withALPN vers;
     case exts13 of
       Inl err \<Rightarrow> State_Monad.return (Inl err)
     | Inr exts13 \<Rightarrow> do {
         exts \<leftarrow> shuffle_list api ([SNIExtension serverName, SessionTicketExtension None [] False,
             SignatureAlgorithmsExtension sigAndHashAlgos, SupportedPointsExtension [pointFormatUncompressed],
             SupportedCurvesExtension curveIDs] @ alpn @ padding @ status @ sct @ reneg @ ems @ exts13);
         State_Monad.return (Inr (ClientHelloSpec_zero\<lparr>CipherSuites := suites, Extensions := exts,
           TLSVersMin := fst vers, TLSVersMax := snd vers\<rparr>)) } }"

text \<open>The seed and the weights that the function fills in are fields of the identifier, which it changes.\<close>

definition generateRandomizedSpec :: "'p prng_api \<Rightarrow> ClientHelloID \<Rightarrow> bytes \<Rightarrow> bytes list \<Rightarrow> ClientHelloID \<times> (gerror + ClientHelloSpec)" where
  "generateRandomizedSpec api ident serverName nextProtos =
     (case (case Seed ident of None \<Rightarrow> NewPRNGSeed api | Some seed \<Rightarrow> Some seed) of
        None \<Rightarrow> (ident, Inl (Errorf ''NewPRNGSeed''))
      | Some seed \<Rightarrow>
          (let ident = ident\<lparr>Seed := Some seed\<rparr>
           in case newPRNGWithSeed api seed of
                None \<Rightarrow> (ident, Inl (Errorf ''newPRNGWithSeed''))
              | Some r \<Rightarrow>
                  (let w = (case idWeights ident of None \<Rightarrow> DefaultWeights | Some w \<Rightarrow> w);
                       ident = ident\<lparr>idWeights := Some w\<rparr>
                   in if Client ident = helloRandomizedALPN
                      then (ident, fst (run_state (randomized_spec api w seed True serverName nextProtos) r))
                      else if Client ident = helloRandomizedNoALPN
                      then (ident, fst (run_state (randomized_spec api w seed False serverName nextProtos) r))
                      else if Client ident = helloRandomized
                      then (ident, fst (run_state (do {
                             withALPN \<leftarrow> flip api (Extensions_Append_ALPN w);
                             randomized_spec api w seed withALPN serverName nextProtos }) r))
                      else (ident, Inl (Errorf ''using non-randomized ClientHelloID to generate randomized spec'')))))"


section \<open>Every run gives a well-formed specification\<close>

lemma pred_return [simp]: "pred_state P (State_Monad.return x) \<longleftrightarrow> P x"
  by (auto simp: State_Monad.return_def)

lemma pred_bind: "pred_state Q m \<Longrightarrow> (\<And>x. Q x \<Longrightarrow> pred_state P (f x)) \<Longrightarrow> pred_state P (State_Monad.bind m f)"
  by (intro bind_predI) (auto elim!: state.pred_mono_strong)

lemma pred_any: "pred_state (\<lambda>_. True) m"
  by auto

lemmas pred_draw = pred_bind [OF pred_any]

lemma mset_insert_by: "mset (insert_by lt x ys) = add_mset x (mset ys)"
  by (induction ys) auto

lemma mset_sort_by [simp]: "mset (sort_by lt xs) = mset xs"
  by (induction xs) (simp_all add: sort_by_def mset_insert_by)

lemma shuffle_list_mset:
  assumes "prng_laws api"
  shows "pred_state (\<lambda>ys. mset ys = mset xs) (shuffle_list api xs)"
proof (rule pred_stateI)
  fix ys s s' assume run: "run_state (shuffle_list api xs) s = (ys, s')"
  have "draws_ok (length xs) (fst (shuffleDraws api (length xs) s))"
    using assms by (simp add: prng_laws_def)
  then show "mset ys = mset xs"
    using run Shuffle_mset [of "length xs" xs] by (auto simp: shuffle_list_def split: prod.splits)
qed

lemma Perm_length:
  assumes "prng_laws api"
  shows "pred_state (\<lambda>perm. length perm = n) (State (Perm api n))"
proof (rule pred_stateI)
  fix perm s s' assume "run_state (State (Perm api n)) s = (perm, s')"
  then have "mset perm = mset [0..<n]"
    using assms by (simp add: prng_laws_def) (metis fst_conv)
  from mset_eq_length [OF this] show "length perm = n"
    by simp
qed

lemma shuffledCiphers_mset:
  assumes "prng_laws api"
  shows "pred_state (\<lambda>s. mset s = mset (map fst cipherSuites)) (shuffledCiphers api)"
  unfolding shuffledCiphers_def Let_def
proof (rule pred_bind [OF Perm_length [OF assms]])
  fix perm :: "nat list" assume len: "length perm = length cipherSuites"
  define ciphers where "ciphers = map (\<lambda>((ident, tls12), tag). \<lparr>isObsolete = \<not> tls12, randomTag = tag, suite = ident\<rparr>)
    (zip cipherSuites perm)"
  have "map suite ciphers = map fst (map fst (zip cipherSuites perm))"
    by (simp add: ciphers_def case_prod_unfold comp_def)
  also have "\<dots> = map fst cipherSuites"
    using len by simp
  finally have "mset (map suite ciphers) = mset (map fst cipherSuites)"
    by (simp only:)
  then have "mset (map suite (sort_by Less ciphers)) = mset (map fst cipherSuites)"
    by simp
  then show "pred_state (\<lambda>s. mset s = mset (map fst cipherSuites)) (State_Monad.return (map suite (sort_by Less
      (map (\<lambda>((ident, tls12), tag). \<lparr>isObsolete = \<not> tls12, randomTag = tag, suite = ident\<rparr>) (zip cipherSuites perm)))))"
    by (simp add: ciphers_def)
qed

lemma removeRC4Ciphers_filter: "removeRC4Ciphers s = filter (\<lambda>c. \<not> isRC4 c) s"
  by (induction s) auto

lemma remove_random_from_subseq: "pred_state (\<lambda>s'. subseq s' s) (remove_random_from api p n i s)"
proof (induction s arbitrary: i)
  case (Cons c s)
  show ?case
    unfolding remove_random_from.simps
  proof (rule pred_draw)
    fix remove
    show "pred_state (\<lambda>s'. subseq s' (c # s)) (if remove then remove_random_from api p n i s
        else State_Monad.bind (remove_random_from api p n (i + 1) s) (\<lambda>s. State_Monad.return (c # s)))"
      using Cons.IH [of i] pred_bind [OF Cons.IH [of "i + 1"], of _ "\<lambda>s. State_Monad.return (c # s)"]
      by (auto elim: state.pred_mono_strong)
  qed
qed simp

text \<open>The first suite is never removed.\<close>

lemma removeRandomCiphers_keeps_first:
  assumes "s \<noteq> []"
  shows "pred_state (\<lambda>s'. subseq s' s \<and> s' \<noteq> [] \<and> hd s' = hd s) (removeRandomCiphers api s p)"
proof (cases "length s \<le> 1")
  case False
  obtain c cs where s: "s = c # cs"
    using assms by (cases s) auto
  then show ?thesis
    using False pred_bind [OF remove_random_from_subseq [of cs api p "length s" 1], of _ "\<lambda>rest. State_Monad.return (c # rest)"]
    by (simp add: removeRandomCiphers_def)
qed (simp add: removeRandomCiphers_def assms)

lemma suites_distinct: "distinct (suites13 @ map fst cipherSuites)"
  by (simp add: suites13_def cipherSuites_def)

lemma suites13_default: "defaultCipherSuitesTLS13 = suites13" "\<forall>c \<in> set suites13. \<not> isRC4 c"
  by (simp_all add: suites13_def defaultCipherSuitesTLS13_def isRC4_def)

text \<open>What holds of the version range and of the suites.\<close>

definition suites_ok :: "(u16 \<times> u16) \<times> u16 list \<Rightarrow> bool" where
  "suites_ok = (\<lambda>(vers, suites).
     vers \<in> {(VersionTLS10, VersionTLS12), (VersionTLS10, VersionTLS13), (VersionTLS12, VersionTLS13)} \<and>
     suites \<noteq> [] \<and> distinct suites \<and>
     (snd vers = VersionTLS13 \<longleftrightarrow> list_ex (\<lambda>c. c \<in> set suites13) suites) \<and>
     (snd vers = VersionTLS13 \<longrightarrow> list_all (\<lambda>c. \<not> isRC4 c) suites))"

lemma subseq_distinct: "subseq xs ys \<Longrightarrow> distinct ys \<Longrightarrow> distinct xs"
  by (auto simp: subseq_conv_nths)

text \<open>The suites before some of them are removed: the first one settles whether there is a TLS 1.3 suite.\<close>

lemma suites_ok_subseq:
  assumes "suites_ok (vers, s)" "subseq s' s" "s' \<noteq> []" "hd s' = hd s"
    and "snd vers = VersionTLS13 \<Longrightarrow> hd s \<in> set suites13"
  shows "suites_ok (vers, s')"
proof -
  have set: "set s' \<subseteq> set s" "distinct s'"
    using assms(1,2) by (auto simp: suites_ok_def subseq_conv_nths dest: in_set_nthsD)
  have "hd s' \<in> set s'"
    using assms(3) by simp
  then have "list_ex (\<lambda>c. c \<in> set suites13) s'" if "snd vers = VersionTLS13"
    using assms(4,5) that by (metis list_ex_iff)
  then show ?thesis
    using assms(1,3) set by (auto simp: suites_ok_def list_ex_iff list_all_iff)
qed

lemma suites_before_removal:
  assumes "mset s = mset (map fst cipherSuites)"
  shows "suites_ok ((VersionTLS10, VersionTLS12), s)" "s \<noteq> []"
proof -
  have "set s = set (map fst cipherSuites)" "distinct s"
    using mset_eq_setD [OF assms] mset_eq_imp_distinct_iff [OF assms] suites_distinct by auto
  moreover from this show "s \<noteq> []"
    by (auto simp: cipherSuites_def)
  ultimately show "suites_ok ((VersionTLS10, VersionTLS12), s)"
    using suites_distinct by (auto simp: suites_ok_def list_ex_iff)
qed

lemma suites_before_removal_13:
  assumes "mset s = mset (map fst cipherSuites)" "mset t = mset defaultCipherSuitesTLS13" "v \<in> {VersionTLS10, VersionTLS12}"
  shows "suites_ok ((v, VersionTLS13), removeRC4Ciphers (t @ s))"
    "hd (removeRC4Ciphers (t @ s)) \<in> set suites13" "removeRC4Ciphers (t @ s) \<noteq> []"
proof -
  have t: "set t = set suites13" "distinct t"
    using mset_eq_setD [OF assms(2)] mset_eq_imp_distinct_iff [OF assms(2)] suites13_default suites_distinct by auto
  have s: "set s = set (map fst cipherSuites)" "distinct s"
    using mset_eq_setD [OF assms(1)] mset_eq_imp_distinct_iff [OF assms(1)] suites_distinct by auto
  have rem: "removeRC4Ciphers (t @ s) = t @ removeRC4Ciphers s"
    using t(1) suites13_default(2) by (simp add: removeRC4Ciphers_filter filter_id_conv)
  have ne: "t \<noteq> []"
    using t(1) by (auto simp: suites13_def)
  show "hd (removeRC4Ciphers (t @ s)) \<in> set suites13" "removeRC4Ciphers (t @ s) \<noteq> []"
    using rem ne t(1) by (simp_all flip: t(1))
  have "distinct (t @ removeRC4Ciphers s)"
    using t s suites_distinct by (auto simp: removeRC4Ciphers_filter)
  moreover have "list_ex (\<lambda>c. c \<in> set suites13) (t @ removeRC4Ciphers s)"
    using ne t(1) by (auto simp: list_ex_iff neq_Nil_conv)
  moreover have "list_all (\<lambda>c. \<not> isRC4 c) (t @ removeRC4Ciphers s)"
    using t(1) suites13_default(2) by (auto simp: list_all_iff removeRC4Ciphers_filter)
  ultimately show "suites_ok ((v, VersionTLS13), removeRC4Ciphers (t @ s))"
    using assms(3) ne unfolding rem by (simp add: suites_ok_def)
qed

lemma Intn_less:
  assumes "prng_laws api" "0 < n"
  shows "pred_state (\<lambda>i. i < n) (State (Intn api n))"
proof (rule pred_stateI)
  fix i s s' assume "run_state (State (Intn api n)) s = (i, s')"
  then have "fst (Intn api n s) = i"
    by simp
  then show "i < n"
    using assms by (auto simp: prng_laws_def)
qed

lemma randomized_versions_ok:
  assumes laws: "prng_laws api" and s: "mset s = mset (map fst cipherSuites)"
  shows "pred_state (\<lambda>(vers, s). suites_ok (vers, s) \<and> s \<noteq> [] \<and> (snd vers = VersionTLS13 \<longrightarrow> hd s \<in> set suites13))
    (randomized_versions api w s)"
  unfolding randomized_versions_def
proof (rule pred_draw)
  fix tls13
  have v: "[VersionTLS10, VersionTLS12] ! i \<in> {VersionTLS10, VersionTLS12}" if "i < 2" for i
    using that by (auto simp: less_2_cases_iff)
  show "pred_state (\<lambda>(vers, s). suites_ok (vers, s) \<and> s \<noteq> [] \<and> (snd vers = VersionTLS13 \<longrightarrow> hd s \<in> set suites13))
      (if tls13 then State_Monad.bind (State (Intn api 2)) (\<lambda>i.
         State_Monad.bind (shuffle_list api defaultCipherSuitesTLS13) (\<lambda>t.
         State_Monad.return (([VersionTLS10, VersionTLS12] ! i, VersionTLS13), removeRC4Ciphers (t @ s))))
       else State_Monad.return ((VersionTLS10, VersionTLS12), s))"
  proof (cases tls13)
    case True
    have step: "pred_state (\<lambda>(vers, s). suites_ok (vers, s) \<and> s \<noteq> [] \<and> (snd vers = VersionTLS13 \<longrightarrow> hd s \<in> set suites13))
        (State_Monad.bind (shuffle_list api defaultCipherSuitesTLS13) (\<lambda>t.
         State_Monad.return (([VersionTLS10, VersionTLS12] ! i, VersionTLS13), removeRC4Ciphers (t @ s))))" if "i < 2" for i
      using suites_before_removal_13 [OF s _ v [OF that]] by (intro pred_bind [OF shuffle_list_mset [OF laws]]) simp
    show ?thesis
      using True by (simp only: if_True) (rule pred_bind [OF Intn_less [OF laws, of 2]]; use step in simp)
  next
    case False
    then show ?thesis
      using suites_before_removal [OF s] by simp
  qed
qed

lemma randomized_suites_ok:
  assumes laws: "prng_laws api"
  shows "pred_state suites_ok (randomized_suites api w)"
proof -
  have keep: "pred_state suites_ok (State_Monad.bind (removeRandomCiphers api s p) (\<lambda>suites. State_Monad.return (vers, suites)))"
    if "suites_ok (vers, s)" "s \<noteq> []" "snd vers = VersionTLS13 \<Longrightarrow> hd s \<in> set suites13" for vers s p
    using suites_ok_subseq [OF that(1)] that(3) by (intro pred_bind [OF removeRandomCiphers_keeps_first [OF that(2)]]) auto
  show ?thesis
    unfolding randomized_suites_def
    by (intro pred_bind [OF shuffledCiphers_mset [OF laws]] pred_bind [OF randomized_versions_ok [OF laws]])
      (auto intro: keep split: prod.splits)
qed

text \<open>Lists of at most one extension, of type \<open>n\<close>, that the version rules do not mention.\<close>

definition optional :: "u16 \<Rightarrow> TLSExtension list \<Rightarrow> bool" where
  "optional n l \<longleftrightarrow> subseq (concat (map ext_types l)) [n] \<and> versions_of l = [] \<and>
     list_all (\<lambda>e. \<not> is_keyShare e \<and> \<not> is_pskModes e \<and> \<not> is_psk e \<and> \<not> is_greaseExt e) l"

lemma optional_Nil [simp]: "optional n []"
  by (simp add: optional_def versions_of_def)

lemma opt_ext_optional:
  "optional n [e] \<Longrightarrow> pred_state (optional n) (opt_ext api w forced e)"
  unfolding opt_ext_def by (rule pred_draw) simp

definition exts13_ok :: "u16 \<times> u16 \<Rightarrow> gerror + TLSExtension list \<Rightarrow> bool" where
  "exts13_ok vers r = (case r of Inl _ \<Rightarrow> True | Inr l \<Rightarrow>
     if snd vers = VersionTLS13
     then \<exists>ks alps. l = [KeyShareExtension ks, PSKKeyExchangeModesExtension [pskModeDHE],
         SupportedVersionsExtension (makeSupportedVersions (fst vers) (snd vers))] @ alps
       \<and> optional utlsExtensionApplicationSettings alps
     else l = [])"

lemma randomized_exts13_ok: "pred_state (exts13_ok vers) (randomized_exts13 api w seed withALPN vers)"
proof -
  have alps: "optional utlsExtensionApplicationSettings l" if "randomized_alps api w seed withALPN = Inr l" for l
    using that by (auto simp: randomized_alps_def optional_def ext_kinds split: if_splits option.splits)
  show ?thesis
    unfolding randomized_exts13_def using alps
    by (auto simp: exts13_ok_def intro!: pred_draw split: sum.splits)
qed

text \<open>The list before the shuffle: the fixed extensions, the optional ones and those of TLS 1.3.\<close>

lemma versions_of_simps [simp]:
  "versions_of [] = []" "versions_of (e # es) = (case e of SupportedVersionsExtension vs \<Rightarrow> [vs] | _ \<Rightarrow> []) @ versions_of es"
  "versions_of (xs @ ys) = versions_of xs @ versions_of ys"
  by (simp_all add: versions_of_def)

lemma optional_append:
  assumes "optional n xs" "subseq (concat (map ext_types ys)) ns" "versions_of ys = []"
    and "list_all (\<lambda>e. \<not> is_keyShare e \<and> \<not> is_pskModes e \<and> \<not> is_psk e \<and> \<not> is_greaseExt e) ys"
  shows "subseq (concat (map ext_types (xs @ ys))) (n # ns)" "versions_of (xs @ ys) = []"
    "list_all (\<lambda>e. \<not> is_keyShare e \<and> \<not> is_pskModes e \<and> \<not> is_psk e \<and> \<not> is_greaseExt e) (xs @ ys)"
  using assms list_emb_append_mono [of "(=)" "concat (map ext_types xs)" "[n]" "concat (map ext_types ys)" ns]
  by (simp_all add: optional_def)

lemma find_randomized_versions:
  assumes "vers \<in> {(VersionTLS10, VersionTLS13), (VersionTLS12, VersionTLS13)}"
  shows "find_versions (makeSupportedVersions (fst vers) (snd vers)) = vers"
proof -
  have "find_versions (makeSupportedVersions VersionTLS10 VersionTLS13) = (VersionTLS10, VersionTLS13)"
      "find_versions (makeSupportedVersions VersionTLS12 VersionTLS13) = (VersionTLS12, VersionTLS13)"
    by code_simp+
  then show ?thesis
    using assms by auto
qed

lemma randomized_versions_shape:
  assumes opts: "versions_of opts = []" "list_all (\<lambda>e. \<not> is_keyShare e \<and> \<not> is_pskModes e \<and> \<not> is_psk e \<and> \<not> is_greaseExt e) opts"
    and exts13: "exts13_ok vers (Inr exts13)" and suites: "suites_ok (vers, suites)"
    and p: "p = ClientHelloSpec_zero\<lparr>CipherSuites := suites, Extensions := [SNIExtension serverName, SessionTicketExtension None [] False,
      SignatureAlgorithmsExtension sigs, SupportedPointsExtension [pointFormatUncompressed],
      SupportedCurvesExtension curves] @ opts @ exts13,
      TLSVersMin := fst vers, TLSVersMax := snd vers\<rparr>"
  shows "versions_wf p \<and> versions_match p"
proof -
  have vers: "vers \<in> {(VersionTLS10, VersionTLS12), (VersionTLS10, VersionTLS13), (VersionTLS12, VersionTLS13)}"
    and list: "snd vers = VersionTLS13 \<longleftrightarrow> list_ex (\<lambda>c. c \<in> set suites13) suites"
    using suites by (simp_all add: suites_ok_def)
  have range: "spec_versions (fst vers) (snd vers) es = Inr vers" for es
    using vers by (auto simp: spec_versions_def)
  have le: "fst vers \<le> snd vers"
    using vers by auto
  have none: "\<not> list_ex is_keyShare opts" "\<not> list_ex is_pskModes opts"
    using opts(2) by (auto simp: list_ex_iff list_all_iff)
  show ?thesis
  proof (cases "snd vers = VersionTLS13")
    case True
    then have find: "find_versions (makeSupportedVersions (fst vers) VersionTLS13) = vers"
      using find_randomized_versions [of vers] vers by auto
    obtain alps where l: "\<exists>ks. exts13 = [KeyShareExtension ks, PSKKeyExchangeModesExtension [pskModeDHE],
         SupportedVersionsExtension (makeSupportedVersions (fst vers) VersionTLS13)] @ alps" and a: "versions_of alps = []"
      using exts13 True by (auto simp: exts13_ok_def optional_def)
    then have "versions_of (Extensions p) = [makeSupportedVersions (fst vers) VersionTLS13]"
      using opts(1) by (auto simp: p)
    moreover have "list_ex is_keyShare (Extensions p)" "list_ex is_pskModes (Extensions p)"
      using l by (auto simp: p is_keyShare_def is_pskModes_def)
    ultimately show ?thesis
      using True range find le list by (simp add: versions_wf_def versions_match_def p split_def)
  next
    case False
    then have "exts13 = []"
      using exts13 by (simp add: exts13_ok_def)
    moreover from this have "versions_of (Extensions p) = []"
      using opts(1) by (simp add: p)
    ultimately show ?thesis
      using False range le list none
      by (simp add: versions_wf_def versions_match_def p split_def is_keyShare_def is_pskModes_def)
  qed
qed

lemma randomized_list_wf:
  assumes opts: "subseq (concat (map ext_types opts)) [extensionALPN, utlsExtensionPadding, extensionStatusRequest,
        extensionSCT, extensionRenegotiationInfo, extensionExtendedMasterSecret]"
      "versions_of opts = []" "list_all (\<lambda>e. \<not> is_keyShare e \<and> \<not> is_pskModes e \<and> \<not> is_psk e \<and> \<not> is_greaseExt e) opts"
    and exts13: "exts13_ok vers (Inr exts13)" and suites: "suites_ok (vers, suites)"
    and p: "p = ClientHelloSpec_zero\<lparr>CipherSuites := suites, Extensions := [SNIExtension serverName, SessionTicketExtension None [] False,
      SignatureAlgorithmsExtension sigs, SupportedPointsExtension [pointFormatUncompressed],
      SupportedCurvesExtension curves] @ opts @ exts13,
      TLSVersMin := fst vers, TLSVersMax := snd vers\<rparr>"
  shows "spec_wf p \<and> versions_match p \<and> list_all (\<lambda>e. \<not> is_psk e) (Extensions p)"
proof -
  have sub13: "subseq (concat (map ext_types exts13)) [extensionKeyShare, extensionPSKModes, extensionSupportedVersions,
      utlsExtensionApplicationSettings]"
    using exts13 by (auto simp: exts13_ok_def optional_def ext_types_def split: if_splits)
  have "subseq (concat (map ext_types (Extensions p))) ([extensionServerName, extensionSessionTicket, extensionSignatureAlgorithms,
      extensionSupportedPoints, extensionSupportedCurves] @ [extensionALPN, utlsExtensionPadding, extensionStatusRequest,
        extensionSCT, extensionRenegotiationInfo, extensionExtendedMasterSecret] @
      [extensionKeyShare, extensionPSKModes, extensionSupportedVersions, utlsExtensionApplicationSettings])"
    using list_emb_append_mono [OF opts(1) sub13] by (simp add: p ext_types_def)
  then have types: "distinct (concat (map ext_types (Extensions p)))"
    by (rule subseq_distinct) simp
  have plain: "filter is_greaseExt (Extensions p) = []" "list_all (\<lambda>e. \<not> is_psk e) (Extensions p)"
    using opts(3) exts13 by (auto simp: p exts13_ok_def optional_def list_all_iff is_greaseExt_def is_psk_def filter_empty_conv split: if_splits)
  then have "exts_wf (Extensions p)"
    using types by (auto simp: exts_wf_def list_all_iff dest: in_set_butlastD)
  moreover have "versions_wf p" "versions_match p"
    using randomized_versions_shape [OF opts(2,3) exts13 suites p] by simp_all
  ultimately show ?thesis
    using plain suites by (simp add: spec_wf_def suites_ok_def p)
qed

lemma randomized_opts:
  assumes "optional extensionALPN alpn" "optional utlsExtensionPadding padding" "optional extensionStatusRequest status"
    "optional extensionSCT sct" "optional extensionRenegotiationInfo reneg" "optional extensionExtendedMasterSecret ems"
  defines "opts \<equiv> alpn @ padding @ status @ sct @ reneg @ ems"
  shows "subseq (concat (map ext_types opts)) [extensionALPN, utlsExtensionPadding, extensionStatusRequest,
        extensionSCT, extensionRenegotiationInfo, extensionExtendedMasterSecret]"
    "versions_of opts = []" "list_all (\<lambda>e. \<not> is_keyShare e \<and> \<not> is_pskModes e \<and> \<not> is_psk e \<and> \<not> is_greaseExt e) opts"
proof -
  note step = optional_append [OF assms(5), of ems "[extensionExtendedMasterSecret]"]
  have ems: "subseq (concat (map ext_types ems)) [extensionExtendedMasterSecret]" "versions_of ems = []"
      "list_all (\<lambda>e. \<not> is_keyShare e \<and> \<not> is_pskModes e \<and> \<not> is_psk e \<and> \<not> is_greaseExt e) ems"
    using assms(6) by (simp_all add: optional_def)
  note o5 = optional_append [OF assms(5) ems]
  note o4 = optional_append [OF assms(4) o5]
  note o3 = optional_append [OF assms(3) o4]
  note o2 = optional_append [OF assms(2) o3]
  note o1 = optional_append [OF assms(1) o2]
  show "subseq (concat (map ext_types opts)) [extensionALPN, utlsExtensionPadding, extensionStatusRequest,
        extensionSCT, extensionRenegotiationInfo, extensionExtendedMasterSecret]"
    "versions_of opts = []" "list_all (\<lambda>e. \<not> is_keyShare e \<and> \<not> is_pskModes e \<and> \<not> is_psk e \<and> \<not> is_greaseExt e) opts"
    using o1 by (simp_all only: opts_def)
qed

definition random_spec_ok :: "gerror + ClientHelloSpec \<Rightarrow> bool" where
  "random_spec_ok r = (case r of Inl _ \<Rightarrow> True | Inr p \<Rightarrow> spec_wf p \<and> versions_match p)"

lemma randomized_shuffle_ok:
  assumes laws: "prng_laws api"
    and opts: "subseq (concat (map ext_types opts)) [extensionALPN, utlsExtensionPadding, extensionStatusRequest,
        extensionSCT, extensionRenegotiationInfo, extensionExtendedMasterSecret]"
      "versions_of opts = []" "list_all (\<lambda>e. \<not> is_keyShare e \<and> \<not> is_pskModes e \<and> \<not> is_psk e \<and> \<not> is_greaseExt e) opts"
    and exts13: "exts13_ok vers (Inr exts13)" and suites: "suites_ok (vers, suites)"
  shows "pred_state random_spec_ok (State_Monad.bind (shuffle_list api ([SNIExtension serverName, SessionTicketExtension None [] False,
       SignatureAlgorithmsExtension sigs, SupportedPointsExtension [pointFormatUncompressed],
       SupportedCurvesExtension curves] @ opts @ exts13))
     (\<lambda>exts. State_Monad.return (Inr (ClientHelloSpec_zero\<lparr>CipherSuites := suites, Extensions := exts,
       TLSVersMin := fst vers, TLSVersMax := snd vers\<rparr>))))"
proof (rule pred_bind [OF shuffle_list_mset [OF laws]])
  let ?l = "[SNIExtension serverName, SessionTicketExtension None [] False,
       SignatureAlgorithmsExtension sigs, SupportedPointsExtension [pointFormatUncompressed],
       SupportedCurvesExtension curves] @ opts @ exts13"
  fix exts assume m: "mset exts = mset ?l"
  define p where "p = ClientHelloSpec_zero\<lparr>CipherSuites := suites, Extensions := ?l, TLSVersMin := fst vers, TLSVersMax := snd vers\<rparr>"
  have wf: "spec_wf p" "versions_match p" "list_all (\<lambda>e. \<not> is_psk e) (Extensions p)"
    using randomized_list_wf [OF opts exts13 suites p_def] by simp_all
  have mp: "mset exts = mset (Extensions p)"
    using m by (simp add: p_def)
  have "spec_wf (p\<lparr>Extensions := exts\<rparr>)" "versions_match (p\<lparr>Extensions := exts\<rparr>)"
    using spec_wf_shuffle [OF mp wf(1,3)] shape_reorder(2) [OF mp] wf(1,2) by (simp_all add: spec_wf_def exts_wf_def)
  then show "pred_state random_spec_ok (State_Monad.return (Inr (ClientHelloSpec_zero\<lparr>CipherSuites := suites, Extensions := exts,
       TLSVersMin := fst vers, TLSVersMax := snd vers\<rparr>)))"
    by (simp add: random_spec_ok_def p_def ClientHelloSpec_zero_def)
qed

lemma optional_exts:
  "optional utlsExtensionPadding [UtlsPaddingExtension 0 False (Some BoringPaddingStyle)]"
  "optional extensionStatusRequest [StatusRequestExtension]" "optional extensionSCT [SCTExtension]"
  "optional extensionRenegotiationInfo [RenegotiationInfoExtension RenegotiateOnceAsClient []]"
  "optional extensionExtendedMasterSecret [ExtendedMasterSecretExtension]"
  "optional extensionALPN [ALPNExtension protos]"
  by (simp_all add: optional_def ext_kinds)

lemma randomized_spec_ok:
  assumes laws: "prng_laws api"
  shows "pred_state random_spec_ok (randomized_spec api w seed withALPN serverName nextProtos)"
  unfolding randomized_spec_def Let_def
proof (rule pred_bind [OF randomized_suites_ok [OF laws]], clarify, rule pred_draw, rule pred_draw,
    rule pred_bind [OF opt_ext_optional [OF optional_exts(1)]], rule pred_bind [OF opt_ext_optional [OF optional_exts(2)]],
    rule pred_bind [OF opt_ext_optional [OF optional_exts(3)]], rule pred_bind [OF opt_ext_optional [OF optional_exts(4)]],
    rule pred_bind [OF opt_ext_optional [OF optional_exts(5)]], rule pred_bind [OF randomized_exts13_ok])
  fix minVers maxVers :: u16 and suites sigs curves padding status sct reneg ems exts13
  let ?alpn = "if withALPN then [ALPNExtension (if length nextProtos = 0 then [ascii ''h2'', ascii ''http/1.1''] else nextProtos)] else []"
  let ?vers = "(minVers, maxVers)"
  assume a: "suites_ok (?vers, suites)" "exts13_ok ?vers exts13"
    and o: "optional utlsExtensionPadding padding" "optional extensionStatusRequest status" "optional extensionSCT sct"
      "optional extensionRenegotiationInfo reneg" "optional extensionExtendedMasterSecret ems"
  have alpn: "optional extensionALPN ?alpn"
    by (simp add: optional_exts)
  show "pred_state random_spec_ok (case exts13 of
       Inl err \<Rightarrow> State_Monad.return (Inl err)
     | Inr exts13 \<Rightarrow> State_Monad.bind (shuffle_list api ([SNIExtension serverName, SessionTicketExtension None [] False,
             SignatureAlgorithmsExtension sigs, SupportedPointsExtension [pointFormatUncompressed],
             SupportedCurvesExtension curves] @ ?alpn @ padding @ status @ sct @ reneg @ ems @ exts13))
         (\<lambda>exts. State_Monad.return (Inr (ClientHelloSpec_zero\<lparr>CipherSuites := suites, Extensions := exts,
           TLSVersMin := fst ?vers, TLSVersMax := snd ?vers\<rparr>))))"
  proof (cases exts13)
    case (Inl err)
    then show ?thesis
      by (simp add: random_spec_ok_def)
  next
    case (Inr l)
    then show ?thesis
      using randomized_shuffle_ok [OF laws randomized_opts [OF alpn o] _ a(1), of l serverName sigs curves] a(2) by (simp only: sum.case append_assoc)
  qed
qed

lemma generateRandomizedSpec_ok:
  assumes laws: "prng_laws api" and run: "snd (generateRandomizedSpec api ident serverName nextProtos) = Inr p"
  shows "spec_wf p \<and> versions_match p"
proof -
  have "random_spec_ok (fst (run_state (randomized_spec api w seed withALPN serverName nextProtos) r))" for w seed withALPN r
    by (rule pred_state_run_state [OF randomized_spec_ok [OF laws]])
  moreover have "random_spec_ok (fst (run_state (State_Monad.bind (flip api x)
      (\<lambda>withALPN. randomized_spec api w seed withALPN serverName nextProtos)) r))" for x w seed r
    by (intro pred_state_run_state pred_draw randomized_spec_ok laws)
  ultimately have "random_spec_ok (Inr p)"
    using run unfolding generateRandomizedSpec_def
    by (auto simp: Let_def split: option.splits if_splits) (metis snd_conv)+
  then show ?thesis
    by (simp add: random_spec_ok_def)
qed


section \<open>A key share for a group that is not offered\<close>

text \<open>A generator whose coins are given, and whose shuffles keep the order.\<close>

definition scripted :: "bool list \<Rightarrow> bool list prng_api" where
  "scripted coins = \<lparr>NewPRNGSeed = Some [], newPRNGWithSeed = (\<lambda>_. Some coins), newPRNGWithSaltedSeed = (\<lambda>_ _. Some coins),
     FlipWeightedCoin = (\<lambda>_ s. case s of [] \<Rightarrow> (False, []) | b # s \<Rightarrow> (b, s)),
     Intn = (\<lambda>_ s. (0, s)), Perm = (\<lambda>n s. ([0..<n], s)), shuffleDraws = (\<lambda>n s. (rev [1..<n], s)),
     removalWeight = (\<lambda>w _ _. w)\<rparr>"

lemma draws_ok_rev: "draws_ok n (rev [1..<n])"
proof (induction n)
  case (Suc n)
  then show ?case
    by (cases n) auto
qed simp

lemma scripted_laws: "prng_laws (scripted coins)"
  using draws_ok_rev by (simp add: prng_laws_def scripted_def)

definition offered_groups :: "TLSExtension list \<Rightarrow> u16 list" where
  "offered_groups es = concat (map (\<lambda>e. case e of SupportedCurvesExtension curves \<Rightarrow> curves | _ \<Rightarrow> []) es)"

definition shared_groups :: "TLSExtension list \<Rightarrow> u16 list" where
  "shared_groups es = concat (map (\<lambda>e. case e of KeyShareExtension kss \<Rightarrow> map ks_group kss | _ \<Rightarrow> []) es)"


end
