(* ===== verification/Parrots_Chrome.thy ===== *)
theory Parrots_Chrome
  imports Parrot_Random
begin

text \<open>
  The specifications of the Chrome parrots, one definition per literal of \<open>utlsIdToSpec\<close>
  (u_parrots.go), and that they have the shape a connection demands. A literal that calls
  \<open>ShuffleChromeTLSExtensions\<close> takes the shuffle as an argument.
\<close>

text \<open>\<open>BoringGREASEECH\<close> of u_ech.go.\<close>

definition BoringGREASEECH :: TLSExtension where
  "BoringGREASEECH = GREASEEncryptedClientHelloExtension (GreaseECH_zero\<lparr>
     g_CandidateCipherSuites := [(HKDF_SHA256, AEAD_AES_128_GCM)], g_CandidatePayloadLens := [128, 160, 192, 224]\<rparr>)"

definition spec_Chrome_58 :: "ClientHelloSpec" where
  "spec_Chrome_58 = \<lparr>
     CipherSuites = [GREASE_PLACEHOLDER, TLS_ECDHE_ECDSA_WITH_AES_128_GCM_SHA256, TLS_ECDHE_RSA_WITH_AES_128_GCM_SHA256,
       TLS_ECDHE_ECDSA_WITH_AES_256_GCM_SHA384, TLS_ECDHE_RSA_WITH_AES_256_GCM_SHA384,
       TLS_ECDHE_ECDSA_WITH_CHACHA20_POLY1305, TLS_ECDHE_RSA_WITH_CHACHA20_POLY1305,
       TLS_ECDHE_RSA_WITH_AES_128_CBC_SHA, TLS_ECDHE_RSA_WITH_AES_256_CBC_SHA, TLS_RSA_WITH_AES_128_GCM_SHA256,
       TLS_RSA_WITH_AES_256_GCM_SHA384, TLS_RSA_WITH_AES_128_CBC_SHA, TLS_RSA_WITH_AES_256_CBC_SHA,
       TLS_RSA_WITH_3DES_EDE_CBC_SHA],
     CompressionMethods = [compressionNone],
     Extensions = [
       UtlsGREASEExtension 0 [],
       RenegotiationInfoExtension RenegotiateOnceAsClient [],
       SNIExtension [],
       ExtendedMasterSecretExtension,
       SessionTicketExtension None [] False,
       SignatureAlgorithmsExtension [ECDSAWithP256AndSHA256, PSSWithSHA256, PKCS1WithSHA256, ECDSAWithP384AndSHA384, PSSWithSHA384,
         PKCS1WithSHA384, PSSWithSHA512, PKCS1WithSHA512, PKCS1WithSHA1],
       StatusRequestExtension,
       SCTExtension,
       ALPNExtension [ascii ''h2'', ascii ''http/1.1''],
       FakeChannelIDExtension False,
       SupportedPointsExtension [pointFormatUncompressed],
       SupportedCurvesExtension [GREASE_PLACEHOLDER, X25519, CurveP256, CurveP384],
       UtlsGREASEExtension 0 [],
       UtlsPaddingExtension 0 False (Some BoringPaddingStyle)],
     TLSVersMin = VersionTLS10, TLSVersMax = VersionTLS12,
     GetSessionID = Some Sum256, GREASESeed = replicate 8 0\<rparr>"

definition spec_Chrome_70 :: "ClientHelloSpec" where
  "spec_Chrome_70 = \<lparr>
     CipherSuites = [GREASE_PLACEHOLDER, TLS_AES_128_GCM_SHA256, TLS_AES_256_GCM_SHA384, TLS_CHACHA20_POLY1305_SHA256,
       TLS_ECDHE_ECDSA_WITH_AES_128_GCM_SHA256, TLS_ECDHE_RSA_WITH_AES_128_GCM_SHA256,
       TLS_ECDHE_ECDSA_WITH_AES_256_GCM_SHA384, TLS_ECDHE_RSA_WITH_AES_256_GCM_SHA384,
       TLS_ECDHE_ECDSA_WITH_CHACHA20_POLY1305, TLS_ECDHE_RSA_WITH_CHACHA20_POLY1305,
       TLS_ECDHE_RSA_WITH_AES_128_CBC_SHA, TLS_ECDHE_RSA_WITH_AES_256_CBC_SHA, TLS_RSA_WITH_AES_128_GCM_SHA256,
       TLS_RSA_WITH_AES_256_GCM_SHA384, TLS_RSA_WITH_AES_128_CBC_SHA, TLS_RSA_WITH_AES_256_CBC_SHA,
       TLS_RSA_WITH_3DES_EDE_CBC_SHA],
     CompressionMethods = [compressionNone],
     Extensions = [
       UtlsGREASEExtension 0 [],
       RenegotiationInfoExtension RenegotiateOnceAsClient [],
       SNIExtension [],
       ExtendedMasterSecretExtension,
       SessionTicketExtension None [] False,
       SignatureAlgorithmsExtension [ECDSAWithP256AndSHA256, PSSWithSHA256, PKCS1WithSHA256, ECDSAWithP384AndSHA384, PSSWithSHA384,
         PKCS1WithSHA384, PSSWithSHA512, PKCS1WithSHA512, PKCS1WithSHA1],
       StatusRequestExtension,
       SCTExtension,
       ALPNExtension [ascii ''h2'', ascii ''http/1.1''],
       FakeChannelIDExtension False,
       SupportedPointsExtension [pointFormatUncompressed],
       KeyShareExtension [\<lparr>ks_group = GREASE_PLACEHOLDER, ks_data = [0]\<rparr>,
         \<lparr>ks_group = X25519, ks_data = []\<rparr>],
       PSKKeyExchangeModesExtension [pskModeDHE],
       SupportedVersionsExtension [GREASE_PLACEHOLDER, VersionTLS13, VersionTLS12, VersionTLS11, VersionTLS10],
       SupportedCurvesExtension [GREASE_PLACEHOLDER, X25519, CurveP256, CurveP384],
       UtlsCompressCertExtension [CertCompressionBrotli],
       UtlsGREASEExtension 0 [],
       UtlsPaddingExtension 0 False (Some BoringPaddingStyle)],
     TLSVersMin = VersionTLS10, TLSVersMax = VersionTLS13,
     GetSessionID = None, GREASESeed = replicate 8 0\<rparr>"

definition spec_Chrome_72 :: "ClientHelloSpec" where
  "spec_Chrome_72 = \<lparr>
     CipherSuites = [GREASE_PLACEHOLDER, TLS_AES_128_GCM_SHA256, TLS_AES_256_GCM_SHA384, TLS_CHACHA20_POLY1305_SHA256,
       TLS_ECDHE_ECDSA_WITH_AES_128_GCM_SHA256, TLS_ECDHE_RSA_WITH_AES_128_GCM_SHA256,
       TLS_ECDHE_ECDSA_WITH_AES_256_GCM_SHA384, TLS_ECDHE_RSA_WITH_AES_256_GCM_SHA384,
       TLS_ECDHE_ECDSA_WITH_CHACHA20_POLY1305, TLS_ECDHE_RSA_WITH_CHACHA20_POLY1305,
       TLS_ECDHE_RSA_WITH_AES_128_CBC_SHA, TLS_ECDHE_RSA_WITH_AES_256_CBC_SHA, TLS_RSA_WITH_AES_128_GCM_SHA256,
       TLS_RSA_WITH_AES_256_GCM_SHA384, TLS_RSA_WITH_AES_128_CBC_SHA, TLS_RSA_WITH_AES_256_CBC_SHA,
       TLS_RSA_WITH_3DES_EDE_CBC_SHA],
     CompressionMethods = [0x00],
     Extensions = [
       UtlsGREASEExtension 0 [],
       SNIExtension [],
       ExtendedMasterSecretExtension,
       RenegotiationInfoExtension RenegotiateOnceAsClient [],
       SupportedCurvesExtension [GREASE_PLACEHOLDER, X25519, CurveP256, CurveP384],
       SupportedPointsExtension [0x00],
       SessionTicketExtension None [] False,
       ALPNExtension [ascii ''h2'', ascii ''http/1.1''],
       StatusRequestExtension,
       SignatureAlgorithmsExtension [ECDSAWithP256AndSHA256, PSSWithSHA256, PKCS1WithSHA256, ECDSAWithP384AndSHA384, PSSWithSHA384,
         PKCS1WithSHA384, PSSWithSHA512, PKCS1WithSHA512, PKCS1WithSHA1],
       SCTExtension,
       KeyShareExtension [\<lparr>ks_group = GREASE_PLACEHOLDER, ks_data = [0]\<rparr>,
         \<lparr>ks_group = X25519, ks_data = []\<rparr>],
       PSKKeyExchangeModesExtension [PskModeDHE],
       SupportedVersionsExtension [GREASE_PLACEHOLDER, VersionTLS13, VersionTLS12, VersionTLS11, VersionTLS10],
       UtlsCompressCertExtension [CertCompressionBrotli],
       UtlsGREASEExtension 0 [],
       UtlsPaddingExtension 0 False (Some BoringPaddingStyle)],
     TLSVersMin = 0, TLSVersMax = 0,
     GetSessionID = None, GREASESeed = replicate 8 0\<rparr>"

definition spec_Chrome_83 :: "ClientHelloSpec" where
  "spec_Chrome_83 = \<lparr>
     CipherSuites = [GREASE_PLACEHOLDER, TLS_AES_128_GCM_SHA256, TLS_AES_256_GCM_SHA384, TLS_CHACHA20_POLY1305_SHA256,
       TLS_ECDHE_ECDSA_WITH_AES_128_GCM_SHA256, TLS_ECDHE_RSA_WITH_AES_128_GCM_SHA256,
       TLS_ECDHE_ECDSA_WITH_AES_256_GCM_SHA384, TLS_ECDHE_RSA_WITH_AES_256_GCM_SHA384,
       TLS_ECDHE_ECDSA_WITH_CHACHA20_POLY1305, TLS_ECDHE_RSA_WITH_CHACHA20_POLY1305,
       TLS_ECDHE_RSA_WITH_AES_128_CBC_SHA, TLS_ECDHE_RSA_WITH_AES_256_CBC_SHA, TLS_RSA_WITH_AES_128_GCM_SHA256,
       TLS_RSA_WITH_AES_256_GCM_SHA384, TLS_RSA_WITH_AES_128_CBC_SHA, TLS_RSA_WITH_AES_256_CBC_SHA],
     CompressionMethods = [0x00],
     Extensions = [
       UtlsGREASEExtension 0 [],
       SNIExtension [],
       ExtendedMasterSecretExtension,
       RenegotiationInfoExtension RenegotiateOnceAsClient [],
       SupportedCurvesExtension [GREASE_PLACEHOLDER, X25519, CurveP256, CurveP384],
       SupportedPointsExtension [0x00],
       SessionTicketExtension None [] False,
       ALPNExtension [ascii ''h2'', ascii ''http/1.1''],
       StatusRequestExtension,
       SignatureAlgorithmsExtension [ECDSAWithP256AndSHA256, PSSWithSHA256, PKCS1WithSHA256, ECDSAWithP384AndSHA384, PSSWithSHA384,
         PKCS1WithSHA384, PSSWithSHA512, PKCS1WithSHA512],
       SCTExtension,
       KeyShareExtension [\<lparr>ks_group = GREASE_PLACEHOLDER, ks_data = [0]\<rparr>,
         \<lparr>ks_group = X25519, ks_data = []\<rparr>],
       PSKKeyExchangeModesExtension [PskModeDHE],
       SupportedVersionsExtension [GREASE_PLACEHOLDER, VersionTLS13, VersionTLS12, VersionTLS11, VersionTLS10],
       UtlsCompressCertExtension [CertCompressionBrotli],
       UtlsGREASEExtension 0 [],
       UtlsPaddingExtension 0 False (Some BoringPaddingStyle)],
     TLSVersMin = 0, TLSVersMax = 0,
     GetSessionID = None, GREASESeed = replicate 8 0\<rparr>"

definition spec_Chrome_87 :: "ClientHelloSpec" where
  "spec_Chrome_87 = \<lparr>
     CipherSuites = [GREASE_PLACEHOLDER, TLS_AES_128_GCM_SHA256, TLS_AES_256_GCM_SHA384, TLS_CHACHA20_POLY1305_SHA256,
       TLS_ECDHE_ECDSA_WITH_AES_128_GCM_SHA256, TLS_ECDHE_RSA_WITH_AES_128_GCM_SHA256,
       TLS_ECDHE_ECDSA_WITH_AES_256_GCM_SHA384, TLS_ECDHE_RSA_WITH_AES_256_GCM_SHA384,
       TLS_ECDHE_ECDSA_WITH_CHACHA20_POLY1305, TLS_ECDHE_RSA_WITH_CHACHA20_POLY1305,
       TLS_ECDHE_RSA_WITH_AES_128_CBC_SHA, TLS_ECDHE_RSA_WITH_AES_256_CBC_SHA, TLS_RSA_WITH_AES_128_GCM_SHA256,
       TLS_RSA_WITH_AES_256_GCM_SHA384, TLS_RSA_WITH_AES_128_CBC_SHA, TLS_RSA_WITH_AES_256_CBC_SHA],
     CompressionMethods = [0x00],
     Extensions = [
       UtlsGREASEExtension 0 [],
       SNIExtension [],
       ExtendedMasterSecretExtension,
       RenegotiationInfoExtension RenegotiateOnceAsClient [],
       SupportedCurvesExtension [GREASE_PLACEHOLDER, X25519, CurveP256, CurveP384],
       SupportedPointsExtension [0x00],
       SessionTicketExtension None [] False,
       ALPNExtension [ascii ''h2'', ascii ''http/1.1''],
       StatusRequestExtension,
       SignatureAlgorithmsExtension [ECDSAWithP256AndSHA256, PSSWithSHA256, PKCS1WithSHA256, ECDSAWithP384AndSHA384, PSSWithSHA384,
         PKCS1WithSHA384, PSSWithSHA512, PKCS1WithSHA512],
       SCTExtension,
       KeyShareExtension [\<lparr>ks_group = GREASE_PLACEHOLDER, ks_data = [0]\<rparr>,
         \<lparr>ks_group = X25519, ks_data = []\<rparr>],
       PSKKeyExchangeModesExtension [PskModeDHE],
       SupportedVersionsExtension [GREASE_PLACEHOLDER, VersionTLS13, VersionTLS12, VersionTLS11, VersionTLS10],
       UtlsCompressCertExtension [CertCompressionBrotli],
       UtlsGREASEExtension 0 [],
       UtlsPaddingExtension 0 False (Some BoringPaddingStyle)],
     TLSVersMin = 0, TLSVersMax = 0,
     GetSessionID = None, GREASESeed = replicate 8 0\<rparr>"

definition spec_Chrome_96 :: "ClientHelloSpec" where
  "spec_Chrome_96 = \<lparr>
     CipherSuites = [GREASE_PLACEHOLDER, TLS_AES_128_GCM_SHA256, TLS_AES_256_GCM_SHA384, TLS_CHACHA20_POLY1305_SHA256,
       TLS_ECDHE_ECDSA_WITH_AES_128_GCM_SHA256, TLS_ECDHE_RSA_WITH_AES_128_GCM_SHA256,
       TLS_ECDHE_ECDSA_WITH_AES_256_GCM_SHA384, TLS_ECDHE_RSA_WITH_AES_256_GCM_SHA384,
       TLS_ECDHE_ECDSA_WITH_CHACHA20_POLY1305, TLS_ECDHE_RSA_WITH_CHACHA20_POLY1305,
       TLS_ECDHE_RSA_WITH_AES_128_CBC_SHA, TLS_ECDHE_RSA_WITH_AES_256_CBC_SHA, TLS_RSA_WITH_AES_128_GCM_SHA256,
       TLS_RSA_WITH_AES_256_GCM_SHA384, TLS_RSA_WITH_AES_128_CBC_SHA, TLS_RSA_WITH_AES_256_CBC_SHA],
     CompressionMethods = [0x00],
     Extensions = [
       UtlsGREASEExtension 0 [],
       SNIExtension [],
       ExtendedMasterSecretExtension,
       RenegotiationInfoExtension RenegotiateOnceAsClient [],
       SupportedCurvesExtension [GREASE_PLACEHOLDER, X25519, CurveP256, CurveP384],
       SupportedPointsExtension [0x00],
       SessionTicketExtension None [] False,
       ALPNExtension [ascii ''h2'', ascii ''http/1.1''],
       StatusRequestExtension,
       SignatureAlgorithmsExtension [ECDSAWithP256AndSHA256, PSSWithSHA256, PKCS1WithSHA256, ECDSAWithP384AndSHA384, PSSWithSHA384,
         PKCS1WithSHA384, PSSWithSHA512, PKCS1WithSHA512],
       SCTExtension,
       KeyShareExtension [\<lparr>ks_group = GREASE_PLACEHOLDER, ks_data = [0]\<rparr>,
         \<lparr>ks_group = X25519, ks_data = []\<rparr>],
       PSKKeyExchangeModesExtension [PskModeDHE],
       SupportedVersionsExtension [GREASE_PLACEHOLDER, VersionTLS13, VersionTLS12, VersionTLS11, VersionTLS10],
       UtlsCompressCertExtension [CertCompressionBrotli],
       ApplicationSettingsExtension [ascii ''h2''],
       UtlsGREASEExtension 0 [],
       UtlsPaddingExtension 0 False (Some BoringPaddingStyle)],
     TLSVersMin = 0, TLSVersMax = 0,
     GetSessionID = None, GREASESeed = replicate 8 0\<rparr>"

definition spec_Chrome_100 :: "ClientHelloSpec" where
  "spec_Chrome_100 = \<lparr>
     CipherSuites = [GREASE_PLACEHOLDER, TLS_AES_128_GCM_SHA256, TLS_AES_256_GCM_SHA384, TLS_CHACHA20_POLY1305_SHA256,
       TLS_ECDHE_ECDSA_WITH_AES_128_GCM_SHA256, TLS_ECDHE_RSA_WITH_AES_128_GCM_SHA256,
       TLS_ECDHE_ECDSA_WITH_AES_256_GCM_SHA384, TLS_ECDHE_RSA_WITH_AES_256_GCM_SHA384,
       TLS_ECDHE_ECDSA_WITH_CHACHA20_POLY1305, TLS_ECDHE_RSA_WITH_CHACHA20_POLY1305,
       TLS_ECDHE_RSA_WITH_AES_128_CBC_SHA, TLS_ECDHE_RSA_WITH_AES_256_CBC_SHA, TLS_RSA_WITH_AES_128_GCM_SHA256,
       TLS_RSA_WITH_AES_256_GCM_SHA384, TLS_RSA_WITH_AES_128_CBC_SHA, TLS_RSA_WITH_AES_256_CBC_SHA],
     CompressionMethods = [0x00],
     Extensions = [
       UtlsGREASEExtension 0 [],
       SNIExtension [],
       ExtendedMasterSecretExtension,
       RenegotiationInfoExtension RenegotiateOnceAsClient [],
       SupportedCurvesExtension [GREASE_PLACEHOLDER, X25519, CurveP256, CurveP384],
       SupportedPointsExtension [0x00],
       SessionTicketExtension None [] False,
       ALPNExtension [ascii ''h2'', ascii ''http/1.1''],
       StatusRequestExtension,
       SignatureAlgorithmsExtension [ECDSAWithP256AndSHA256, PSSWithSHA256, PKCS1WithSHA256, ECDSAWithP384AndSHA384, PSSWithSHA384,
         PKCS1WithSHA384, PSSWithSHA512, PKCS1WithSHA512],
       SCTExtension,
       KeyShareExtension [\<lparr>ks_group = GREASE_PLACEHOLDER, ks_data = [0]\<rparr>,
         \<lparr>ks_group = X25519, ks_data = []\<rparr>],
       PSKKeyExchangeModesExtension [PskModeDHE],
       SupportedVersionsExtension [GREASE_PLACEHOLDER, VersionTLS13, VersionTLS12],
       UtlsCompressCertExtension [CertCompressionBrotli],
       ApplicationSettingsExtension [ascii ''h2''],
       UtlsGREASEExtension 0 [],
       UtlsPaddingExtension 0 False (Some BoringPaddingStyle)],
     TLSVersMin = 0, TLSVersMax = 0,
     GetSessionID = None, GREASESeed = replicate 8 0\<rparr>"

definition spec_Chrome_106_Shuffle :: "(TLSExtension list \<Rightarrow> TLSExtension list) \<Rightarrow> ClientHelloSpec" where
  "spec_Chrome_106_Shuffle shuffle = \<lparr>
     CipherSuites = [GREASE_PLACEHOLDER, TLS_AES_128_GCM_SHA256, TLS_AES_256_GCM_SHA384, TLS_CHACHA20_POLY1305_SHA256,
       TLS_ECDHE_ECDSA_WITH_AES_128_GCM_SHA256, TLS_ECDHE_RSA_WITH_AES_128_GCM_SHA256,
       TLS_ECDHE_ECDSA_WITH_AES_256_GCM_SHA384, TLS_ECDHE_RSA_WITH_AES_256_GCM_SHA384,
       TLS_ECDHE_ECDSA_WITH_CHACHA20_POLY1305, TLS_ECDHE_RSA_WITH_CHACHA20_POLY1305,
       TLS_ECDHE_RSA_WITH_AES_128_CBC_SHA, TLS_ECDHE_RSA_WITH_AES_256_CBC_SHA, TLS_RSA_WITH_AES_128_GCM_SHA256,
       TLS_RSA_WITH_AES_256_GCM_SHA384, TLS_RSA_WITH_AES_128_CBC_SHA, TLS_RSA_WITH_AES_256_CBC_SHA],
     CompressionMethods = [0x00],
     Extensions = shuffle [
       UtlsGREASEExtension 0 [],
       SNIExtension [],
       ExtendedMasterSecretExtension,
       RenegotiationInfoExtension RenegotiateOnceAsClient [],
       SupportedCurvesExtension [GREASE_PLACEHOLDER, X25519, CurveP256, CurveP384],
       SupportedPointsExtension [0x00],
       SessionTicketExtension None [] False,
       ALPNExtension [ascii ''h2'', ascii ''http/1.1''],
       StatusRequestExtension,
       SignatureAlgorithmsExtension [ECDSAWithP256AndSHA256, PSSWithSHA256, PKCS1WithSHA256, ECDSAWithP384AndSHA384, PSSWithSHA384,
         PKCS1WithSHA384, PSSWithSHA512, PKCS1WithSHA512],
       SCTExtension,
       KeyShareExtension [\<lparr>ks_group = GREASE_PLACEHOLDER, ks_data = [0]\<rparr>,
         \<lparr>ks_group = X25519, ks_data = []\<rparr>],
       PSKKeyExchangeModesExtension [PskModeDHE],
       SupportedVersionsExtension [GREASE_PLACEHOLDER, VersionTLS13, VersionTLS12],
       UtlsCompressCertExtension [CertCompressionBrotli],
       ApplicationSettingsExtension [ascii ''h2''],
       UtlsGREASEExtension 0 [],
       UtlsPaddingExtension 0 False (Some BoringPaddingStyle)],
     TLSVersMin = 0, TLSVersMax = 0,
     GetSessionID = None, GREASESeed = replicate 8 0\<rparr>"

definition spec_Chrome_115_PQ :: "(TLSExtension list \<Rightarrow> TLSExtension list) \<Rightarrow> ClientHelloSpec" where
  "spec_Chrome_115_PQ shuffle = \<lparr>
     CipherSuites = [GREASE_PLACEHOLDER, TLS_AES_128_GCM_SHA256, TLS_AES_256_GCM_SHA384, TLS_CHACHA20_POLY1305_SHA256,
       TLS_ECDHE_ECDSA_WITH_AES_128_GCM_SHA256, TLS_ECDHE_RSA_WITH_AES_128_GCM_SHA256,
       TLS_ECDHE_ECDSA_WITH_AES_256_GCM_SHA384, TLS_ECDHE_RSA_WITH_AES_256_GCM_SHA384,
       TLS_ECDHE_ECDSA_WITH_CHACHA20_POLY1305, TLS_ECDHE_RSA_WITH_CHACHA20_POLY1305,
       TLS_ECDHE_RSA_WITH_AES_128_CBC_SHA, TLS_ECDHE_RSA_WITH_AES_256_CBC_SHA, TLS_RSA_WITH_AES_128_GCM_SHA256,
       TLS_RSA_WITH_AES_256_GCM_SHA384, TLS_RSA_WITH_AES_128_CBC_SHA, TLS_RSA_WITH_AES_256_CBC_SHA],
     CompressionMethods = [0x00],
     Extensions = shuffle [
       UtlsGREASEExtension 0 [],
       SNIExtension [],
       ExtendedMasterSecretExtension,
       RenegotiationInfoExtension RenegotiateOnceAsClient [],
       SupportedCurvesExtension [GREASE_PLACEHOLDER, X25519Kyber768Draft00, X25519, CurveP256, CurveP384],
       SupportedPointsExtension [0x00],
       SessionTicketExtension None [] False,
       ALPNExtension [ascii ''h2'', ascii ''http/1.1''],
       StatusRequestExtension,
       SignatureAlgorithmsExtension [ECDSAWithP256AndSHA256, PSSWithSHA256, PKCS1WithSHA256, ECDSAWithP384AndSHA384, PSSWithSHA384,
         PKCS1WithSHA384, PSSWithSHA512, PKCS1WithSHA512],
       SCTExtension,
       KeyShareExtension [\<lparr>ks_group = GREASE_PLACEHOLDER, ks_data = [0]\<rparr>,
         \<lparr>ks_group = X25519Kyber768Draft00, ks_data = []\<rparr>,
         \<lparr>ks_group = X25519, ks_data = []\<rparr>],
       PSKKeyExchangeModesExtension [PskModeDHE],
       SupportedVersionsExtension [GREASE_PLACEHOLDER, VersionTLS13, VersionTLS12],
       UtlsCompressCertExtension [CertCompressionBrotli],
       ApplicationSettingsExtension [ascii ''h2''],
       UtlsGREASEExtension 0 [],
       UtlsPaddingExtension 0 False (Some BoringPaddingStyle)],
     TLSVersMin = 0, TLSVersMax = 0,
     GetSessionID = None, GREASESeed = replicate 8 0\<rparr>"

definition spec_Chrome_120 :: "(TLSExtension list \<Rightarrow> TLSExtension list) \<Rightarrow> ClientHelloSpec" where
  "spec_Chrome_120 shuffle = \<lparr>
     CipherSuites = [GREASE_PLACEHOLDER, TLS_AES_128_GCM_SHA256, TLS_AES_256_GCM_SHA384, TLS_CHACHA20_POLY1305_SHA256,
       TLS_ECDHE_ECDSA_WITH_AES_128_GCM_SHA256, TLS_ECDHE_RSA_WITH_AES_128_GCM_SHA256,
       TLS_ECDHE_ECDSA_WITH_AES_256_GCM_SHA384, TLS_ECDHE_RSA_WITH_AES_256_GCM_SHA384,
       TLS_ECDHE_ECDSA_WITH_CHACHA20_POLY1305, TLS_ECDHE_RSA_WITH_CHACHA20_POLY1305,
       TLS_ECDHE_RSA_WITH_AES_128_CBC_SHA, TLS_ECDHE_RSA_WITH_AES_256_CBC_SHA, TLS_RSA_WITH_AES_128_GCM_SHA256,
       TLS_RSA_WITH_AES_256_GCM_SHA384, TLS_RSA_WITH_AES_128_CBC_SHA, TLS_RSA_WITH_AES_256_CBC_SHA],
     CompressionMethods = [0x00],
     Extensions = shuffle [
       UtlsGREASEExtension 0 [],
       SNIExtension [],
       ExtendedMasterSecretExtension,
       RenegotiationInfoExtension RenegotiateOnceAsClient [],
       SupportedCurvesExtension [GREASE_PLACEHOLDER, X25519, CurveP256, CurveP384],
       SupportedPointsExtension [0x00],
       SessionTicketExtension None [] False,
       ALPNExtension [ascii ''h2'', ascii ''http/1.1''],
       StatusRequestExtension,
       SignatureAlgorithmsExtension [ECDSAWithP256AndSHA256, PSSWithSHA256, PKCS1WithSHA256, ECDSAWithP384AndSHA384, PSSWithSHA384,
         PKCS1WithSHA384, PSSWithSHA512, PKCS1WithSHA512],
       SCTExtension,
       KeyShareExtension [\<lparr>ks_group = GREASE_PLACEHOLDER, ks_data = [0]\<rparr>,
         \<lparr>ks_group = X25519, ks_data = []\<rparr>],
       PSKKeyExchangeModesExtension [PskModeDHE],
       SupportedVersionsExtension [GREASE_PLACEHOLDER, VersionTLS13, VersionTLS12],
       UtlsCompressCertExtension [CertCompressionBrotli],
       ApplicationSettingsExtension [ascii ''h2''],
       BoringGREASEECH,
       UtlsGREASEExtension 0 []],
     TLSVersMin = 0, TLSVersMax = 0,
     GetSessionID = None, GREASESeed = replicate 8 0\<rparr>"

definition spec_Chrome_120_PQ :: "(TLSExtension list \<Rightarrow> TLSExtension list) \<Rightarrow> ClientHelloSpec" where
  "spec_Chrome_120_PQ shuffle = \<lparr>
     CipherSuites = [GREASE_PLACEHOLDER, TLS_AES_128_GCM_SHA256, TLS_AES_256_GCM_SHA384, TLS_CHACHA20_POLY1305_SHA256,
       TLS_ECDHE_ECDSA_WITH_AES_128_GCM_SHA256, TLS_ECDHE_RSA_WITH_AES_128_GCM_SHA256,
       TLS_ECDHE_ECDSA_WITH_AES_256_GCM_SHA384, TLS_ECDHE_RSA_WITH_AES_256_GCM_SHA384,
       TLS_ECDHE_ECDSA_WITH_CHACHA20_POLY1305, TLS_ECDHE_RSA_WITH_CHACHA20_POLY1305,
       TLS_ECDHE_RSA_WITH_AES_128_CBC_SHA, TLS_ECDHE_RSA_WITH_AES_256_CBC_SHA, TLS_RSA_WITH_AES_128_GCM_SHA256,
       TLS_RSA_WITH_AES_256_GCM_SHA384, TLS_RSA_WITH_AES_128_CBC_SHA, TLS_RSA_WITH_AES_256_CBC_SHA],
     CompressionMethods = [0x00],
     Extensions = shuffle [
       UtlsGREASEExtension 0 [],
       SNIExtension [],
       ExtendedMasterSecretExtension,
       RenegotiationInfoExtension RenegotiateOnceAsClient [],
       SupportedCurvesExtension [GREASE_PLACEHOLDER, X25519Kyber768Draft00, X25519, CurveP256, CurveP384],
       SupportedPointsExtension [0x00],
       SessionTicketExtension None [] False,
       ALPNExtension [ascii ''h2'', ascii ''http/1.1''],
       StatusRequestExtension,
       SignatureAlgorithmsExtension [ECDSAWithP256AndSHA256, PSSWithSHA256, PKCS1WithSHA256, ECDSAWithP384AndSHA384, PSSWithSHA384,
         PKCS1WithSHA384, PSSWithSHA512, PKCS1WithSHA512],
       SCTExtension,
       KeyShareExtension [\<lparr>ks_group = GREASE_PLACEHOLDER, ks_data = [0]\<rparr>,
         \<lparr>ks_group = X25519Kyber768Draft00, ks_data = []\<rparr>,
         \<lparr>ks_group = X25519, ks_data = []\<rparr>],
       PSKKeyExchangeModesExtension [PskModeDHE],
       SupportedVersionsExtension [GREASE_PLACEHOLDER, VersionTLS13, VersionTLS12],
       UtlsCompressCertExtension [CertCompressionBrotli],
       ApplicationSettingsExtension [ascii ''h2''],
       BoringGREASEECH,
       UtlsGREASEExtension 0 [],
       UtlsPreSharedKeyExtension UtlsPSK_zero],
     TLSVersMin = 0, TLSVersMax = 0,
     GetSessionID = None, GREASESeed = replicate 8 0\<rparr>"

definition spec_Chrome_131 :: "(TLSExtension list \<Rightarrow> TLSExtension list) \<Rightarrow> ClientHelloSpec" where
  "spec_Chrome_131 shuffle = \<lparr>
     CipherSuites = [GREASE_PLACEHOLDER, TLS_AES_128_GCM_SHA256, TLS_AES_256_GCM_SHA384, TLS_CHACHA20_POLY1305_SHA256,
       TLS_ECDHE_ECDSA_WITH_AES_128_GCM_SHA256, TLS_ECDHE_RSA_WITH_AES_128_GCM_SHA256,
       TLS_ECDHE_ECDSA_WITH_AES_256_GCM_SHA384, TLS_ECDHE_RSA_WITH_AES_256_GCM_SHA384,
       TLS_ECDHE_ECDSA_WITH_CHACHA20_POLY1305, TLS_ECDHE_RSA_WITH_CHACHA20_POLY1305,
       TLS_ECDHE_RSA_WITH_AES_128_CBC_SHA, TLS_ECDHE_RSA_WITH_AES_256_CBC_SHA, TLS_RSA_WITH_AES_128_GCM_SHA256,
       TLS_RSA_WITH_AES_256_GCM_SHA384, TLS_RSA_WITH_AES_128_CBC_SHA, TLS_RSA_WITH_AES_256_CBC_SHA],
     CompressionMethods = [0x00],
     Extensions = shuffle [
       UtlsGREASEExtension 0 [],
       SNIExtension [],
       ExtendedMasterSecretExtension,
       RenegotiationInfoExtension RenegotiateOnceAsClient [],
       SupportedCurvesExtension [GREASE_PLACEHOLDER, X25519MLKEM768, X25519, CurveP256, CurveP384],
       SupportedPointsExtension [0x00],
       SessionTicketExtension None [] False,
       ALPNExtension [ascii ''h2'', ascii ''http/1.1''],
       StatusRequestExtension,
       SignatureAlgorithmsExtension [ECDSAWithP256AndSHA256, PSSWithSHA256, PKCS1WithSHA256, ECDSAWithP384AndSHA384, PSSWithSHA384,
         PKCS1WithSHA384, PSSWithSHA512, PKCS1WithSHA512],
       SCTExtension,
       KeyShareExtension [\<lparr>ks_group = GREASE_PLACEHOLDER, ks_data = [0]\<rparr>,
         \<lparr>ks_group = X25519MLKEM768, ks_data = []\<rparr>,
         \<lparr>ks_group = X25519, ks_data = []\<rparr>],
       PSKKeyExchangeModesExtension [PskModeDHE],
       SupportedVersionsExtension [GREASE_PLACEHOLDER, VersionTLS13, VersionTLS12],
       UtlsCompressCertExtension [CertCompressionBrotli],
       ApplicationSettingsExtension [ascii ''h2''],
       BoringGREASEECH,
       UtlsGREASEExtension 0 []],
     TLSVersMin = 0, TLSVersMax = 0,
     GetSessionID = None, GREASESeed = replicate 8 0\<rparr>"

definition spec_Chrome_133 :: "(TLSExtension list \<Rightarrow> TLSExtension list) \<Rightarrow> ClientHelloSpec" where
  "spec_Chrome_133 shuffle = \<lparr>
     CipherSuites = [GREASE_PLACEHOLDER, TLS_AES_128_GCM_SHA256, TLS_AES_256_GCM_SHA384, TLS_CHACHA20_POLY1305_SHA256,
       TLS_ECDHE_ECDSA_WITH_AES_128_GCM_SHA256, TLS_ECDHE_RSA_WITH_AES_128_GCM_SHA256,
       TLS_ECDHE_ECDSA_WITH_AES_256_GCM_SHA384, TLS_ECDHE_RSA_WITH_AES_256_GCM_SHA384,
       TLS_ECDHE_ECDSA_WITH_CHACHA20_POLY1305, TLS_ECDHE_RSA_WITH_CHACHA20_POLY1305,
       TLS_ECDHE_RSA_WITH_AES_128_CBC_SHA, TLS_ECDHE_RSA_WITH_AES_256_CBC_SHA, TLS_RSA_WITH_AES_128_GCM_SHA256,
       TLS_RSA_WITH_AES_256_GCM_SHA384, TLS_RSA_WITH_AES_128_CBC_SHA, TLS_RSA_WITH_AES_256_CBC_SHA],
     CompressionMethods = [0x00],
     Extensions = shuffle [
       UtlsGREASEExtension 0 [],
       SNIExtension [],
       ExtendedMasterSecretExtension,
       RenegotiationInfoExtension RenegotiateOnceAsClient [],
       SupportedCurvesExtension [GREASE_PLACEHOLDER, X25519MLKEM768, X25519, CurveP256, CurveP384],
       SupportedPointsExtension [0x00],
       SessionTicketExtension None [] False,
       ALPNExtension [ascii ''h2'', ascii ''http/1.1''],
       StatusRequestExtension,
       SignatureAlgorithmsExtension [ECDSAWithP256AndSHA256, PSSWithSHA256, PKCS1WithSHA256, ECDSAWithP384AndSHA384, PSSWithSHA384,
         PKCS1WithSHA384, PSSWithSHA512, PKCS1WithSHA512],
       SCTExtension,
       KeyShareExtension [\<lparr>ks_group = GREASE_PLACEHOLDER, ks_data = [0]\<rparr>,
         \<lparr>ks_group = X25519MLKEM768, ks_data = []\<rparr>,
         \<lparr>ks_group = X25519, ks_data = []\<rparr>],
       PSKKeyExchangeModesExtension [PskModeDHE],
       SupportedVersionsExtension [GREASE_PLACEHOLDER, VersionTLS13, VersionTLS12],
       UtlsCompressCertExtension [CertCompressionBrotli],
       ApplicationSettingsExtensionNew [ascii ''h2''],
       BoringGREASEECH,
       UtlsGREASEExtension 0 []],
     TLSVersMin = 0, TLSVersMax = 0,
     GetSessionID = None, GREASESeed = replicate 8 0\<rparr>"

definition spec_Chrome_143_Windows :: "(TLSExtension list \<Rightarrow> TLSExtension list) \<Rightarrow> ClientHelloSpec" where
  "spec_Chrome_143_Windows shuffle = \<lparr>
     CipherSuites = [GREASE_PLACEHOLDER, TLS_AES_128_GCM_SHA256, TLS_AES_256_GCM_SHA384, TLS_CHACHA20_POLY1305_SHA256,
       TLS_ECDHE_ECDSA_WITH_AES_128_GCM_SHA256, TLS_ECDHE_RSA_WITH_AES_128_GCM_SHA256,
       TLS_ECDHE_ECDSA_WITH_AES_256_GCM_SHA384, TLS_ECDHE_RSA_WITH_AES_256_GCM_SHA384,
       TLS_ECDHE_ECDSA_WITH_CHACHA20_POLY1305, TLS_ECDHE_RSA_WITH_CHACHA20_POLY1305,
       TLS_ECDHE_RSA_WITH_AES_128_CBC_SHA, TLS_ECDHE_RSA_WITH_AES_256_CBC_SHA, TLS_RSA_WITH_AES_128_GCM_SHA256,
       TLS_RSA_WITH_AES_256_GCM_SHA384, TLS_RSA_WITH_AES_128_CBC_SHA, TLS_RSA_WITH_AES_256_CBC_SHA],
     CompressionMethods = [0x00],
     Extensions = shuffle [
       UtlsGREASEExtension 0 [],
       UtlsCompressCertExtension [CertCompressionBrotli],
       ALPNExtension [ascii ''h2'', ascii ''http/1.1''],
       RenegotiationInfoExtension RenegotiateOnceAsClient [],
       StatusRequestExtension,
       ApplicationSettingsExtensionNew [ascii ''h2''],
       SNIExtension [],
       SCTExtension,
       SupportedVersionsExtension [GREASE_PLACEHOLDER, VersionTLS13, VersionTLS12],
       BoringGREASEECH,
       SupportedPointsExtension [0x00],
       SignatureAlgorithmsExtension [ECDSAWithP256AndSHA256, PSSWithSHA256, PKCS1WithSHA256, ECDSAWithP384AndSHA384, PSSWithSHA384,
         PKCS1WithSHA384, PSSWithSHA512, PKCS1WithSHA512],
       PSKKeyExchangeModesExtension [PskModeDHE],
       SessionTicketExtension None [] False,
       ExtendedMasterSecretExtension,
       SupportedCurvesExtension [GREASE_PLACEHOLDER, X25519MLKEM768, X25519, CurveP256, CurveP384],
       KeyShareExtension [\<lparr>ks_group = GREASE_PLACEHOLDER, ks_data = [0]\<rparr>,
         \<lparr>ks_group = X25519MLKEM768, ks_data = []\<rparr>,
         \<lparr>ks_group = X25519, ks_data = []\<rparr>],
       UtlsGREASEExtension 0 []],
     TLSVersMin = 0, TLSVersMax = 0,
     GetSessionID = None, GREASESeed = replicate 8 0\<rparr>"

definition spec_Chrome_143_Linux :: "(TLSExtension list \<Rightarrow> TLSExtension list) \<Rightarrow> ClientHelloSpec" where
  "spec_Chrome_143_Linux shuffle = \<lparr>
     CipherSuites = [GREASE_PLACEHOLDER, TLS_AES_128_GCM_SHA256, TLS_AES_256_GCM_SHA384, TLS_CHACHA20_POLY1305_SHA256,
       TLS_ECDHE_ECDSA_WITH_AES_128_GCM_SHA256, TLS_ECDHE_RSA_WITH_AES_128_GCM_SHA256,
       TLS_ECDHE_ECDSA_WITH_AES_256_GCM_SHA384, TLS_ECDHE_RSA_WITH_AES_256_GCM_SHA384,
       TLS_ECDHE_ECDSA_WITH_CHACHA20_POLY1305, TLS_ECDHE_RSA_WITH_CHACHA20_POLY1305,
       TLS_ECDHE_RSA_WITH_AES_128_CBC_SHA, TLS_ECDHE_RSA_WITH_AES_256_CBC_SHA, TLS_RSA_WITH_AES_128_GCM_SHA256,
       TLS_RSA_WITH_AES_256_GCM_SHA384, TLS_RSA_WITH_AES_128_CBC_SHA, TLS_RSA_WITH_AES_256_CBC_SHA],
     CompressionMethods = [0x00],
     Extensions = shuffle [
       UtlsGREASEExtension 0 [],
       UtlsCompressCertExtension [CertCompressionBrotli],
       ALPNExtension [ascii ''h2'', ascii ''http/1.1''],
       RenegotiationInfoExtension RenegotiateOnceAsClient [],
       StatusRequestExtension,
       ApplicationSettingsExtensionNew [ascii ''h2''],
       SNIExtension [],
       SCTExtension,
       SupportedVersionsExtension [GREASE_PLACEHOLDER, VersionTLS13, VersionTLS12],
       BoringGREASEECH,
       SupportedPointsExtension [0x00],
       SignatureAlgorithmsExtension [ECDSAWithP256AndSHA256, PSSWithSHA256, PKCS1WithSHA256, ECDSAWithP384AndSHA384, PSSWithSHA384,
         PKCS1WithSHA384, PSSWithSHA512, PKCS1WithSHA512],
       PSKKeyExchangeModesExtension [PskModeDHE],
       SessionTicketExtension None [] False,
       ExtendedMasterSecretExtension,
       SupportedCurvesExtension [GREASE_PLACEHOLDER, X25519MLKEM768, X25519, CurveP256, CurveP384],
       KeyShareExtension [\<lparr>ks_group = GREASE_PLACEHOLDER, ks_data = [0]\<rparr>,
         \<lparr>ks_group = X25519MLKEM768, ks_data = []\<rparr>,
         \<lparr>ks_group = X25519, ks_data = []\<rparr>],
       UtlsGREASEExtension 0 []],
     TLSVersMin = 0, TLSVersMax = 0,
     GetSessionID = None, GREASESeed = replicate 8 0\<rparr>"

definition spec_Chrome_143_macOS :: "(TLSExtension list \<Rightarrow> TLSExtension list) \<Rightarrow> ClientHelloSpec" where
  "spec_Chrome_143_macOS shuffle = \<lparr>
     CipherSuites = [GREASE_PLACEHOLDER, TLS_AES_128_GCM_SHA256, TLS_AES_256_GCM_SHA384, TLS_CHACHA20_POLY1305_SHA256,
       TLS_ECDHE_ECDSA_WITH_AES_128_GCM_SHA256, TLS_ECDHE_RSA_WITH_AES_128_GCM_SHA256,
       TLS_ECDHE_ECDSA_WITH_AES_256_GCM_SHA384, TLS_ECDHE_RSA_WITH_AES_256_GCM_SHA384,
       TLS_ECDHE_ECDSA_WITH_CHACHA20_POLY1305, TLS_ECDHE_RSA_WITH_CHACHA20_POLY1305,
       TLS_ECDHE_RSA_WITH_AES_128_CBC_SHA, TLS_ECDHE_RSA_WITH_AES_256_CBC_SHA, TLS_RSA_WITH_AES_128_GCM_SHA256,
       TLS_RSA_WITH_AES_256_GCM_SHA384, TLS_RSA_WITH_AES_128_CBC_SHA, TLS_RSA_WITH_AES_256_CBC_SHA],
     CompressionMethods = [0x00],
     Extensions = shuffle [
       UtlsGREASEExtension 0 [],
       UtlsCompressCertExtension [CertCompressionBrotli],
       ALPNExtension [ascii ''h2'', ascii ''http/1.1''],
       RenegotiationInfoExtension RenegotiateOnceAsClient [],
       StatusRequestExtension,
       ApplicationSettingsExtensionNew [ascii ''h2''],
       SNIExtension [],
       SCTExtension,
       SupportedVersionsExtension [GREASE_PLACEHOLDER, VersionTLS13, VersionTLS12],
       BoringGREASEECH,
       SupportedPointsExtension [0x00],
       SignatureAlgorithmsExtension [ECDSAWithP256AndSHA256, PSSWithSHA256, PKCS1WithSHA256, ECDSAWithP384AndSHA384, PSSWithSHA384,
         PKCS1WithSHA384, PSSWithSHA512, PKCS1WithSHA512],
       PSKKeyExchangeModesExtension [PskModeDHE],
       SessionTicketExtension None [] False,
       ExtendedMasterSecretExtension,
       SupportedCurvesExtension [GREASE_PLACEHOLDER, X25519MLKEM768, X25519, CurveP256, CurveP384],
       KeyShareExtension [\<lparr>ks_group = GREASE_PLACEHOLDER, ks_data = [0]\<rparr>,
         \<lparr>ks_group = X25519MLKEM768, ks_data = []\<rparr>,
         \<lparr>ks_group = X25519, ks_data = []\<rparr>],
       UtlsGREASEExtension 0 []],
     TLSVersMin = 0, TLSVersMax = 0,
     GetSessionID = None, GREASESeed = replicate 8 0\<rparr>"

definition spec_Chrome_143_QUIC :: "ClientHelloSpec" where
  "spec_Chrome_143_QUIC = \<lparr>
     CipherSuites = [TLS_AES_128_GCM_SHA256, TLS_AES_256_GCM_SHA384, TLS_CHACHA20_POLY1305_SHA256],
     CompressionMethods = [0x00],
     Extensions = [
       ApplicationSettingsExtensionNew [ascii ''h3''],
       PSKKeyExchangeModesExtension [PskModeDHE],
       BoringGREASEECH,
       SupportedCurvesExtension [X25519MLKEM768, X25519, CurveP256, CurveP384],
       ALPNExtension [ascii ''h3''],
       SupportedVersionsExtension [VersionTLS13],
       SNIExtension [],
       SignatureAlgorithmsExtension [ECDSAWithP256AndSHA256, PSSWithSHA256, PKCS1WithSHA256, ECDSAWithP384AndSHA384, PSSWithSHA384,
         PKCS1WithSHA384, PSSWithSHA512, PKCS1WithSHA512, PKCS1WithSHA1],
       UtlsCompressCertExtension [CertCompressionBrotli],
       QUICTransportParametersExtension [] None None,
       KeyShareExtension [\<lparr>ks_group = X25519MLKEM768, ks_data = []\<rparr>,
         \<lparr>ks_group = X25519, ks_data = []\<rparr>]],
     TLSVersMin = 0, TLSVersMax = 0,
     GetSessionID = None, GREASESeed = replicate 8 0\<rparr>"

definition spec_Chrome_133_PSK :: "(TLSExtension list \<Rightarrow> TLSExtension list) \<Rightarrow> ClientHelloSpec" where
  "spec_Chrome_133_PSK shuffle = \<lparr>
     CipherSuites = [GREASE_PLACEHOLDER, TLS_AES_128_GCM_SHA256, TLS_AES_256_GCM_SHA384, TLS_CHACHA20_POLY1305_SHA256,
       TLS_ECDHE_ECDSA_WITH_AES_128_GCM_SHA256, TLS_ECDHE_RSA_WITH_AES_128_GCM_SHA256,
       TLS_ECDHE_ECDSA_WITH_AES_256_GCM_SHA384, TLS_ECDHE_RSA_WITH_AES_256_GCM_SHA384,
       TLS_ECDHE_ECDSA_WITH_CHACHA20_POLY1305, TLS_ECDHE_RSA_WITH_CHACHA20_POLY1305,
       TLS_ECDHE_RSA_WITH_AES_128_CBC_SHA, TLS_ECDHE_RSA_WITH_AES_256_CBC_SHA, TLS_RSA_WITH_AES_128_GCM_SHA256,
       TLS_RSA_WITH_AES_256_GCM_SHA384, TLS_RSA_WITH_AES_128_CBC_SHA, TLS_RSA_WITH_AES_256_CBC_SHA],
     CompressionMethods = [0x00],
     Extensions = shuffle [
       UtlsGREASEExtension 0 [],
       SNIExtension [],
       ExtendedMasterSecretExtension,
       RenegotiationInfoExtension RenegotiateOnceAsClient [],
       SupportedCurvesExtension [GREASE_PLACEHOLDER, X25519MLKEM768, X25519, CurveP256, CurveP384],
       SupportedPointsExtension [0x00],
       SessionTicketExtension None [] False,
       ALPNExtension [ascii ''h2'', ascii ''http/1.1''],
       StatusRequestExtension,
       SignatureAlgorithmsExtension [ECDSAWithP256AndSHA256, PSSWithSHA256, PKCS1WithSHA256, ECDSAWithP384AndSHA384, PSSWithSHA384,
         PKCS1WithSHA384, PSSWithSHA512, PKCS1WithSHA512],
       SCTExtension,
       KeyShareExtension [\<lparr>ks_group = GREASE_PLACEHOLDER, ks_data = [0]\<rparr>,
         \<lparr>ks_group = X25519MLKEM768, ks_data = []\<rparr>,
         \<lparr>ks_group = X25519, ks_data = []\<rparr>],
       PSKKeyExchangeModesExtension [PskModeDHE],
       SupportedVersionsExtension [GREASE_PLACEHOLDER, VersionTLS13, VersionTLS12],
       UtlsCompressCertExtension [CertCompressionBrotli],
       ApplicationSettingsExtensionNew [ascii ''h2''],
       BoringGREASEECH,
       UtlsGREASEExtension 0 [],
       UtlsPreSharedKeyExtension UtlsPSK_zero],
     TLSVersMin = 0, TLSVersMax = 0,
     GetSessionID = None, GREASESeed = replicate 8 0\<rparr>"

definition spec_Chrome_143_Windows_PSK :: "(TLSExtension list \<Rightarrow> TLSExtension list) \<Rightarrow> ClientHelloSpec" where
  "spec_Chrome_143_Windows_PSK shuffle = \<lparr>
     CipherSuites = [GREASE_PLACEHOLDER, TLS_AES_128_GCM_SHA256, TLS_AES_256_GCM_SHA384, TLS_CHACHA20_POLY1305_SHA256,
       TLS_ECDHE_ECDSA_WITH_AES_128_GCM_SHA256, TLS_ECDHE_RSA_WITH_AES_128_GCM_SHA256,
       TLS_ECDHE_ECDSA_WITH_AES_256_GCM_SHA384, TLS_ECDHE_RSA_WITH_AES_256_GCM_SHA384,
       TLS_ECDHE_ECDSA_WITH_CHACHA20_POLY1305, TLS_ECDHE_RSA_WITH_CHACHA20_POLY1305,
       TLS_ECDHE_RSA_WITH_AES_128_CBC_SHA, TLS_ECDHE_RSA_WITH_AES_256_CBC_SHA, TLS_RSA_WITH_AES_128_GCM_SHA256,
       TLS_RSA_WITH_AES_256_GCM_SHA384, TLS_RSA_WITH_AES_128_CBC_SHA, TLS_RSA_WITH_AES_256_CBC_SHA],
     CompressionMethods = [0x00],
     Extensions = shuffle [
       UtlsGREASEExtension 0 [],
       ExtendedMasterSecretExtension,
       RenegotiationInfoExtension RenegotiateOnceAsClient [],
       SupportedCurvesExtension [GREASE_PLACEHOLDER, X25519MLKEM768, X25519, CurveP256, CurveP384],
       ALPNExtension [ascii ''h2'', ascii ''http/1.1''],
       StatusRequestExtension,
       ApplicationSettingsExtensionNew [ascii ''h2''],
       SignatureAlgorithmsExtension [ECDSAWithP256AndSHA256, PSSWithSHA256, PKCS1WithSHA256, ECDSAWithP384AndSHA384, PSSWithSHA384,
         PKCS1WithSHA384, PSSWithSHA512, PKCS1WithSHA512],
       SCTExtension,
       UtlsCompressCertExtension [CertCompressionBrotli],
       KeyShareExtension [\<lparr>ks_group = GREASE_PLACEHOLDER, ks_data = [0]\<rparr>,
         \<lparr>ks_group = X25519MLKEM768, ks_data = []\<rparr>,
         \<lparr>ks_group = X25519, ks_data = []\<rparr>],
       SupportedVersionsExtension [GREASE_PLACEHOLDER, VersionTLS13, VersionTLS12],
       BoringGREASEECH,
       SNIExtension [],
       SupportedPointsExtension [0x00],
       PSKKeyExchangeModesExtension [PskModeDHE],
       SessionTicketExtension None [] False,
       UtlsGREASEExtension 0 [],
       UtlsPreSharedKeyExtension UtlsPSK_zero],
     TLSVersMin = 0, TLSVersMax = 0,
     GetSessionID = None, GREASESeed = replicate 8 0\<rparr>"

definition spec_Chrome_143_Linux_PSK :: "(TLSExtension list \<Rightarrow> TLSExtension list) \<Rightarrow> ClientHelloSpec" where
  "spec_Chrome_143_Linux_PSK shuffle = \<lparr>
     CipherSuites = [GREASE_PLACEHOLDER, TLS_AES_128_GCM_SHA256, TLS_AES_256_GCM_SHA384, TLS_CHACHA20_POLY1305_SHA256,
       TLS_ECDHE_ECDSA_WITH_AES_128_GCM_SHA256, TLS_ECDHE_RSA_WITH_AES_128_GCM_SHA256,
       TLS_ECDHE_ECDSA_WITH_AES_256_GCM_SHA384, TLS_ECDHE_RSA_WITH_AES_256_GCM_SHA384,
       TLS_ECDHE_ECDSA_WITH_CHACHA20_POLY1305, TLS_ECDHE_RSA_WITH_CHACHA20_POLY1305,
       TLS_ECDHE_RSA_WITH_AES_128_CBC_SHA, TLS_ECDHE_RSA_WITH_AES_256_CBC_SHA, TLS_RSA_WITH_AES_128_GCM_SHA256,
       TLS_RSA_WITH_AES_256_GCM_SHA384, TLS_RSA_WITH_AES_128_CBC_SHA, TLS_RSA_WITH_AES_256_CBC_SHA],
     CompressionMethods = [0x00],
     Extensions = shuffle [
       UtlsGREASEExtension 0 [],
       UtlsCompressCertExtension [CertCompressionBrotli],
       ALPNExtension [ascii ''h2'', ascii ''http/1.1''],
       RenegotiationInfoExtension RenegotiateOnceAsClient [],
       StatusRequestExtension,
       ApplicationSettingsExtensionNew [ascii ''h2''],
       SNIExtension [],
       SCTExtension,
       SupportedVersionsExtension [GREASE_PLACEHOLDER, VersionTLS13, VersionTLS12],
       BoringGREASEECH,
       SupportedPointsExtension [0x00],
       SignatureAlgorithmsExtension [ECDSAWithP256AndSHA256, PSSWithSHA256, PKCS1WithSHA256, ECDSAWithP384AndSHA384, PSSWithSHA384,
         PKCS1WithSHA384, PSSWithSHA512, PKCS1WithSHA512],
       PSKKeyExchangeModesExtension [PskModeDHE],
       SessionTicketExtension None [] False,
       ExtendedMasterSecretExtension,
       SupportedCurvesExtension [GREASE_PLACEHOLDER, X25519MLKEM768, X25519, CurveP256, CurveP384],
       KeyShareExtension [\<lparr>ks_group = GREASE_PLACEHOLDER, ks_data = [0]\<rparr>,
         \<lparr>ks_group = X25519MLKEM768, ks_data = []\<rparr>,
         \<lparr>ks_group = X25519, ks_data = []\<rparr>],
       UtlsGREASEExtension 0 [],
       UtlsPreSharedKeyExtension UtlsPSK_zero],
     TLSVersMin = 0, TLSVersMax = 0,
     GetSessionID = None, GREASESeed = replicate 8 0\<rparr>"

definition spec_Chrome_143_macOS_PSK :: "(TLSExtension list \<Rightarrow> TLSExtension list) \<Rightarrow> ClientHelloSpec" where
  "spec_Chrome_143_macOS_PSK shuffle = \<lparr>
     CipherSuites = [GREASE_PLACEHOLDER, TLS_AES_128_GCM_SHA256, TLS_AES_256_GCM_SHA384, TLS_CHACHA20_POLY1305_SHA256,
       TLS_ECDHE_ECDSA_WITH_AES_128_GCM_SHA256, TLS_ECDHE_RSA_WITH_AES_128_GCM_SHA256,
       TLS_ECDHE_ECDSA_WITH_AES_256_GCM_SHA384, TLS_ECDHE_RSA_WITH_AES_256_GCM_SHA384,
       TLS_ECDHE_ECDSA_WITH_CHACHA20_POLY1305, TLS_ECDHE_RSA_WITH_CHACHA20_POLY1305,
       TLS_ECDHE_RSA_WITH_AES_128_CBC_SHA, TLS_ECDHE_RSA_WITH_AES_256_CBC_SHA, TLS_RSA_WITH_AES_128_GCM_SHA256,
       TLS_RSA_WITH_AES_256_GCM_SHA384, TLS_RSA_WITH_AES_128_CBC_SHA, TLS_RSA_WITH_AES_256_CBC_SHA],
     CompressionMethods = [0x00],
     Extensions = shuffle [
       UtlsGREASEExtension 0 [],
       SCTExtension,
       RenegotiationInfoExtension RenegotiateOnceAsClient [],
       SupportedVersionsExtension [GREASE_PLACEHOLDER, VersionTLS13, VersionTLS12],
       SNIExtension [],
       ApplicationSettingsExtensionNew [ascii ''h2''],
       ALPNExtension [ascii ''h2'', ascii ''http/1.1''],
       StatusRequestExtension,
       SignatureAlgorithmsExtension [ECDSAWithP256AndSHA256, PSSWithSHA256, PKCS1WithSHA256, ECDSAWithP384AndSHA384, PSSWithSHA384,
         PKCS1WithSHA384, PSSWithSHA512, PKCS1WithSHA512],
       SupportedCurvesExtension [GREASE_PLACEHOLDER, X25519MLKEM768, X25519, CurveP256, CurveP384],
       UtlsCompressCertExtension [CertCompressionBrotli],
       KeyShareExtension [\<lparr>ks_group = GREASE_PLACEHOLDER, ks_data = [0]\<rparr>,
         \<lparr>ks_group = X25519MLKEM768, ks_data = []\<rparr>,
         \<lparr>ks_group = X25519, ks_data = []\<rparr>],
       BoringGREASEECH,
       PSKKeyExchangeModesExtension [PskModeDHE],
       ExtendedMasterSecretExtension,
       SupportedPointsExtension [0x00],
       SessionTicketExtension None [] False,
       UtlsGREASEExtension 0 [],
       UtlsPreSharedKeyExtension UtlsPSK_zero],
     TLSVersMin = 0, TLSVersMax = 0,
     GetSessionID = None, GREASESeed = replicate 8 0\<rparr>"

definition spec_Chrome_143_QUIC_PSK :: "(TLSExtension list \<Rightarrow> TLSExtension list) \<Rightarrow> ClientHelloSpec" where
  "spec_Chrome_143_QUIC_PSK shuffle = \<lparr>
     CipherSuites = [TLS_AES_128_GCM_SHA256, TLS_AES_256_GCM_SHA384, TLS_CHACHA20_POLY1305_SHA256],
     CompressionMethods = [0x00],
     Extensions = shuffle [
       FakeEarlyDataExtension,
       ApplicationSettingsExtensionNew [ascii ''h3''],
       BoringGREASEECH,
       ALPNExtension [ascii ''h3''],
       SupportedCurvesExtension [X25519MLKEM768, X25519, CurveP256, CurveP384],
       QUICTransportParametersExtension [] None None,
       PSKKeyExchangeModesExtension [PskModeDHE],
       UtlsCompressCertExtension [CertCompressionBrotli],
       KeyShareExtension [\<lparr>ks_group = X25519MLKEM768, ks_data = []\<rparr>,
         \<lparr>ks_group = X25519, ks_data = []\<rparr>],
       SNIExtension [],
       SupportedVersionsExtension [VersionTLS13],
       SignatureAlgorithmsExtension [ECDSAWithP256AndSHA256, PSSWithSHA256, PKCS1WithSHA256, ECDSAWithP384AndSHA384, PSSWithSHA384,
         PKCS1WithSHA384, PSSWithSHA512, PKCS1WithSHA512, PKCS1WithSHA1],
       UtlsPreSharedKeyExtension UtlsPSK_zero],
     TLSVersMin = 0, TLSVersMax = 0,
     GetSessionID = None, GREASESeed = replicate 8 0\<rparr>"

definition spec_Chrome_100_PSK :: "ClientHelloSpec" where
  "spec_Chrome_100_PSK = \<lparr>
     CipherSuites = [GREASE_PLACEHOLDER, TLS_AES_128_GCM_SHA256, TLS_AES_256_GCM_SHA384, TLS_CHACHA20_POLY1305_SHA256,
       TLS_ECDHE_ECDSA_WITH_AES_128_GCM_SHA256, TLS_ECDHE_RSA_WITH_AES_128_GCM_SHA256,
       TLS_ECDHE_ECDSA_WITH_AES_256_GCM_SHA384, TLS_ECDHE_RSA_WITH_AES_256_GCM_SHA384,
       TLS_ECDHE_ECDSA_WITH_CHACHA20_POLY1305, TLS_ECDHE_RSA_WITH_CHACHA20_POLY1305,
       TLS_ECDHE_RSA_WITH_AES_128_CBC_SHA, TLS_ECDHE_RSA_WITH_AES_256_CBC_SHA, TLS_RSA_WITH_AES_128_GCM_SHA256,
       TLS_RSA_WITH_AES_256_GCM_SHA384, TLS_RSA_WITH_AES_128_CBC_SHA, TLS_RSA_WITH_AES_256_CBC_SHA],
     CompressionMethods = [0x00],
     Extensions = [
       UtlsGREASEExtension 0 [],
       SNIExtension [],
       ExtendedMasterSecretExtension,
       RenegotiationInfoExtension RenegotiateOnceAsClient [],
       SupportedCurvesExtension [GREASE_PLACEHOLDER, X25519, CurveP256, CurveP384],
       SupportedPointsExtension [0x00],
       SessionTicketExtension None [] False,
       ALPNExtension [ascii ''h2'', ascii ''http/1.1''],
       StatusRequestExtension,
       SignatureAlgorithmsExtension [ECDSAWithP256AndSHA256, PSSWithSHA256, PKCS1WithSHA256, ECDSAWithP384AndSHA384, PSSWithSHA384,
         PKCS1WithSHA384, PSSWithSHA512, PKCS1WithSHA512],
       SCTExtension,
       KeyShareExtension [\<lparr>ks_group = GREASE_PLACEHOLDER, ks_data = [0]\<rparr>,
         \<lparr>ks_group = X25519, ks_data = []\<rparr>],
       PSKKeyExchangeModesExtension [PskModeDHE],
       SupportedVersionsExtension [GREASE_PLACEHOLDER, VersionTLS13, VersionTLS12],
       UtlsCompressCertExtension [CertCompressionBrotli],
       ApplicationSettingsExtension [ascii ''h2''],
       UtlsGREASEExtension 0 [],
       UtlsPreSharedKeyExtension UtlsPSK_zero],
     TLSVersMin = 0, TLSVersMax = 0,
     GetSessionID = None, GREASESeed = replicate 8 0\<rparr>"

definition spec_Chrome_112_PSK_Shuf :: "(TLSExtension list \<Rightarrow> TLSExtension list) \<Rightarrow> ClientHelloSpec" where
  "spec_Chrome_112_PSK_Shuf shuffle = \<lparr>
     CipherSuites = [GREASE_PLACEHOLDER, TLS_AES_128_GCM_SHA256, TLS_AES_256_GCM_SHA384, TLS_CHACHA20_POLY1305_SHA256,
       TLS_ECDHE_ECDSA_WITH_AES_128_GCM_SHA256, TLS_ECDHE_RSA_WITH_AES_128_GCM_SHA256,
       TLS_ECDHE_ECDSA_WITH_AES_256_GCM_SHA384, TLS_ECDHE_RSA_WITH_AES_256_GCM_SHA384,
       TLS_ECDHE_ECDSA_WITH_CHACHA20_POLY1305, TLS_ECDHE_RSA_WITH_CHACHA20_POLY1305,
       TLS_ECDHE_RSA_WITH_AES_128_CBC_SHA, TLS_ECDHE_RSA_WITH_AES_256_CBC_SHA, TLS_RSA_WITH_AES_128_GCM_SHA256,
       TLS_RSA_WITH_AES_256_GCM_SHA384, TLS_RSA_WITH_AES_128_CBC_SHA, TLS_RSA_WITH_AES_256_CBC_SHA],
     CompressionMethods = [0x00],
     Extensions = shuffle [
       UtlsGREASEExtension 0 [],
       SNIExtension [],
       ExtendedMasterSecretExtension,
       RenegotiationInfoExtension RenegotiateOnceAsClient [],
       SupportedCurvesExtension [GREASE_PLACEHOLDER, X25519, CurveP256, CurveP384],
       SupportedPointsExtension [0x00],
       SessionTicketExtension None [] False,
       ALPNExtension [ascii ''h2'', ascii ''http/1.1''],
       StatusRequestExtension,
       SignatureAlgorithmsExtension [ECDSAWithP256AndSHA256, PSSWithSHA256, PKCS1WithSHA256, ECDSAWithP384AndSHA384, PSSWithSHA384,
         PKCS1WithSHA384, PSSWithSHA512, PKCS1WithSHA512],
       SCTExtension,
       KeyShareExtension [\<lparr>ks_group = GREASE_PLACEHOLDER, ks_data = [0]\<rparr>,
         \<lparr>ks_group = X25519, ks_data = []\<rparr>],
       PSKKeyExchangeModesExtension [PskModeDHE],
       SupportedVersionsExtension [GREASE_PLACEHOLDER, VersionTLS13, VersionTLS12],
       UtlsCompressCertExtension [CertCompressionBrotli],
       ApplicationSettingsExtension [ascii ''h2''],
       UtlsGREASEExtension 0 [],
       UtlsPreSharedKeyExtension UtlsPSK_zero],
     TLSVersMin = 0, TLSVersMax = 0,
     GetSessionID = None, GREASESeed = replicate 8 0\<rparr>"

definition spec_Chrome_114_Padding_PSK_Shuf :: "(TLSExtension list \<Rightarrow> TLSExtension list) \<Rightarrow> ClientHelloSpec" where
  "spec_Chrome_114_Padding_PSK_Shuf shuffle = \<lparr>
     CipherSuites = [GREASE_PLACEHOLDER, TLS_AES_128_GCM_SHA256, TLS_AES_256_GCM_SHA384, TLS_CHACHA20_POLY1305_SHA256,
       TLS_ECDHE_ECDSA_WITH_AES_128_GCM_SHA256, TLS_ECDHE_RSA_WITH_AES_128_GCM_SHA256,
       TLS_ECDHE_ECDSA_WITH_AES_256_GCM_SHA384, TLS_ECDHE_RSA_WITH_AES_256_GCM_SHA384,
       TLS_ECDHE_ECDSA_WITH_CHACHA20_POLY1305, TLS_ECDHE_RSA_WITH_CHACHA20_POLY1305,
       TLS_ECDHE_RSA_WITH_AES_128_CBC_SHA, TLS_ECDHE_RSA_WITH_AES_256_CBC_SHA, TLS_RSA_WITH_AES_128_GCM_SHA256,
       TLS_RSA_WITH_AES_256_GCM_SHA384, TLS_RSA_WITH_AES_128_CBC_SHA, TLS_RSA_WITH_AES_256_CBC_SHA],
     CompressionMethods = [0x00],
     Extensions = shuffle [
       UtlsGREASEExtension 0 [],
       SNIExtension [],
       ExtendedMasterSecretExtension,
       RenegotiationInfoExtension RenegotiateOnceAsClient [],
       SupportedCurvesExtension [GREASE_PLACEHOLDER, X25519, CurveP256, CurveP384],
       SupportedPointsExtension [0x00],
       SessionTicketExtension None [] False,
       ALPNExtension [ascii ''h2'', ascii ''http/1.1''],
       StatusRequestExtension,
       SignatureAlgorithmsExtension [ECDSAWithP256AndSHA256, PSSWithSHA256, PKCS1WithSHA256, ECDSAWithP384AndSHA384, PSSWithSHA384,
         PKCS1WithSHA384, PSSWithSHA512, PKCS1WithSHA512],
       SCTExtension,
       KeyShareExtension [\<lparr>ks_group = GREASE_PLACEHOLDER, ks_data = [0]\<rparr>,
         \<lparr>ks_group = X25519, ks_data = []\<rparr>],
       PSKKeyExchangeModesExtension [PskModeDHE],
       SupportedVersionsExtension [GREASE_PLACEHOLDER, VersionTLS13, VersionTLS12],
       UtlsCompressCertExtension [CertCompressionBrotli],
       ApplicationSettingsExtension [ascii ''h2''],
       UtlsGREASEExtension 0 [],
       UtlsPaddingExtension 0 False (Some BoringPaddingStyle),
       UtlsPreSharedKeyExtension UtlsPSK_zero],
     TLSVersMin = 0, TLSVersMax = 0,
     GetSessionID = None, GREASESeed = replicate 8 0\<rparr>"

definition spec_Chrome_115_PQ_PSK :: "(TLSExtension list \<Rightarrow> TLSExtension list) \<Rightarrow> ClientHelloSpec" where
  "spec_Chrome_115_PQ_PSK shuffle = \<lparr>
     CipherSuites = [GREASE_PLACEHOLDER, TLS_AES_128_GCM_SHA256, TLS_AES_256_GCM_SHA384, TLS_CHACHA20_POLY1305_SHA256,
       TLS_ECDHE_ECDSA_WITH_AES_128_GCM_SHA256, TLS_ECDHE_RSA_WITH_AES_128_GCM_SHA256,
       TLS_ECDHE_ECDSA_WITH_AES_256_GCM_SHA384, TLS_ECDHE_RSA_WITH_AES_256_GCM_SHA384,
       TLS_ECDHE_ECDSA_WITH_CHACHA20_POLY1305, TLS_ECDHE_RSA_WITH_CHACHA20_POLY1305,
       TLS_ECDHE_RSA_WITH_AES_128_CBC_SHA, TLS_ECDHE_RSA_WITH_AES_256_CBC_SHA, TLS_RSA_WITH_AES_128_GCM_SHA256,
       TLS_RSA_WITH_AES_256_GCM_SHA384, TLS_RSA_WITH_AES_128_CBC_SHA, TLS_RSA_WITH_AES_256_CBC_SHA],
     CompressionMethods = [0x00],
     Extensions = shuffle [
       UtlsGREASEExtension 0 [],
       SNIExtension [],
       ExtendedMasterSecretExtension,
       RenegotiationInfoExtension RenegotiateOnceAsClient [],
       SupportedCurvesExtension [GREASE_PLACEHOLDER, X25519Kyber768Draft00, X25519, CurveP256, CurveP384],
       SupportedPointsExtension [0x00],
       SessionTicketExtension None [] False,
       ALPNExtension [ascii ''h2'', ascii ''http/1.1''],
       StatusRequestExtension,
       SignatureAlgorithmsExtension [ECDSAWithP256AndSHA256, PSSWithSHA256, PKCS1WithSHA256, ECDSAWithP384AndSHA384, PSSWithSHA384,
         PKCS1WithSHA384, PSSWithSHA512, PKCS1WithSHA512],
       SCTExtension,
       KeyShareExtension [\<lparr>ks_group = GREASE_PLACEHOLDER, ks_data = [0]\<rparr>,
         \<lparr>ks_group = X25519Kyber768Draft00, ks_data = []\<rparr>,
         \<lparr>ks_group = X25519, ks_data = []\<rparr>],
       PSKKeyExchangeModesExtension [PskModeDHE],
       SupportedVersionsExtension [GREASE_PLACEHOLDER, VersionTLS13, VersionTLS12],
       UtlsCompressCertExtension [CertCompressionBrotli],
       ApplicationSettingsExtension [ascii ''h2''],
       UtlsGREASEExtension 0 [],
       UtlsPreSharedKeyExtension UtlsPSK_zero],
     TLSVersMin = 0, TLSVersMax = 0,
     GetSessionID = None, GREASESeed = replicate 8 0\<rparr>"


section \<open>Their shape\<close>

lemma spec_Chrome_58_ok: "shape_ok spec_Chrome_58"
  by (simp add: shape_simps spec_Chrome_58_def)

lemma spec_Chrome_70_ok: "shape_ok spec_Chrome_70"
  by (simp add: shape_simps spec_Chrome_70_def)

lemma spec_Chrome_72_ok: "shape_ok spec_Chrome_72"
  by (simp add: shape_simps spec_Chrome_72_def)

lemma spec_Chrome_83_ok: "shape_ok spec_Chrome_83"
  by (simp add: shape_simps spec_Chrome_83_def)

lemma spec_Chrome_87_ok: "shape_ok spec_Chrome_87"
  by (simp add: shape_simps spec_Chrome_87_def)

lemma spec_Chrome_96_ok: "shape_ok spec_Chrome_96"
  by (simp add: shape_simps spec_Chrome_96_def)

lemma spec_Chrome_100_ok: "shape_ok spec_Chrome_100"
  by (simp add: shape_simps spec_Chrome_100_def)

lemma spec_Chrome_106_Shuffle_ok: "shape_ok (spec_Chrome_106_Shuffle (\<lambda>exts. exts))"
  by (simp add: shape_simps spec_Chrome_106_Shuffle_def)

lemma spec_Chrome_115_PQ_ok: "shape_ok (spec_Chrome_115_PQ (\<lambda>exts. exts))"
  by (simp add: shape_simps spec_Chrome_115_PQ_def)

lemma spec_Chrome_120_ok: "shape_ok (spec_Chrome_120 (\<lambda>exts. exts))"
  by (simp add: shape_simps spec_Chrome_120_def BoringGREASEECH_def)

lemma spec_Chrome_120_PQ_ok: "shape_ok (spec_Chrome_120_PQ (\<lambda>exts. exts))"
  by (simp add: shape_simps spec_Chrome_120_PQ_def BoringGREASEECH_def)

lemma spec_Chrome_131_ok: "shape_ok (spec_Chrome_131 (\<lambda>exts. exts))"
  by (simp add: shape_simps spec_Chrome_131_def BoringGREASEECH_def)

lemma spec_Chrome_133_ok: "shape_ok (spec_Chrome_133 (\<lambda>exts. exts))"
  by (simp add: shape_simps spec_Chrome_133_def BoringGREASEECH_def)

lemma spec_Chrome_143_Windows_ok: "shape_ok (spec_Chrome_143_Windows (\<lambda>exts. exts))"
  by (simp add: shape_simps spec_Chrome_143_Windows_def BoringGREASEECH_def)

lemma spec_Chrome_143_Linux_ok: "shape_ok (spec_Chrome_143_Linux (\<lambda>exts. exts))"
  by (simp add: shape_simps spec_Chrome_143_Linux_def BoringGREASEECH_def)

lemma spec_Chrome_143_macOS_ok: "shape_ok (spec_Chrome_143_macOS (\<lambda>exts. exts))"
  by (simp add: shape_simps spec_Chrome_143_macOS_def BoringGREASEECH_def)

lemma spec_Chrome_143_QUIC_ok: "shape_ok spec_Chrome_143_QUIC"
  by (simp add: shape_simps spec_Chrome_143_QUIC_def BoringGREASEECH_def)

lemma spec_Chrome_133_PSK_ok: "shape_ok (spec_Chrome_133_PSK (\<lambda>exts. exts))"
  by (simp add: shape_simps spec_Chrome_133_PSK_def BoringGREASEECH_def)

lemma spec_Chrome_143_Windows_PSK_ok: "shape_ok (spec_Chrome_143_Windows_PSK (\<lambda>exts. exts))"
  by (simp add: shape_simps spec_Chrome_143_Windows_PSK_def BoringGREASEECH_def)

lemma spec_Chrome_143_Linux_PSK_ok: "shape_ok (spec_Chrome_143_Linux_PSK (\<lambda>exts. exts))"
  by (simp add: shape_simps spec_Chrome_143_Linux_PSK_def BoringGREASEECH_def)

lemma spec_Chrome_143_macOS_PSK_ok: "shape_ok (spec_Chrome_143_macOS_PSK (\<lambda>exts. exts))"
  by (simp add: shape_simps spec_Chrome_143_macOS_PSK_def BoringGREASEECH_def)

lemma spec_Chrome_143_QUIC_PSK_ok: "shape_ok (spec_Chrome_143_QUIC_PSK (\<lambda>exts. exts))"
  by (simp add: shape_simps spec_Chrome_143_QUIC_PSK_def BoringGREASEECH_def)

lemma spec_Chrome_100_PSK_ok: "shape_ok spec_Chrome_100_PSK"
  by (simp add: shape_simps spec_Chrome_100_PSK_def)

lemma spec_Chrome_112_PSK_Shuf_ok: "shape_ok (spec_Chrome_112_PSK_Shuf (\<lambda>exts. exts))"
  by (simp add: shape_simps spec_Chrome_112_PSK_Shuf_def)

lemma spec_Chrome_114_Padding_PSK_Shuf_ok: "shape_ok (spec_Chrome_114_Padding_PSK_Shuf (\<lambda>exts. exts))"
  by (simp add: shape_simps spec_Chrome_114_Padding_PSK_Shuf_def)

lemma spec_Chrome_115_PQ_PSK_ok: "shape_ok (spec_Chrome_115_PQ_PSK (\<lambda>exts. exts))"
  by (simp add: shape_simps spec_Chrome_115_PQ_PSK_def)

text \<open>A literal that shuffles is the one with the shuffled extensions.\<close>

lemma spec_Chrome_106_Shuffle_shuffle: "spec_Chrome_106_Shuffle shuffle = (spec_Chrome_106_Shuffle (\<lambda>exts. exts))\<lparr>Extensions := shuffle (Extensions (spec_Chrome_106_Shuffle (\<lambda>exts. exts)))\<rparr>"
  by (simp add: spec_Chrome_106_Shuffle_def)

lemma spec_Chrome_115_PQ_shuffle: "spec_Chrome_115_PQ shuffle = (spec_Chrome_115_PQ (\<lambda>exts. exts))\<lparr>Extensions := shuffle (Extensions (spec_Chrome_115_PQ (\<lambda>exts. exts)))\<rparr>"
  by (simp add: spec_Chrome_115_PQ_def)

lemma spec_Chrome_120_shuffle: "spec_Chrome_120 shuffle = (spec_Chrome_120 (\<lambda>exts. exts))\<lparr>Extensions := shuffle (Extensions (spec_Chrome_120 (\<lambda>exts. exts)))\<rparr>"
  by (simp add: spec_Chrome_120_def)

lemma spec_Chrome_120_PQ_shuffle: "spec_Chrome_120_PQ shuffle = (spec_Chrome_120_PQ (\<lambda>exts. exts))\<lparr>Extensions := shuffle (Extensions (spec_Chrome_120_PQ (\<lambda>exts. exts)))\<rparr>"
  by (simp add: spec_Chrome_120_PQ_def)

lemma spec_Chrome_131_shuffle: "spec_Chrome_131 shuffle = (spec_Chrome_131 (\<lambda>exts. exts))\<lparr>Extensions := shuffle (Extensions (spec_Chrome_131 (\<lambda>exts. exts)))\<rparr>"
  by (simp add: spec_Chrome_131_def)

lemma spec_Chrome_133_shuffle: "spec_Chrome_133 shuffle = (spec_Chrome_133 (\<lambda>exts. exts))\<lparr>Extensions := shuffle (Extensions (spec_Chrome_133 (\<lambda>exts. exts)))\<rparr>"
  by (simp add: spec_Chrome_133_def)

lemma spec_Chrome_143_Windows_shuffle: "spec_Chrome_143_Windows shuffle = (spec_Chrome_143_Windows (\<lambda>exts. exts))\<lparr>Extensions := shuffle (Extensions (spec_Chrome_143_Windows (\<lambda>exts. exts)))\<rparr>"
  by (simp add: spec_Chrome_143_Windows_def)

lemma spec_Chrome_143_Linux_shuffle: "spec_Chrome_143_Linux shuffle = (spec_Chrome_143_Linux (\<lambda>exts. exts))\<lparr>Extensions := shuffle (Extensions (spec_Chrome_143_Linux (\<lambda>exts. exts)))\<rparr>"
  by (simp add: spec_Chrome_143_Linux_def)

lemma spec_Chrome_143_macOS_shuffle: "spec_Chrome_143_macOS shuffle = (spec_Chrome_143_macOS (\<lambda>exts. exts))\<lparr>Extensions := shuffle (Extensions (spec_Chrome_143_macOS (\<lambda>exts. exts)))\<rparr>"
  by (simp add: spec_Chrome_143_macOS_def)

lemma spec_Chrome_133_PSK_shuffle: "spec_Chrome_133_PSK shuffle = (spec_Chrome_133_PSK (\<lambda>exts. exts))\<lparr>Extensions := shuffle (Extensions (spec_Chrome_133_PSK (\<lambda>exts. exts)))\<rparr>"
  by (simp add: spec_Chrome_133_PSK_def)

lemma spec_Chrome_143_Windows_PSK_shuffle: "spec_Chrome_143_Windows_PSK shuffle = (spec_Chrome_143_Windows_PSK (\<lambda>exts. exts))\<lparr>Extensions := shuffle (Extensions (spec_Chrome_143_Windows_PSK (\<lambda>exts. exts)))\<rparr>"
  by (simp add: spec_Chrome_143_Windows_PSK_def)

lemma spec_Chrome_143_Linux_PSK_shuffle: "spec_Chrome_143_Linux_PSK shuffle = (spec_Chrome_143_Linux_PSK (\<lambda>exts. exts))\<lparr>Extensions := shuffle (Extensions (spec_Chrome_143_Linux_PSK (\<lambda>exts. exts)))\<rparr>"
  by (simp add: spec_Chrome_143_Linux_PSK_def)

lemma spec_Chrome_143_macOS_PSK_shuffle: "spec_Chrome_143_macOS_PSK shuffle = (spec_Chrome_143_macOS_PSK (\<lambda>exts. exts))\<lparr>Extensions := shuffle (Extensions (spec_Chrome_143_macOS_PSK (\<lambda>exts. exts)))\<rparr>"
  by (simp add: spec_Chrome_143_macOS_PSK_def)

lemma spec_Chrome_143_QUIC_PSK_shuffle: "spec_Chrome_143_QUIC_PSK shuffle = (spec_Chrome_143_QUIC_PSK (\<lambda>exts. exts))\<lparr>Extensions := shuffle (Extensions (spec_Chrome_143_QUIC_PSK (\<lambda>exts. exts)))\<rparr>"
  by (simp add: spec_Chrome_143_QUIC_PSK_def)

lemma spec_Chrome_112_PSK_Shuf_shuffle: "spec_Chrome_112_PSK_Shuf shuffle = (spec_Chrome_112_PSK_Shuf (\<lambda>exts. exts))\<lparr>Extensions := shuffle (Extensions (spec_Chrome_112_PSK_Shuf (\<lambda>exts. exts)))\<rparr>"
  by (simp add: spec_Chrome_112_PSK_Shuf_def)

lemma spec_Chrome_114_Padding_PSK_Shuf_shuffle: "spec_Chrome_114_Padding_PSK_Shuf shuffle = (spec_Chrome_114_Padding_PSK_Shuf (\<lambda>exts. exts))\<lparr>Extensions := shuffle (Extensions (spec_Chrome_114_Padding_PSK_Shuf (\<lambda>exts. exts)))\<rparr>"
  by (simp add: spec_Chrome_114_Padding_PSK_Shuf_def)

lemma spec_Chrome_115_PQ_PSK_shuffle: "spec_Chrome_115_PQ_PSK shuffle = (spec_Chrome_115_PQ_PSK (\<lambda>exts. exts))\<lparr>Extensions := shuffle (Extensions (spec_Chrome_115_PQ_PSK (\<lambda>exts. exts)))\<rparr>"
  by (simp add: spec_Chrome_115_PQ_PSK_def)

lemmas literal_shuffles = spec_Chrome_106_Shuffle_shuffle
  spec_Chrome_115_PQ_shuffle
  spec_Chrome_120_shuffle
  spec_Chrome_120_PQ_shuffle
  spec_Chrome_131_shuffle
  spec_Chrome_133_shuffle
  spec_Chrome_143_Windows_shuffle
  spec_Chrome_143_Linux_shuffle
  spec_Chrome_143_macOS_shuffle
  spec_Chrome_133_PSK_shuffle
  spec_Chrome_143_Windows_PSK_shuffle
  spec_Chrome_143_Linux_PSK_shuffle
  spec_Chrome_143_macOS_PSK_shuffle
  spec_Chrome_143_QUIC_PSK_shuffle
  spec_Chrome_112_PSK_Shuf_shuffle
  spec_Chrome_114_Padding_PSK_Shuf_shuffle
  spec_Chrome_115_PQ_PSK_shuffle

end
