(* ===== verification/Parrots_Others.thy ===== *)
theory Parrots_Others
  imports Parrot_Random
begin

text \<open>
  The specifications of the parrots of Firefox, iOS, Android, Edge, Safari, 360Browser and QQBrowser,
  one definition per literal of \<open>utlsIdToSpec\<close> (u_parrots.go), and that they have the shape a
  connection demands.
\<close>

definition spec_Firefox_55 :: "ClientHelloSpec" where
  "spec_Firefox_55 = \<lparr>
     CipherSuites = [TLS_ECDHE_ECDSA_WITH_AES_128_GCM_SHA256, TLS_ECDHE_RSA_WITH_AES_128_GCM_SHA256,
       TLS_ECDHE_ECDSA_WITH_CHACHA20_POLY1305, TLS_ECDHE_RSA_WITH_CHACHA20_POLY1305,
       TLS_ECDHE_ECDSA_WITH_AES_256_GCM_SHA384, TLS_ECDHE_RSA_WITH_AES_256_GCM_SHA384,
       TLS_ECDHE_ECDSA_WITH_AES_256_CBC_SHA, TLS_ECDHE_ECDSA_WITH_AES_128_CBC_SHA,
       TLS_ECDHE_RSA_WITH_AES_128_CBC_SHA, TLS_ECDHE_RSA_WITH_AES_256_CBC_SHA,
       FAKE_TLS_DHE_RSA_WITH_AES_128_CBC_SHA, FAKE_TLS_DHE_RSA_WITH_AES_256_CBC_SHA,
       TLS_RSA_WITH_AES_128_CBC_SHA, TLS_RSA_WITH_AES_256_CBC_SHA, TLS_RSA_WITH_3DES_EDE_CBC_SHA],
     CompressionMethods = [compressionNone],
     Extensions = [
       SNIExtension [],
       ExtendedMasterSecretExtension,
       RenegotiationInfoExtension RenegotiateOnceAsClient [],
       SupportedCurvesExtension [X25519, CurveP256, CurveP384, CurveP521],
       SupportedPointsExtension [pointFormatUncompressed],
       SessionTicketExtension None [] False,
       ALPNExtension [ascii ''h2'', ascii ''http/1.1''],
       StatusRequestExtension,
       SignatureAlgorithmsExtension [ECDSAWithP256AndSHA256, ECDSAWithP384AndSHA384, ECDSAWithP521AndSHA512, PSSWithSHA256, PSSWithSHA384,
         PSSWithSHA512, PKCS1WithSHA256, PKCS1WithSHA384, PKCS1WithSHA512, ECDSAWithSHA1, PKCS1WithSHA1],
       UtlsPaddingExtension 0 False (Some BoringPaddingStyle)],
     TLSVersMin = VersionTLS10, TLSVersMax = VersionTLS12,
     GetSessionID = None, GREASESeed = replicate 8 0\<rparr>"

definition spec_Firefox_63 :: "ClientHelloSpec" where
  "spec_Firefox_63 = \<lparr>
     CipherSuites = [TLS_AES_128_GCM_SHA256, TLS_CHACHA20_POLY1305_SHA256, TLS_AES_256_GCM_SHA384,
       TLS_ECDHE_ECDSA_WITH_AES_128_GCM_SHA256, TLS_ECDHE_RSA_WITH_AES_128_GCM_SHA256,
       TLS_ECDHE_ECDSA_WITH_CHACHA20_POLY1305, TLS_ECDHE_RSA_WITH_CHACHA20_POLY1305,
       TLS_ECDHE_ECDSA_WITH_AES_256_GCM_SHA384, TLS_ECDHE_RSA_WITH_AES_256_GCM_SHA384,
       TLS_ECDHE_ECDSA_WITH_AES_256_CBC_SHA, TLS_ECDHE_ECDSA_WITH_AES_128_CBC_SHA,
       TLS_ECDHE_RSA_WITH_AES_128_CBC_SHA, TLS_ECDHE_RSA_WITH_AES_256_CBC_SHA,
       FAKE_TLS_DHE_RSA_WITH_AES_128_CBC_SHA, FAKE_TLS_DHE_RSA_WITH_AES_256_CBC_SHA,
       TLS_RSA_WITH_AES_128_CBC_SHA, TLS_RSA_WITH_AES_256_CBC_SHA, TLS_RSA_WITH_3DES_EDE_CBC_SHA],
     CompressionMethods = [compressionNone],
     Extensions = [
       SNIExtension [],
       ExtendedMasterSecretExtension,
       RenegotiationInfoExtension RenegotiateOnceAsClient [],
       SupportedCurvesExtension [X25519, CurveP256, CurveP384, CurveP521, FakeFFDHE2048, FakeFFDHE3072],
       SupportedPointsExtension [pointFormatUncompressed],
       SessionTicketExtension None [] False,
       ALPNExtension [ascii ''h2'', ascii ''http/1.1''],
       StatusRequestExtension,
       KeyShareExtension [\<lparr>ks_group = X25519, ks_data = []\<rparr>, \<lparr>ks_group = CurveP256, ks_data = []\<rparr>],
       SupportedVersionsExtension [VersionTLS13, VersionTLS12, VersionTLS11, VersionTLS10],
       SignatureAlgorithmsExtension [ECDSAWithP256AndSHA256, ECDSAWithP384AndSHA384, ECDSAWithP521AndSHA512, PSSWithSHA256, PSSWithSHA384,
         PSSWithSHA512, PKCS1WithSHA256, PKCS1WithSHA384, PKCS1WithSHA512, ECDSAWithSHA1, PKCS1WithSHA1],
       PSKKeyExchangeModesExtension [pskModeDHE],
       FakeRecordSizeLimitExtension 0x4001,
       UtlsPaddingExtension 0 False (Some BoringPaddingStyle)],
     TLSVersMin = VersionTLS10, TLSVersMax = VersionTLS13,
     GetSessionID = None, GREASESeed = replicate 8 0\<rparr>"

definition spec_Firefox_99 :: "ClientHelloSpec" where
  "spec_Firefox_99 = \<lparr>
     CipherSuites = [TLS_AES_128_GCM_SHA256, TLS_CHACHA20_POLY1305_SHA256, TLS_AES_256_GCM_SHA384,
       TLS_ECDHE_ECDSA_WITH_AES_128_GCM_SHA256, TLS_ECDHE_RSA_WITH_AES_128_GCM_SHA256,
       TLS_ECDHE_ECDSA_WITH_CHACHA20_POLY1305, TLS_ECDHE_RSA_WITH_CHACHA20_POLY1305,
       TLS_ECDHE_ECDSA_WITH_AES_256_GCM_SHA384, TLS_ECDHE_RSA_WITH_AES_256_GCM_SHA384,
       TLS_ECDHE_ECDSA_WITH_AES_256_CBC_SHA, TLS_ECDHE_ECDSA_WITH_AES_128_CBC_SHA,
       TLS_ECDHE_RSA_WITH_AES_128_CBC_SHA, TLS_ECDHE_RSA_WITH_AES_256_CBC_SHA, TLS_RSA_WITH_AES_128_GCM_SHA256,
       TLS_RSA_WITH_AES_256_GCM_SHA384, TLS_RSA_WITH_AES_128_CBC_SHA, TLS_RSA_WITH_AES_256_CBC_SHA,
       TLS_RSA_WITH_3DES_EDE_CBC_SHA],
     CompressionMethods = [compressionNone],
     Extensions = [
       SNIExtension [],
       ExtendedMasterSecretExtension,
       RenegotiationInfoExtension RenegotiateOnceAsClient [],
       SupportedCurvesExtension [X25519, CurveP256, CurveP384, CurveP521, FakeFFDHE2048, FakeFFDHE3072],
       SupportedPointsExtension [pointFormatUncompressed],
       SessionTicketExtension None [] False,
       ALPNExtension [ascii ''h2'', ascii ''http/1.1''],
       StatusRequestExtension,
       FakeDelegatedCredentialsExtension [ECDSAWithP256AndSHA256, ECDSAWithP384AndSHA384, ECDSAWithP521AndSHA512, ECDSAWithSHA1],
       KeyShareExtension [\<lparr>ks_group = X25519, ks_data = []\<rparr>, \<lparr>ks_group = CurveP256, ks_data = []\<rparr>],
       SupportedVersionsExtension [VersionTLS13, VersionTLS12, VersionTLS11, VersionTLS10],
       SignatureAlgorithmsExtension [ECDSAWithP256AndSHA256, ECDSAWithP384AndSHA384, ECDSAWithP521AndSHA512, PSSWithSHA256, PSSWithSHA384,
         PSSWithSHA512, PKCS1WithSHA256, PKCS1WithSHA384, PKCS1WithSHA512, ECDSAWithSHA1, PKCS1WithSHA1],
       PSKKeyExchangeModesExtension [PskModeDHE],
       FakeRecordSizeLimitExtension 0x4001,
       UtlsPaddingExtension 0 False (Some BoringPaddingStyle)],
     TLSVersMin = VersionTLS10, TLSVersMax = VersionTLS13,
     GetSessionID = None, GREASESeed = replicate 8 0\<rparr>"

definition spec_Firefox_102 :: "ClientHelloSpec" where
  "spec_Firefox_102 = \<lparr>
     CipherSuites = [TLS_AES_128_GCM_SHA256, TLS_CHACHA20_POLY1305_SHA256, TLS_AES_256_GCM_SHA384,
       TLS_ECDHE_ECDSA_WITH_AES_128_GCM_SHA256, TLS_ECDHE_RSA_WITH_AES_128_GCM_SHA256,
       TLS_ECDHE_ECDSA_WITH_CHACHA20_POLY1305, TLS_ECDHE_RSA_WITH_CHACHA20_POLY1305,
       TLS_ECDHE_ECDSA_WITH_AES_256_GCM_SHA384, TLS_ECDHE_RSA_WITH_AES_256_GCM_SHA384,
       TLS_ECDHE_ECDSA_WITH_AES_256_CBC_SHA, TLS_ECDHE_ECDSA_WITH_AES_128_CBC_SHA,
       TLS_ECDHE_RSA_WITH_AES_128_CBC_SHA, TLS_ECDHE_RSA_WITH_AES_256_CBC_SHA, TLS_RSA_WITH_AES_128_GCM_SHA256,
       TLS_RSA_WITH_AES_256_GCM_SHA384, TLS_RSA_WITH_AES_128_CBC_SHA, TLS_RSA_WITH_AES_256_CBC_SHA],
     CompressionMethods = [compressionNone],
     Extensions = [
       SNIExtension [],
       ExtendedMasterSecretExtension,
       RenegotiationInfoExtension RenegotiateOnceAsClient [],
       SupportedCurvesExtension [X25519, CurveP256, CurveP384, CurveP521, FakeFFDHE2048, FakeFFDHE3072],
       SupportedPointsExtension [pointFormatUncompressed],
       SessionTicketExtension None [] False,
       ALPNExtension [ascii ''h2''],
       StatusRequestExtension,
       FakeDelegatedCredentialsExtension [ECDSAWithP256AndSHA256, ECDSAWithP384AndSHA384, ECDSAWithP521AndSHA512, ECDSAWithSHA1],
       KeyShareExtension [\<lparr>ks_group = X25519, ks_data = []\<rparr>, \<lparr>ks_group = CurveP256, ks_data = []\<rparr>],
       SupportedVersionsExtension [VersionTLS13, VersionTLS12],
       SignatureAlgorithmsExtension [ECDSAWithP256AndSHA256, ECDSAWithP384AndSHA384, ECDSAWithP521AndSHA512, PSSWithSHA256, PSSWithSHA384,
         PSSWithSHA512, PKCS1WithSHA256, PKCS1WithSHA384, PKCS1WithSHA512, ECDSAWithSHA1, PKCS1WithSHA1],
       PSKKeyExchangeModesExtension [PskModeDHE],
       FakeRecordSizeLimitExtension 0x4001,
       UtlsPaddingExtension 0 False (Some BoringPaddingStyle)],
     TLSVersMin = VersionTLS10, TLSVersMax = VersionTLS13,
     GetSessionID = None, GREASESeed = replicate 8 0\<rparr>"

definition spec_Firefox_105 :: "ClientHelloSpec" where
  "spec_Firefox_105 = \<lparr>
     CipherSuites = [TLS_AES_128_GCM_SHA256, TLS_CHACHA20_POLY1305_SHA256, TLS_AES_256_GCM_SHA384,
       TLS_ECDHE_ECDSA_WITH_AES_128_GCM_SHA256, TLS_ECDHE_RSA_WITH_AES_128_GCM_SHA256,
       TLS_ECDHE_ECDSA_WITH_CHACHA20_POLY1305, TLS_ECDHE_RSA_WITH_CHACHA20_POLY1305,
       TLS_ECDHE_ECDSA_WITH_AES_256_GCM_SHA384, TLS_ECDHE_RSA_WITH_AES_256_GCM_SHA384,
       TLS_ECDHE_ECDSA_WITH_AES_256_CBC_SHA, TLS_ECDHE_ECDSA_WITH_AES_128_CBC_SHA,
       TLS_ECDHE_RSA_WITH_AES_128_CBC_SHA, TLS_ECDHE_RSA_WITH_AES_256_CBC_SHA, TLS_RSA_WITH_AES_128_GCM_SHA256,
       TLS_RSA_WITH_AES_256_GCM_SHA384, TLS_RSA_WITH_AES_128_CBC_SHA, TLS_RSA_WITH_AES_256_CBC_SHA],
     CompressionMethods = [0x0],
     Extensions = [
       SNIExtension [],
       ExtendedMasterSecretExtension,
       RenegotiationInfoExtension RenegotiateOnceAsClient [],
       SupportedCurvesExtension [X25519, CurveP256, CurveP384, CurveP521, 256, 257],
       SupportedPointsExtension [0x0],
       SessionTicketExtension None [] False,
       ALPNExtension [ascii ''h2'', ascii ''http/1.1''],
       StatusRequestExtension,
       FakeDelegatedCredentialsExtension [ECDSAWithP256AndSHA256, ECDSAWithP384AndSHA384, ECDSAWithP521AndSHA512, ECDSAWithSHA1],
       KeyShareExtension [\<lparr>ks_group = X25519, ks_data = []\<rparr>, \<lparr>ks_group = CurveP256, ks_data = []\<rparr>],
       SupportedVersionsExtension [VersionTLS13, VersionTLS12],
       SignatureAlgorithmsExtension [ECDSAWithP256AndSHA256, ECDSAWithP384AndSHA384, ECDSAWithP521AndSHA512, PSSWithSHA256, PSSWithSHA384,
         PSSWithSHA512, PKCS1WithSHA256, PKCS1WithSHA384, PKCS1WithSHA512, ECDSAWithSHA1, PKCS1WithSHA1],
       PSKKeyExchangeModesExtension [PskModeDHE],
       FakeRecordSizeLimitExtension 0x4001,
       UtlsPaddingExtension 0 False (Some BoringPaddingStyle)],
     TLSVersMin = VersionTLS12, TLSVersMax = VersionTLS13,
     GetSessionID = None, GREASESeed = replicate 8 0\<rparr>"

definition spec_Firefox_120 :: "ClientHelloSpec" where
  "spec_Firefox_120 = \<lparr>
     CipherSuites = [TLS_AES_128_GCM_SHA256, TLS_CHACHA20_POLY1305_SHA256, TLS_AES_256_GCM_SHA384,
       TLS_ECDHE_ECDSA_WITH_AES_128_GCM_SHA256, TLS_ECDHE_RSA_WITH_AES_128_GCM_SHA256,
       TLS_ECDHE_ECDSA_WITH_CHACHA20_POLY1305, TLS_ECDHE_RSA_WITH_CHACHA20_POLY1305,
       TLS_ECDHE_ECDSA_WITH_AES_256_GCM_SHA384, TLS_ECDHE_RSA_WITH_AES_256_GCM_SHA384,
       TLS_ECDHE_ECDSA_WITH_AES_256_CBC_SHA, TLS_ECDHE_ECDSA_WITH_AES_128_CBC_SHA,
       TLS_ECDHE_RSA_WITH_AES_128_CBC_SHA, TLS_ECDHE_RSA_WITH_AES_256_CBC_SHA, TLS_RSA_WITH_AES_128_GCM_SHA256,
       TLS_RSA_WITH_AES_256_GCM_SHA384, TLS_RSA_WITH_AES_128_CBC_SHA, TLS_RSA_WITH_AES_256_CBC_SHA],
     CompressionMethods = [0x0],
     Extensions = [
       SNIExtension [],
       ExtendedMasterSecretExtension,
       RenegotiationInfoExtension RenegotiateOnceAsClient [],
       SupportedCurvesExtension [X25519, CurveP256, CurveP384, CurveP521, 256, 257],
       SupportedPointsExtension [0x0],
       SessionTicketExtension None [] False,
       ALPNExtension [ascii ''h2'', ascii ''http/1.1''],
       StatusRequestExtension,
       FakeDelegatedCredentialsExtension [ECDSAWithP256AndSHA256, ECDSAWithP384AndSHA384, ECDSAWithP521AndSHA512, ECDSAWithSHA1],
       KeyShareExtension [\<lparr>ks_group = X25519, ks_data = []\<rparr>, \<lparr>ks_group = CurveP256, ks_data = []\<rparr>],
       SupportedVersionsExtension [VersionTLS13, VersionTLS12],
       SignatureAlgorithmsExtension [ECDSAWithP256AndSHA256, ECDSAWithP384AndSHA384, ECDSAWithP521AndSHA512, PSSWithSHA256, PSSWithSHA384,
         PSSWithSHA512, PKCS1WithSHA256, PKCS1WithSHA384, PKCS1WithSHA512, ECDSAWithSHA1, PKCS1WithSHA1],
       PSKKeyExchangeModesExtension [PskModeDHE],
       FakeRecordSizeLimitExtension 0x4001,
       GREASEEncryptedClientHelloExtension (GreaseECH_zero\<lparr>g_CandidateCipherSuites := [(HKDF_SHA256, AEAD_AES_128_GCM), (HKDF_SHA256, AEAD_CHACHA20_POLY1305)],
         g_CandidatePayloadLens := [223]\<rparr>)],
     TLSVersMin = VersionTLS12, TLSVersMax = VersionTLS13,
     GetSessionID = None, GREASESeed = replicate 8 0\<rparr>"

definition spec_IOS_11_1 :: "ClientHelloSpec" where
  "spec_IOS_11_1 = \<lparr>
     CipherSuites = [TLS_ECDHE_ECDSA_WITH_AES_256_GCM_SHA384, TLS_ECDHE_ECDSA_WITH_AES_128_GCM_SHA256,
       DISABLED_TLS_ECDHE_ECDSA_WITH_AES_256_CBC_SHA384, TLS_ECDHE_ECDSA_WITH_AES_128_CBC_SHA256,
       TLS_ECDHE_ECDSA_WITH_AES_256_CBC_SHA, TLS_ECDHE_ECDSA_WITH_AES_128_CBC_SHA,
       TLS_ECDHE_ECDSA_WITH_CHACHA20_POLY1305, TLS_ECDHE_RSA_WITH_AES_256_GCM_SHA384,
       TLS_ECDHE_RSA_WITH_AES_128_GCM_SHA256, DISABLED_TLS_ECDHE_RSA_WITH_AES_256_CBC_SHA384,
       TLS_ECDHE_RSA_WITH_AES_128_CBC_SHA256, TLS_ECDHE_RSA_WITH_AES_256_CBC_SHA,
       TLS_ECDHE_RSA_WITH_AES_128_CBC_SHA, TLS_ECDHE_RSA_WITH_CHACHA20_POLY1305,
       TLS_RSA_WITH_AES_256_GCM_SHA384, TLS_RSA_WITH_AES_128_GCM_SHA256,
       DISABLED_TLS_RSA_WITH_AES_256_CBC_SHA256, TLS_RSA_WITH_AES_128_CBC_SHA256, TLS_RSA_WITH_AES_256_CBC_SHA,
       TLS_RSA_WITH_AES_128_CBC_SHA],
     CompressionMethods = [compressionNone],
     Extensions = [
       RenegotiationInfoExtension RenegotiateOnceAsClient [],
       SNIExtension [],
       ExtendedMasterSecretExtension,
       SignatureAlgorithmsExtension [ECDSAWithP256AndSHA256, PSSWithSHA256, PKCS1WithSHA256, ECDSAWithP384AndSHA384, PSSWithSHA384,
         PKCS1WithSHA384, PSSWithSHA512, PKCS1WithSHA512, PKCS1WithSHA1],
       StatusRequestExtension,
       NPNExtension [],
       SCTExtension,
       ALPNExtension [ascii ''h2'', ascii ''h2-16'', ascii ''h2-15'', ascii ''h2-14'', ascii ''spdy/3.1'', ascii ''spdy/3'', ascii ''http/1.1''],
       SupportedPointsExtension [pointFormatUncompressed],
       SupportedCurvesExtension [X25519, CurveP256, CurveP384, CurveP521]],
     TLSVersMin = VersionTLS10, TLSVersMax = VersionTLS12,
     GetSessionID = None, GREASESeed = replicate 8 0\<rparr>"

definition spec_IOS_12_1 :: "ClientHelloSpec" where
  "spec_IOS_12_1 = \<lparr>
     CipherSuites = [TLS_ECDHE_ECDSA_WITH_AES_256_GCM_SHA384, TLS_ECDHE_ECDSA_WITH_AES_128_GCM_SHA256,
       DISABLED_TLS_ECDHE_ECDSA_WITH_AES_256_CBC_SHA384, TLS_ECDHE_ECDSA_WITH_AES_128_CBC_SHA256,
       TLS_ECDHE_ECDSA_WITH_AES_256_CBC_SHA, TLS_ECDHE_ECDSA_WITH_AES_128_CBC_SHA,
       TLS_ECDHE_ECDSA_WITH_CHACHA20_POLY1305, TLS_ECDHE_RSA_WITH_AES_256_GCM_SHA384,
       TLS_ECDHE_RSA_WITH_AES_128_GCM_SHA256, DISABLED_TLS_ECDHE_RSA_WITH_AES_256_CBC_SHA384,
       TLS_ECDHE_RSA_WITH_AES_128_CBC_SHA256, TLS_ECDHE_RSA_WITH_AES_256_CBC_SHA,
       TLS_ECDHE_RSA_WITH_AES_128_CBC_SHA, TLS_ECDHE_RSA_WITH_CHACHA20_POLY1305,
       TLS_RSA_WITH_AES_256_GCM_SHA384, TLS_RSA_WITH_AES_128_GCM_SHA256,
       DISABLED_TLS_RSA_WITH_AES_256_CBC_SHA256, TLS_RSA_WITH_AES_128_CBC_SHA256, TLS_RSA_WITH_AES_256_CBC_SHA,
       TLS_RSA_WITH_AES_128_CBC_SHA, 0xc008, TLS_ECDHE_RSA_WITH_3DES_EDE_CBC_SHA, TLS_RSA_WITH_3DES_EDE_CBC_SHA],
     CompressionMethods = [compressionNone],
     Extensions = [
       RenegotiationInfoExtension RenegotiateOnceAsClient [],
       SNIExtension [],
       ExtendedMasterSecretExtension,
       SignatureAlgorithmsExtension [ECDSAWithP256AndSHA256, PSSWithSHA256, PKCS1WithSHA256, ECDSAWithP384AndSHA384, ECDSAWithSHA1,
         PSSWithSHA384, PSSWithSHA384, PKCS1WithSHA384, PSSWithSHA512, PKCS1WithSHA512, PKCS1WithSHA1],
       StatusRequestExtension,
       NPNExtension [],
       SCTExtension,
       ALPNExtension [ascii ''h2'', ascii ''h2-16'', ascii ''h2-15'', ascii ''h2-14'', ascii ''spdy/3.1'', ascii ''spdy/3'', ascii ''http/1.1''],
       SupportedPointsExtension [pointFormatUncompressed],
       SupportedCurvesExtension [X25519, CurveP256, CurveP384, CurveP521]],
     TLSVersMin = 0, TLSVersMax = 0,
     GetSessionID = None, GREASESeed = replicate 8 0\<rparr>"

definition spec_IOS_13 :: "ClientHelloSpec" where
  "spec_IOS_13 = \<lparr>
     CipherSuites = [TLS_AES_128_GCM_SHA256, TLS_AES_256_GCM_SHA384, TLS_CHACHA20_POLY1305_SHA256,
       TLS_ECDHE_ECDSA_WITH_AES_256_GCM_SHA384, TLS_ECDHE_ECDSA_WITH_AES_128_GCM_SHA256,
       DISABLED_TLS_ECDHE_ECDSA_WITH_AES_256_CBC_SHA384, TLS_ECDHE_ECDSA_WITH_AES_128_CBC_SHA256,
       TLS_ECDHE_ECDSA_WITH_AES_256_CBC_SHA, TLS_ECDHE_ECDSA_WITH_AES_128_CBC_SHA,
       TLS_ECDHE_ECDSA_WITH_CHACHA20_POLY1305, TLS_ECDHE_RSA_WITH_AES_256_GCM_SHA384,
       TLS_ECDHE_RSA_WITH_AES_128_GCM_SHA256, DISABLED_TLS_ECDHE_RSA_WITH_AES_256_CBC_SHA384,
       TLS_ECDHE_RSA_WITH_AES_128_CBC_SHA256, TLS_ECDHE_RSA_WITH_AES_256_CBC_SHA,
       TLS_ECDHE_RSA_WITH_AES_128_CBC_SHA, TLS_ECDHE_RSA_WITH_CHACHA20_POLY1305,
       TLS_RSA_WITH_AES_256_GCM_SHA384, TLS_RSA_WITH_AES_128_GCM_SHA256,
       DISABLED_TLS_RSA_WITH_AES_256_CBC_SHA256, TLS_RSA_WITH_AES_128_CBC_SHA256, TLS_RSA_WITH_AES_256_CBC_SHA,
       TLS_RSA_WITH_AES_128_CBC_SHA, 0xc008, TLS_ECDHE_RSA_WITH_3DES_EDE_CBC_SHA, TLS_RSA_WITH_3DES_EDE_CBC_SHA],
     CompressionMethods = [0x00],
     Extensions = [
       RenegotiationInfoExtension RenegotiateOnceAsClient [],
       SNIExtension [],
       ExtendedMasterSecretExtension,
       SignatureAlgorithmsExtension [ECDSAWithP256AndSHA256, PSSWithSHA256, PKCS1WithSHA256, ECDSAWithP384AndSHA384, ECDSAWithSHA1,
         PSSWithSHA384, PSSWithSHA384, PKCS1WithSHA384, PSSWithSHA512, PKCS1WithSHA512, PKCS1WithSHA1],
       StatusRequestExtension,
       SCTExtension,
       ALPNExtension [ascii ''h2'', ascii ''http/1.1''],
       SupportedPointsExtension [0x00],
       KeyShareExtension [\<lparr>ks_group = X25519, ks_data = []\<rparr>],
       PSKKeyExchangeModesExtension [PskModeDHE],
       SupportedVersionsExtension [VersionTLS13, VersionTLS12, VersionTLS11, VersionTLS10],
       SupportedCurvesExtension [X25519, CurveP256, CurveP384, CurveP521],
       UtlsPaddingExtension 0 False (Some BoringPaddingStyle)],
     TLSVersMin = 0, TLSVersMax = 0,
     GetSessionID = None, GREASESeed = replicate 8 0\<rparr>"

definition spec_IOS_14 :: "ClientHelloSpec" where
  "spec_IOS_14 = \<lparr>
     CipherSuites = [GREASE_PLACEHOLDER, TLS_AES_128_GCM_SHA256, TLS_AES_256_GCM_SHA384, TLS_CHACHA20_POLY1305_SHA256,
       TLS_ECDHE_ECDSA_WITH_AES_256_GCM_SHA384, TLS_ECDHE_ECDSA_WITH_AES_128_GCM_SHA256,
       TLS_ECDHE_ECDSA_WITH_CHACHA20_POLY1305, TLS_ECDHE_RSA_WITH_AES_256_GCM_SHA384,
       TLS_ECDHE_RSA_WITH_AES_128_GCM_SHA256, TLS_ECDHE_RSA_WITH_CHACHA20_POLY1305,
       DISABLED_TLS_ECDHE_ECDSA_WITH_AES_256_CBC_SHA384, TLS_ECDHE_ECDSA_WITH_AES_128_CBC_SHA256,
       TLS_ECDHE_ECDSA_WITH_AES_256_CBC_SHA, TLS_ECDHE_ECDSA_WITH_AES_128_CBC_SHA,
       DISABLED_TLS_ECDHE_RSA_WITH_AES_256_CBC_SHA384, TLS_ECDHE_RSA_WITH_AES_128_CBC_SHA256,
       TLS_ECDHE_RSA_WITH_AES_256_CBC_SHA, TLS_ECDHE_RSA_WITH_AES_128_CBC_SHA, TLS_RSA_WITH_AES_256_GCM_SHA384,
       TLS_RSA_WITH_AES_128_GCM_SHA256, DISABLED_TLS_RSA_WITH_AES_256_CBC_SHA256,
       TLS_RSA_WITH_AES_128_CBC_SHA256, TLS_RSA_WITH_AES_256_CBC_SHA, TLS_RSA_WITH_AES_128_CBC_SHA, 0xc008,
       TLS_ECDHE_RSA_WITH_3DES_EDE_CBC_SHA, TLS_RSA_WITH_3DES_EDE_CBC_SHA],
     CompressionMethods = [0x00],
     Extensions = [
       UtlsGREASEExtension 0 [],
       SNIExtension [],
       ExtendedMasterSecretExtension,
       RenegotiationInfoExtension RenegotiateOnceAsClient [],
       SupportedCurvesExtension [GREASE_PLACEHOLDER, X25519, CurveP256, CurveP384, CurveP521],
       SupportedPointsExtension [0x00],
       ALPNExtension [ascii ''h2'', ascii ''http/1.1''],
       StatusRequestExtension,
       SignatureAlgorithmsExtension [ECDSAWithP256AndSHA256, PSSWithSHA256, PKCS1WithSHA256, ECDSAWithP384AndSHA384, ECDSAWithSHA1,
         PSSWithSHA384, PSSWithSHA384, PKCS1WithSHA384, PSSWithSHA512, PKCS1WithSHA512, PKCS1WithSHA1],
       SCTExtension,
       KeyShareExtension [\<lparr>ks_group = GREASE_PLACEHOLDER, ks_data = [0]\<rparr>,
         \<lparr>ks_group = X25519, ks_data = []\<rparr>],
       PSKKeyExchangeModesExtension [PskModeDHE],
       SupportedVersionsExtension [GREASE_PLACEHOLDER, VersionTLS13, VersionTLS12, VersionTLS11, VersionTLS10],
       UtlsGREASEExtension 0 [],
       UtlsPaddingExtension 0 False (Some BoringPaddingStyle)],
     TLSVersMin = 0, TLSVersMax = 0,
     GetSessionID = None, GREASESeed = replicate 8 0\<rparr>"

definition spec_Android_11_OkHttp :: "ClientHelloSpec" where
  "spec_Android_11_OkHttp = \<lparr>
     CipherSuites = [TLS_ECDHE_ECDSA_WITH_AES_128_GCM_SHA256, TLS_ECDHE_ECDSA_WITH_AES_256_GCM_SHA384, 0xcca9,
       TLS_ECDHE_RSA_WITH_AES_128_GCM_SHA256, TLS_ECDHE_RSA_WITH_AES_256_GCM_SHA384, 0xcca8,
       TLS_ECDHE_RSA_WITH_AES_128_CBC_SHA, TLS_ECDHE_RSA_WITH_AES_256_CBC_SHA, TLS_RSA_WITH_AES_128_GCM_SHA256,
       TLS_RSA_WITH_AES_256_GCM_SHA384, TLS_RSA_WITH_AES_128_CBC_SHA, TLS_RSA_WITH_AES_256_CBC_SHA],
     CompressionMethods = [0x00],
     Extensions = [
       SNIExtension [],
       ExtendedMasterSecretExtension,
       RenegotiationInfoExtension RenegotiateNever [],
       SupportedCurvesExtension [X25519, CurveP256, CurveP384],
       SupportedPointsExtension [0x00],
       StatusRequestExtension,
       SignatureAlgorithmsExtension [ECDSAWithP256AndSHA256, PSSWithSHA256, PKCS1WithSHA256, ECDSAWithP384AndSHA384, PSSWithSHA384,
         PKCS1WithSHA384, PSSWithSHA512, PKCS1WithSHA512, PKCS1WithSHA1]],
     TLSVersMin = 0, TLSVersMax = 0,
     GetSessionID = None, GREASESeed = replicate 8 0\<rparr>"

definition spec_Edge_85 :: "ClientHelloSpec" where
  "spec_Edge_85 = \<lparr>
     CipherSuites = [GREASE_PLACEHOLDER, TLS_AES_128_GCM_SHA256, TLS_AES_256_GCM_SHA384, TLS_CHACHA20_POLY1305_SHA256,
       TLS_ECDHE_ECDSA_WITH_AES_128_GCM_SHA256, TLS_ECDHE_RSA_WITH_AES_128_GCM_SHA256,
       TLS_ECDHE_ECDSA_WITH_AES_256_GCM_SHA384, TLS_ECDHE_RSA_WITH_AES_256_GCM_SHA384,
       TLS_ECDHE_ECDSA_WITH_CHACHA20_POLY1305, TLS_ECDHE_RSA_WITH_CHACHA20_POLY1305,
       TLS_ECDHE_RSA_WITH_AES_128_CBC_SHA, TLS_ECDHE_RSA_WITH_AES_256_CBC_SHA, TLS_RSA_WITH_AES_128_GCM_SHA256,
       TLS_RSA_WITH_AES_256_GCM_SHA384, TLS_RSA_WITH_AES_128_CBC_SHA, TLS_RSA_WITH_AES_256_CBC_SHA],
     CompressionMethods = [0x0],
     Extensions = [
       UtlsGREASEExtension 0 [],
       SNIExtension [],
       ExtendedMasterSecretExtension,
       RenegotiationInfoExtension RenegotiateOnceAsClient [],
       SupportedCurvesExtension [GREASE_PLACEHOLDER, X25519, CurveP256, CurveP384],
       SupportedPointsExtension [0x0],
       SessionTicketExtension None [] False,
       ALPNExtension [ascii ''h2'', ascii ''http/1.1''],
       StatusRequestExtension,
       SignatureAlgorithmsExtension [ECDSAWithP256AndSHA256, PSSWithSHA256, PKCS1WithSHA256, ECDSAWithP384AndSHA384, PSSWithSHA384,
         PKCS1WithSHA384, PSSWithSHA512, PKCS1WithSHA512],
       SCTExtension,
       KeyShareExtension [\<lparr>ks_group = GREASE_PLACEHOLDER, ks_data = [0]\<rparr>,
         \<lparr>ks_group = X25519, ks_data = []\<rparr>],
       PSKKeyExchangeModesExtension [PskModeDHE],
       SupportedVersionsExtension [GREASE_PLACEHOLDER, VersionTLS13, VersionTLS12, VersionTLS11, VersionTLS10],
       UtlsCompressCertExtension [CertCompressionBrotli],
       UtlsGREASEExtension 0 [],
       UtlsPaddingExtension 0 False (Some BoringPaddingStyle)],
     TLSVersMin = 0, TLSVersMax = 0,
     GetSessionID = None, GREASESeed = replicate 8 0\<rparr>"

definition spec_Edge_106 :: "ClientHelloSpec" where
  "spec_Edge_106 = \<lparr>
     CipherSuites = [GREASE_PLACEHOLDER, TLS_AES_128_GCM_SHA256, TLS_AES_256_GCM_SHA384, TLS_CHACHA20_POLY1305_SHA256,
       TLS_ECDHE_ECDSA_WITH_AES_128_GCM_SHA256, TLS_ECDHE_RSA_WITH_AES_128_GCM_SHA256,
       TLS_ECDHE_ECDSA_WITH_AES_256_GCM_SHA384, TLS_ECDHE_RSA_WITH_AES_256_GCM_SHA384,
       TLS_ECDHE_ECDSA_WITH_CHACHA20_POLY1305, TLS_ECDHE_RSA_WITH_CHACHA20_POLY1305,
       TLS_ECDHE_RSA_WITH_AES_128_CBC_SHA, TLS_ECDHE_RSA_WITH_AES_256_CBC_SHA, TLS_RSA_WITH_AES_128_GCM_SHA256,
       TLS_RSA_WITH_AES_256_GCM_SHA384, TLS_RSA_WITH_AES_128_CBC_SHA, TLS_RSA_WITH_AES_256_CBC_SHA],
     CompressionMethods = [0x0],
     Extensions = [
       UtlsGREASEExtension 0 [],
       SNIExtension [],
       ExtendedMasterSecretExtension,
       RenegotiationInfoExtension RenegotiateOnceAsClient [],
       SupportedCurvesExtension [GREASE_PLACEHOLDER, X25519, CurveP256, CurveP384],
       SupportedPointsExtension [0x0],
       SessionTicketExtension None [] False,
       ALPNExtension [ascii ''h2'', ascii ''http/1.1''],
       StatusRequestExtension,
       SignatureAlgorithmsExtension [ECDSAWithP256AndSHA256, PSSWithSHA256, PKCS1WithSHA256, ECDSAWithP384AndSHA384, PSSWithSHA384,
         PKCS1WithSHA384, PSSWithSHA512, PKCS1WithSHA512],
       SCTExtension,
       KeyShareExtension [\<lparr>ks_group = GREASE_PLACEHOLDER, ks_data = [0]\<rparr>,
         \<lparr>ks_group = X25519, ks_data = []\<rparr>],
       PSKKeyExchangeModesExtension [PskModeDHE],
       SupportedVersionsExtension [GREASE_PLACEHOLDER, VersionTLS13, VersionTLS12],
       UtlsCompressCertExtension [CertCompressionBrotli],
       ApplicationSettingsExtension [ascii ''h2''],
       UtlsGREASEExtension 0 [],
       UtlsPaddingExtension 0 False (Some BoringPaddingStyle)],
     TLSVersMin = VersionTLS12, TLSVersMax = VersionTLS13,
     GetSessionID = None, GREASESeed = replicate 8 0\<rparr>"

definition spec_Safari_16_0 :: "ClientHelloSpec" where
  "spec_Safari_16_0 = \<lparr>
     CipherSuites = [GREASE_PLACEHOLDER, TLS_AES_128_GCM_SHA256, TLS_AES_256_GCM_SHA384, TLS_CHACHA20_POLY1305_SHA256,
       TLS_ECDHE_ECDSA_WITH_AES_256_GCM_SHA384, TLS_ECDHE_ECDSA_WITH_AES_128_GCM_SHA256,
       TLS_ECDHE_ECDSA_WITH_CHACHA20_POLY1305, TLS_ECDHE_RSA_WITH_AES_256_GCM_SHA384,
       TLS_ECDHE_RSA_WITH_AES_128_GCM_SHA256, TLS_ECDHE_RSA_WITH_CHACHA20_POLY1305,
       TLS_ECDHE_ECDSA_WITH_AES_256_CBC_SHA, TLS_ECDHE_ECDSA_WITH_AES_128_CBC_SHA,
       TLS_ECDHE_RSA_WITH_AES_256_CBC_SHA, TLS_ECDHE_RSA_WITH_AES_128_CBC_SHA, TLS_RSA_WITH_AES_256_GCM_SHA384,
       TLS_RSA_WITH_AES_128_GCM_SHA256, TLS_RSA_WITH_AES_256_CBC_SHA, TLS_RSA_WITH_AES_128_CBC_SHA,
       FAKE_TLS_ECDHE_ECDSA_WITH_3DES_EDE_CBC_SHA, TLS_ECDHE_RSA_WITH_3DES_EDE_CBC_SHA,
       TLS_RSA_WITH_3DES_EDE_CBC_SHA],
     CompressionMethods = [0x0],
     Extensions = [
       UtlsGREASEExtension 0 [],
       SNIExtension [],
       ExtendedMasterSecretExtension,
       RenegotiationInfoExtension RenegotiateOnceAsClient [],
       SupportedCurvesExtension [GREASE_PLACEHOLDER, X25519, CurveP256, CurveP384, CurveP521],
       SupportedPointsExtension [0x0],
       ALPNExtension [ascii ''h2'', ascii ''http/1.1''],
       StatusRequestExtension,
       SignatureAlgorithmsExtension [ECDSAWithP256AndSHA256, PSSWithSHA256, PKCS1WithSHA256, ECDSAWithP384AndSHA384, ECDSAWithSHA1,
         PSSWithSHA384, PSSWithSHA384, PKCS1WithSHA384, PSSWithSHA512, PKCS1WithSHA512, PKCS1WithSHA1],
       SCTExtension,
       KeyShareExtension [\<lparr>ks_group = GREASE_PLACEHOLDER, ks_data = [0]\<rparr>,
         \<lparr>ks_group = X25519, ks_data = []\<rparr>],
       PSKKeyExchangeModesExtension [PskModeDHE],
       SupportedVersionsExtension [GREASE_PLACEHOLDER, VersionTLS13, VersionTLS12, VersionTLS11, VersionTLS10],
       UtlsCompressCertExtension [CertCompressionZlib],
       UtlsGREASEExtension 0 [],
       UtlsPaddingExtension 0 False (Some BoringPaddingStyle)],
     TLSVersMin = VersionTLS10, TLSVersMax = VersionTLS13,
     GetSessionID = None, GREASESeed = replicate 8 0\<rparr>"

definition spec_Safari_18 :: "ClientHelloSpec" where
  "spec_Safari_18 = \<lparr>
     CipherSuites = [GREASE_PLACEHOLDER, TLS_AES_256_GCM_SHA384, TLS_CHACHA20_POLY1305_SHA256, TLS_AES_128_GCM_SHA256,
       TLS_ECDHE_ECDSA_WITH_AES_256_GCM_SHA384, TLS_ECDHE_ECDSA_WITH_AES_128_GCM_SHA256,
       TLS_ECDHE_ECDSA_WITH_CHACHA20_POLY1305, TLS_ECDHE_RSA_WITH_AES_256_GCM_SHA384,
       TLS_ECDHE_RSA_WITH_AES_128_GCM_SHA256, TLS_ECDHE_RSA_WITH_CHACHA20_POLY1305,
       TLS_ECDHE_ECDSA_WITH_AES_256_CBC_SHA, TLS_ECDHE_ECDSA_WITH_AES_128_CBC_SHA,
       TLS_ECDHE_RSA_WITH_AES_256_CBC_SHA, TLS_ECDHE_RSA_WITH_AES_128_CBC_SHA, TLS_RSA_WITH_AES_256_GCM_SHA384,
       TLS_RSA_WITH_AES_128_GCM_SHA256, TLS_RSA_WITH_AES_256_CBC_SHA, TLS_RSA_WITH_AES_128_CBC_SHA,
       FAKE_TLS_ECDHE_ECDSA_WITH_3DES_EDE_CBC_SHA, TLS_ECDHE_RSA_WITH_3DES_EDE_CBC_SHA,
       TLS_RSA_WITH_3DES_EDE_CBC_SHA],
     CompressionMethods = [0x0],
     Extensions = [
       UtlsGREASEExtension 0 [],
       SNIExtension [],
       ExtendedMasterSecretExtension,
       RenegotiationInfoExtension RenegotiateOnceAsClient [],
       SupportedCurvesExtension [GREASE_PLACEHOLDER, X25519MLKEM768, X25519, CurveP256, CurveP384, CurveP521],
       SupportedPointsExtension [0x0],
       ALPNExtension [ascii ''h2'', ascii ''http/1.1''],
       StatusRequestExtension,
       SignatureAlgorithmsExtension [ECDSAWithP256AndSHA256, PSSWithSHA256, PKCS1WithSHA256, ECDSAWithP384AndSHA384, PSSWithSHA384,
         PSSWithSHA384, PKCS1WithSHA384, PSSWithSHA512, PKCS1WithSHA512, PKCS1WithSHA1],
       SCTExtension,
       KeyShareExtension [\<lparr>ks_group = GREASE_PLACEHOLDER, ks_data = [0]\<rparr>,
         \<lparr>ks_group = X25519MLKEM768, ks_data = []\<rparr>,
         \<lparr>ks_group = X25519, ks_data = []\<rparr>],
       PSKKeyExchangeModesExtension [PskModeDHE],
       SupportedVersionsExtension [GREASE_PLACEHOLDER, VersionTLS13, VersionTLS12],
       UtlsCompressCertExtension [CertCompressionZlib],
       UtlsGREASEExtension 0 [],
       UtlsPaddingExtension 0 False (Some BoringPaddingStyle)],
     TLSVersMin = VersionTLS12, TLSVersMax = VersionTLS13,
     GetSessionID = None, GREASESeed = replicate 8 0\<rparr>"

definition spec_IOS_18_QUIC :: "ClientHelloSpec" where
  "spec_IOS_18_QUIC = \<lparr>
     CipherSuites = [GREASE_PLACEHOLDER, TLS_AES_256_GCM_SHA384, TLS_CHACHA20_POLY1305_SHA256, TLS_AES_128_GCM_SHA256],
     CompressionMethods = [0x00],
     Extensions = [
       UtlsGREASEExtension 0 [],
       SNIExtension [],
       SupportedCurvesExtension [GREASE_PLACEHOLDER, X25519MLKEM768, X25519, CurveP256, CurveP384, CurveP521],
       ALPNExtension [ascii ''h3''],
       StatusRequestExtension,
       SignatureAlgorithmsExtension [ECDSAWithP256AndSHA256, PSSWithSHA256, PKCS1WithSHA256, ECDSAWithP384AndSHA384, PSSWithSHA384,
         PSSWithSHA384, PKCS1WithSHA384, PSSWithSHA512, PKCS1WithSHA512, PKCS1WithSHA1],
       SCTExtension,
       KeyShareExtension [\<lparr>ks_group = GREASE_PLACEHOLDER, ks_data = [0]\<rparr>,
         \<lparr>ks_group = X25519MLKEM768, ks_data = []\<rparr>,
         \<lparr>ks_group = X25519, ks_data = []\<rparr>],
       PSKKeyExchangeModesExtension [PskModeDHE],
       SupportedVersionsExtension [GREASE_PLACEHOLDER, VersionTLS13],
       QUICTransportParametersExtension [] None None,
       UtlsCompressCertExtension [CertCompressionZlib],
       UtlsGREASEExtension 0 []],
     TLSVersMin = 0, TLSVersMax = 0,
     GetSessionID = None, GREASESeed = replicate 8 0\<rparr>"

definition spec_360_7_5 :: "ClientHelloSpec" where
  "spec_360_7_5 = \<lparr>
     CipherSuites = [TLS_ECDHE_ECDSA_WITH_AES_256_CBC_SHA, TLS_ECDHE_RSA_WITH_AES_256_CBC_SHA,
       FAKE_TLS_DHE_RSA_WITH_AES_256_CBC_SHA, FAKE_TLS_DHE_RSA_WITH_AES_256_CBC_SHA256,
       TLS_RSA_WITH_AES_256_CBC_SHA, DISABLED_TLS_RSA_WITH_AES_256_CBC_SHA256,
       TLS_ECDHE_ECDSA_WITH_RC4_128_SHA, TLS_ECDHE_ECDSA_WITH_AES_128_CBC_SHA,
       TLS_ECDHE_ECDSA_WITH_AES_128_CBC_SHA256, TLS_ECDHE_RSA_WITH_RC4_128_SHA,
       TLS_ECDHE_RSA_WITH_AES_128_CBC_SHA, TLS_ECDHE_RSA_WITH_AES_128_CBC_SHA256,
       FAKE_TLS_DHE_RSA_WITH_AES_128_CBC_SHA, FAKE_TLS_DHE_RSA_WITH_AES_128_CBC_SHA256,
       FAKE_TLS_DHE_DSS_WITH_AES_128_CBC_SHA, TLS_RSA_WITH_RC4_128_SHA, FAKE_TLS_RSA_WITH_RC4_128_MD5,
       TLS_RSA_WITH_AES_128_CBC_SHA, TLS_RSA_WITH_AES_128_CBC_SHA256, TLS_RSA_WITH_3DES_EDE_CBC_SHA],
     CompressionMethods = [0x0],
     Extensions = [
       SNIExtension [],
       RenegotiationInfoExtension RenegotiateOnceAsClient [],
       SupportedCurvesExtension [CurveP256, CurveP384, CurveP521],
       SupportedPointsExtension [0x0],
       SessionTicketExtension None [] False,
       NPNExtension [],
       ALPNExtension [ascii ''spdy/2'', ascii ''spdy/3'', ascii ''spdy/3.1'', ascii ''http/1.1''],
       FakeChannelIDExtension True,
       StatusRequestExtension,
       SignatureAlgorithmsExtension [PKCS1WithSHA256, PKCS1WithSHA384, PKCS1WithSHA1, ECDSAWithP256AndSHA256, ECDSAWithP384AndSHA384,
         ECDSAWithSHA1, FakeSHA256WithDSA, FakeSHA1WithDSA]],
     TLSVersMin = 0, TLSVersMax = 0,
     GetSessionID = None, GREASESeed = replicate 8 0\<rparr>"

definition spec_360_11_0 :: "ClientHelloSpec" where
  "spec_360_11_0 = \<lparr>
     CipherSuites = [GREASE_PLACEHOLDER, TLS_AES_128_GCM_SHA256, TLS_AES_256_GCM_SHA384, TLS_CHACHA20_POLY1305_SHA256,
       TLS_ECDHE_ECDSA_WITH_AES_128_GCM_SHA256, TLS_ECDHE_RSA_WITH_AES_128_GCM_SHA256,
       TLS_ECDHE_ECDSA_WITH_AES_256_GCM_SHA384, TLS_ECDHE_RSA_WITH_AES_256_GCM_SHA384,
       TLS_ECDHE_ECDSA_WITH_CHACHA20_POLY1305, TLS_ECDHE_RSA_WITH_CHACHA20_POLY1305,
       TLS_ECDHE_RSA_WITH_AES_128_CBC_SHA, TLS_ECDHE_RSA_WITH_AES_256_CBC_SHA, TLS_RSA_WITH_AES_128_GCM_SHA256,
       TLS_RSA_WITH_AES_256_GCM_SHA384, TLS_RSA_WITH_AES_128_CBC_SHA, TLS_RSA_WITH_AES_256_CBC_SHA,
       TLS_RSA_WITH_3DES_EDE_CBC_SHA],
     CompressionMethods = [0x0],
     Extensions = [
       UtlsGREASEExtension 0 [],
       SNIExtension [],
       ExtendedMasterSecretExtension,
       RenegotiationInfoExtension RenegotiateOnceAsClient [],
       SupportedCurvesExtension [GREASE_PLACEHOLDER, X25519, CurveP256, CurveP384],
       SupportedPointsExtension [0x0],
       SessionTicketExtension None [] False,
       ALPNExtension [ascii ''h2'', ascii ''http/1.1''],
       StatusRequestExtension,
       SignatureAlgorithmsExtension [ECDSAWithP256AndSHA256, PSSWithSHA256, PKCS1WithSHA256, ECDSAWithP384AndSHA384, PSSWithSHA384,
         PKCS1WithSHA384, PSSWithSHA512, PKCS1WithSHA512, PKCS1WithSHA1],
       SCTExtension,
       FakeChannelIDExtension False,
       KeyShareExtension [\<lparr>ks_group = GREASE_PLACEHOLDER, ks_data = [0]\<rparr>,
         \<lparr>ks_group = X25519, ks_data = []\<rparr>],
       PSKKeyExchangeModesExtension [PskModeDHE],
       SupportedVersionsExtension [GREASE_PLACEHOLDER, VersionTLS13, VersionTLS12, VersionTLS11, VersionTLS10],
       UtlsCompressCertExtension [CertCompressionBrotli],
       UtlsGREASEExtension 0 [],
       UtlsPaddingExtension 0 False (Some BoringPaddingStyle)],
     TLSVersMin = VersionTLS10, TLSVersMax = VersionTLS13,
     GetSessionID = None, GREASESeed = replicate 8 0\<rparr>"

definition spec_QQ_11_1 :: "ClientHelloSpec" where
  "spec_QQ_11_1 = \<lparr>
     CipherSuites = [GREASE_PLACEHOLDER, TLS_AES_128_GCM_SHA256, TLS_AES_256_GCM_SHA384, TLS_CHACHA20_POLY1305_SHA256,
       TLS_ECDHE_ECDSA_WITH_AES_128_GCM_SHA256, TLS_ECDHE_RSA_WITH_AES_128_GCM_SHA256,
       TLS_ECDHE_ECDSA_WITH_AES_256_GCM_SHA384, TLS_ECDHE_RSA_WITH_AES_256_GCM_SHA384,
       TLS_ECDHE_ECDSA_WITH_CHACHA20_POLY1305, TLS_ECDHE_RSA_WITH_CHACHA20_POLY1305,
       TLS_ECDHE_RSA_WITH_AES_128_CBC_SHA, TLS_ECDHE_RSA_WITH_AES_256_CBC_SHA, TLS_RSA_WITH_AES_128_GCM_SHA256,
       TLS_RSA_WITH_AES_256_GCM_SHA384, TLS_RSA_WITH_AES_128_CBC_SHA, TLS_RSA_WITH_AES_256_CBC_SHA],
     CompressionMethods = [0x0],
     Extensions = [
       UtlsGREASEExtension 0 [],
       SNIExtension [],
       ExtendedMasterSecretExtension,
       RenegotiationInfoExtension RenegotiateOnceAsClient [],
       SupportedCurvesExtension [GREASE_PLACEHOLDER, X25519, CurveP256, CurveP384],
       SupportedPointsExtension [0x0],
       SessionTicketExtension None [] False,
       ALPNExtension [ascii ''h2'', ascii ''http/1.1''],
       StatusRequestExtension,
       SignatureAlgorithmsExtension [ECDSAWithP256AndSHA256, PSSWithSHA256, PKCS1WithSHA256, ECDSAWithP384AndSHA384, PSSWithSHA384,
         PKCS1WithSHA384, PSSWithSHA512, PKCS1WithSHA512],
       SCTExtension,
       KeyShareExtension [\<lparr>ks_group = GREASE_PLACEHOLDER, ks_data = [0]\<rparr>,
         \<lparr>ks_group = X25519, ks_data = []\<rparr>],
       PSKKeyExchangeModesExtension [PskModeDHE],
       SupportedVersionsExtension [GREASE_PLACEHOLDER, VersionTLS13, VersionTLS12, VersionTLS11, VersionTLS10],
       UtlsCompressCertExtension [CertCompressionBrotli],
       ApplicationSettingsExtension [ascii ''h2''],
       UtlsGREASEExtension 0 [],
       UtlsPaddingExtension 0 False (Some BoringPaddingStyle)],
     TLSVersMin = VersionTLS10, TLSVersMax = VersionTLS13,
     GetSessionID = None, GREASESeed = replicate 8 0\<rparr>"


section \<open>Their shape\<close>

lemma spec_Firefox_55_ok: "shape_ok spec_Firefox_55"
  by (simp add: shape_simps spec_Firefox_55_def)

lemma spec_Firefox_63_ok: "shape_ok spec_Firefox_63"
  by (simp add: shape_simps spec_Firefox_63_def)

lemma spec_Firefox_99_ok: "shape_ok spec_Firefox_99"
  by (simp add: shape_simps spec_Firefox_99_def)

lemma spec_Firefox_105_ok: "shape_ok spec_Firefox_105"
  by (simp add: shape_simps spec_Firefox_105_def)

lemma spec_Firefox_120_ok: "shape_ok spec_Firefox_120"
  by (simp add: shape_simps spec_Firefox_120_def)

lemma spec_IOS_11_1_ok: "shape_ok spec_IOS_11_1"
  by (simp add: shape_simps spec_IOS_11_1_def)

lemma spec_IOS_12_1_ok: "shape_ok spec_IOS_12_1"
  by (simp add: shape_simps spec_IOS_12_1_def)

lemma spec_IOS_13_ok: "shape_ok spec_IOS_13"
  by (simp add: shape_simps spec_IOS_13_def)

lemma spec_IOS_14_ok: "shape_ok spec_IOS_14"
  by (simp add: shape_simps spec_IOS_14_def)

lemma spec_Android_11_OkHttp_ok: "shape_ok spec_Android_11_OkHttp"
  by (simp add: shape_simps spec_Android_11_OkHttp_def)

lemma spec_Edge_85_ok: "shape_ok spec_Edge_85"
  by (simp add: shape_simps spec_Edge_85_def)

lemma spec_Edge_106_ok: "shape_ok spec_Edge_106"
  by (simp add: shape_simps spec_Edge_106_def)

lemma spec_Safari_16_0_ok: "shape_ok spec_Safari_16_0"
  by (simp add: shape_simps spec_Safari_16_0_def)

lemma spec_Safari_18_ok: "shape_ok spec_Safari_18"
  by (simp add: shape_simps spec_Safari_18_def)

lemma spec_IOS_18_QUIC_ok: "shape_ok spec_IOS_18_QUIC"
  by (simp add: shape_simps spec_IOS_18_QUIC_def)

lemma spec_360_7_5_ok: "shape_ok spec_360_7_5"
  by (simp add: shape_simps spec_360_7_5_def)

lemma spec_360_11_0_ok: "shape_ok spec_360_11_0"
  by (simp add: shape_simps spec_360_11_0_def)

lemma spec_QQ_11_1_ok: "shape_ok spec_QQ_11_1"
  by (simp add: shape_simps spec_QQ_11_1_def)

text \<open>
  The literal of Firefox 102 sets the range from TLS 1.0 on, while its hello offers TLS 1.2 and 1.3 only.
\<close>

lemma spec_Firefox_102_ok: "spec_wf spec_Firefox_102 \<and> groups_offered (Extensions spec_Firefox_102) \<and> \<not> versions_match spec_Firefox_102"
  by (simp add: shape_simps spec_Firefox_102_def)


end
