(* ===== verification/Parrots.thy ===== *)
theory Parrots
  imports Parrots_Chrome Parrots_Others
begin

text \<open>
  The choice of a specification by its identifier (u_parrots.go): \<open>utlsIdToSpec\<close>, with the table of
  its cases, \<open>UTLSIdToSpecWithSeed\<close> and \<open>permutesExtensions\<close>. Every specification that is returned is
  accepted by the connection, whatever the shuffles and the generator draw, and the order of a parrot
  that is not Chromium does not depend on them at all.
\<close>

section \<open>Identifiers\<close>

definition hello_id :: "string \<Rightarrow> string \<Rightarrow> ClientHelloID" where
  "hello_id client version = \<lparr>Client = client, Version = version, Seed = None, idWeights = None\<rparr>"

abbreviation (input) HelloFirefox_55 :: ClientHelloID where "HelloFirefox_55 \<equiv> hello_id helloFirefox ''55''"
abbreviation (input) HelloFirefox_56 :: ClientHelloID where "HelloFirefox_56 \<equiv> hello_id helloFirefox ''56''"
abbreviation (input) HelloFirefox_63 :: ClientHelloID where "HelloFirefox_63 \<equiv> hello_id helloFirefox ''63''"
abbreviation (input) HelloFirefox_65 :: ClientHelloID where "HelloFirefox_65 \<equiv> hello_id helloFirefox ''65''"
abbreviation (input) HelloFirefox_99 :: ClientHelloID where "HelloFirefox_99 \<equiv> hello_id helloFirefox ''99''"
abbreviation (input) HelloFirefox_102 :: ClientHelloID where "HelloFirefox_102 \<equiv> hello_id helloFirefox ''102''"
abbreviation (input) HelloFirefox_105 :: ClientHelloID where "HelloFirefox_105 \<equiv> hello_id helloFirefox ''105''"
abbreviation (input) HelloFirefox_120 :: ClientHelloID where "HelloFirefox_120 \<equiv> hello_id helloFirefox ''120''"
abbreviation (input) HelloChrome_58 :: ClientHelloID where "HelloChrome_58 \<equiv> hello_id helloChrome ''58''"
abbreviation (input) HelloChrome_62 :: ClientHelloID where "HelloChrome_62 \<equiv> hello_id helloChrome ''62''"
abbreviation (input) HelloChrome_70 :: ClientHelloID where "HelloChrome_70 \<equiv> hello_id helloChrome ''70''"
abbreviation (input) HelloChrome_72 :: ClientHelloID where "HelloChrome_72 \<equiv> hello_id helloChrome ''72''"
abbreviation (input) HelloChrome_83 :: ClientHelloID where "HelloChrome_83 \<equiv> hello_id helloChrome ''83''"
abbreviation (input) HelloChrome_87 :: ClientHelloID where "HelloChrome_87 \<equiv> hello_id helloChrome ''87''"
abbreviation (input) HelloChrome_96 :: ClientHelloID where "HelloChrome_96 \<equiv> hello_id helloChrome ''96''"
abbreviation (input) HelloChrome_100 :: ClientHelloID where "HelloChrome_100 \<equiv> hello_id helloChrome ''100''"
abbreviation (input) HelloChrome_102 :: ClientHelloID where "HelloChrome_102 \<equiv> hello_id helloChrome ''102''"
abbreviation (input) HelloChrome_106_Shuffle :: ClientHelloID where "HelloChrome_106_Shuffle \<equiv> hello_id helloChrome ''106''"
abbreviation (input) HelloChrome_100_PSK :: ClientHelloID where "HelloChrome_100_PSK \<equiv> hello_id helloChrome ''100_PSK''"
abbreviation (input) HelloChrome_112_PSK_Shuf :: ClientHelloID where "HelloChrome_112_PSK_Shuf \<equiv> hello_id helloChrome ''112_PSK''"
abbreviation (input) HelloChrome_114_Padding_PSK_Shuf :: ClientHelloID where "HelloChrome_114_Padding_PSK_Shuf \<equiv> hello_id helloChrome ''114_PSK''"
abbreviation (input) HelloChrome_115_PQ :: ClientHelloID where "HelloChrome_115_PQ \<equiv> hello_id helloChrome ''115_PQ''"
abbreviation (input) HelloChrome_115_PQ_PSK :: ClientHelloID where "HelloChrome_115_PQ_PSK \<equiv> hello_id helloChrome ''115_PQ_PSK''"
abbreviation (input) HelloChrome_120 :: ClientHelloID where "HelloChrome_120 \<equiv> hello_id helloChrome ''120''"
abbreviation (input) HelloChrome_120_PQ :: ClientHelloID where "HelloChrome_120_PQ \<equiv> hello_id helloChrome ''120_PQ''"
abbreviation (input) HelloChrome_131 :: ClientHelloID where "HelloChrome_131 \<equiv> hello_id helloChrome ''131''"
abbreviation (input) HelloChrome_133 :: ClientHelloID where "HelloChrome_133 \<equiv> hello_id helloChrome ''133''"
abbreviation (input) HelloChrome_143_Windows :: ClientHelloID where "HelloChrome_143_Windows \<equiv> hello_id helloChrome ''143_Windows''"
abbreviation (input) HelloChrome_143_Linux :: ClientHelloID where "HelloChrome_143_Linux \<equiv> hello_id helloChrome ''143_Linux''"
abbreviation (input) HelloChrome_143_macOS :: ClientHelloID where "HelloChrome_143_macOS \<equiv> hello_id helloChrome ''143_macOS''"
abbreviation (input) HelloChrome_143_QUIC :: ClientHelloID where "HelloChrome_143_QUIC \<equiv> hello_id helloChrome ''143_QUIC''"
abbreviation (input) HelloChrome_133_PSK :: ClientHelloID where "HelloChrome_133_PSK \<equiv> hello_id helloChrome ''133_PSK''"
abbreviation (input) HelloChrome_143_Windows_PSK :: ClientHelloID where "HelloChrome_143_Windows_PSK \<equiv> hello_id helloChrome ''143_Windows_PSK''"
abbreviation (input) HelloChrome_143_Linux_PSK :: ClientHelloID where "HelloChrome_143_Linux_PSK \<equiv> hello_id helloChrome ''143_Linux_PSK''"
abbreviation (input) HelloChrome_143_macOS_PSK :: ClientHelloID where "HelloChrome_143_macOS_PSK \<equiv> hello_id helloChrome ''143_macOS_PSK''"
abbreviation (input) HelloChrome_143_QUIC_PSK :: ClientHelloID where "HelloChrome_143_QUIC_PSK \<equiv> hello_id helloChrome ''143_QUIC_PSK''"
abbreviation (input) HelloChrome_144_Windows :: ClientHelloID where "HelloChrome_144_Windows \<equiv> hello_id helloChrome ''144_Windows''"
abbreviation (input) HelloChrome_144_Linux :: ClientHelloID where "HelloChrome_144_Linux \<equiv> hello_id helloChrome ''144_Linux''"
abbreviation (input) HelloChrome_144_macOS :: ClientHelloID where "HelloChrome_144_macOS \<equiv> hello_id helloChrome ''144_macOS''"
abbreviation (input) HelloChrome_144_QUIC :: ClientHelloID where "HelloChrome_144_QUIC \<equiv> hello_id helloChrome ''144_QUIC''"
abbreviation (input) HelloChrome_144_Windows_PSK :: ClientHelloID where "HelloChrome_144_Windows_PSK \<equiv> hello_id helloChrome ''144_Windows_PSK''"
abbreviation (input) HelloChrome_144_Linux_PSK :: ClientHelloID where "HelloChrome_144_Linux_PSK \<equiv> hello_id helloChrome ''144_Linux_PSK''"
abbreviation (input) HelloChrome_144_macOS_PSK :: ClientHelloID where "HelloChrome_144_macOS_PSK \<equiv> hello_id helloChrome ''144_macOS_PSK''"
abbreviation (input) HelloChrome_144_QUIC_PSK :: ClientHelloID where "HelloChrome_144_QUIC_PSK \<equiv> hello_id helloChrome ''144_QUIC_PSK''"
abbreviation (input) HelloChrome_145_Windows :: ClientHelloID where "HelloChrome_145_Windows \<equiv> hello_id helloChrome ''145_Windows''"
abbreviation (input) HelloChrome_145_Linux :: ClientHelloID where "HelloChrome_145_Linux \<equiv> hello_id helloChrome ''145_Linux''"
abbreviation (input) HelloChrome_145_macOS :: ClientHelloID where "HelloChrome_145_macOS \<equiv> hello_id helloChrome ''145_macOS''"
abbreviation (input) HelloChrome_145_QUIC :: ClientHelloID where "HelloChrome_145_QUIC \<equiv> hello_id helloChrome ''145_QUIC''"
abbreviation (input) HelloChrome_145_Windows_PSK :: ClientHelloID where "HelloChrome_145_Windows_PSK \<equiv> hello_id helloChrome ''145_Windows_PSK''"
abbreviation (input) HelloChrome_145_Linux_PSK :: ClientHelloID where "HelloChrome_145_Linux_PSK \<equiv> hello_id helloChrome ''145_Linux_PSK''"
abbreviation (input) HelloChrome_145_macOS_PSK :: ClientHelloID where "HelloChrome_145_macOS_PSK \<equiv> hello_id helloChrome ''145_macOS_PSK''"
abbreviation (input) HelloChrome_145_QUIC_PSK :: ClientHelloID where "HelloChrome_145_QUIC_PSK \<equiv> hello_id helloChrome ''145_QUIC_PSK''"
abbreviation (input) HelloChrome_146_Windows :: ClientHelloID where "HelloChrome_146_Windows \<equiv> hello_id helloChrome ''146_Windows''"
abbreviation (input) HelloChrome_146_Linux :: ClientHelloID where "HelloChrome_146_Linux \<equiv> hello_id helloChrome ''146_Linux''"
abbreviation (input) HelloChrome_146_macOS :: ClientHelloID where "HelloChrome_146_macOS \<equiv> hello_id helloChrome ''146_macOS''"
abbreviation (input) HelloChrome_146_QUIC :: ClientHelloID where "HelloChrome_146_QUIC \<equiv> hello_id helloChrome ''146_QUIC''"
abbreviation (input) HelloChrome_146_Windows_PSK :: ClientHelloID where "HelloChrome_146_Windows_PSK \<equiv> hello_id helloChrome ''146_Windows_PSK''"
abbreviation (input) HelloChrome_146_Linux_PSK :: ClientHelloID where "HelloChrome_146_Linux_PSK \<equiv> hello_id helloChrome ''146_Linux_PSK''"
abbreviation (input) HelloChrome_146_macOS_PSK :: ClientHelloID where "HelloChrome_146_macOS_PSK \<equiv> hello_id helloChrome ''146_macOS_PSK''"
abbreviation (input) HelloChrome_146_QUIC_PSK :: ClientHelloID where "HelloChrome_146_QUIC_PSK \<equiv> hello_id helloChrome ''146_QUIC_PSK''"
abbreviation (input) HelloIOS_11_1 :: ClientHelloID where "HelloIOS_11_1 \<equiv> hello_id helloIOS ''111''"
abbreviation (input) HelloIOS_12_1 :: ClientHelloID where "HelloIOS_12_1 \<equiv> hello_id helloIOS ''12.1''"
abbreviation (input) HelloIOS_13 :: ClientHelloID where "HelloIOS_13 \<equiv> hello_id helloIOS ''13''"
abbreviation (input) HelloIOS_14 :: ClientHelloID where "HelloIOS_14 \<equiv> hello_id helloIOS ''14''"
abbreviation (input) HelloIOS_18 :: ClientHelloID where "HelloIOS_18 \<equiv> hello_id helloIOS ''18''"
abbreviation (input) HelloIOS_18_QUIC :: ClientHelloID where "HelloIOS_18_QUIC \<equiv> hello_id helloIOS ''18_QUIC''"
abbreviation (input) HelloAndroid_11_OkHttp :: ClientHelloID where "HelloAndroid_11_OkHttp \<equiv> hello_id helloAndroid ''11''"
abbreviation (input) HelloEdge_85 :: ClientHelloID where "HelloEdge_85 \<equiv> hello_id helloEdge ''85''"
abbreviation (input) HelloEdge_106 :: ClientHelloID where "HelloEdge_106 \<equiv> hello_id helloEdge ''106''"
abbreviation (input) HelloSafari_16_0 :: ClientHelloID where "HelloSafari_16_0 \<equiv> hello_id helloSafari ''16.0''"
abbreviation (input) HelloSafari_18 :: ClientHelloID where "HelloSafari_18 \<equiv> hello_id helloSafari ''18''"
abbreviation (input) Hello360_7_5 :: ClientHelloID where "Hello360_7_5 \<equiv> hello_id hello360 ''7.5''"
abbreviation (input) Hello360_11_0 :: ClientHelloID where "Hello360_11_0 \<equiv> hello_id hello360 ''11.0''"
abbreviation (input) HelloQQ_11_1 :: ClientHelloID where "HelloQQ_11_1 \<equiv> hello_id helloQQ ''11.1''"


section \<open>The switch\<close>

text \<open>
  A case returns a literal, which may call the shuffle, or the result for another identifier. The
  cases are in the order of the source, where an alias always names an earlier case.
\<close>

datatype preset = Literal "(TLSExtension list \<Rightarrow> TLSExtension list) \<Rightarrow> ClientHelloSpec" | Alias ClientHelloID

definition preset_cases :: "(ClientHelloID list \<times> preset) list" where
  "preset_cases = [
     ([HelloChrome_58, HelloChrome_62], Literal (\<lambda>_. spec_Chrome_58)),
     ([HelloChrome_70], Literal (\<lambda>_. spec_Chrome_70)),
     ([HelloChrome_72], Literal (\<lambda>_. spec_Chrome_72)),
     ([HelloChrome_83], Literal (\<lambda>_. spec_Chrome_83)),
     ([HelloChrome_87], Literal (\<lambda>_. spec_Chrome_87)),
     ([HelloChrome_96], Literal (\<lambda>_. spec_Chrome_96)),
     ([HelloChrome_100, HelloChrome_102], Literal (\<lambda>_. spec_Chrome_100)),
     ([HelloChrome_106_Shuffle], Literal spec_Chrome_106_Shuffle),
     ([HelloChrome_115_PQ], Literal spec_Chrome_115_PQ),
     ([HelloChrome_120], Literal spec_Chrome_120),
     ([HelloChrome_120_PQ], Literal spec_Chrome_120_PQ),
     ([HelloChrome_131], Literal spec_Chrome_131),
     ([HelloChrome_133], Literal spec_Chrome_133),
     ([HelloChrome_143_Windows], Literal spec_Chrome_143_Windows),
     ([HelloChrome_143_Linux], Literal spec_Chrome_143_Linux),
     ([HelloChrome_143_macOS], Literal spec_Chrome_143_macOS),
     ([HelloChrome_143_QUIC], Literal (\<lambda>_. spec_Chrome_143_QUIC)),
     ([HelloChrome_133_PSK], Literal spec_Chrome_133_PSK),
     ([HelloChrome_143_Windows_PSK], Literal spec_Chrome_143_Windows_PSK),
     ([HelloChrome_143_Linux_PSK], Literal spec_Chrome_143_Linux_PSK),
     ([HelloChrome_143_macOS_PSK], Literal spec_Chrome_143_macOS_PSK),
     ([HelloChrome_143_QUIC_PSK], Literal spec_Chrome_143_QUIC_PSK),
     ([HelloChrome_144_Windows], Alias HelloChrome_143_Windows),
     ([HelloChrome_144_Linux], Alias HelloChrome_143_Linux),
     ([HelloChrome_144_macOS], Alias HelloChrome_143_macOS),
     ([HelloChrome_144_QUIC], Alias HelloChrome_143_QUIC),
     ([HelloChrome_144_Windows_PSK], Alias HelloChrome_143_Windows_PSK),
     ([HelloChrome_144_Linux_PSK], Alias HelloChrome_143_Linux_PSK),
     ([HelloChrome_144_macOS_PSK], Alias HelloChrome_143_macOS_PSK),
     ([HelloChrome_144_QUIC_PSK], Alias HelloChrome_143_QUIC_PSK),
     ([HelloChrome_145_Windows], Alias HelloChrome_144_Windows),
     ([HelloChrome_145_Linux], Alias HelloChrome_144_Linux),
     ([HelloChrome_145_macOS], Alias HelloChrome_144_macOS),
     ([HelloChrome_145_QUIC], Alias HelloChrome_144_QUIC),
     ([HelloChrome_145_Windows_PSK], Alias HelloChrome_144_Windows_PSK),
     ([HelloChrome_145_Linux_PSK], Alias HelloChrome_144_Linux_PSK),
     ([HelloChrome_145_macOS_PSK], Alias HelloChrome_144_macOS_PSK),
     ([HelloChrome_145_QUIC_PSK], Alias HelloChrome_144_QUIC_PSK),
     ([HelloChrome_146_Windows], Alias HelloChrome_145_Windows),
     ([HelloChrome_146_Linux], Alias HelloChrome_145_Linux),
     ([HelloChrome_146_macOS], Alias HelloChrome_145_macOS),
     ([HelloChrome_146_QUIC], Alias HelloChrome_145_QUIC),
     ([HelloChrome_146_Windows_PSK], Alias HelloChrome_145_Windows_PSK),
     ([HelloChrome_146_Linux_PSK], Alias HelloChrome_145_Linux_PSK),
     ([HelloChrome_146_macOS_PSK], Alias HelloChrome_145_macOS_PSK),
     ([HelloChrome_146_QUIC_PSK], Alias HelloChrome_145_QUIC_PSK),
     ([HelloFirefox_55, HelloFirefox_56], Literal (\<lambda>_. spec_Firefox_55)),
     ([HelloFirefox_63, HelloFirefox_65], Literal (\<lambda>_. spec_Firefox_63)),
     ([HelloFirefox_99], Literal (\<lambda>_. spec_Firefox_99)),
     ([HelloFirefox_102], Literal (\<lambda>_. spec_Firefox_102)),
     ([HelloFirefox_105], Literal (\<lambda>_. spec_Firefox_105)),
     ([HelloFirefox_120], Literal (\<lambda>_. spec_Firefox_120)),
     ([HelloIOS_11_1], Literal (\<lambda>_. spec_IOS_11_1)),
     ([HelloIOS_12_1], Literal (\<lambda>_. spec_IOS_12_1)),
     ([HelloIOS_13], Literal (\<lambda>_. spec_IOS_13)),
     ([HelloIOS_14], Literal (\<lambda>_. spec_IOS_14)),
     ([HelloAndroid_11_OkHttp], Literal (\<lambda>_. spec_Android_11_OkHttp)),
     ([HelloEdge_85], Literal (\<lambda>_. spec_Edge_85)),
     ([HelloEdge_106], Literal (\<lambda>_. spec_Edge_106)),
     ([HelloSafari_16_0], Literal (\<lambda>_. spec_Safari_16_0)),
     ([HelloSafari_18], Literal (\<lambda>_. spec_Safari_18)),
     ([HelloIOS_18], Alias HelloSafari_18),
     ([HelloIOS_18_QUIC], Literal (\<lambda>_. spec_IOS_18_QUIC)),
     ([Hello360_7_5], Literal (\<lambda>_. spec_360_7_5)),
     ([Hello360_11_0], Literal (\<lambda>_. spec_360_11_0)),
     ([HelloQQ_11_1], Literal (\<lambda>_. spec_QQ_11_1)),
     ([HelloChrome_100_PSK], Literal (\<lambda>_. spec_Chrome_100_PSK)),
     ([HelloChrome_112_PSK_Shuf], Literal spec_Chrome_112_PSK_Shuf),
     ([HelloChrome_114_Padding_PSK_Shuf], Literal spec_Chrome_114_Padding_PSK_Shuf),
     ([HelloChrome_115_PQ_PSK], Literal spec_Chrome_115_PQ_PSK)]"


definition find_case :: "ClientHelloID \<Rightarrow> preset option" where
  "find_case ident = map_option snd (find (\<lambda>(ids, _). ident \<in> set ids) preset_cases)"

text \<open>Aliases go from version to version: a rank that decreases along them.\<close>

definition alias_rank :: "ClientHelloID \<Rightarrow> nat" where
  "alias_rank ident =
     (if take 3 (Version ident) = ''146'' then 3 else if take 3 (Version ident) = ''145'' then 2
      else if take 3 (Version ident) = ''144'' then 1 else if Client ident = helloIOS then 1 else 0)"

lemma aliases_descend:
  "list_all (\<lambda>(ids, c). case c of Alias ident' \<Rightarrow> list_all (\<lambda>ident. alias_rank ident' < alias_rank ident) ids | _ \<Rightarrow> True) preset_cases"
  by (simp add: preset_cases_def hello_id_def alias_rank_def)

lemma find_case_Some: "find_case ident = Some c \<Longrightarrow> \<exists>ids. (ids, c) \<in> set preset_cases \<and> ident \<in> set ids"
  by (auto simp: find_case_def find_Some_iff dest!: nth_mem) 

lemma alias_descends: "find_case ident = Some (Alias ident') \<Longrightarrow> alias_rank ident' < alias_rank ident"
  using aliases_descend find_case_Some [of ident] by (fastforce simp: list_all_iff)

text \<open>What a call draws from: the generators of the shuffle, and the pseudo-random generator of randomized hellos.\<close>

record 'p parrot_env =
  e_global :: "nat \<Rightarrow> nat list"
  e_source :: "int \<Rightarrow> nat \<Rightarrow> nat list"
  e_rand :: rand_source
  e_prng :: "'p prng_api"

definition is_randomized :: "ClientHelloID \<Rightarrow> bool" where
  "is_randomized ident \<longleftrightarrow> Client ident = helloRandomized \<or> Client ident = helloRandomizedALPN \<or> Client ident = helloRandomizedNoALPN"

function utlsIdToSpec :: "'p parrot_env \<Rightarrow> ClientHelloID \<Rightarrow> gerror + ClientHelloSpec" where
  "utlsIdToSpec env ident = (case find_case ident of
     Some (Literal spec) \<Rightarrow> Inr (spec (\<lambda>exts. fst (ShuffleChromeTLSExtensions (e_global env) (e_source env) exts (e_rand env))))
   | Some (Alias ident') \<Rightarrow> utlsIdToSpec env ident'
   | None \<Rightarrow> if is_randomized ident then snd (generateRandomizedSpec (e_prng env) ident [] [])
             else Inl (Errorf ''tls: unknown ClientHelloID''))"
  by pat_completeness auto

termination utlsIdToSpec
  by (relation "measure (\<lambda>(env, ident). alias_rank ident)") (auto dest: alias_descends)

declare utlsIdToSpec.simps [simp del]

definition permutesExtensions :: "ClientHelloID \<Rightarrow> bool" where
  "permutesExtensions ident =
     (if Client ident \<in> {helloChrome, helloEdge, hello360, helloQQ} then True
      else if Client ident \<in> {helloRandomized, helloRandomizedALPN, helloRandomizedNoALPN} then True
      else if Client ident \<in> {helloFirefox, helloSafari, helloIOS, helloAndroid, helloGolang} then False
      else True)"

definition UTLSIdToSpecWithSeed :: "'p parrot_env \<Rightarrow> ClientHelloID \<Rightarrow> int \<Rightarrow> gerror + ClientHelloSpec" where
  "UTLSIdToSpecWithSeed env ident seed = (case utlsIdToSpec env ident of
     Inl err \<Rightarrow> Inl err
   | Inr spec \<Rightarrow> Inr (if permutesExtensions ident
       then spec\<lparr>Extensions := ShuffleChromeTLSExtensionsWithSeed (e_source env) (Extensions spec) seed\<rparr> else spec))"


section \<open>Every preset has the shape\<close>

text \<open>What holds of the specification of an identifier.\<close>

definition accepted :: "ClientHelloID \<Rightarrow> ClientHelloSpec \<Rightarrow> bool" where
  "accepted ident p \<longleftrightarrow> spec_wf p \<and> (is_randomized ident \<or> groups_offered (Extensions p)) \<and>
     (ident = HelloFirefox_102 \<or> versions_match p)"

lemma accepted_reorder:
  assumes "es' \<in> reorderings (Extensions p)" "accepted ident p"
  shows "accepted ident (p\<lparr>Extensions := es'\<rparr>)"
  using assms spec_wf_reorder [OF assms(1)] shape_reorder(2) [OF reorderings_mset [OF assms(1)]]
    groups_offered_reorder [OF reorderings_mset [OF assms(1)]]
  by (auto simp: accepted_def spec_wf_def exts_wf_def)

lemma shape_ok_accepted: "shape_ok p \<Longrightarrow> accepted ident p"
  by (simp add: accepted_def shape_ok_def)

lemmas parrot_shapes =
  spec_Chrome_58_ok spec_Chrome_70_ok spec_Chrome_72_ok spec_Chrome_83_ok spec_Chrome_87_ok spec_Chrome_96_ok
  spec_Chrome_100_ok spec_Chrome_106_Shuffle_ok spec_Chrome_115_PQ_ok spec_Chrome_120_ok spec_Chrome_120_PQ_ok
  spec_Chrome_131_ok spec_Chrome_133_ok spec_Chrome_143_Windows_ok spec_Chrome_143_Linux_ok
  spec_Chrome_143_macOS_ok spec_Chrome_143_QUIC_ok spec_Chrome_133_PSK_ok spec_Chrome_143_Windows_PSK_ok
  spec_Chrome_143_Linux_PSK_ok spec_Chrome_143_macOS_PSK_ok spec_Chrome_143_QUIC_PSK_ok spec_Firefox_55_ok
  spec_Firefox_63_ok spec_Firefox_99_ok spec_Firefox_105_ok spec_Firefox_120_ok spec_IOS_11_1_ok
  spec_IOS_12_1_ok spec_IOS_13_ok spec_IOS_14_ok spec_Android_11_OkHttp_ok spec_Edge_85_ok spec_Edge_106_ok
  spec_Safari_16_0_ok spec_Safari_18_ok spec_IOS_18_QUIC_ok spec_360_7_5_ok spec_360_11_0_ok spec_QQ_11_1_ok
  spec_Chrome_100_PSK_ok spec_Chrome_112_PSK_Shuf_ok spec_Chrome_114_Padding_PSK_Shuf_ok
  spec_Chrome_115_PQ_PSK_ok

lemma literals_accepted:
  "list_all (\<lambda>(ids, c). case c of Literal spec \<Rightarrow> list_all (\<lambda>ident. accepted ident (spec (\<lambda>exts. exts))) ids
     | Alias ident' \<Rightarrow> ident' \<noteq> HelloFirefox_102 \<and> \<not> is_randomized ident') preset_cases"
proof -
  have "accepted HelloFirefox_102 spec_Firefox_102"
    using spec_Firefox_102_ok by (simp add: accepted_def)
  then show ?thesis
    by (simp add: preset_cases_def shape_ok_accepted parrot_shapes is_randomized_def) (simp add: hello_id_def)
qed

lemma literals_shuffle:
  "list_all (\<lambda>(ids, c). case c of Literal spec \<Rightarrow>
       (\<forall>shuffle. spec shuffle = spec (\<lambda>exts. exts)) \<or>
       (\<forall>shuffle. spec shuffle = (spec (\<lambda>exts. exts))\<lparr>Extensions := shuffle (Extensions (spec (\<lambda>exts. exts)))\<rparr>)
     | _ \<Rightarrow> True) preset_cases"
  unfolding preset_cases_def by (simp add: literal_shuffles [symmetric])

lemma list_all_mem: "list_all P xs \<Longrightarrow> x \<in> set xs \<Longrightarrow> P x"
  by (simp add: list_all_iff)

text \<open>The randomness of the standard library obeys its documentation.\<close>

definition env_laws :: "'p parrot_env \<Rightarrow> bool" where
  "env_laws env \<longleftrightarrow> (\<forall>n. draws_ok n (e_global env n)) \<and> (\<forall>seed n. draws_ok n (e_source env seed n)) \<and> prng_laws (e_prng env)"

lemma literal_accepted:
  assumes "env_laws env" "(ids, Literal spec) \<in> set preset_cases" "ident \<in> set ids"
  shows "accepted ident (spec (\<lambda>exts. fst (ShuffleChromeTLSExtensions (e_global env) (e_source env) exts (e_rand env))))"
    (is "accepted ident (spec ?shuffle)")
proof -
  have "list_all (\<lambda>ident. accepted ident (spec (\<lambda>exts. exts))) ids"
    using list_all_mem [OF literals_accepted assms(2)] by simp
  then have plain: "accepted ident (spec (\<lambda>exts. exts))"
    using assms(3) by (rule list_all_mem)
  have re: "?shuffle exts \<in> reorderings exts" for exts
    using assms(1) by (intro ShuffleChromeTLSExtensions_reorders) (simp_all add: env_laws_def)
  have "(\<forall>shuffle. spec shuffle = spec (\<lambda>exts. exts)) \<or>
       (\<forall>shuffle. spec shuffle = (spec (\<lambda>exts. exts))\<lparr>Extensions := shuffle (Extensions (spec (\<lambda>exts. exts)))\<rparr>)"
    using list_all_mem [OF literals_shuffle assms(2)] by simp
  then show ?thesis
  proof
    assume "\<forall>shuffle. spec shuffle = spec (\<lambda>exts. exts)"
    then have "spec ?shuffle = spec (\<lambda>exts. exts)" ..
    then show ?thesis
      using plain by simp
  next
    assume "\<forall>shuffle. spec shuffle = (spec (\<lambda>exts. exts))\<lparr>Extensions := shuffle (Extensions (spec (\<lambda>exts. exts)))\<rparr>"
    then have "spec ?shuffle = (spec (\<lambda>exts. exts))\<lparr>Extensions := ?shuffle (Extensions (spec (\<lambda>exts. exts)))\<rparr>" ..
    then show ?thesis
      using accepted_reorder [OF re plain] by simp
  qed
qed

lemma utlsIdToSpec_accepted:
  assumes "env_laws env"
  shows "utlsIdToSpec env ident = Inr p \<Longrightarrow> accepted ident p"
  using assms
proof (induction env ident rule: utlsIdToSpec.induct)
  case (1 env ident)
  note spec = "1.prems"(1) [unfolded utlsIdToSpec.simps [of env ident]]
  show ?case
  proof (cases "find_case ident")
    case None
    then have run: "is_randomized ident" "snd (generateRandomizedSpec (e_prng env) ident [] []) = Inr p"
      using spec by (auto split: if_splits)
    have "prng_laws (e_prng env)"
      using "1.prems"(2) by (simp add: env_laws_def)
    then show ?thesis
      using generateRandomizedSpec_ok [OF _ run(2)] run(1) by (simp add: accepted_def)
  next
    case (Some c)
    then obtain ids where ids: "(ids, c) \<in> set preset_cases" "ident \<in> set ids"
      using find_case_Some by blast
    show ?thesis
    proof (cases c)
      case (Literal f)
      then show ?thesis
        using literal_accepted [OF "1.prems"(2)] ids spec Some by auto
    next
      case (Alias ident')
      then have "accepted ident' p"
        using "1.IH" [OF Some, of ident'] spec Some "1.prems"(2) by simp
      moreover have "ident' \<noteq> HelloFirefox_102 \<and> \<not> is_randomized ident'"
        using list_all_mem [OF literals_accepted ids(1)] Alias by simp
      ultimately show ?thesis
        by (auto simp: accepted_def)
    qed
  qed
qed

text \<open>An environment whose shuffles keep the order and whose coins show tails.\<close>

definition plain_env :: "bool list parrot_env" where
  "plain_env = \<lparr>e_global = (\<lambda>n. rev [1..<n]), e_source = (\<lambda>_ n. rev [1..<n]), e_rand = \<lparr>r_ints = [], r_bytes = []\<rparr>,
     e_prng = scripted []\<rparr>"

lemma plain_env_laws: "env_laws plain_env"
  using draws_ok_rev scripted_laws by (simp add: env_laws_def plain_env_def)

lemma find_case_Chrome_58: "find_case HelloChrome_58 = Some (Literal (\<lambda>_. spec_Chrome_58))"
  by (simp add: find_case_def preset_cases_def)

text \<open>
  C4. Every specification that \<open>UTLSIdToSpecWithSeed\<close> returns is accepted by a connection, for every
  identifier, seed and outcome of the random draws: no extension type occurs twice, there are at most
  two GREASE extensions, pre_shared_key is last, the version range is supported, and the hello has
  versions, key shares, PSK modes and a TLS 1.3 suite exactly if the range reaches TLS 1.3. The key
  shares are for offered groups in the order of the groups, except for randomized hellos, and the range
  that the connection accepts is the one the hello offers, except for Firefox 102.
\<close>

theorem presets_are_accepted:
  assumes "env_laws env" and "UTLSIdToSpecWithSeed env ident seed = Inr p"
  shows "spec_wf p \<and> (is_randomized ident \<or> groups_offered (Extensions p)) \<and> (ident = HelloFirefox_102 \<or> versions_match p)"
proof -
  obtain q where q: "utlsIdToSpec env ident = Inr q"
    and p: "p = (if permutesExtensions ident then q\<lparr>Extensions := ShuffleChromeTLSExtensionsWithSeed (e_source env) (Extensions q) seed\<rparr> else q)"
    using assms(2) by (auto simp: UTLSIdToSpecWithSeed_def split: sum.splits)
  have "ShuffleChromeTLSExtensionsWithSeed (e_source env) (Extensions q) seed \<in> reorderings (Extensions q)"
    using assms(1) by (intro ShuffleChromeTLSExtensionsWithSeed_reorders) (simp add: env_laws_def)
  then have "accepted ident p"
    using utlsIdToSpec_accepted [OF assms(1) q] accepted_reorder p by simp
  then show ?thesis
    by (simp add: accepted_def)
qed

theorem presets_are_accepted_witness:
  "\<exists>p. UTLSIdToSpecWithSeed plain_env HelloChrome_58 7 = Inr p \<and> spec_wf p \<and> groups_offered (Extensions p)"
proof -
  obtain p where p: "UTLSIdToSpecWithSeed plain_env HelloChrome_58 7 = Inr p"
    by (simp add: UTLSIdToSpecWithSeed_def utlsIdToSpec.simps [of plain_env HelloChrome_58] find_case_Chrome_58)
  then show ?thesis
    using presets_are_accepted [OF plain_env_laws p] by (auto simp: is_randomized_def hello_id_def)
qed


section \<open>Parrots with a fixed order\<close>

definition fixed_order :: "ClientHelloID \<Rightarrow> bool" where
  "fixed_order ident \<longleftrightarrow> Client ident \<in> {helloFirefox, helloSafari, helloIOS, helloAndroid}"

lemma fixed_literals:
  "list_all (\<lambda>(ids, c). list_ex fixed_order ids \<longrightarrow> (case c of
     Literal spec \<Rightarrow> \<forall>shuffle. spec shuffle = spec (\<lambda>exts. exts) | Alias ident' \<Rightarrow> fixed_order ident')) preset_cases"
  by (simp add: preset_cases_def fixed_order_def hello_id_def)

lemma utlsIdToSpec_fixed: "fixed_order ident \<Longrightarrow> utlsIdToSpec env ident = utlsIdToSpec env' ident"
proof (induction env ident rule: utlsIdToSpec.induct)
  case (1 env ident)
  note simps = utlsIdToSpec.simps [of env ident] utlsIdToSpec.simps [of env' ident]
  show ?case
  proof (cases "find_case ident")
    case None
    then show ?thesis
      using "1.prems" by (auto simp: simps is_randomized_def fixed_order_def)
  next
    case (Some c)
    then obtain ids where ids: "(ids, c) \<in> set preset_cases" "ident \<in> set ids"
      using find_case_Some by blast
    then have "list_ex fixed_order ids"
      using "1.prems" by (auto simp: list_ex_iff)
    note fixed = list_all_mem [OF fixed_literals ids(1), simplified, rule_format, OF this]
    show ?thesis
    proof (cases c)
      case (Literal f)
      then have f: "f sh = f (\<lambda>exts. exts)" for sh
        using fixed by simp
      show ?thesis
        using Some Literal f [of "\<lambda>exts. fst (ShuffleChromeTLSExtensions (e_global env) (e_source env) exts (e_rand env))"]
          f [of "\<lambda>exts. fst (ShuffleChromeTLSExtensions (e_global env') (e_source env') exts (e_rand env'))"]
        by (simp add: simps)
    next
      case (Alias ident')
      then show ?thesis
        using "1.IH" [OF Some, of ident'] fixed Some by (simp add: simps)
    qed
  qed
qed

text \<open>
  C14. The parrots of Firefox, Safari, iOS and Android have one fixed fingerprint: what
  \<open>UTLSIdToSpecWithSeed\<close> returns for them does not depend on the seed or on any random draw.
\<close>

theorem fixed_parrots_do_not_vary:
  assumes "Client ident \<in> {''Firefox'', ''Safari'', ''iOS'', ''Android''}"
  shows "UTLSIdToSpecWithSeed env ident seed = UTLSIdToSpecWithSeed env' ident seed'"
proof -
  have "\<not> permutesExtensions ident"
    using assms by (auto simp: permutesExtensions_def)
  moreover have "utlsIdToSpec env ident = utlsIdToSpec env' ident"
    using assms by (intro utlsIdToSpec_fixed) (simp add: fixed_order_def)
  ultimately show ?thesis
    by (simp add: UTLSIdToSpecWithSeed_def split: sum.split)
qed

theorem fixed_parrots_do_not_vary_witness:
  "UTLSIdToSpecWithSeed plain_env HelloSafari_18 1 = UTLSIdToSpecWithSeed (plain_env\<lparr>e_global := (\<lambda>n. replicate (n - 1) 0)\<rparr>) HelloSafari_18 2"
  by (rule fixed_parrots_do_not_vary) (simp add: hello_id_def)

end
