(* ===== verification/Spec2Isabelle.thy ===== *)
theory Spec2Isabelle
  imports Session_Messages Certificate_Messages ServerHello ClientHello Hpke Ech Ech_Reconstruction
    Ech_Handshake Ech_Config Ech_Example Handshake_Dispatch Session_Cache Parrots
begin

text \<open>
  \<^bold>\<open>Verification of uTLS\<close>

  uTLS is a fork of crypto/tls of Go that lets a client choose the bytes of its ClientHello, so that it
  looks like a given browser. The program has these parts:

  \<^item> the codecs of the handshake messages (handshake_messages.go, u_handshake_messages.go), which
    parse with the package cryptobyte and build messages with it or in byte buffers;
  \<^item> Encrypted Client Hello (ech.go, with HPKE in internal/hpke): the client hides an inner hello in
    an extension of an outer one, the server decrypts it and rebuilds the inner hello;
  \<^item> the record layer and the connection (conn.go): records are protected, cut to size, written,
    read from a stream in pieces, and handshake messages are assembled from them;
  \<^item> the client session cache (common.go);
  \<^item> the layer of uTLS: extensions as objects that measure and write themselves
    (u_tls_extensions.go, u_pre_shared_key.go, u_session_ticket.go, u_ech.go, trust_anchors.go,
    u_quic_transport_parameters.go), specifications of hellos read from captured bytes (u_common.go)
    or taken from a table of browsers (u_parrots.go), and the connection that turns a specification
    into a hello (u_conn.go).

  \<^bold>\<open>Theories and the code they model\<close>

  \<^item> Prelude: machine integers as words, byte lists, big-endian numbers, errors as values, statement
    sequences over buffers (\<open>put\<close>, \<open>copy_at\<close>), and the loop over an unread rest as the locale
    \<open>item_loop\<close>, which is used for every list of items that a parser reads.
  \<^item> Cryptobyte: the package cryptobyte is not part of the repository. It is a record of operations,
    a parameter of every codec; the locale \<open>cryptobyte_laws\<close> states what its documentation promises,
    and \<open>cb_ref\<close> is an implementation that satisfies it (interpretation \<open>ref\<close>).
  \<^item> Handshake_Messages, Session_Messages, Certificate_Messages, ServerHello, ClientHello: one
    record per message struct, and \<open>X_marshal\<close> and \<open>X_unmarshal\<close> for its methods. The locale
    \<open>handshake_codec\<close> is the contract of the messages that are built in byte buffers, interpreted
    for each of them. A byte slice that the code distinguishes from nil is an option.
  \<^item> Hpke: internal/hpke, over a record of parameters for X25519, HKDF and AEADs with laws
    \<open>hpke_laws\<close>.
  \<^item> Ech, Ech_Reconstruction, Ech_Config, Ech_Handshake, Ech_Example: ech.go, and the functions of
    handshake_messages.go that compress and expand inner hellos; Ech_Example computes a handshake.
  \<^item> Record_Layer, Record_Protection: \<open>halfConn\<close> with \<open>encrypt\<close>, \<open>decrypt\<close>, \<open>extractPadding\<close>
    and the sequence number, over a record of ciphers.
  \<^item> Connection, Connection_Reading, Connection_Transfer: \<open>writeRecordLocked\<close>,
    \<open>readRecordOrCCS\<close>, alerts and handshake bytes. The state is the record \<open>conn\<close>; the transport is
    the list of the pieces that its reads return, and the bytes written.
  \<^item> Handshake_Dispatch: \<open>writeHandshakeRecord\<close>, \<open>readHandshake\<close>, and the choice of the parser.
  \<^item> Session_Cache: \<open>lruSessionCache\<close> with a list and a map that share elements.
  \<^item> Quic_Parameters: internal/quicvarint/varint.go and u_quic_transport_parameters.go. Randomness
    is a record of what the next calls return (\<open>rand_source\<close>).
  \<^item> Hostname, Tls_Extensions, Extension_Bytes: \<open>hostnameInSNI\<close>, and \<open>Len\<close> and \<open>Read\<close> of each
    \<open>TLSExtension\<close>, on the buffer of the caller.
  \<^item> Fingerprinting: the \<open>Write\<close> methods, \<open>ExtensionFromID\<close> and \<open>ClientHelloSpec.FromRaw\<close>.
  \<^item> UConn_Hello: \<open>MarshalClientHelloNoECH\<close> with \<open>bufio.Writer\<close>.
  \<^item> Extension_Shuffle: \<open>shufflePermutable\<close> and its callers, and the extensions of the hello that
    answers a HelloRetryRequest (handshake_client_tls13.go).
  \<^item> UConn_Config: \<open>writeToUConn\<close> of each extension, \<open>ApplyConfig\<close>, \<open>SetTLSVers\<close> and other setters.
  \<^item> Spec_Shape, Parrot_Random, Parrots_Chrome, Parrots_Others, Parrots: the shape that a
    specification must have, \<open>generateRandomizedSpec\<close> in the state monad, one definition per literal of
    \<open>utlsIdToSpec\<close>, and the switch over identifiers.

  \<^bold>\<open>What the theorems show\<close>

  \<^item> Codecs: parsing inverts serialising for the two hellos, session tickets, encrypted extensions and
    certificates; the binders of a ClientHello do not change the bytes they cover; slicing loops stay
    inside the message.
  \<^item> Encrypted Client Hello: the server that holds the key continues with the inner hello of the
    client; what it rebuilds is, byte for byte, what the client computed its binders over. Lists of
    configurations are parsed as encoded; the parser ends on inputs of up to 65537 bytes and not on a
    certain longer one; a picked configuration is usable. HPKE messages are opened in order, nonces do
    not repeat, and the number of messages is bounded.
  \<^item> Records: decryption inverts encryption for every kind of cipher, nonces do not repeat, the
    sequence number counts, and the padding check in constant time is that of the standard.
  \<^item> Connection: all bytes of a message arrive, for all sizes of records and pieces; a flight of
    messages is returned in order with the same transcript; reading a record does one of few things.
  \<^item> Cache: the list and the map refine a list in order of use, for every sequence of calls.
  \<^item> Extensions and hellos: \<open>Read\<close> writes \<open>Len\<close> bytes, type, length and body; a marshalled
    hello is well formed and is read back as the fingerprint it was made from; with BoringSSL padding
    it is never 256 to 511 bytes long; transport parameters are read back.
  \<^item> Parrots: the shuffle is uniform over the orders that keep pinned extensions in place; the cookie
    of a retry goes between the pinned runs; every specification of the table, and every randomized
    one, has the shape a connection accepts; parrots that are not Chromium do not vary.
  \<^item> Some theorems state what the code does against its intention, e.g. a key share for a group that
    a randomized hello does not offer, or an alert that is sent twice.

  \<^bold>\<open>Bounds and fuel\<close>

  Loops are structural recursion wherever the code consumes a list. Parsers with \<open>for !s.Empty()\<close> use
  the length of the rest as fuel, which is enough because every round reads at least one byte
  (Prelude). \<open>parseECHConfigs\<close> may run forever, and is therefore a partial function with option
  results; when it returns is a theorem. The loops of the connection have no fuel: writing ends because
  every record takes at least one byte, skipping useless records because their count is limited, and
  reading a message because every record takes at least five of the incoming bytes. \<open>utlsIdToSpec\<close> follows aliases, and
  terminates because they go from version to version. Lengths in hypotheses (such as \<open>hello_fits\<close>)
  are those of the length fields of the protocol.

  \<^bold>\<open>Not modelled\<close>

  \<^item> The handshakes of TLS 1.2 and 1.3 (handshake_client.go, handshake_server.go and their TLS 1.3
    counterparts, key_agreement.go, auth.go), except for the section of the retry named above: they
    drive certificate verification and key agreement of crypto packages over network I/O. With them,
    \<open>Handshake\<close>, \<open>Read\<close>, \<open>Write\<close> and \<open>Close\<close> of a connection, QUIC events (quic.go, u_quic.go)
    and \<open>ApplyPreset\<close>, which generates keys.
  \<^item> Key derivation (prf.go, key_schedule.go, internal/tls13): compositions of hash functions of
    crypto packages.
  \<^item> Config and tickets (common.go, ticket.go), with locks, certificates and JSON; the session
    controller (u_session_controller.go); u_public.go, which copies fields.
  \<^item> JSON forms of hellos (encoding/json), the certificate cache (finalizers), the SHAKE256 generator
    (a parameter of the randomized hello), tables of names (dicttls, alert.go) and examples.
  \<^item> Concurrency: locks serialise the calls that are modelled, and the models are of single calls.
\<close>

end
